(* ===== verification/JS_Prelude.thy ===== *)
theory JS_Prelude
  imports Complex_Main "HOL-Library.AList" "HOL-Library.Multiset" "HOL-Library.Signed_Division"
begin

text \<open>
  What the components share: the fragment of the language the sources use (thrown errors,
  \<open>bigint\<close> arithmetic, objects and \<open>Map\<close>s with insertion order, \<open>Array.prototype.sort\<close>) and
  the generic lemmas about it.

  \<^item> An exception is the left value of \<open>'a result\<close>; \<open>rbind\<close> is sequencing, \<open>rmap\<close> a
    loop that stops at the first throw.
  \<^item> A \<open>bigint\<close> is an \<^typ>\<open>int\<close>; its division truncates towards zero and throws on a
    zero divisor.
  \<^item> An object used as a dictionary and a \<open>Map\<close> are association lists in insertion order:
    \<^const>\<open>map_of\<close> reads, \<^const>\<open>AList.update\<close> writes in place or appends, as both do.
\<close>

named_theorems result_simps \<open>evaluation of the result type\<close>

section \<open>Thrown errors\<close>

text \<open>\<open>Thrown msg subject\<close> is \<open>new Error(msg)\<close>, with what the message interpolates as the
  subject; \<open>AssertionError\<close> is the one of \<open>assert\<close> of \<open>typescript/utils\<close>.\<close>

datatype js_error =
    TypeError
  | RangeError
  | SyntaxError
  | AssertionError string
  | Thrown string string

type_synonym 'a result = "js_error + 'a"

abbreviation throw :: "js_error \<Rightarrow> 'a result" where
  "throw e \<equiv> Inl e"

abbreviation ret :: "'a \<Rightarrow> 'a result" where
  "ret x \<equiv> Inr x"

definition rbind :: "'a result \<Rightarrow> ('a \<Rightarrow> 'b result) \<Rightarrow> 'b result" where
  "rbind m f = (case m of Inl e \<Rightarrow> Inl e | Inr x \<Rightarrow> f x)"

definition rassert :: "bool \<Rightarrow> string \<Rightarrow> unit result" where
  "rassert b msg = (if b then ret () else throw (AssertionError msg))"

fun rmap :: "('a \<Rightarrow> 'b result) \<Rightarrow> 'a list \<Rightarrow> 'b list result" where
  "rmap f [] = ret []"
| "rmap f (x # xs) = rbind (f x) (\<lambda>y. rbind (rmap f xs) (\<lambda>ys. ret (y # ys)))"

fun rfilter :: "('a \<Rightarrow> bool result) \<Rightarrow> 'a list \<Rightarrow> 'a list result" where
  "rfilter f [] = ret []"
| "rfilter f (x # xs) =
     rbind (f x) (\<lambda>b. rbind (rfilter f xs) (\<lambda>ys. ret (if b then x # ys else ys)))"

fun rfold :: "('s \<Rightarrow> 'a \<Rightarrow> 's result) \<Rightarrow> 's \<Rightarrow> 'a list \<Rightarrow> 's result" where
  "rfold f s [] = ret s"
| "rfold f s (x # xs) = rbind (f s x) (\<lambda>s'. rfold f s' xs)"

lemma rbind_simps [simp, result_simps]:
  "rbind (Inl e) f = Inl e"
  "rbind (Inr x) f = f x"
  by (simp_all add: rbind_def)

lemma rbind_eq_Inr_iff: "rbind m f = Inr y \<longleftrightarrow> (\<exists>x. m = Inr x \<and> f x = Inr y)"
  by (cases m) auto

lemma rbind_eq_Inl_iff:
  "rbind m f = Inl e \<longleftrightarrow> m = Inl e \<or> (\<exists>x. m = Inr x \<and> f x = Inl e)"
  by (cases m) auto

lemma rassert_eq_Inr_iff [simp]: "rassert b msg = Inr u \<longleftrightarrow> b"
  by (simp add: rassert_def)

lemma rassert_eq_Inl_iff [simp]: "rassert b msg = Inl e \<longleftrightarrow> \<not> b \<and> e = AssertionError msg"
  by (auto simp: rassert_def)

lemma rassert_True [simp]: "rassert True msg = Inr ()"
  by (simp add: rassert_def)

lemma rbind_assoc: "rbind (rbind m f) g = rbind m (\<lambda>x. rbind (f x) g)"
  by (cases m) simp_all

lemma rbind_rassert: "b \<Longrightarrow> rbind (rassert b msg) f = f ()"
  by (simp add: rassert_def)

lemma rmap_eq_Inr_iff: "rmap f xs = Inr ys \<longleftrightarrow> list_all2 (\<lambda>x y. f x = Inr y) xs ys"
  by (induction xs arbitrary: ys) (auto simp: rbind_eq_Inr_iff list_all2_Cons1)

lemma rmap_cong2:
  assumes "length xs = length ys" "\<And>i. i < length xs \<Longrightarrow> f (xs ! i) = g (ys ! i)"
  shows "rmap f xs = rmap g ys"
  using assms
proof (induction xs ys rule: list_induct2)
  case (Cons x xs y ys)
  have "f x = g y" using Cons.prems [of 0] by simp
  moreover have "rmap f xs = rmap g ys"
    by (rule Cons.IH) (metis Cons.prems Suc_less_eq length_Cons nth_Cons_Suc)
  ultimately show ?case by simp
qed simp

lemma rmap_ret: "(\<And>x. x \<in> set xs \<Longrightarrow> f x = Inr (g x)) \<Longrightarrow> rmap f xs = Inr (map g xs)"
  by (induction xs) auto

lemma rfilter_eq_Inr_iff:
  "rfilter f xs = Inr ys \<longleftrightarrow>
     (\<forall>x \<in> set xs. \<exists>b. f x = Inr b) \<and> ys = filter (\<lambda>x. f x = Inr True) xs"
proof (induction xs arbitrary: ys)
  case (Cons x xs)
  show ?case
  proof (cases "f x")
    case (Inr b)
    then show ?thesis by (cases b) (auto simp: rbind_eq_Inr_iff Cons.IH)
  qed simp
qed auto

lemma rfilter_set: "rfilter f xs = Inr ys \<Longrightarrow> set ys \<subseteq> set xs"
  by (auto simp: rfilter_eq_Inr_iff)

lemma rfold_append:
  "rfold f s (xs @ ys) = rbind (rfold f s xs) (\<lambda>s'. rfold f s' ys)"
proof (induction xs arbitrary: s)
  case (Cons x xs)
  then show ?case by (cases "f s x") simp_all
qed simp

lemma rfold_invariant:
  assumes "rfold f s xs = Inr s'" and "P s"
    and "\<And>s x t. P s \<Longrightarrow> x \<in> set xs \<Longrightarrow> f s x = Inr t \<Longrightarrow> P t"
  shows "P s'"
  using assms
proof (induction xs arbitrary: s)
  case (Cons x xs)
  obtain t where t: "f s x = Inr t" "rfold f t xs = Inr s'"
    using Cons.prems(1) by (auto simp: rbind_eq_Inr_iff)
  have "P t" using t(1) by (rule Cons.prems(3) [rotated 2]) (use Cons.prems(2) in simp_all)
  with t(2) show ?case
    by (rule Cons.IH) (rule Cons.prems(3), simp_all)
qed simp

lemma rfold_ret: "rfold (\<lambda>s x. ret (f s x)) s xs = ret (foldl f s xs)"
  by (induction xs arbitrary: s) auto

section \<open>Arithmetic on \<open>bigint\<close>\<close>

definition bigint_div :: "int \<Rightarrow> int \<Rightarrow> int result" where
  "bigint_div a b = (if b = 0 then throw RangeError else ret (a sdiv b))"

lemma sdiv_nonneg: "0 \<le> a \<Longrightarrow> 0 \<le> b \<Longrightarrow> (a::int) sdiv b = a div b"
  by (cases "a = 0"; cases "b = 0") (auto simp: signed_divide_int_def)

lemma bigint_div_nonneg: "0 \<le> a \<Longrightarrow> 0 < b \<Longrightarrow> bigint_div a b = ret (a div b)"
  by (simp add: bigint_div_def sdiv_nonneg)

lemma bigint_div_eq_Inr_iff [simp]: "bigint_div a b = Inr q \<longleftrightarrow> b \<noteq> 0 \<and> q = a sdiv b"
  by (auto simp: bigint_div_def)

section \<open>Sorting\<close>

text \<open>
  \<open>Array.prototype.sort\<close> with a comparator. The engine inserts each element behind every
  element the comparator does not put after it, so that the sort is stable, also for the
  comparators \<open>a > b ? -1 : 1\<close> of the sources, which never answer 0.
\<close>

fun js_insert :: "('a \<Rightarrow> 'a \<Rightarrow> int) \<Rightarrow> 'a \<Rightarrow> 'a list \<Rightarrow> 'a list" where
  "js_insert cmp x [] = [x]"
| "js_insert cmp x (y # ys) = (if cmp x y < 0 then x # y # ys else y # js_insert cmp x ys)"

definition js_sort :: "('a \<Rightarrow> 'a \<Rightarrow> int) \<Rightarrow> 'a list \<Rightarrow> 'a list" where
  "js_sort cmp xs = fold (js_insert cmp) xs []"

lemma mset_js_insert [simp]: "mset (js_insert cmp x ys) = add_mset x (mset ys)"
  by (induction ys) auto

lemma mset_fold_js_insert: "mset (fold (js_insert cmp) xs ys) = mset xs + mset ys"
  by (induction xs arbitrary: ys) auto

lemma mset_js_sort [simp]: "mset (js_sort cmp xs) = mset xs"
  by (simp add: js_sort_def mset_fold_js_insert)

lemma set_js_sort [simp]: "set (js_sort cmp xs) = set xs"
  by (metis mset_js_sort set_mset_mset)

lemma length_js_sort [simp]: "length (js_sort cmp xs) = length xs"
  by (metis mset_js_sort size_mset)

lemma sum_list_js_sort [simp]:
  "sum_list (map (f :: 'a \<Rightarrow> int) (js_sort cmp xs)) = sum_list (map f xs)"
  by (metis mset_js_sort mset_map sum_mset_sum_list)

lemma distinct_map_js_sort [simp]: "distinct (map f (js_sort cmp xs)) = distinct (map f xs)"
  by (metis mset_eq_imp_distinct_iff mset_js_sort mset_map)

lemma sum_list_filter_js_sort:
  "sum_list (map (f :: 'a \<Rightarrow> int) (filter P (js_sort cmp xs))) = sum_list (map f (filter P xs))"
  by (metis mset_filter mset_js_sort mset_map sum_mset_sum_list)

text \<open>A comparator that answers a negative number exactly on a strict weak order sorts by it.\<close>

lemma set_js_insert: "set (js_insert cmp x ys) = insert x (set ys)"
  by (induction ys) auto

lemma sorted_js_insert:
  assumes cmp: "\<And>a b. cmp a b < 0 \<longleftrightarrow> key b < (key a :: 'b :: linorder)"
    and "sorted_wrt (\<lambda>a b. key b \<le> key a) ys"
  shows "sorted_wrt (\<lambda>a b. key b \<le> key a) (js_insert cmp x ys)"
  using assms(2) by (induction ys) (fastforce simp: cmp set_js_insert)+

lemma sorted_js_sort:
  assumes cmp: "\<And>a b. cmp a b < 0 \<longleftrightarrow> key b < (key a :: 'b :: linorder)"
  shows "sorted_wrt (\<lambda>a b. key b \<le> key a) (js_sort cmp xs)"
proof -
  have "sorted_wrt (\<lambda>a b. key b \<le> key a) ys \<Longrightarrow>
    sorted_wrt (\<lambda>a b. key b \<le> key a) (fold (js_insert cmp) xs ys)" for ys
    by (induction xs arbitrary: ys) (simp_all add: sorted_js_insert [OF cmp])
  then show ?thesis by (simp add: js_sort_def)
qed

section \<open>Dictionaries\<close>

type_synonym ('k, 'v) dict = "('k \<times> 'v) list"

abbreviation dict_keys :: "('k, 'v) dict \<Rightarrow> 'k list" where
  "dict_keys m \<equiv> map fst m"

abbreviation dict_values :: "('k, 'v) dict \<Rightarrow> 'v list" where
  "dict_values m \<equiv> map snd m"

lemma map_of_update [simp]:
  "map_of (AList.update k v m) k' = (if k' = k then Some v else map_of m k')"
  by (simp add: update_conv')

lemma distinct_update_keys [simp]:
  "distinct (dict_keys m) \<Longrightarrow> distinct (dict_keys (AList.update k v m))"
  by (rule distinct_update)

lemma map_of_eq_None_keys: "map_of m k = None \<longleftrightarrow> k \<notin> set (dict_keys m)"
  by (simp add: map_of_eq_None_iff)

section \<open>Sums over lists\<close>

lemma sum_list_nonneg_int: "(\<And>x. x \<in> set xs \<Longrightarrow> 0 \<le> f x) \<Longrightarrow> 0 \<le> sum_list (map f xs :: int list)"
  by (induction xs) auto

lemma sum_list_ge_member:
  "(\<And>x. x \<in> set xs \<Longrightarrow> 0 \<le> f x) \<Longrightarrow> x \<in> set xs \<Longrightarrow> f x \<le> sum_list (map f xs :: int list)"
  using sum_list_nonneg_int [of xs f] by (induction xs) (auto simp: sum_list_nonneg_int add_increasing)

lemma sum_list_filter_le:
  "(\<And>x. x \<in> set xs \<Longrightarrow> 0 \<le> f x) \<Longrightarrow>
   sum_list (map f (filter P xs)) \<le> sum_list (map f xs :: int list)"
  by (induction xs) (auto simp: add_increasing)

lemma sum_list_mset_cong:
  assumes "mset xs = mset ys"
  shows "sum_list (map (f :: 'a \<Rightarrow> int) xs) = sum_list (map f ys)"
proof -
  have "sum_mset (mset (map f xs)) = sum_mset (mset (map f ys))" using assms by simp
  then show ?thesis by (simp only: sum_mset_sum_list)
qed

lemma foldl_add_sum: "foldl (\<lambda>s x. s + f x) a xs = a + sum_list (map f xs :: int list)"
  by (induction xs arbitrary: a) auto

section \<open>Filtering maps\<close>

lemma map_filter_Cons:
  "List.map_filter f (x # xs) = (case f x of None \<Rightarrow> List.map_filter f xs | Some y \<Rightarrow> y # List.map_filter f xs)"
  by (simp add: List.map_filter_def split: option.splits)

lemma map_filter_Nil: "List.map_filter f [] = []"
  by (simp add: List.map_filter_def)

lemma map_filter_keys:
  assumes key: "\<And>x y. f x = Some y \<Longrightarrow> fst y = fst x"
  shows "fst ` set (List.map_filter f m) \<subseteq> fst ` set m"
    and "distinct (dict_keys m) \<Longrightarrow> distinct (map fst (List.map_filter f m))"
proof -
  show sub: "fst ` set (List.map_filter f m) \<subseteq> fst ` set m" for m
    using key by (force simp: List.map_filter_def image_iff)
  show "distinct (dict_keys m) \<Longrightarrow> distinct (map fst (List.map_filter f m))"
  proof (induction m)
    case (Cons x m)
    show ?case
    proof (cases "f x")
      case (Some y)
      then have "fst y \<notin> fst ` set (List.map_filter f m)" using key [OF Some] sub [of m] Cons.prems by auto
      then show ?thesis using Cons Some by (simp add: map_filter_Cons)
    qed (use Cons in \<open>simp add: map_filter_Cons\<close>)
  qed (simp add: map_filter_Nil)
qed

end
