(* ===== verification/Scale.thy ===== *)
theory Scale
  imports JS_Prelude
begin

text \<open>
  The token scales of \<open>typescript/sdk/src/utils/decimals.ts\<close>: a chain's local amount and the
  amount that travels in the message differ by a rational factor. A scale of the schema is a
  positive integer, or a numerator and a denominator; \<open>undefined\<close> is the identity.
\<close>

section \<open>Definitions\<close>

record NormalizedScale =
  numerator :: int
  denominator :: int

datatype ScaleInput = ScaleNumber int | ScaleFraction int int

definition DEFAULT_SCALE :: NormalizedScale where
  "DEFAULT_SCALE = \<lparr>numerator = 1, denominator = 1\<rparr>"

record ScaleAlignment =
  localAmount :: int
  messageAmount :: int

fun normalizeScale :: "ScaleInput option \<Rightarrow> NormalizedScale" where
  "normalizeScale None = DEFAULT_SCALE"
| "normalizeScale (Some (ScaleNumber n)) = \<lparr>numerator = n, denominator = 1\<rparr>"
| "normalizeScale (Some (ScaleFraction n d)) = \<lparr>numerator = n, denominator = d\<rparr>"

definition validScale :: "NormalizedScale \<Rightarrow> bool" where
  "validScale s \<longleftrightarrow> 0 < numerator s \<and> 0 < denominator s"

definition assertValidScale :: "NormalizedScale \<Rightarrow> unit result" where
  "assertValidScale s = rassert (validScale s) ''Scale must be positive''"

definition ceilDiv :: "int \<Rightarrow> int \<Rightarrow> int result" where
  "ceilDiv n d =
     rbind (rassert (d > 0) ''Denominator must be positive'') (\<lambda>_.
     rbind (rassert (n \<ge> 0) ''Numerator must be non-negative'') (\<lambda>_.
     if n = 0 then ret 0 else bigint_div (n + d - 1) d))"

definition messageAmountFromLocal :: "int \<Rightarrow> ScaleInput option \<Rightarrow> int result" where
  "messageAmountFromLocal l sc =
     rbind (rassert (l \<ge> 0) ''Local amount must be non-negative'') (\<lambda>_.
     let normalized = normalizeScale sc in
     rbind (assertValidScale normalized) (\<lambda>_.
     bigint_div (l * numerator normalized) (denominator normalized)))"

definition localAmountFromMessage :: "int \<Rightarrow> ScaleInput option \<Rightarrow> int result" where
  "localAmountFromMessage m sc =
     rbind (rassert (m \<ge> 0) ''Message amount must be non-negative'') (\<lambda>_.
     let normalized = normalizeScale sc in
     rbind (assertValidScale normalized) (\<lambda>_.
     bigint_div (m * denominator normalized) (numerator normalized)))"

definition minLocalAmountForMessage :: "int \<Rightarrow> ScaleInput option \<Rightarrow> int result" where
  "minLocalAmountForMessage m sc =
     rbind (rassert (m \<ge> 0) ''Message amount must be non-negative'') (\<lambda>_.
     let normalized = normalizeScale sc in
     rbind (assertValidScale normalized) (\<lambda>_.
     ceilDiv (m * denominator normalized) (numerator normalized)))"

definition alignLocalAmountToMessage :: "int \<Rightarrow> ScaleInput option \<Rightarrow> ScaleAlignment result" where
  "alignLocalAmountToMessage l sc =
     rbind (rassert (l \<ge> 0) ''Local amount must be non-negative'') (\<lambda>_.
     rbind (messageAmountFromLocal l sc) (\<lambda>m.
     if m = 0 then ret \<lparr>localAmount = 0, messageAmount = 0\<rparr>
     else rbind (minLocalAmountForMessage m sc) (\<lambda>l'.
       ret \<lparr>localAmount = l', messageAmount = m\<rparr>)))"

definition scalesEqual :: "ScaleInput option \<Rightarrow> ScaleInput option \<Rightarrow> bool" where
  "scalesEqual a b =
     (let na = normalizeScale a; nb = normalizeScale b
      in numerator na * denominator nb = numerator nb * denominator na)"

text \<open>The \<open>decimals\<close> and \<open>scale\<close> of one chain's token configuration, as \<open>verifyScale\<close> reads it.\<close>

record TokenDecimals =
  decimals :: "nat option"
  scale :: "ScaleInput option"

record DecimalsEntry =
  e_decimals :: nat
  e_scale :: "ScaleInput option"

definition readDecimals :: "string \<times> TokenDecimals \<Rightarrow> (string \<times> DecimalsEntry) result" where
  "readDecimals ce =
     (case decimals (snd ce) of
        None \<Rightarrow> throw (AssertionError ''Decimals must be defined for token config'')
      | Some d \<Rightarrow> ret (fst ce, \<lparr>e_decimals = d, e_scale = scale (snd ce)\<rparr>))"

fun areDecimalsUniform :: "DecimalsEntry list \<Rightarrow> bool" where
  "areDecimalsUniform [] = True"
| "areDecimalsUniform (x # rest) = list_all (\<lambda>d. e_decimals d = e_decimals x) rest"

definition effectiveNumerator :: "DecimalsEntry \<Rightarrow> int" where
  "effectiveNumerator c = numerator (normalizeScale (e_scale c)) * 10 ^ e_decimals c"

definition verifyScale :: "(string, TokenDecimals) dict \<Rightarrow> bool result" where
  "verifyScale configMap =
     rbind (rmap readDecimals configMap) (\<lambda>entries.
       let configs = dict_values entries in
       if length entries \<le> 1 then ret True
       else if areDecimalsUniform configs then
         ret (list_all (\<lambda>c. scalesEqual (e_scale (hd configs)) (e_scale c)) configs)
       else
         let refNorm = normalizeScale (e_scale (hd configs));
             refEffective = effectiveNumerator (hd configs)
         in ret (list_all (\<lambda>c. refEffective * denominator (normalizeScale (e_scale c))
              = effectiveNumerator c * denominator refNorm) (tl configs)))"

section \<open>Amounts\<close>

lemmas scale_defs = messageAmountFromLocal_def localAmountFromMessage_def
  minLocalAmountForMessage_def assertValidScale_def ceilDiv_def validScale_def

lemma le_div_iff:
  fixes m n d :: int
  assumes "0 < d"
  shows "m \<le> n div d \<longleftrightarrow> m * d \<le> n"
proof -
  have "m \<le> n div d \<longleftrightarrow> m * d \<le> n div d * d" using assms by simp
  moreover have "n div d * d + n mod d = n" "0 \<le> n mod d" "n mod d < d" using assms by simp_all
  moreover have "m * d \<le> n \<Longrightarrow> m \<le> n div d"
    using zdiv_mono1 [of "m * d" n d] assms by simp
  ultimately show ?thesis by linarith
qed

lemma ceil_div_le_iff:
  fixes n d l :: int
  assumes "0 < d"
  shows "(n + d - 1) div d \<le> l \<longleftrightarrow> n \<le> l * d"
proof -
  have "(n + d - 1) div d \<le> l \<longleftrightarrow> \<not> l + 1 \<le> (n + d - 1) div d" by linarith
  also have "\<dots> \<longleftrightarrow> \<not> (l + 1) * d \<le> n + d - 1" by (simp only: le_div_iff [OF assms])
  also have "\<dots> \<longleftrightarrow> n \<le> l * d" unfolding distrib_right by linarith
  finally show ?thesis .
qed

lemma ceil_numerator_nonneg: "0 \<le> m \<Longrightarrow> 0 < n \<Longrightarrow> 0 < d \<Longrightarrow> 0 \<le> m * d + n - (1::int)"
  using mult_nonneg_nonneg [of m d] by linarith

lemma sdiv_ceil:
  "\<not> m < 0 \<Longrightarrow> 0 < n \<Longrightarrow> 0 < d \<Longrightarrow> (m * d + n - 1) sdiv n = (m * d + n - (1::int)) div n"
  by (rule sdiv_nonneg [OF ceil_numerator_nonneg]) auto

lemma messageAmountFromLocal_eq:
  "messageAmountFromLocal l sc =
     (if l < 0 then throw (AssertionError ''Local amount must be non-negative'')
      else if \<not> validScale (normalizeScale sc) then throw (AssertionError ''Scale must be positive'')
      else ret (l * numerator (normalizeScale sc) div denominator (normalizeScale sc)))"
  by (auto simp: scale_defs rassert_def bigint_div_def sdiv_nonneg Let_def)

lemma minLocalAmountForMessage_eq:
  "minLocalAmountForMessage m sc =
     (if m < 0 then throw (AssertionError ''Message amount must be non-negative'')
      else if \<not> validScale (normalizeScale sc) then throw (AssertionError ''Scale must be positive'')
      else ret ((m * denominator (normalizeScale sc) + numerator (normalizeScale sc) - 1)
        div numerator (normalizeScale sc)))"
  by (auto simp: scale_defs rassert_def bigint_div_def sdiv_nonneg Let_def sdiv_ceil)

lemma localAmountFromMessage_eq:
  "localAmountFromMessage m sc =
     (if m < 0 then throw (AssertionError ''Message amount must be non-negative'')
      else if \<not> validScale (normalizeScale sc) then throw (AssertionError ''Scale must be positive'')
      else ret (m * denominator (normalizeScale sc) div numerator (normalizeScale sc)))"
  by (auto simp: scale_defs rassert_def bigint_div_def sdiv_nonneg Let_def)

lemma messageAmountFromLocal_nonneg: "messageAmountFromLocal l sc = ret m \<Longrightarrow> 0 \<le> m"
  by (auto simp: messageAmountFromLocal_eq validScale_def pos_imp_zdiv_nonneg_iff split: if_splits)

lemma minLocalAmountForMessage_nonneg:
  assumes "minLocalAmountForMessage m sc = ret l" and vs: "validScale (normalizeScale sc)" and "0 \<le> m"
  shows "0 \<le> l"
proof -
  let ?d = "denominator (normalizeScale sc)" and ?n = "numerator (normalizeScale sc)"
  have "l = (m * ?d + ?n - 1) div ?n"
    using assms by (simp add: minLocalAmountForMessage_eq)
  moreover have "0 \<le> m * ?d + ?n - 1" and "0 < ?n"
    using ceil_numerator_nonneg [of m ?n ?d] assms by (simp_all add: validScale_def)
  ultimately show ?thesis by (metis pos_imp_zdiv_nonneg_iff)
qed

lemma messageAmountFromLocal_mono:
  assumes "messageAmountFromLocal l sc = ret m" "messageAmountFromLocal l' sc = ret m'" "l' \<le> l"
  shows "m' \<le> m"
proof -
  let ?d = "denominator (normalizeScale sc)" and ?n = "numerator (normalizeScale sc)"
  have "m = l * ?n div ?d" "m' = l' * ?n div ?d" "0 < ?d" "l' * ?n \<le> l * ?n"
    using assms by (auto simp: messageAmountFromLocal_eq validScale_def split: if_splits)
  then show ?thesis by (simp add: zdiv_mono1)
qed

lemma messageAmountFromLocal_Inr:
  "0 \<le> l \<Longrightarrow> validScale (normalizeScale sc) \<Longrightarrow> \<exists>m. messageAmountFromLocal l sc = ret m"
  by (simp add: messageAmountFromLocal_eq)

lemma minLocal_galois:
  assumes "minLocalAmountForMessage m sc = ret lmin" and "messageAmountFromLocal l sc = ret m'"
  shows "lmin \<le> l \<longleftrightarrow> m \<le> m'"
  using assms
  by (auto simp: minLocalAmountForMessage_eq messageAmountFromLocal_eq validScale_def
      ceil_div_le_iff le_div_iff split: if_splits)

text \<open>
  C39. The local amount \<open>minLocalAmountForMessage\<close> gives for a message amount is the least one
  that makes at least that progress once the router floors the outbound amount: for every
  non-negative local amount, converting it to the message reaches the requested amount exactly
  when the local amount is at least the computed one. Both conversions return for a valid scale.
\<close>

theorem minLocalAmountForMessage_least:
  assumes "validScale (normalizeScale sc)" and "0 \<le> m" and "0 \<le> l"
  shows "\<exists>lmin m'. minLocalAmountForMessage m sc = ret lmin
      \<and> messageAmountFromLocal l sc = ret m' \<and> (m \<le> m' \<longleftrightarrow> lmin \<le> l)"
proof -
  obtain m' where m': "messageAmountFromLocal l sc = ret m'"
    using messageAmountFromLocal_Inr assms by blast
  obtain lmin where lmin: "minLocalAmountForMessage m sc = ret lmin"
    using assms by (simp add: minLocalAmountForMessage_eq)
  show ?thesis using m' lmin minLocal_galois by blast
qed

theorem minLocalAmountForMessage_least_witness:
  "\<exists>lmin m'. minLocalAmountForMessage 7 (Some (ScaleFraction 2 3)) = ret lmin
     \<and> messageAmountFromLocal 11 (Some (ScaleFraction 2 3)) = ret m' \<and> (7 \<le> m' \<longleftrightarrow> lmin \<le> 11)"
  by (rule minLocalAmountForMessage_least) (simp_all add: validScale_def)

lemma align_cases:
  assumes "alignLocalAmountToMessage l sc = ret a"
  shows "messageAmountFromLocal l sc = ret (messageAmount a)
    \<and> minLocalAmountForMessage (messageAmount a) sc = ret (localAmount a)"
  using assms
  by (auto simp: alignLocalAmountToMessage_def rbind_eq_Inr_iff minLocalAmountForMessage_eq
      messageAmountFromLocal_eq validScale_def pos_imp_zdiv_nonneg_iff not_less split: if_splits)

text \<open>
  Aligning a local amount loses nothing of the message: the aligned amount is at most the
  given one, is not negative, is worth the same message amount, and aligning it again
  changes nothing.
\<close>

theorem alignLocalAmountToMessage_aligned:
  assumes al: "alignLocalAmountToMessage l sc = ret a"
  shows "0 \<le> localAmount a \<and> localAmount a \<le> l
    \<and> messageAmountFromLocal (localAmount a) sc = ret (messageAmount a)
    \<and> alignLocalAmountToMessage (localAmount a) sc = ret a"
proof -
  have ms: "messageAmountFromLocal l sc = ret (messageAmount a)"
    and mn: "minLocalAmountForMessage (messageAmount a) sc = ret (localAmount a)"
    using align_cases [OF al] by auto
  have le: "localAmount a \<le> l" using minLocal_galois [OF mn ms] by simp
  have vs: "validScale (normalizeScale sc)" and l0: "0 \<le> l"
    using ms by (auto simp: messageAmountFromLocal_eq split: if_splits)
  have nn: "0 \<le> localAmount a"
    using mn vs messageAmountFromLocal_nonneg [OF ms] by (rule minLocalAmountForMessage_nonneg)
  obtain m' where m': "messageAmountFromLocal (localAmount a) sc = ret m'"
    using messageAmountFromLocal_Inr [OF nn vs] by blast
  have "messageAmount a \<le> m'" using minLocal_galois [OF mn m'] by simp
  moreover have "m' \<le> messageAmount a"
    using ms m' le by (rule messageAmountFromLocal_mono)
  ultimately have eq: "messageAmountFromLocal (localAmount a) sc = ret (messageAmount a)"
    using m' by simp
  then have "alignLocalAmountToMessage (localAmount a) sc = ret a"
    using mn nn vs by (cases a) (auto simp: alignLocalAmountToMessage_def minLocalAmountForMessage_eq
      validScale_def split: if_splits)
  with nn le eq show ?thesis by blast
qed

theorem alignLocalAmountToMessage_aligned_witness:
  "(0::int) \<le> 11 \<and> 11 \<le> (12::int)
    \<and> messageAmountFromLocal 11 (Some (ScaleFraction 2 3)) = ret 7
    \<and> alignLocalAmountToMessage 11 (Some (ScaleFraction 2 3)) = ret \<lparr>localAmount = 11, messageAmount = 7\<rparr>"
proof -
  have h: "alignLocalAmountToMessage 11 (Some (ScaleFraction 2 3)) = ret \<lparr>localAmount = 11, messageAmount = 7\<rparr>"
    by (simp add: alignLocalAmountToMessage_def messageAmountFromLocal_eq minLocalAmountForMessage_eq
        validScale_def)
  show ?thesis using alignLocalAmountToMessage_aligned [OF h] by simp
qed

section \<open>Consistency of the scales of a route\<close>

definition scaleRatioEq :: "DecimalsEntry \<Rightarrow> DecimalsEntry \<Rightarrow> bool" where
  "scaleRatioEq a b \<longleftrightarrow>
     effectiveNumerator a * denominator (normalizeScale (e_scale b))
       = effectiveNumerator b * denominator (normalizeScale (e_scale a))"

lemma scaleRatioEq_sym: "scaleRatioEq a b \<longleftrightarrow> scaleRatioEq b a"
  by (auto simp: scaleRatioEq_def)

lemma scaleRatioEq_trans:
  assumes "scaleRatioEq a b" and "scaleRatioEq a c"
    and "validScale (normalizeScale (e_scale a))"
  shows "scaleRatioEq b c"
proof -
  let ?d = "\<lambda>x. denominator (normalizeScale (e_scale x))"
  let ?n = effectiveNumerator
  have "?d a * (?n b * ?d c) = ?d a * (?n c * ?d b)"
    using assms(1,2) unfolding scaleRatioEq_def by algebra
  then show ?thesis using assms(3) by (simp add: scaleRatioEq_def validScale_def)
qed

lemma scalesEqual_iff_ratio:
  "e_decimals a = e_decimals b \<Longrightarrow> scalesEqual (e_scale a) (e_scale b) \<longleftrightarrow> scaleRatioEq a b"
  by (simp add: scalesEqual_def scaleRatioEq_def effectiveNumerator_def Let_def)

lemma verifyScale_ref:
  assumes "rmap readDecimals cfg = ret entries" and "verifyScale cfg = ret b"
    and "dict_values entries = c # cs"
  shows "b \<longleftrightarrow> (\<forall>x \<in> set (c # cs). scaleRatioEq c x)"
proof -
  have refl: "scaleRatioEq c c" by (simp add: scaleRatioEq_def)
  have len: "length entries = Suc (length cs)" using assms(3) by (metis length_Cons length_map)
  show ?thesis
  proof (cases "cs = []")
    case True
    with assms len refl show ?thesis by (auto simp: verifyScale_def)
  next
    case False
    then have n: "\<not> length entries \<le> 1" using len by (cases cs) auto
    show ?thesis
    proof (cases "areDecimalsUniform (c # cs)")
      case True
      then have "scalesEqual (e_scale c) (e_scale x) \<longleftrightarrow> scaleRatioEq c x" if "x \<in> set (c # cs)" for x
        using that by (intro scalesEqual_iff_ratio) (auto simp: list_all_iff)
      moreover have "b \<longleftrightarrow> (\<forall>x \<in> set (c # cs). scalesEqual (e_scale c) (e_scale x))"
        using assms(2) True n by (simp add: verifyScale_def assms(1,3) list_all_iff)
      ultimately show ?thesis by blast
    next
      case False
      have "b \<longleftrightarrow> (\<forall>x \<in> set cs. scaleRatioEq c x)"
        using assms(2) False n
        by (auto simp: verifyScale_def Let_def assms(1,3) list_all_iff scaleRatioEq_def
            split: if_splits)
      with refl show ?thesis by simp
    qed
  qed
qed

text \<open>
  C40. \<open>verifyScale\<close> compares every chain with the first one only, yet for positive scales it
  answers true exactly when every two chains of the route agree on the effective message
  amount: the answer does not depend on which chain is the reference.
\<close>

theorem verifyScale_pairwise:
  assumes rd: "rmap readDecimals cfg = ret entries" and v: "verifyScale cfg = ret b"
    and ok: "\<forall>c \<in> set (dict_values entries). validScale (normalizeScale (e_scale c))"
  shows "b \<longleftrightarrow> (\<forall>x \<in> set (dict_values entries). \<forall>y \<in> set (dict_values entries). scaleRatioEq x y)"
proof (cases "dict_values entries")
  case Nil
  with rd v show ?thesis by (auto simp: verifyScale_def)
next
  case (Cons c cs)
  from verifyScale_ref [OF rd v Cons] have b: "b \<longleftrightarrow> (\<forall>x \<in> set (c # cs). scaleRatioEq c x)" .
  have "validScale (normalizeScale (e_scale c))" using ok Cons by simp
  then have "(\<forall>x \<in> set (c # cs). scaleRatioEq c x) \<longleftrightarrow>
      (\<forall>x \<in> set (c # cs). \<forall>y \<in> set (c # cs). scaleRatioEq x y)"
    using scaleRatioEq_trans by (metis list.set_intros(1))
  with b Cons show ?thesis by simp
qed

theorem verifyScale_pairwise_witness:
  "scaleRatioEq \<lparr>e_decimals = 6, e_scale = Some (ScaleNumber 100)\<rparr> \<lparr>e_decimals = 8, e_scale = None\<rparr>"
proof -
  let ?cfg = "[(''a'', \<lparr>decimals = Some 6, scale = Some (ScaleNumber 100)\<rparr>),
               (''b'', \<lparr>decimals = Some 8, scale = None\<rparr>)]"
  let ?es = "[(''a'', \<lparr>e_decimals = 6, e_scale = Some (ScaleNumber 100)\<rparr>),
              (''b'', \<lparr>e_decimals = 8, e_scale = None\<rparr>)]"
  have rd: "rmap readDecimals ?cfg = ret ?es" by (simp add: readDecimals_def)
  have v: "verifyScale ?cfg = ret True"
    by (simp add: verifyScale_def readDecimals_def effectiveNumerator_def DEFAULT_SCALE_def)
  show ?thesis using verifyScale_pairwise [OF rd v] by (simp add: validScale_def DEFAULT_SCALE_def)
qed

end
