(* ===== verification/Rebalancer_Types.thy ===== *)
theory Rebalancer_Types
  imports Scale
begin

text \<open>
  The data the rebalancer's components exchange (\<open>typescript/rebalancer/src\<close>): tokens and
  configured amounts (\<open>utils/balanceUtils.ts\<close>, \<open>utils/tokenUtils.ts\<close>, \<open>toWei\<close> of
  \<open>typescript/utils/src/amount.ts\<close>), bridge configurations (\<open>utils/bridgeUtils.ts\<close>), routes and
  the inflight context (\<open>interfaces/IStrategy.ts\<close>).

  The packages \<open>bignumber.js\<close> and \<open>@ethersproject/units\<close> are the record \<open>bignumber_api\<close>, an
  argument of every definition that reaches them.
\<close>

type_synonym chain = string
type_synonym address = string

section \<open>Configured amounts\<close>

text \<open>A configured amount is a string or a finite number (\<open>z.string().or(z.number())\<close>).\<close>

datatype amount_value = AmountString string | AmountNumber rat

fun falsy_amount :: "amount_value \<Rightarrow> bool" where
  "falsy_amount (AmountString s) = (s = [])"
| "falsy_amount (AmountNumber q) = (q = 0)"

text \<open>
  \<open>bn_toString v\<close> is \<open>BigNumber(v).toString(10)\<close>, \<open>bn_lt a b\<close> is \<open>BigNumber(a).lt(b)\<close>,
  \<open>bn_times_floor n v\<close> is \<open>BigNumber(n).times(v).toFixed(0, ROUND_FLOOR)\<close> read as a \<open>bigint\<close>, and
  \<open>parseUnits s d\<close> is \<open>parseUnits\<close> of ethers read as a \<open>bigint\<close>.
\<close>

record bignumber_api =
  bn_toString :: "amount_value \<Rightarrow> string"
  bn_lt :: "amount_value \<Rightarrow> amount_value \<Rightarrow> bool"
  bn_times_floor :: "int \<Rightarrow> amount_value \<Rightarrow> int"
  parseUnits :: "string \<Rightarrow> nat \<Rightarrow> int result"

definition is_js_space :: "char \<Rightarrow> bool" where
  "is_js_space c \<longleftrightarrow> c \<in> {CHR '' '', CHR 0x09, CHR 0x0A, CHR 0x0B, CHR 0x0C, CHR 0x0D}"

definition js_trim :: "string \<Rightarrow> string" where
  "js_trim s = rev (dropWhile is_js_space (rev (dropWhile is_js_space s)))"

fun js_split :: "char \<Rightarrow> string \<Rightarrow> string list" where
  "js_split c [] = [[]]"
| "js_split c (x # xs) =
     (if x = c then [] # js_split c xs
      else (case js_split c xs of [] \<Rightarrow> [[x]] | p # ps \<Rightarrow> (x # p) # ps))"

definition toWei :: "bignumber_api \<Rightarrow> amount_value \<Rightarrow> nat \<Rightarrow> int result" where
  "toWei bn value dec =
     (if falsy_amount value then ret 0
      else let valueString = js_trim (bn_toString bn value) in
        (case js_split (CHR ''.'') valueString of
           [_] \<Rightarrow> parseUnits bn valueString dec
         | [c0, c1] \<Rightarrow> parseUnits bn (c0 @ ''.'' @ take dec c1) dec
         | _ \<Rightarrow> throw (Thrown ''Cannot convert to wei'' valueString)))"

section \<open>Tokens\<close>

record Token =
  chainName :: chain
  standard :: string
  addressOrDenom :: string
  collateralAddressOrDenom :: "string option"
  token_decimals :: nat
  token_scale :: "ScaleInput option"

definition TOKEN_COLLATERALIZED_STANDARDS :: "string list" where
  "TOKEN_COLLATERALIZED_STANDARDS =
    [''EvmHypCollateral'', ''EvmHypOwnerCollateral'', ''EvmHypRebaseCollateral'', ''EvmHypNative'',
     ''SealevelHypCollateral'', ''SealevelHypNative'', ''CwHypCollateral'', ''CwHypNative'',
     ''CosmosNativeHypCollateral'', ''EvmHypXERC20Lockbox'', ''EvmHypVSXERC20Lockbox'',
     ''AleoHypNative'', ''AleoHypCollateral'', ''TronHypNative'', ''TronHypCollateral'',
     ''TronHypOwnerCollateral'', ''TronHypRebaseCollateral'', ''TronHypXERC20Lockbox'',
     ''TronHypVSXERC20Lockbox'', ''RadixHypCollateral'', ''StarknetHypCollateral'',
     ''StarknetHypNative'', ''EvmHypCrossCollateralRouter'', ''TronHypCrossCollateralRouter'',
     ''SealevelHypCrossCollateral'']"

definition REBALANCEABLE_TOKEN_COLLATERALIZED_STANDARDS :: "string list" where
  "REBALANCEABLE_TOKEN_COLLATERALIZED_STANDARDS =
    [''EvmHypCollateral'', ''EvmHypNative'', ''SealevelHypCollateral'', ''SealevelHypNative'',
     ''TronHypCollateral'', ''TronHypNative'']"

definition REBALANCER_NATIVE_STANDARDS :: "string list" where
  "REBALANCER_NATIVE_STANDARDS = [''EvmHypNative'', ''SealevelHypNative'', ''TronHypNative'']"

definition isNativeTokenStandard :: "string \<Rightarrow> bool" where
  "isNativeTokenStandard std = List.member REBALANCER_NATIVE_STANDARDS std"

definition isCollateralized :: "Token \<Rightarrow> bool" where
  "isCollateralized t = List.member TOKEN_COLLATERALIZED_STANDARDS (standard t)"

definition isCollateralizedTokenEligibleForRebalancing :: "Token \<Rightarrow> bool" where
  "isCollateralizedTokenEligibleForRebalancing t =
     (isCollateralized t \<and> List.member REBALANCEABLE_TOKEN_COLLATERALIZED_STANDARDS (standard t))"

text \<open>\<open>LiFi\<close> is the one external bridge type of \<open>config/types.ts\<close>.\<close>

datatype ExternalBridgeType = LiFi

definition getExternalBridgeTokenAddress ::
    "Token \<Rightarrow> 'b \<Rightarrow> ('b \<Rightarrow> string result) \<Rightarrow> string result" where
  "getExternalBridgeTokenAddress t b getNative =
     (if isNativeTokenStandard (standard t) then getNative b
      else if collateralAddressOrDenom t \<noteq> None \<and> collateralAddressOrDenom t \<noteq> Some []
      then ret (the (collateralAddressOrDenom t))
      else rbind (rassert (\<not> List.member REBALANCEABLE_TOKEN_COLLATERALIZED_STANDARDS (standard t))
          ''Missing collateralAddressOrDenom'') (\<lambda>_. ret (addressOrDenom t)))"

section \<open>Balances in canonical units\<close>

definition normalizeToCanonical :: "int \<Rightarrow> ScaleInput option \<Rightarrow> int result" where
  "normalizeToCanonical l sc = messageAmountFromLocal l sc"

definition denormalizeToLocal :: "int \<Rightarrow> ScaleInput option \<Rightarrow> int result" where
  "denormalizeToLocal m sc = minLocalAmountForMessage m sc"

definition alignLocalToCanonical :: "int \<Rightarrow> ScaleInput option \<Rightarrow> ScaleAlignment result" where
  "alignLocalToCanonical l sc = alignLocalAmountToMessage l sc"

definition normalizeConfiguredAmount :: "bignumber_api \<Rightarrow> amount_value \<Rightarrow> Token \<Rightarrow> int result" where
  "normalizeConfiguredAmount bn v t =
     rbind (toWei bn v (token_decimals t)) (\<lambda>w. normalizeToCanonical w (token_scale t))"

type_synonym RawBalances = "(chain, int) dict"

record TokenInfo =
  ti_token :: Token
  bridgedSupply :: "int option"

definition rawBalanceStep :: "chain list \<Rightarrow> RawBalances \<Rightarrow> TokenInfo \<Rightarrow> RawBalances result" where
  "rawBalanceStep cs balances info =
     (let t = ti_token info in
      if \<not> List.member cs (chainName t) then ret balances
      else if \<not> isCollateralizedTokenEligibleForRebalancing t then ret balances
      else case bridgedSupply info of
        None \<Rightarrow> throw (Thrown ''bridgedSupply should not be undefined for collateralized token''
            (addressOrDenom t))
      | Some s \<Rightarrow> rbind (normalizeToCanonical s (token_scale t)) (\<lambda>n.
          ret (AList.update (chainName t) n balances)))"

definition getRawBalances :: "chain list \<Rightarrow> TokenInfo list \<Rightarrow> RawBalances result" where
  "getRawBalances cs tokensInfo = rfold (rawBalanceStep cs) [] tokensInfo"

section \<open>Bridge configurations\<close>

datatype executionType = ExecMovableCollateral | ExecInventory

text \<open>
  A configuration after its overrides were spread over it: the discriminating \<open>executionType\<close> and
  every other key possibly absent.
\<close>

record BridgeConfig =
  bridgeMinAcceptedAmount :: "amount_value option"
  bc_executionType :: executionType
  bc_bridge :: "address option"
  bc_externalBridge :: "ExternalBridgeType option"

record BridgeConfigPartial =
  p_bridgeMinAcceptedAmount :: "amount_value option"
  p_executionType :: "executionType option"
  p_bridge :: "address option"
  p_externalBridge :: "ExternalBridgeType option"

record BridgeConfigWithOverride =
  baseConfig :: BridgeConfig
  override :: "(chain, BridgeConfigPartial) dict"

type_synonym BridgeConfigs = "(chain, BridgeConfigWithOverride) dict"

definition spread :: "'a option \<Rightarrow> 'a option \<Rightarrow> 'a option" where
  "spread base over = (case over of None \<Rightarrow> base | Some v \<Rightarrow> Some v)"

definition applyOverride :: "BridgeConfig \<Rightarrow> BridgeConfigPartial \<Rightarrow> BridgeConfig" where
  "applyOverride b p =
    \<lparr>bridgeMinAcceptedAmount = spread (bridgeMinAcceptedAmount b) (p_bridgeMinAcceptedAmount p),
     bc_executionType = (case p_executionType p of None \<Rightarrow> bc_executionType b | Some e \<Rightarrow> e),
     bc_bridge = spread (bc_bridge b) (p_bridge p),
     bc_externalBridge = spread (bc_externalBridge b) (p_externalBridge p)\<rparr>"

text \<open>Reading \<open>override\<close> of an absent entry throws; an absent override spreads nothing.\<close>

definition getBridgeConfig :: "BridgeConfigs \<Rightarrow> chain \<Rightarrow> chain \<Rightarrow> BridgeConfig result" where
  "getBridgeConfig bridges fromChain toChain =
     (case map_of bridges fromChain of
        None \<Rightarrow> throw TypeError
      | Some fromConfig \<Rightarrow>
          (case map_of (override fromConfig) toChain of
             None \<Rightarrow> ret (baseConfig fromConfig)
           | Some o' \<Rightarrow> ret (applyOverride (baseConfig fromConfig) o')))"

definition isMovableCollateralConfig :: "BridgeConfig \<Rightarrow> bool" where
  "isMovableCollateralConfig c \<longleftrightarrow> bc_executionType c = ExecMovableCollateral"

definition isInventoryConfig :: "BridgeConfig \<Rightarrow> bool" where
  "isInventoryConfig c \<longleftrightarrow> bc_executionType c = ExecInventory"

section \<open>Routes\<close>

datatype ExecutionMethod = movable_collateral | inventory

text \<open>A \<open>Route\<close> with whatever optional keys it carries at run time.\<close>

record Route =
  origin :: chain
  destination :: chain
  amount :: int
  executionMethod :: "ExecutionMethod option"
  deliveredAmount :: "int option"
  awaitingDeliveryAmount :: "int option"
  bridge :: "address option"
  externalBridge :: "ExternalBridgeType option"

datatype StrategyRoute =
    MovableCollateralRoute (sr_origin: chain) (sr_destination: chain) (sr_amount: int)
      (sr_bridge: "address option")
  | InventoryRoute (sr_origin: chain) (sr_destination: chain) (sr_amount: int)
      (sr_externalBridge: "ExternalBridgeType option")

fun isMovableCollateralRoute :: "StrategyRoute \<Rightarrow> bool" where
  "isMovableCollateralRoute (MovableCollateralRoute _ _ _ _) = True"
| "isMovableCollateralRoute (InventoryRoute _ _ _ _) = False"

fun isInventoryRoute :: "StrategyRoute \<Rightarrow> bool" where
  "isInventoryRoute (InventoryRoute _ _ _ _) = True"
| "isInventoryRoute (MovableCollateralRoute _ _ _ _) = False"

definition createStrategyRoute :: "BridgeConfig \<Rightarrow> chain \<Rightarrow> chain \<Rightarrow> int \<Rightarrow> StrategyRoute" where
  "createStrategyRoute c org dest amt =
     (case bc_executionType c of
        ExecInventory \<Rightarrow> InventoryRoute org dest amt (bc_externalBridge c)
      | ExecMovableCollateral \<Rightarrow> MovableCollateralRoute org dest amt (bc_bridge c))"

text \<open>A strategy route read as a \<open>Route\<close>, the way the simulations take it.\<close>

fun as_Route :: "StrategyRoute \<Rightarrow> Route" where
  "as_Route (MovableCollateralRoute org dest amt b) =
     \<lparr>origin = org, destination = dest, amount = amt, executionMethod = None,
      deliveredAmount = None, awaitingDeliveryAmount = None, bridge = b, externalBridge = None\<rparr>"
| "as_Route (InventoryRoute org dest amt e) =
     \<lparr>origin = org, destination = dest, amount = amt, executionMethod = None,
      deliveredAmount = None, awaitingDeliveryAmount = None, bridge = None, externalBridge = e\<rparr>"

record InflightContext =
  pendingRebalances :: "Route list"
  pendingTransfers :: "Route list"
  proposedRebalances :: "StrategyRoute list option"

record Delta =
  d_chain :: chain
  d_amount :: int

section \<open>Lemmas\<close>

lemma createStrategyRoute_sel [simp]:
  "sr_origin (createStrategyRoute c org dest amt) = org"
  "sr_destination (createStrategyRoute c org dest amt) = dest"
  "sr_amount (createStrategyRoute c org dest amt) = amt"
  by (simp_all add: createStrategyRoute_def split: executionType.split)

lemma as_Route_sel [simp]:
  "origin (as_Route r) = sr_origin r"
  "destination (as_Route r) = sr_destination r"
  "amount (as_Route r) = sr_amount r"
  by (cases r; simp)+

lemma createStrategyRoute_kind:
  "isInventoryRoute (createStrategyRoute c org dest amt) \<longleftrightarrow> isInventoryConfig c"
  "isMovableCollateralRoute (createStrategyRoute c org dest amt) \<longleftrightarrow> isMovableCollateralConfig c"
  by (simp_all add: createStrategyRoute_def isInventoryConfig_def isMovableCollateralConfig_def
      split: executionType.split)

lemma rawBalanceStep_nonneg:
  assumes "rawBalanceStep cs b info = ret b'" "\<forall>v \<in> set (dict_values b). 0 \<le> v"
  shows "\<forall>v \<in> set (dict_values b'). 0 \<le> v"
proof -
  have "set (dict_values (AList.update k n b)) \<subseteq> insert n (set (dict_values b))" for k n
    by (induction b) auto
  then show ?thesis using assms
    by (fastforce simp: rawBalanceStep_def Let_def normalizeToCanonical_def rbind_eq_Inr_iff
        dest: messageAmountFromLocal_nonneg split: if_splits option.splits)
qed

lemma rawBalanceStep_keys:
  assumes "rawBalanceStep cs b info = ret b'"
    and "distinct (dict_keys b) \<and> set (dict_keys b) \<subseteq> set cs"
  shows "distinct (dict_keys b') \<and> set (dict_keys b') \<subseteq> set cs"
proof -
  consider "b' = b" | n where "chainName (ti_token info) \<in> set cs"
      "b' = AList.update (chainName (ti_token info)) n b"
    using assms(1)
    by (auto simp: rawBalanceStep_def Let_def rbind_eq_Inr_iff split: if_splits option.splits)
  then show ?thesis using assms(2) by cases (simp_all add: dom_update distinct_update)
qed

text \<open>
  The raw balances built from a monitor event are well formed: no chain occurs twice, every
  chain is one of the configured ones, and no balance is negative.
\<close>

theorem getRawBalances_wf:
  assumes "getRawBalances cs infos = ret b"
  shows "distinct (dict_keys b) \<and> set (dict_keys b) \<subseteq> set cs
    \<and> (\<forall>v \<in> set (dict_values b). 0 \<le> v)"
proof -
  have "rfold (rawBalanceStep cs) [] infos = ret b"
    using assms by (simp add: getRawBalances_def)
  then have "(distinct (dict_keys b) \<and> set (dict_keys b) \<subseteq> set cs)
      \<and> (\<forall>v \<in> set (dict_values b). 0 \<le> v)"
  proof (rule rfold_invariant)
    fix s x t
    assume "(distinct (dict_keys s) \<and> set (dict_keys s) \<subseteq> set cs)
        \<and> (\<forall>v \<in> set (dict_values s). 0 \<le> v)" and "rawBalanceStep cs s x = ret t"
    then show "(distinct (dict_keys t) \<and> set (dict_keys t) \<subseteq> set cs)
        \<and> (\<forall>v \<in> set (dict_values t). 0 \<le> v)"
      using rawBalanceStep_keys rawBalanceStep_nonneg by blast
  qed simp
  then show ?thesis by blast
qed

definition ex_token :: "chain \<Rightarrow> Token" where
  "ex_token c = \<lparr>chainName = c, standard = ''EvmHypCollateral'', addressOrDenom = ''0xr'',
     collateralAddressOrDenom = Some ''0xt'', token_decimals = 6, token_scale = None\<rparr>"

theorem getRawBalances_wf_witness:
  "distinct (dict_keys [(''a'', 5), (''b'', 7 :: int)])
   \<and> set (dict_keys [(''a'', 5), (''b'', 7 :: int)]) \<subseteq> set [''a'', ''b'']"
proof -
  have h: "getRawBalances [''a'', ''b'']
      [\<lparr>ti_token = ex_token ''a'', bridgedSupply = Some 5\<rparr>,
       \<lparr>ti_token = ex_token ''c'', bridgedSupply = None\<rparr>,
       \<lparr>ti_token = ex_token ''b'', bridgedSupply = Some 7\<rparr>] = ret [(''a'', 5), (''b'', 7)]"
    by (simp add: getRawBalances_def rawBalanceStep_def ex_token_def isCollateralized_def
        isCollateralizedTokenEligibleForRebalancing_def TOKEN_COLLATERALIZED_STANDARDS_def
        REBALANCEABLE_TOKEN_COLLATERALIZED_STANDARDS_def normalizeToCanonical_def
        messageAmountFromLocal_eq validScale_def DEFAULT_SCALE_def)
  show ?thesis using getRawBalances_wf [OF h] by blast
qed

end
