(* ===== verification/Amount_Laws.thy ===== *)
theory Amount_Laws
  imports Rebalancer_Types
begin

text \<open>
  What the rebalancer relies on of \<open>bignumber.js\<close> and of \<open>parseUnits\<close>, as the hypothesis
  \<open>bn_laws\<close>, and what follows for \<open>toWei\<close> and \<open>normalizeConfiguredAmount\<close>: a configured amount is
  converted to base units by truncation, and the conversion is monotone.
\<close>

section \<open>Decimal strings\<close>

definition is_digit :: "char \<Rightarrow> bool" where
  "is_digit c \<longleftrightarrow> 48 \<le> (of_char c :: nat) \<and> (of_char c :: nat) \<le> 57"

definition digit_val :: "char \<Rightarrow> nat" where
  "digit_val c = of_char c - 48"

definition digits_val :: "string \<Rightarrow> nat" where
  "digits_val s = foldl (\<lambda>n c. 10 * n + digit_val c) 0 s"

text \<open>The value of an unsigned decimal literal, with or without a fraction.\<close>

definition decimal_value :: "string \<Rightarrow> rat option" where
  "decimal_value s =
     (case js_split (CHR ''.'') s of
        [i] \<Rightarrow> if list_all is_digit i then Some (of_nat (digits_val i)) else None
      | [i, f] \<Rightarrow> if list_all is_digit i \<and> list_all is_digit f
          then Some (of_nat (digits_val i) + of_nat (digits_val f) / 10 ^ length f) else None
      | _ \<Rightarrow> None)"

definition fraction_length :: "string \<Rightarrow> nat" where
  "fraction_length s = (case js_split (CHR ''.'') s of [i, f] \<Rightarrow> length f | _ \<Rightarrow> 0)"

text \<open>
  \<open>val v\<close> is the number the amount denotes (\<open>None\<close> for one that is not a number): comparing and
  flooring are exact, the base-10 rendering of a non-negative number is a decimal literal with
  that value, and \<open>parseUnits\<close> of a literal with no more fraction digits than the token's
  decimals is exact.
\<close>

definition bn_laws :: "bignumber_api \<Rightarrow> (amount_value \<Rightarrow> rat option) \<Rightarrow> bool" where
  "bn_laws bn val \<longleftrightarrow>
     (\<forall>a b x y. val a = Some x \<longrightarrow> val b = Some y \<longrightarrow> bn_lt bn a b = (x < y))
   \<and> (\<forall>n v x. val v = Some x \<longrightarrow> bn_times_floor bn n v = \<lfloor>of_int n * x\<rfloor>)
   \<and> (\<forall>v x. val v = Some x \<longrightarrow> 0 \<le> x \<longrightarrow> decimal_value (bn_toString bn v) = Some x)
   \<and> (\<forall>v x. val v = Some x \<longrightarrow> falsy_amount v \<longrightarrow> x = 0)
   \<and> val (AmountNumber 0) = Some 0
   \<and> (\<forall>s d x. decimal_value s = Some x \<longrightarrow> fraction_length s \<le> d \<longrightarrow>
        (\<exists>w. parseUnits bn s d = ret w \<and> of_int w = x * 10 ^ d))"

section \<open>Lemmas on literals\<close>

lemma foldl_digits:
  "foldl (\<lambda>n c. 10 * n + digit_val c) a s = a * 10 ^ length s + foldl (\<lambda>n c. 10 * n + digit_val c) 0 s"
proof (induction s arbitrary: a)
  case (Cons c s)
  show ?case using Cons.IH [of "10 * a + digit_val c"] Cons.IH [of "digit_val c"]
    by (simp add: algebra_simps)
qed simp

lemma digits_val_append: "digits_val (s @ t) = digits_val s * 10 ^ length t + digits_val t"
  using foldl_digits [of "digits_val s" t] by (simp add: digits_val_def)

lemma digits_val_less: "list_all is_digit s \<Longrightarrow> digits_val s < 10 ^ length s"
proof (induction s rule: rev_induct)
  case (snoc c s)
  then have "digits_val s < 10 ^ length s" "digit_val c < 10"
    by (auto simp: is_digit_def digit_val_def)
  moreover have "digits_val (s @ [c]) = digits_val s * 10 + digit_val c"
    by (simp add: digits_val_append digits_val_def)
  ultimately show ?case by simp
qed (simp add: digits_val_def)

lemma digits_val_take:
  assumes "list_all is_digit s" "d \<le> length s"
  shows "digits_val (take d s) = digits_val s div 10 ^ (length s - d)"
proof -
  have "digits_val s = digits_val (take d s) * 10 ^ (length s - d) + digits_val (drop d s)"
    using digits_val_append [of "take d s" "drop d s"] by simp
  moreover have "digits_val (drop d s) < 10 ^ (length s - d)"
    using digits_val_less [of "drop d s"] assms
    by (metis append_take_drop_id length_drop list_all_append)
  ultimately show ?thesis by simp
qed

lemma digit_not_dot: "is_digit c \<Longrightarrow> c \<noteq> CHR ''.''"
  by (auto simp: is_digit_def)

lemma digit_not_space: "is_digit c \<Longrightarrow> \<not> is_js_space c"
  by (auto simp: is_digit_def is_js_space_def)

lemma js_split_digits: "list_all is_digit i \<Longrightarrow> js_split (CHR ''.'') i = [i]"
  by (induction i) (auto dest: digit_not_dot)

lemma js_split_frac:
  "list_all is_digit i \<Longrightarrow> list_all is_digit f \<Longrightarrow> js_split (CHR ''.'') (i @ CHR ''.'' # f) = [i, f]"
  by (induction i) (auto simp: js_split_digits dest: digit_not_dot)

lemma js_split_nonempty: "js_split c s \<noteq> []"
  by (induction s) (auto split: list.splits)

lemma js_split_one: "js_split c s = [i] \<Longrightarrow> s = i"
proof (induction s arbitrary: i)
  case (Cons x s)
  then show ?case using js_split_nonempty [of c s] by (auto split: if_splits list.splits)
qed simp

lemma js_split_two: "js_split c s = [i, f] \<Longrightarrow> s = i @ c # f"
proof (induction s arbitrary: i)
  case (Cons x s)
  then show ?case using js_split_nonempty [of c s]
    by (auto dest!: js_split_one split: if_splits list.splits)
qed simp

lemma decimal_value_cases:
  assumes "decimal_value s = Some x"
  obtains "list_all is_digit s" "x = of_nat (digits_val s)"
  | i f where "s = i @ CHR ''.'' # f" "list_all is_digit i" "list_all is_digit f"
      "x = of_nat (digits_val i) + of_nat (digits_val f) / 10 ^ length f"
  using assms js_split_nonempty [of "CHR ''.''" s]
  by (auto simp: decimal_value_def dest!: js_split_two js_split_one split: list.splits if_splits)

lemma js_trim_id: "\<forall>c \<in> set s. \<not> is_js_space c \<Longrightarrow> js_trim s = s"
proof -
  assume a: "\<forall>c \<in> set s. \<not> is_js_space c"
  have "dropWhile is_js_space t = t" if "\<forall>c \<in> set t. \<not> is_js_space c" for t
    using that by (cases t) auto
  from this [of s] this [of "rev s"] show ?thesis using a by (simp add: js_trim_def)
qed

lemma decimal_no_space: "decimal_value s = Some x \<Longrightarrow> \<forall>c \<in> set s. \<not> is_js_space c"
proof (erule decimal_value_cases)
  have "\<not> is_js_space (CHR ''.'')" by (simp add: is_js_space_def)
  then show "\<forall>c \<in> set s. \<not> is_js_space c"
    if "s = i @ CHR ''.'' # f" "list_all is_digit i" "list_all is_digit f" for i f
    using that digit_not_space by (auto simp: list_all_iff)
  show "\<forall>c \<in> set s. \<not> is_js_space c" if "list_all is_digit s"
    using that digit_not_space by (auto simp: list_all_iff)
qed

lemma floor_fraction:
  fixes i f :: nat
  assumes "d \<le> n"
  shows "\<lfloor>(of_nat i + of_nat f / 10 ^ n) * (10::rat) ^ d\<rfloor> = int (i * 10 ^ d + f div 10 ^ (n - d))"
proof -
  have "(10::rat) ^ n = 10 ^ (n - d) * 10 ^ d" using assms by (simp flip: power_add)
  then have "(of_nat i + of_nat f / 10 ^ n) * (10::rat) ^ d
      = of_nat f / of_nat (10 ^ (n - d)) + of_int (int (i * 10 ^ d))"
    by (simp add: field_simps)
  then have "\<lfloor>(of_nat i + of_nat f / 10 ^ n) * (10::rat) ^ d\<rfloor>
      = \<lfloor>of_nat f / (of_nat (10 ^ (n - d)) :: rat)\<rfloor> + int (i * 10 ^ d)"
    by (simp only: floor_add_int)
  also have "\<lfloor>of_nat f / (of_nat (10 ^ (n - d)) :: rat)\<rfloor> = int (f div 10 ^ (n - d))"
    by (rule floor_divide_of_nat_eq)
  finally show ?thesis by simp
qed

lemma bn_lawsD:
  assumes "bn_laws bn val"
  shows "val a = Some x \<Longrightarrow> val b = Some y \<Longrightarrow> bn_lt bn a b = (x < y)"
    and "val v = Some x \<Longrightarrow> bn_times_floor bn n v = \<lfloor>of_int n * x\<rfloor>"
    and "val v = Some x \<Longrightarrow> 0 \<le> x \<Longrightarrow> decimal_value (bn_toString bn v) = Some x"
    and "val v = Some x \<Longrightarrow> falsy_amount v \<Longrightarrow> x = 0"
    and "decimal_value s = Some x \<Longrightarrow> fraction_length s \<le> d \<Longrightarrow>
        \<exists>w. parseUnits bn s d = ret w \<and> of_int w = x * 10 ^ d"
  using assms unfolding bn_laws_def by blast+

section \<open>Conversion of configured amounts\<close>

lemma parse_truncated:
  assumes bn: "bn_laws bn val" and i: "list_all is_digit i" and f: "list_all is_digit f"
  shows "parseUnits bn (i @ ''.'' @ take d f) d
    = ret \<lfloor>(of_nat (digits_val i) + of_nat (digits_val f) / 10 ^ length f) * (10::rat) ^ d\<rfloor>"
proof -
  let ?s = "i @ CHR ''.'' # take d f"
  let ?x = "of_nat (digits_val i) + of_nat (digits_val (take d f)) / (10::rat) ^ min (length f) d"
  have sp: "js_split (CHR ''.'') ?s = [i, take d f]"
    using i f by (intro js_split_frac) (auto simp: list_all_iff dest: in_set_takeD)
  have dv: "decimal_value ?s = Some ?x"
    using i f sp by (auto simp: decimal_value_def list_all_iff min.commute dest: in_set_takeD)
  have fl: "fraction_length ?s \<le> d" using sp by (simp add: fraction_length_def)
  obtain w where w: "parseUnits bn ?s d = ret w" "of_int w = ?x * 10 ^ d"
    using bn_lawsD(5) [OF bn dv fl] by blast
  have "of_int w = (of_int \<lfloor>(of_nat (digits_val i) + of_nat (digits_val f) / 10 ^ length f) * (10::rat) ^ d\<rfloor> :: rat)"
  proof (cases "d \<le> length f")
    case True
    then have "?x * 10 ^ d = of_nat (digits_val i * 10 ^ d + digits_val f div 10 ^ (length f - d))"
      using digits_val_take [OF f True] by (simp add: min_absorb2 algebra_simps)
    then show ?thesis using w(2) floor_fraction [OF True, of "digits_val i" "digits_val f"] by simp
  next
    case False
    then have "?x * 10 ^ d = (of_nat (digits_val i) + of_nat (digits_val f) / 10 ^ length f) * 10 ^ d"
      by (simp add: min_absorb1)
    then have "(of_nat (digits_val i) + of_nat (digits_val f) / 10 ^ length f) * (10::rat) ^ d = of_int w"
      using w(2) by simp
    then show ?thesis by (simp only: floor_of_int)
  qed
  then show ?thesis using w(1) by (simp only: of_int_eq_iff append_Cons append_Nil)
qed

text \<open>
  \<open>toWei\<close> of a non-negative amount returns, and it truncates: the result is the amount times
  ten to the token's decimals, rounded down, however many fraction digits the configured
  amount carries.
\<close>

theorem toWei_truncates:
  assumes bn: "bn_laws bn val" and v: "val v = Some x" and x0: "0 \<le> x"
  shows "toWei bn v d = ret \<lfloor>x * 10 ^ d\<rfloor>"
proof (cases "falsy_amount v")
  case True
  then have "x = 0" using bn_lawsD(4) [OF bn v] by simp
  with True show ?thesis by (simp add: toWei_def)
next
  case False
  have dv: "decimal_value (bn_toString bn v) = Some x" by (rule bn_lawsD(3) [OF bn v x0])
  have tr: "js_trim (bn_toString bn v) = bn_toString bn v"
    by (rule js_trim_id [OF decimal_no_space [OF dv]])
  from dv show ?thesis
  proof (cases rule: decimal_value_cases)
    case 1
    then have sp: "js_split (CHR ''.'') (bn_toString bn v) = [bn_toString bn v]"
      by (intro js_split_digits)
    then have "fraction_length (bn_toString bn v) \<le> d" by (simp add: fraction_length_def)
    from bn_lawsD(5) [OF bn dv this] obtain w where w: "parseUnits bn (bn_toString bn v) d = ret w"
        "of_int w = x * 10 ^ d" by blast
    then have "w = \<lfloor>x * 10 ^ d\<rfloor>" by (metis floor_of_int)
    with False tr sp w(1) show ?thesis by (simp add: toWei_def)
  next
    case (2 i f)
    then have sp: "js_split (CHR ''.'') (bn_toString bn v) = [i, f]" by (simp add: js_split_frac)
    show ?thesis using False tr sp parse_truncated [OF bn 2(2,3)] 2(4) by (simp add: toWei_def)
  qed
qed

lemma normalizeConfiguredAmount_eq:
  assumes "bn_laws bn val" "val v = Some x" "0 \<le> x"
  shows "normalizeConfiguredAmount bn v t = messageAmountFromLocal \<lfloor>x * 10 ^ token_decimals t\<rfloor> (token_scale t)"
  using toWei_truncates [OF assms] by (simp add: normalizeConfiguredAmount_def normalizeToCanonical_def)

lemma normalizeConfiguredAmount_mono:
  assumes bn: "bn_laws bn val" and "val v = Some x" "val v' = Some y" "0 \<le> x" "x \<le> y"
    and "normalizeConfiguredAmount bn v t = ret m" "normalizeConfiguredAmount bn v' t = ret m'"
  shows "m \<le> m'"
proof -
  have "\<lfloor>x * 10 ^ token_decimals t\<rfloor> \<le> \<lfloor>y * 10 ^ token_decimals t\<rfloor>"
    using assms(5) by (intro floor_mono) (simp add: mult_right_mono)
  then show ?thesis
    using assms(6,7) normalizeConfiguredAmount_eq [OF bn assms(2,4)]
      normalizeConfiguredAmount_eq [OF bn assms(3) order_trans [OF assms(4,5)]]
    by (metis messageAmountFromLocal_mono)
qed

lemma normalizeConfiguredAmount_nonneg: "normalizeConfiguredAmount bn v t = ret m \<Longrightarrow> 0 \<le> m"
  by (auto simp: normalizeConfiguredAmount_def normalizeToCanonical_def rbind_eq_Inr_iff
      dest: messageAmountFromLocal_nonneg)

section \<open>A concrete instance\<close>

text \<open>The laws hold of exact arithmetic on decimal literals.\<close>

fun ex_val :: "amount_value \<Rightarrow> rat option" where
  "ex_val (AmountString s) = decimal_value s"
| "ex_val (AmountNumber q) = (if q = 0 then Some 0 else None)"

definition ex_num :: "amount_value \<Rightarrow> rat" where
  "ex_num v = (case ex_val v of None \<Rightarrow> 0 | Some x \<Rightarrow> x)"

definition ex_bn :: bignumber_api where
  "ex_bn = \<lparr>bn_toString = (\<lambda>v. case v of AmountString s \<Rightarrow> s | AmountNumber q \<Rightarrow> ''0''),
     bn_lt = (\<lambda>a b. ex_num a < ex_num b),
     bn_times_floor = (\<lambda>n v. \<lfloor>of_int n * ex_num v\<rfloor>),
     parseUnits = (\<lambda>s d. case decimal_value s of None \<Rightarrow> throw (Thrown ''invalid decimal value'' s)
       | Some x \<Rightarrow> ret \<lfloor>x * 10 ^ d\<rfloor>)\<rparr>"

lemma decimal_integral:
  assumes "decimal_value s = Some x" "fraction_length s \<le> d"
  shows "of_int \<lfloor>x * 10 ^ d\<rfloor> = x * 10 ^ d"
  using assms(1)
proof (cases rule: decimal_value_cases)
  case 1
  then have "x * 10 ^ d = of_int (int (digits_val s * 10 ^ d))" by simp
  then show ?thesis by (simp only: floor_of_int)
next
  case (2 i f)
  then have "length f \<le> d" using assms(2) by (simp add: fraction_length_def js_split_frac)
  then have p: "(10::rat) ^ d = 10 ^ length f * 10 ^ (d - length f)" by (simp flip: power_add)
  have xl: "x * 10 ^ length f = of_nat (digits_val i) * 10 ^ length f + of_nat (digits_val f)"
    using 2(4) by (simp add: field_simps)
  have "x * 10 ^ d = x * 10 ^ length f * 10 ^ (d - length f)" by (simp add: p)
  also have "\<dots> = of_int (int (digits_val i * 10 ^ d + digits_val f * 10 ^ (d - length f)))"
    unfolding xl by (simp add: p algebra_simps)
  finally show ?thesis by (simp only: floor_of_int)
qed

lemma ex_bn_laws: "bn_laws ex_bn ex_val"
proof -
  have z: "decimal_value ''0'' = Some 0" by (simp add: decimal_value_def is_digit_def digits_val_def digit_val_def)
  have e: "decimal_value [] = Some 0" by (simp add: decimal_value_def digits_val_def)
  have "\<exists>w. parseUnits ex_bn s d = ret w \<and> of_int w = x * 10 ^ d"
    if "decimal_value s = Some x" "fraction_length s \<le> d" for s x d
    using decimal_integral [OF that] that by (simp add: ex_bn_def)
  moreover have "decimal_value (bn_toString ex_bn v) = Some x" if "ex_val v = Some x" for v x
    using that z by (cases v) (auto simp: ex_bn_def split: if_splits)
  moreover have "x = 0" if "ex_val v = Some x" "falsy_amount v" for v x
    using that e by (cases v) auto
  ultimately show ?thesis
    unfolding bn_laws_def by (auto simp: ex_bn_def ex_num_def)
qed

theorem toWei_truncates_witness:
  "ex_val (AmountString ''1.2345'') = Some (12345 / 10000) \<and> toWei ex_bn (AmountString ''1.2345'') 2 = ret 123"
proof -
  have v: "ex_val (AmountString ''1.2345'') = Some (12345 / 10000)"
    by (simp add: decimal_value_def is_digit_def digits_val_def digit_val_def)
  show ?thesis using v toWei_truncates [OF ex_bn_laws v, of 2] by (simp add: floor_eq_iff)
qed

lemma ex_vals:
  "decimal_value ''1'' = Some 1" "decimal_value ''2'' = Some 2"
  by (simp_all add: decimal_value_def is_digit_def digits_val_def digit_val_def)

lemma ex_normalize:
  "normalizeConfiguredAmount ex_bn (AmountString ''1'') ((ex_token c)\<lparr>token_decimals := 2\<rparr>) = ret 100"
  "normalizeConfiguredAmount ex_bn (AmountString ''2'') ((ex_token c)\<lparr>token_decimals := 2\<rparr>) = ret 200"
  using normalizeConfiguredAmount_eq [OF ex_bn_laws, of "AmountString ''1''" 1]
    normalizeConfiguredAmount_eq [OF ex_bn_laws, of "AmountString ''2''" 2]
  by (simp_all add: ex_vals ex_token_def messageAmountFromLocal_eq validScale_def DEFAULT_SCALE_def)

end
