(* ===== verification/Base_Strategy.thy ===== *)
theory Base_Strategy
  imports Amount_Laws
begin

text \<open>
  \<open>typescript/rebalancer/src/strategy/BaseStrategy.ts\<close>: the part of a rebalancing strategy that
  all strategies share. The abstract method \<open>getCategorizedBalances\<close> is an argument here, and
  the locale \<open>categorizer\<close> is the contract a strategy owes the base class.

  A run yields the metrics events it recorded, in order, and its result: an event recorded before
  a throw stays recorded. The log calls have no entry in the model.
\<close>

section \<open>State and constructor\<close>

record BaseStrategy =
  bs_name :: string
  bs_chains :: "chain list"
  bs_bridgeConfigs :: BridgeConfigs
  bs_metrics :: bool
  bs_tokensByChainName :: "(chain, Token) dict option"

datatype metric_event = RebalancerFailure | IntentCreated StrategyRoute string

type_synonym 'a run = "metric_event list \<times> 'a result"

definition new_BaseStrategy ::
    "string \<Rightarrow> chain list \<Rightarrow> BridgeConfigs \<Rightarrow> bool \<Rightarrow> (chain, Token) dict option \<Rightarrow> BaseStrategy result" where
  "new_BaseStrategy nm cs bridges metrics tokens =
     (if length cs < 2 then throw (Thrown ''At least two chains must be configured'' '''')
      else ret \<lparr>bs_name = nm, bs_chains = cs, bs_bridgeConfigs = bridges, bs_metrics = metrics,
        bs_tokensByChainName = tokens\<rparr>)"

definition getBridgeConfigForRoute :: "BaseStrategy \<Rightarrow> chain \<Rightarrow> chain \<Rightarrow> BridgeConfig result" where
  "getBridgeConfigForRoute st org dest = getBridgeConfig (bs_bridgeConfigs st) org dest"

section \<open>Balances\<close>

fun validateChains :: "chain list \<Rightarrow> RawBalances \<Rightarrow> unit result" where
  "validateChains [] raw = ret ()"
| "validateChains (c # cs) raw =
     (case map_of raw c of
        None \<Rightarrow> throw (Thrown ''Raw balance for chain not found'' c)
      | Some b \<Rightarrow> if b < 0 then throw (Thrown ''Raw balance for chain is negative'' c)
                  else validateChains cs raw)"

definition validateRawBalances :: "BaseStrategy \<Rightarrow> RawBalances \<Rightarrow> unit result" where
  "validateRawBalances st raw =
     (if length (bs_chains st) \<noteq> length (dict_keys raw)
      then throw (Thrown ''Config chains do not match raw balances chains length'' '''')
      else validateChains (bs_chains st) raw)"

text \<open>\<open>balanceOr0 m c\<close> is \<open>m[c] ?? 0n\<close>.\<close>

definition balanceOr0 :: "RawBalances \<Rightarrow> chain \<Rightarrow> int" where
  "balanceOr0 m c = (case map_of m c of None \<Rightarrow> 0 | Some v \<Rightarrow> v)"

definition reserveCollateral :: "RawBalances \<Rightarrow> Route list \<Rightarrow> RawBalances" where
  "reserveCollateral raw transfers =
     (if transfers = [] then raw
      else foldl (\<lambda>reserved t.
        AList.update (destination t) (balanceOr0 reserved (destination t) - amount t) reserved)
        raw transfers)"

definition simulatePendingStep :: "RawBalances \<Rightarrow> Route \<Rightarrow> RawBalances" where
  "simulatePendingStep sim r =
     (if executionMethod r = Some inventory then
        let total = amount r;
            delivered = (case deliveredAmount r of None \<Rightarrow> 0 | Some d \<Rightarrow> d);
            awaiting = (case awaitingDeliveryAmount r of None \<Rightarrow> 0 | Some a \<Rightarrow> a);
            destinationAdjustment = total - delivered - awaiting;
            sim1 = (if destinationAdjustment > 0
              then AList.update (destination r) (balanceOr0 sim (destination r) + destinationAdjustment) sim
              else sim);
            originAdjustment = total - delivered
        in if originAdjustment > 0
           then AList.update (origin r) (balanceOr0 sim1 (origin r) - originAdjustment) sim1
           else sim1
      else AList.update (destination r) (balanceOr0 sim (destination r) + amount r) sim)"

definition simulatePendingRebalances :: "RawBalances \<Rightarrow> Route list \<Rightarrow> RawBalances" where
  "simulatePendingRebalances raw pending =
     (if pending = [] then raw else foldl simulatePendingStep raw pending)"

definition simulateProposedStep :: "RawBalances \<Rightarrow> Route \<Rightarrow> RawBalances" where
  "simulateProposedStep sim r =
     (let sim1 = AList.update (origin r) (balanceOr0 sim (origin r) - amount r) sim
      in AList.update (destination r) (balanceOr0 sim1 (destination r) + amount r) sim1)"

definition simulateProposedRebalances :: "RawBalances \<Rightarrow> Route list \<Rightarrow> RawBalances" where
  "simulateProposedRebalances raw proposed =
     (if proposed = [] then raw else foldl simulateProposedStep raw proposed)"

section \<open>Routes\<close>

definition keepRoute :: "bignumber_api \<Rightarrow> BaseStrategy \<Rightarrow> RawBalances \<Rightarrow> StrategyRoute \<Rightarrow> bool result" where
  "keepRoute bn st actual r =
     (if balanceOr0 actual (sr_origin r) < sr_amount r then ret False
      else case bs_tokensByChainName st of
        None \<Rightarrow> ret True
      | Some tokens \<Rightarrow> (case map_of tokens (sr_origin r) of
          None \<Rightarrow> ret True
        | Some token \<Rightarrow>
            rbind (getBridgeConfigForRoute st (sr_origin r) (sr_destination r)) (\<lambda>bc.
              case bridgeMinAcceptedAmount bc of
                None \<Rightarrow> ret True
              | Some minAccepted \<Rightarrow>
                  rbind (normalizeConfiguredAmount bn minAccepted token) (\<lambda>minAmount.
                    ret (\<not> sr_amount r < minAmount)))))"

definition filterRoutes ::
    "bignumber_api \<Rightarrow> BaseStrategy \<Rightarrow> StrategyRoute list \<Rightarrow> RawBalances \<Rightarrow> StrategyRoute list result" where
  "filterRoutes bn st routes actual = rfilter (keepRoute bn st actual) routes"

definition totalAmount :: "Delta list \<Rightarrow> int" where
  "totalAmount ds = sum_list (map d_amount ds)"

definition scaleDelta :: "int \<Rightarrow> int \<Rightarrow> Delta \<Rightarrow> Delta result" where
  "scaleDelta totalSurplus totalDeficit d =
     rbind (bigint_div (d_amount d * totalSurplus) totalDeficit) (\<lambda>a. ret (d\<lparr>d_amount := a\<rparr>))"

definition scaleDeficits :: "int \<Rightarrow> int \<Rightarrow> Delta list \<Rightarrow> Delta list result" where
  "scaleDeficits totalSurplus totalDeficit ds =
     (if totalSurplus < totalDeficit then rmap (scaleDelta totalSurplus totalDeficit) ds else ret ds)"

definition largerFirst :: "Delta \<Rightarrow> Delta \<Rightarrow> int" where
  "largerFirst a b = (if d_amount a > d_amount b then -1 else 1)"

text \<open>
  The loop that pairs the first surplus with the first deficit. \<open>bc\<close> is
  \<open>getBridgeConfigForRoute\<close>. Each pass clears one of the two deltas, so the loop ends.
\<close>

function matchRoutes ::
    "(chain \<Rightarrow> chain \<Rightarrow> BridgeConfig result) \<Rightarrow> Delta list \<Rightarrow> Delta list \<Rightarrow> StrategyRoute list result" where
  "matchRoutes bc [] ds = ret []"
| "matchRoutes bc (s # ss) [] = ret []"
| "matchRoutes bc (s # ss) (d # ds) =
     (let transferAmount = (if d_amount s > d_amount d then d_amount d else d_amount s);
          d' = d_amount d - transferAmount;
          s' = d_amount s - transferAmount;
          ds' = (if d' \<le> 0 then ds else d\<lparr>d_amount := d'\<rparr> # ds);
          ss' = (if s' \<le> 0 then ss else s\<lparr>d_amount := s'\<rparr> # ss)
      in if transferAmount > 0
         then rbind (bc (d_chain s) (d_chain d)) (\<lambda>c.
                rbind (matchRoutes bc ss' ds') (\<lambda>rs.
                  ret (createStrategyRoute c (d_chain s) (d_chain d) transferAmount # rs)))
         else matchRoutes bc ss' ds')"
  by pat_completeness auto
termination
  by (relation "measure (\<lambda>(bc, ss, ds). length ss + length ds)") (auto split: if_splits)

text \<open>From the categorized balances on: scale, sort, match, filter, record.\<close>

definition planRoutes ::
    "bignumber_api \<Rightarrow> BaseStrategy \<Rightarrow> (Delta list \<Rightarrow> Delta list) \<Rightarrow> RawBalances \<Rightarrow> Delta list
      \<Rightarrow> Delta list \<Rightarrow> StrategyRoute list run" where
  "planRoutes bn st sortSurpluses actual surpluses deficits =
     (let totalSurplus = totalAmount surpluses;
          totalDeficit = totalAmount deficits;
          failure = (if totalSurplus < totalDeficit \<and> bs_metrics st then [RebalancerFailure] else []);
          routes = rbind (scaleDeficits totalSurplus totalDeficit deficits) (\<lambda>scaled.
            rbind (matchRoutes (getBridgeConfigForRoute st) (sortSurpluses surpluses)
                     (js_sort largerFirst scaled)) (\<lambda>rs.
            filterRoutes bn st rs actual))
      in case routes of
           Inl e \<Rightarrow> (failure, Inl e)
         | Inr kept \<Rightarrow>
             (failure @ (if bs_metrics st then map (\<lambda>r. IntentCreated r (bs_name st)) kept else []), Inr kept))"

definition ctxPendingRebalances :: "InflightContext option \<Rightarrow> Route list" where
  "ctxPendingRebalances ctx = (case ctx of None \<Rightarrow> [] | Some c \<Rightarrow> pendingRebalances c)"

definition ctxPendingTransfers :: "InflightContext option \<Rightarrow> Route list" where
  "ctxPendingTransfers ctx = (case ctx of None \<Rightarrow> [] | Some c \<Rightarrow> pendingTransfers c)"

definition ctxProposedRebalances :: "InflightContext option \<Rightarrow> StrategyRoute list" where
  "ctxProposedRebalances ctx = (case ctx of None \<Rightarrow> [] | Some c \<Rightarrow>
     (case proposedRebalances c of None \<Rightarrow> [] | Some p \<Rightarrow> p))"

type_synonym categorize = "RawBalances \<Rightarrow> Route list \<Rightarrow> StrategyRoute list \<Rightarrow> (Delta list \<times> Delta list) result"

definition getRebalancingRoutes ::
    "bignumber_api \<Rightarrow> BaseStrategy \<Rightarrow> categorize \<Rightarrow> RawBalances \<Rightarrow> InflightContext option
      \<Rightarrow> StrategyRoute list run" where
  "getRebalancingRoutes bn st getCategorizedBalances raw ctx =
     (let categorized = rbind (validateRawBalances st raw) (\<lambda>_.
            getCategorizedBalances (reserveCollateral raw (ctxPendingTransfers ctx))
              (ctxPendingRebalances ctx) (ctxProposedRebalances ctx))
      in case categorized of
           Inl e \<Rightarrow> ([], Inl e)
         | Inr (surpluses, deficits) \<Rightarrow>
             planRoutes bn st (js_sort largerFirst) raw surpluses deficits)"

text \<open>
  The strategies' own code: the sum of the configured chains' balances, and the loop over the
  chains that pushes at most one delta per chain. Reading a missing balance into a sum throws.
\<close>

definition sumBalances :: "chain list \<Rightarrow> RawBalances \<Rightarrow> int result" where
  "sumBalances cs sim =
     rfold (\<lambda>sum c. case map_of sim c of None \<Rightarrow> throw TypeError | Some b \<Rightarrow> ret (sum + b)) 0 cs"

datatype balance_class = Surplus int | Deficit int | OnTarget

definition pushDelta :: "Delta list \<times> Delta list \<Rightarrow> chain \<Rightarrow> balance_class \<Rightarrow> Delta list \<times> Delta list" where
  "pushDelta acc c k =
     (case k of
        Surplus a \<Rightarrow> (fst acc @ [\<lparr>d_chain = c, d_amount = a\<rparr>], snd acc)
      | Deficit a \<Rightarrow> (fst acc, snd acc @ [\<lparr>d_chain = c, d_amount = a\<rparr>])
      | OnTarget \<Rightarrow> acc)"

definition categorizeBy ::
    "(chain \<Rightarrow> balance_class result) \<Rightarrow> chain list \<Rightarrow> (Delta list \<times> Delta list) result" where
  "categorizeBy f cs = rfold (\<lambda>acc c. rbind (f c) (\<lambda>k. ret (pushDelta acc c k))) ([], []) cs"

text \<open>The method the strategies that read token amounts have in common.\<close>

definition getTokenByChainName :: "BaseStrategy \<Rightarrow> chain \<Rightarrow> Token result" where
  "getTokenByChainName st c =
     (case bs_tokensByChainName st of
        None \<Rightarrow> throw TypeError
      | Some tokens \<Rightarrow> (case map_of tokens c of
          None \<Rightarrow> throw (Thrown ''Token not found for chain'' c)
        | Some t \<Rightarrow> ret t))"

section \<open>Simulated balances\<close>

lemma balanceOr0_update [simp]:
  "balanceOr0 (AList.update k v m) c = (if c = k then v else balanceOr0 m c)"
  by (simp add: balanceOr0_def)

definition inflowTo :: "chain \<Rightarrow> Route list \<Rightarrow> int" where
  "inflowTo c rs = sum_list (map amount (filter (\<lambda>r. destination r = c) rs))"

definition outflowFrom :: "chain \<Rightarrow> Route list \<Rightarrow> int" where
  "outflowFrom c rs = sum_list (map amount (filter (\<lambda>r. origin r = c) rs))"

lemma flow_simps [simp]:
  "inflowTo c [] = 0" "outflowFrom c [] = 0"
  "inflowTo c (r # rs) = (if destination r = c then amount r else 0) + inflowTo c rs"
  "outflowFrom c (r # rs) = (if origin r = c then amount r else 0) + outflowFrom c rs"
  by (simp_all add: inflowTo_def outflowFrom_def)

lemma balanceOr0_reserve:
  "balanceOr0 (foldl (\<lambda>m t. AList.update (destination t) (balanceOr0 m (destination t) - amount t) m) raw ts) c
     = balanceOr0 raw c - inflowTo c ts"
  by (induction ts arbitrary: raw) auto

lemma reserve_balance: "balanceOr0 (reserveCollateral raw ts) c = balanceOr0 raw c - inflowTo c ts"
  by (simp add: reserveCollateral_def balanceOr0_reserve)

text \<open>
  Reserving collateral subtracts from each chain's balance exactly the amounts of the pending
  transfers that will pay out there, and from no other chain.
\<close>

theorem reserveCollateral_balance:
  "balanceOr0 (reserveCollateral raw ts) c = balanceOr0 raw c - inflowTo c ts"
  by (rule reserve_balance)

lemma balanceOr0_proposed:
  "balanceOr0 (foldl simulateProposedStep raw rs) c = balanceOr0 raw c + inflowTo c rs - outflowFrom c rs"
  by (induction rs arbitrary: raw) (auto simp: simulateProposedStep_def Let_def)

lemma simulateProposed_balance:
  "balanceOr0 (simulateProposedRebalances raw rs) c = balanceOr0 raw c + inflowTo c rs - outflowFrom c rs"
  by (simp add: simulateProposedRebalances_def balanceOr0_proposed)

text \<open>What one pending rebalance adds to a chain, by execution method.\<close>

definition pendingEffect :: "chain \<Rightarrow> Route \<Rightarrow> int" where
  "pendingEffect c r =
     (let delivered = (case deliveredAmount r of None \<Rightarrow> 0 | Some d \<Rightarrow> d);
          awaiting = (case awaitingDeliveryAmount r of None \<Rightarrow> 0 | Some a \<Rightarrow> a)
      in if executionMethod r = Some inventory
         then (if destination r = c then max 0 (amount r - delivered - awaiting) else 0)
            - (if origin r = c then max 0 (amount r - delivered) else 0)
         else (if destination r = c then amount r else 0))"

lemma balanceOr0_pendingStep:
  "balanceOr0 (simulatePendingStep sim r) c = balanceOr0 sim c + pendingEffect c r"
  by (auto simp: simulatePendingStep_def pendingEffect_def Let_def)

lemma pending_balance_sum:
  "balanceOr0 (simulatePendingRebalances raw rs) c
     = balanceOr0 raw c + sum_list (map (pendingEffect c) rs)"
proof -
  have "balanceOr0 (foldl simulatePendingStep raw rs) c
     = balanceOr0 raw c + sum_list (map (pendingEffect c) rs)"
    by (induction rs arbitrary: raw) (simp_all add: balanceOr0_pendingStep)
  then show ?thesis by (simp add: simulatePendingRebalances_def)
qed

text \<open>
  Simulating pending rebalances adds, per route, the whole amount to the destination of a
  movable-collateral route (its origin is already debited on chain), and for an inventory route
  what is neither delivered nor awaiting delivery to the destination and minus what is not yet
  delivered to the origin, never a negative correction of either.
\<close>

theorem simulatePending_balance:
  "balanceOr0 (simulatePendingRebalances raw rs) c
     = balanceOr0 raw c + sum_list (map (pendingEffect c) rs)"
  by (rule pending_balance_sum)

text \<open>No simulation drops a chain.\<close>

lemma keys_update_mono: "map_of m c \<noteq> None \<Longrightarrow> map_of (AList.update k v m) c \<noteq> None"
  by simp

lemma reserveCollateral_keeps:
  "map_of raw c \<noteq> None \<Longrightarrow> map_of (reserveCollateral raw ts) c \<noteq> None"
proof -
  have "map_of m c \<noteq> None \<Longrightarrow> map_of (foldl (\<lambda>m t. AList.update (destination t)
      (balanceOr0 m (destination t) - amount t) m) m ts) c \<noteq> None" for m
    by (induction ts arbitrary: m) (simp_all del: not_None_eq)
  then show "map_of raw c \<noteq> None \<Longrightarrow> ?thesis" by (simp add: reserveCollateral_def del: not_None_eq)
qed

lemma simulatePendingStep_keeps:
  "map_of m c \<noteq> None \<Longrightarrow> map_of (simulatePendingStep m r) c \<noteq> None"
  by (auto simp: simulatePendingStep_def Let_def)

lemma simulatePending_keeps:
  "map_of raw c \<noteq> None \<Longrightarrow> map_of (simulatePendingRebalances raw ts) c \<noteq> None"
proof -
  have "map_of m c \<noteq> None \<Longrightarrow> map_of (foldl simulatePendingStep m ts) c \<noteq> None" for m
    by (induction ts arbitrary: m) (simp_all add: simulatePendingStep_keeps del: not_None_eq)
  then show "map_of raw c \<noteq> None \<Longrightarrow> ?thesis"
    by (simp add: simulatePendingRebalances_def del: not_None_eq)
qed

lemma simulateProposed_keeps:
  "map_of raw c \<noteq> None \<Longrightarrow> map_of (simulateProposedRebalances raw ts) c \<noteq> None"
proof -
  have "map_of m c \<noteq> None \<Longrightarrow> map_of (foldl simulateProposedStep m ts) c \<noteq> None" for m
    by (induction ts arbitrary: m) (simp_all add: simulateProposedStep_def Let_def del: not_None_eq)
  then show "map_of raw c \<noteq> None \<Longrightarrow> ?thesis"
    by (simp add: simulateProposedRebalances_def del: not_None_eq)
qed

lemma validateChains_ret_iff:
  "validateChains cs raw = ret u \<longleftrightarrow> (\<forall>c \<in> set cs. \<exists>b. map_of raw c = Some b \<and> 0 \<le> b)"
  by (induction cs) (auto split: option.splits)

lemma validateRawBalances_ret_iff:
  "validateRawBalances st raw = ret u \<longleftrightarrow>
     length (bs_chains st) = length raw
     \<and> (\<forall>c \<in> set (bs_chains st). \<exists>b. map_of raw c = Some b \<and> 0 \<le> b)"
  by (auto simp: validateRawBalances_def validateChains_ret_iff)

section \<open>Matching surpluses with deficits\<close>

definition routeOut :: "chain \<Rightarrow> StrategyRoute list \<Rightarrow> int" where
  "routeOut c rs = sum_list (map sr_amount (filter (\<lambda>r. sr_origin r = c) rs))"

definition routeIn :: "chain \<Rightarrow> StrategyRoute list \<Rightarrow> int" where
  "routeIn c rs = sum_list (map sr_amount (filter (\<lambda>r. sr_destination r = c) rs))"

definition routeTotal :: "StrategyRoute list \<Rightarrow> int" where
  "routeTotal rs = sum_list (map sr_amount rs)"

definition chainAmount :: "chain \<Rightarrow> Delta list \<Rightarrow> int" where
  "chainAmount c ds = sum_list (map d_amount (filter (\<lambda>d. d_chain d = c) ds))"

lemma route_sums_simps [simp]:
  "routeOut c [] = 0" "routeIn c [] = 0" "routeTotal [] = 0"
  "routeOut c (r # rs) = (if sr_origin r = c then sr_amount r else 0) + routeOut c rs"
  "routeIn c (r # rs) = (if sr_destination r = c then sr_amount r else 0) + routeIn c rs"
  "routeTotal (r # rs) = sr_amount r + routeTotal rs"
  by (simp_all add: routeOut_def routeIn_def routeTotal_def)

lemma routeOut_absent: "c \<notin> sr_origin ` set rs \<Longrightarrow> routeOut c rs = 0"
  by (induction rs) auto

lemma delta_sums_simps [simp]:
  "totalAmount [] = 0" "totalAmount (d # ds) = d_amount d + totalAmount ds"
  "chainAmount c [] = 0"
  "chainAmount c (d # ds) = (if d_chain d = c then d_amount d else 0) + chainAmount c ds"
  by (simp_all add: totalAmount_def chainAmount_def)

abbreviation nonneg_deltas :: "Delta list \<Rightarrow> bool" where
  "nonneg_deltas ds \<equiv> \<forall>d \<in> set ds. 0 \<le> d_amount d"

lemma totalAmount_nonneg: "nonneg_deltas ds \<Longrightarrow> 0 \<le> totalAmount ds"
  by (induction ds) auto

lemma chainAmount_nonneg: "nonneg_deltas ds \<Longrightarrow> 0 \<le> chainAmount c ds"
  by (induction ds) auto

lemma chainAmount_distinct:
  "distinct (map d_chain ds) \<Longrightarrow> d \<in> set ds \<Longrightarrow> chainAmount (d_chain d) ds = d_amount d"
proof (induction ds)
  case (Cons x xs)
  have z: "d_chain x \<notin> d_chain ` set xs \<Longrightarrow> chainAmount (d_chain x) xs = 0"
    by (induction xs) auto
  from Cons z show ?case by auto
qed simp

lemma chainAmount_absent: "c \<notin> d_chain ` set ds \<Longrightarrow> chainAmount c ds = 0"
  by (induction ds) auto

text \<open>
  Everything the loop guarantees, by computation induction: positive routes between a surplus and
  a deficit chain, no surplus overdrawn, no deficit overfilled, and nothing left to move.
\<close>

definition matched :: "Delta list \<Rightarrow> Delta list \<Rightarrow> StrategyRoute list \<Rightarrow> bool" where
  "matched ss ds rs \<longleftrightarrow>
     (\<forall>r \<in> set rs. 0 < sr_amount r \<and> sr_origin r \<in> d_chain ` set ss
        \<and> sr_destination r \<in> d_chain ` set ds)
   \<and> (\<forall>c. routeOut c rs \<le> chainAmount c ss)
   \<and> (\<forall>c. routeIn c rs \<le> chainAmount c ds)
   \<and> routeTotal rs = min (totalAmount ss) (totalAmount ds)
   \<and> length rs \<le> length ss + length ds"

lemma matched_step:
  assumes nn: "nonneg_deltas (s # ss)" "nonneg_deltas (d # ds)"
    and t: "t = min (d_amount s) (d_amount d)"
    and m: "matched (if d_amount s - t \<le> 0 then ss else s\<lparr>d_amount := d_amount s - t\<rparr> # ss)
       (if d_amount d - t \<le> 0 then ds else d\<lparr>d_amount := d_amount d - t\<rparr> # ds) rs"
  shows "if t > 0 then matched (s # ss) (d # ds) (createStrategyRoute c (d_chain s) (d_chain d) t # rs)
     else matched (s # ss) (d # ds) rs"
proof -
  let ?ss = "if d_amount s - t \<le> 0 then ss else s\<lparr>d_amount := d_amount s - t\<rparr> # ss"
  let ?ds = "if d_amount d - t \<le> 0 then ds else d\<lparr>d_amount := d_amount d - t\<rparr> # ds"
  let ?rs = "if t > 0 then createStrategyRoute c (d_chain s) (d_chain d) t # rs else rs"
  have tot: "0 \<le> totalAmount ss" "0 \<le> totalAmount ds" and t0: "0 \<le> t"
    using nn t by (auto intro: totalAmount_nonneg)
  have cases: "d_amount s = t \<or> t < d_amount s" "d_amount d = t \<or> t < d_amount d"
      "d_amount s = t \<or> d_amount d = t"
    using t by linarith+
  have out: "routeOut ch rs \<le> chainAmount ch ?ss" and inn: "routeIn ch rs \<le> chainAmount ch ?ds" for ch
    using m by (simp_all add: matched_def)
  have "routeOut ch ?rs \<le> chainAmount ch (s # ss)" for ch
    using out [of ch] cases t0 by (auto split: if_splits)
  moreover have "routeIn ch ?rs \<le> chainAmount ch (d # ds)" for ch
    using inn [of ch] cases t0 by (auto split: if_splits)
  moreover have "\<forall>r \<in> set ?rs. 0 < sr_amount r \<and> sr_origin r \<in> d_chain ` set (s # ss)
      \<and> sr_destination r \<in> d_chain ` set (d # ds)"
    using m by (auto simp: matched_def split: if_splits)
  moreover have "routeTotal ?rs = min (totalAmount (s # ss)) (totalAmount (d # ds))"
    using m cases t0 tot by (auto simp: matched_def split: if_splits)
  moreover have "length ?rs \<le> length (s # ss) + length (d # ds)"
    using m cases by (auto simp: matched_def split: if_splits)
  ultimately have "matched (s # ss) (d # ds) ?rs" unfolding matched_def by blast
  then show ?thesis by (simp split: if_splits)
qed

lemma matchRoutes_matched:
  assumes "matchRoutes bc ss ds = ret rs" "nonneg_deltas ss" "nonneg_deltas ds"
  shows "matched ss ds rs"
  using assms
proof (induction bc ss ds arbitrary: rs rule: matchRoutes.induct)
  case (1 bc ds)
  then show ?case
    by (auto simp: matched_def min_def intro: chainAmount_nonneg dest: totalAmount_nonneg)
next
  case (2 bc s ss)
  then have "0 \<le> totalAmount (s # ss)" by (intro totalAmount_nonneg) simp
  with 2 show ?case
    by (auto simp: matched_def min_def intro!: chainAmount_nonneg dest: totalAmount_nonneg
        simp del: delta_sums_simps(2,4))
next
  case (3 bc s ss d ds)
  define t where "t = (if d_amount s > d_amount d then d_amount d else d_amount s)"
  define ss' where "ss' = (if d_amount s - t \<le> 0 then ss else s\<lparr>d_amount := d_amount s - t\<rparr> # ss)"
  define ds' where "ds' = (if d_amount d - t \<le> 0 then ds else d\<lparr>d_amount := d_amount d - t\<rparr> # ds)"
  have teq: "t = min (d_amount s) (d_amount d)" by (auto simp: t_def)
  have nn: "nonneg_deltas ss'" "nonneg_deltas ds'" using 3(4,5) by (auto simp: ss'_def ds'_def)
  have run: "(if t > 0 then rbind (bc (d_chain s) (d_chain d)) (\<lambda>c. rbind (matchRoutes bc ss' ds')
      (\<lambda>rs. ret (createStrategyRoute c (d_chain s) (d_chain d) t # rs))) else matchRoutes bc ss' ds') = ret rs"
    using 3(3) by (simp add: t_def ss'_def ds'_def Let_def cong: if_cong)
  show ?case
  proof (cases "t > 0")
    case True
    with run obtain c rs' where c: "matchRoutes bc ss' ds' = ret rs'"
        "bc (d_chain s) (d_chain d) = ret c"
        "rs = createStrategyRoute c (d_chain s) (d_chain d) t # rs'"
      by (auto simp: rbind_eq_Inr_iff)
    have "matched ss' ds' rs'"
      using 3(1) [OF t_def refl refl ds'_def ss'_def True c(1) nn] .
    then show ?thesis
      using matched_step [OF 3(4,5) teq, of rs' c] True c(3) unfolding ss'_def ds'_def by simp
  next
    case False
    have "matched ss' ds' rs"
      using 3(2) [OF t_def refl refl ds'_def ss'_def False _ nn] run False by simp
    then show ?thesis
      using matched_step [OF 3(4,5) teq, of rs] False unfolding ss'_def ds'_def by simp
  qed
qed

lemma matchRoutes_returns:
  assumes "\<forall>s \<in> set ss. \<forall>d \<in> set ds. \<exists>c. bc (d_chain s) (d_chain d) = ret c"
  shows "\<exists>rs. matchRoutes bc ss ds = ret rs"
  using assms
proof (induction bc ss ds rule: matchRoutes.induct)
  case (3 bc s ss d ds)
  define t where "t = (if d_amount s > d_amount d then d_amount d else d_amount s)"
  define ss' where "ss' = (if d_amount s - t \<le> 0 then ss else s\<lparr>d_amount := d_amount s - t\<rparr> # ss)"
  define ds' where "ds' = (if d_amount d - t \<le> 0 then ds else d\<lparr>d_amount := d_amount d - t\<rparr> # ds)"
  have ok: "\<forall>s \<in> set ss'. \<forall>d \<in> set ds'. \<exists>c. bc (d_chain s) (d_chain d) = ret c"
    using 3(3) by (auto simp: ss'_def ds'_def)
  have "\<exists>rs. matchRoutes bc ss' ds' = ret rs"
    using 3(1) [OF t_def refl refl ds'_def ss'_def _ ok] 3(2) [OF t_def refl refl ds'_def ss'_def _ ok]
    by blast
  moreover obtain c where "bc (d_chain s) (d_chain d) = ret c" using 3(3) by auto
  moreover have "matchRoutes bc (s # ss) (d # ds) = (if t > 0 then rbind (bc (d_chain s) (d_chain d))
      (\<lambda>c. rbind (matchRoutes bc ss' ds') (\<lambda>rs. ret (createStrategyRoute c (d_chain s) (d_chain d) t # rs)))
      else matchRoutes bc ss' ds')"
    by (simp add: t_def ss'_def ds'_def Let_def cong: if_cong)
  ultimately show ?case by auto
qed auto

text \<open>The surpluses are used up in their order: a later one sends only once the earlier ones are empty.\<close>

lemma matchRoutes_in_order:
  assumes "matchRoutes bc (xs @ ys) ds = ret rs" and "distinct (map d_chain (xs @ ys))"
    and "nonneg_deltas (xs @ ys)" "nonneg_deltas ds"
    and "r \<in> set rs" "sr_origin r \<in> d_chain ` set ys"
  shows "\<forall>x \<in> set xs. routeOut (d_chain x) rs = d_amount x"
  using assms
proof (induction bc "xs @ ys" ds arbitrary: xs rs rule: matchRoutes.induct)
  case (3 bc s ss d ds)
  show ?case
  proof (cases xs)
    case (Cons x xs')
    then have s: "x = s" "ss = xs' @ ys" using 3(3) by simp_all
    define t where "t = (if d_amount s > d_amount d then d_amount d else d_amount s)"
    define zs where "zs = (if d_amount s - t \<le> 0 then xs' else s\<lparr>d_amount := d_amount s - t\<rparr> # xs')"
    define ds' where "ds' = (if d_amount d - t \<le> 0 then ds else d\<lparr>d_amount := d_amount d - t\<rparr> # ds)"
    have zs: "(if d_amount s - t \<le> 0 then ss else s\<lparr>d_amount := d_amount s - t\<rparr> # ss) = zs @ ys"
      by (simp add: zs_def s)
    have t0: "0 \<le> t" using 3(6,7) Cons s by (auto simp: t_def)
    have hyp: "distinct (map d_chain (zs @ ys))" "nonneg_deltas (zs @ ys)" "nonneg_deltas ds'"
      using 3(5-7) Cons s by (auto simp: zs_def ds'_def)
    have run: "(if t > 0 then rbind (bc (d_chain s) (d_chain d)) (\<lambda>c. rbind (matchRoutes bc (zs @ ys) ds')
        (\<lambda>rs. ret (createStrategyRoute c (d_chain s) (d_chain d) t # rs))) else matchRoutes bc (zs @ ys) ds') = ret rs"
      using 3(4) unfolding 3(3) [symmetric] zs [symmetric] by (simp add: t_def ds'_def Let_def cong: if_cong)
    have sy: "d_chain s \<notin> d_chain ` set ys" "d_chain s \<notin> d_chain ` set xs'" using 3(5) Cons s by auto
    obtain rs' where rs': "matchRoutes bc (zs @ ys) ds' = ret rs'" "r \<in> set rs'"
        "\<And>c. routeOut c rs = (if c = d_chain s then t else 0) + routeOut c rs'"
      using run 3(8,9) sy(1) t0 by (cases "t > 0") (force simp: rbind_eq_Inr_iff)+
    have IH: "\<forall>z \<in> set zs. routeOut (d_chain z) rs' = d_amount z"
      using 3(1) [OF t_def refl refl ds'_def zs [symmetric] _ rs'(1) hyp rs'(2) 3(9)]
        3(2) [OF t_def refl refl ds'_def zs [symmetric] _ rs'(1) hyp rs'(2) 3(9)] by blast
    have m: "matched (zs @ ys) ds' rs'" by (rule matchRoutes_matched [OF rs'(1) hyp(2,3)])
    have "routeOut (d_chain s) rs = d_amount s"
    proof (cases "d_amount s - t \<le> 0")
      case True
      then have "d_chain s \<notin> sr_origin ` set rs'" "t = d_amount s"
        using m sy by (auto simp: matched_def zs_def t_def split: if_splits)
      then show ?thesis using rs'(3) by (simp add: routeOut_absent)
    next
      case False
      then have "routeOut (d_chain s) rs' = d_amount s - t" using IH by (simp add: zs_def)
      then show ?thesis using rs'(3) by simp
    qed
    moreover have "\<forall>z \<in> set xs'. routeOut (d_chain z) rs = d_amount z"
    proof
      fix z assume z: "z \<in> set xs'"
      then have "d_chain z \<noteq> d_chain s" using sy(2) by (metis image_eqI)
      then show "routeOut (d_chain z) rs = d_amount z" using IH rs'(3) z by (simp add: zs_def split: if_splits)
    qed
    ultimately show ?thesis using Cons s by simp
  qed simp
next
  case (2 bc s ss)
  have "matchRoutes bc (s # ss) [] = ret rs" using 2(2) unfolding 2(1) .
  then have "rs = []" by simp
  with 2(6) show ?case by simp
qed simp

subsection \<open>Full transfers\<close>

lemma routeTotal_sum:
  "finite A \<Longrightarrow> sr_destination ` set rs \<subseteq> A \<Longrightarrow> routeTotal rs = (\<Sum>c \<in> A. routeIn c rs)"
  by (induction rs) (simp_all add: sum.distrib)

lemma totalAmount_sum:
  "finite A \<Longrightarrow> d_chain ` set ds \<subseteq> A \<Longrightarrow> totalAmount ds = (\<Sum>c \<in> A. chainAmount c ds)"
  by (induction ds) (simp_all add: sum.distrib)

lemma routeIn_exact:
  assumes "\<And>c. routeIn c rs \<le> chainAmount c ds" and "routeTotal rs = totalAmount ds"
    and "sr_destination ` set rs \<subseteq> d_chain ` set ds"
  shows "routeIn c rs = chainAmount c ds"
proof (cases "c \<in> d_chain ` set ds")
  case True
  let ?A = "d_chain ` set ds"
  have "(\<Sum>c \<in> ?A. chainAmount c ds - routeIn c rs) = 0"
    using routeTotal_sum [of ?A rs] totalAmount_sum [of ?A ds] assms(2,3) by (simp add: sum_subtractf)
  then have "\<forall>c \<in> ?A. chainAmount c ds - routeIn c rs = 0"
    using assms(1) by (subst (asm) sum_nonneg_eq_0_iff) auto
  with True show ?thesis by auto
next
  case False
  then have "filter (\<lambda>r. sr_destination r = c) rs = []"
    using assms(3) by (auto simp: filter_empty_conv)
  then show ?thesis using False by (simp add: routeIn_def chainAmount_absent)
qed

section \<open>Scaling\<close>

lemma scaleDelta_ret:
  "scaleDelta tS tD d = ret d' \<Longrightarrow> d_chain d' = d_chain d \<and> tD \<noteq> 0 \<and> d_amount d' = d_amount d * tS sdiv tD"
  by (auto simp: scaleDelta_def rbind_eq_Inr_iff)

lemma rmap_scaleDelta:
  assumes "rmap (scaleDelta tS tD) ds = ret ds'" "nonneg_deltas ds" "0 \<le> tS" "0 < tD"
  shows "map d_chain ds' = map d_chain ds \<and> nonneg_deltas ds' \<and> tD * totalAmount ds' \<le> totalAmount ds * tS
    \<and> (tS \<le> tD \<longrightarrow> (\<forall>c. chainAmount c ds' \<le> chainAmount c ds))"
  using assms(1,2)
proof (induction ds arbitrary: ds')
  case (Cons d ds)
  from Cons.prems(1) obtain e es where e: "scaleDelta tS tD d = ret e"
      "rmap (scaleDelta tS tD) ds = ret es" "ds' = e # es"
    by (auto simp: rbind_eq_Inr_iff)
  have d0: "0 \<le> d_amount d" using Cons.prems(2) by simp
  have ea: "d_chain e = d_chain d" "d_amount e = d_amount d * tS div tD"
    using scaleDelta_ret [OF e(1)] d0 assms(3,4) by (simp_all add: sdiv_nonneg)
  have mul: "tD * d_amount e \<le> d_amount d * tS"
    unfolding ea(2) using mult_div_mod_eq [of tD "d_amount d * tS"]
      pos_mod_sign [OF assms(4), of "d_amount d * tS"] by linarith
  have "0 \<le> d_amount e" using ea(2) d0 assms(3,4) by (simp add: pos_imp_zdiv_nonneg_iff)
  moreover have "d_amount e \<le> d_amount d" if "tS \<le> tD"
  proof -
    have "d_amount d * tS \<le> d_amount d * tD" using that d0 by (simp add: mult_left_mono)
    then have "d_amount d * tS div tD \<le> d_amount d * tD div tD" using assms(4) by (rule zdiv_mono1)
    then show ?thesis using ea(2) assms(4) by simp
  qed
  ultimately show ?case using Cons.IH [OF e(2)] Cons.prems(2) mul ea(1) e(3)
    by (auto simp: algebra_simps intro: add_mono)
qed simp

lemma scaleDeficits_ret:
  assumes sc: "scaleDeficits tS (totalAmount ds) ds = ret ds'" and nn: "nonneg_deltas ds" and t0: "0 \<le> tS"
  shows "map d_chain ds' = map d_chain ds \<and> nonneg_deltas ds' \<and> totalAmount ds' \<le> max tS 0
    \<and> (\<forall>c. chainAmount c ds' \<le> chainAmount c ds)"
proof (cases "tS < totalAmount ds")
  case True
  let ?tD = "totalAmount ds"
  have "rmap (scaleDelta tS ?tD) ds = ret ds'" using sc True by (simp add: scaleDeficits_def)
  note r = rmap_scaleDelta [OF this nn t0]
  have "?tD * totalAmount ds' \<le> ?tD * tS" using r t0 True by (auto simp: mult.commute)
  then have "totalAmount ds' \<le> tS" using t0 True by (auto simp: mult_le_cancel_left)
  with r t0 True show ?thesis by auto
next
  case False
  with sc nn show ?thesis by (auto simp: scaleDeficits_def)
qed

section \<open>The planned routes\<close>

lemma keepRoute_covered: "keepRoute bn st actual r = ret True \<Longrightarrow> sr_amount r \<le> balanceOr0 actual (sr_origin r)"
  by (auto simp: keepRoute_def split: if_splits)

lemma routeOut_filter_le:
  "\<forall>r \<in> set rs. 0 < sr_amount r \<Longrightarrow> routeOut c (filter P rs) \<le> routeOut c rs"
  by (induction rs) auto

lemma routeIn_filter_le:
  "\<forall>r \<in> set rs. 0 < sr_amount r \<Longrightarrow> routeIn c (filter P rs) \<le> routeIn c rs"
  by (induction rs) auto

lemma chainAmount_mset: "mset xs = mset ys \<Longrightarrow> chainAmount c xs = chainAmount c ys"
  unfolding chainAmount_def by (rule sum_list_mset_cong) (simp add: mset_filter)

lemma totalAmount_mset: "mset xs = mset ys \<Longrightarrow> totalAmount xs = totalAmount ys"
  unfolding totalAmount_def by (rule sum_list_mset_cong)

lemma matched_perm:
  assumes "matched xs ys rs" "mset xs = mset ss" "mset ys = mset ds"
  shows "matched ss ds rs"
proof -
  have "set xs = set ss" "set ys = set ds" "length xs = length ss" "length ys = length ds"
    using assms(2,3) mset_eq_setD mset_eq_length by blast+
  then show ?thesis
    using assms(1) chainAmount_mset [OF assms(2)] chainAmount_mset [OF assms(3)]
      totalAmount_mset [OF assms(2)] totalAmount_mset [OF assms(3)]
    by (simp add: matched_def)
qed

text \<open>The plan behind a successful run: scaled deficits and the routes before filtering.\<close>

lemma planRoutes_ret:
  assumes "planRoutes bn st srt actual ss ds = (ev, ret kept)"
    and perm: "mset (srt ss) = mset ss" and nn: "nonneg_deltas ss" "nonneg_deltas ds"
  obtains ds' rs where "scaleDeficits (totalAmount ss) (totalAmount ds) ds = ret ds'"
    and "matched ss ds' rs" and "kept = filter (\<lambda>r. keepRoute bn st actual r = ret True) rs"
proof -
  from assms(1) obtain ds' rs where d: "scaleDeficits (totalAmount ss) (totalAmount ds) ds = ret ds'"
    and m: "matchRoutes (getBridgeConfigForRoute st) (srt ss) (js_sort largerFirst ds') = ret rs"
    and f: "filterRoutes bn st rs actual = ret kept"
    by (auto simp: planRoutes_def Let_def rbind_eq_Inr_iff split: sum.splits)
  have "nonneg_deltas ds'" using scaleDeficits_ret [OF d nn(2) totalAmount_nonneg [OF nn(1)]] by blast
  moreover have "nonneg_deltas (srt ss)" using nn(1) perm by (metis mset_eq_setD)
  ultimately have "matched (srt ss) (js_sort largerFirst ds') rs"
    using matchRoutes_matched [OF m] by simp
  then have "matched ss ds' rs" by (rule matched_perm) (simp_all add: perm)
  moreover have "kept = filter (\<lambda>r. keepRoute bn st actual r = ret True) rs"
    using f by (simp add: filterRoutes_def rfilter_eq_Inr_iff)
  ultimately show ?thesis using that d by blast
qed

text \<open>
  What holds of every planned route, whatever the deltas: it is positive, covered by the balance,
  made from the bridge configuration of its two chains, and not below the amount its bridge accepts.
\<close>

definition sound_route :: "bignumber_api \<Rightarrow> BaseStrategy \<Rightarrow> RawBalances \<Rightarrow> StrategyRoute \<Rightarrow> bool" where
  "sound_route bn st raw r \<longleftrightarrow>
     0 < sr_amount r \<and> sr_amount r \<le> balanceOr0 raw (sr_origin r)
   \<and> (\<exists>c. getBridgeConfigForRoute st (sr_origin r) (sr_destination r) = ret c
        \<and> r = createStrategyRoute c (sr_origin r) (sr_destination r) (sr_amount r)
        \<and> (\<forall>tokens t v m. bs_tokensByChainName st = Some tokens \<longrightarrow> map_of tokens (sr_origin r) = Some t \<longrightarrow>
             bridgeMinAcceptedAmount c = Some v \<longrightarrow> normalizeConfiguredAmount bn v t = ret m \<longrightarrow>
             m \<le> sr_amount r))"

lemma matchRoutes_created:
  assumes "matchRoutes bc ss ds = ret rs" "r \<in> set rs"
  shows "0 < sr_amount r \<and> (\<exists>c. bc (sr_origin r) (sr_destination r) = ret c
    \<and> r = createStrategyRoute c (sr_origin r) (sr_destination r) (sr_amount r))"
  using assms
proof (induction bc ss ds arbitrary: rs rule: matchRoutes.induct)
  case (3 bc s ss d ds)
  define t where "t = (if d_amount s > d_amount d then d_amount d else d_amount s)"
  define ss' where "ss' = (if d_amount s - t \<le> 0 then ss else s\<lparr>d_amount := d_amount s - t\<rparr> # ss)"
  define ds' where "ds' = (if d_amount d - t \<le> 0 then ds else d\<lparr>d_amount := d_amount d - t\<rparr> # ds)"
  have run: "(if t > 0 then rbind (bc (d_chain s) (d_chain d)) (\<lambda>c. rbind (matchRoutes bc ss' ds')
      (\<lambda>rs. ret (createStrategyRoute c (d_chain s) (d_chain d) t # rs))) else matchRoutes bc ss' ds') = ret rs"
    using 3(3) by (simp add: t_def ss'_def ds'_def Let_def cong: if_cong)
  note IH = 3(1) [OF t_def refl refl ds'_def ss'_def] 3(2) [OF t_def refl refl ds'_def ss'_def]
  show ?case
  proof (cases "t > 0")
    case True
    with run obtain c rs' where c: "matchRoutes bc ss' ds' = ret rs'" "bc (d_chain s) (d_chain d) = ret c"
        "rs = createStrategyRoute c (d_chain s) (d_chain d) t # rs'"
      by (auto simp: rbind_eq_Inr_iff)
    show ?thesis
    proof (cases "r \<in> set rs'")
      case False
      then have "r = createStrategyRoute c (d_chain s) (d_chain d) t" using 3(4) c(3) by simp
      then show ?thesis using c(2) True by simp
    qed (rule IH(1) [OF True c(1)])
  next
    case False
    with run show ?thesis using IH(2) [OF False _ 3(4)] by simp
  qed
qed auto

lemma planRoutes_sound:
  assumes "planRoutes bn st srt actual ss ds = (ev, ret kept)" "r \<in> set kept"
  shows "sound_route bn st actual r"
proof -
  from assms(1) obtain xs ys rs where m: "matchRoutes (getBridgeConfigForRoute st) xs ys = ret rs"
    and f: "filterRoutes bn st rs actual = ret kept"
    by (auto simp: planRoutes_def Let_def rbind_eq_Inr_iff split: sum.splits)
  have r: "r \<in> set rs" "keepRoute bn st actual r = ret True"
    using f assms(2) by (auto simp: filterRoutes_def rfilter_eq_Inr_iff)
  from matchRoutes_created [OF m r(1)] obtain c where c: "0 < sr_amount r"
      "getBridgeConfigForRoute st (sr_origin r) (sr_destination r) = ret c"
      "r = createStrategyRoute c (sr_origin r) (sr_destination r) (sr_amount r)" by blast
  have "m \<le> sr_amount r" if "bs_tokensByChainName st = Some tokens" "map_of tokens (sr_origin r) = Some t"
      "bridgeMinAcceptedAmount c = Some v" "normalizeConfiguredAmount bn v t = ret m" for tokens t v m
    using r(2) c(2) that by (auto simp: keepRoute_def split: if_splits)
  then show ?thesis using c keepRoute_covered [OF r(2)] unfolding sound_route_def by blast
qed

text \<open>What every plan keeps: the safety of the routes a strategy returns.\<close>

definition safe_routes :: "RawBalances \<Rightarrow> Delta list \<Rightarrow> Delta list \<Rightarrow> StrategyRoute list \<Rightarrow> bool" where
  "safe_routes actual ss ds rs \<longleftrightarrow>
     (\<forall>r \<in> set rs. 0 < sr_amount r \<and> sr_amount r \<le> balanceOr0 actual (sr_origin r)
        \<and> sr_origin r \<in> d_chain ` set ss \<and> sr_destination r \<in> d_chain ` set ds)
   \<and> (\<forall>c. routeOut c rs \<le> chainAmount c ss \<and> routeIn c rs \<le> chainAmount c ds)"

lemma planRoutes_safe:
  assumes "planRoutes bn st srt actual ss ds = (ev, ret kept)"
    and "mset (srt ss) = mset ss" and nn: "nonneg_deltas ss" "nonneg_deltas ds"
  shows "safe_routes actual ss ds kept"
proof -
  from planRoutes_ret [OF assms] obtain ds' rs where
      d: "scaleDeficits (totalAmount ss) (totalAmount ds) ds = ret ds'" and m: "matched ss ds' rs"
      and k: "kept = filter (\<lambda>r. keepRoute bn st actual r = ret True) rs" .
  from scaleDeficits_ret [OF d nn(2) totalAmount_nonneg [OF nn(1)]]
  have sc: "map d_chain ds' = map d_chain ds" "\<And>c. chainAmount c ds' \<le> chainAmount c ds" by auto
  have chains: "d_chain ` set ds' = d_chain ` set ds" using sc(1) by (metis set_map)
  have pos: "\<forall>r \<in> set rs. 0 < sr_amount r" using m by (simp add: matched_def)
  have "routeOut c kept \<le> chainAmount c ss" for c
    using routeOut_filter_le [OF pos] m k unfolding matched_def by (metis order_trans)
  moreover have "routeIn c kept \<le> chainAmount c ds" for c
    using routeIn_filter_le [OF pos] m k sc(2) unfolding matched_def by (metis order_trans)
  moreover have "\<forall>r \<in> set kept. 0 < sr_amount r \<and> sr_amount r \<le> balanceOr0 actual (sr_origin r)
        \<and> sr_origin r \<in> d_chain ` set ss \<and> sr_destination r \<in> d_chain ` set ds"
    using m k chains by (auto simp: matched_def dest: keepRoute_covered)
  ultimately show ?thesis unfolding safe_routes_def by blast
qed

lemma getRebalancingRoutes_plan:
  assumes "getRebalancingRoutes bn st cat raw ctx = (ev, ret rs)"
  obtains ss ds where "validateRawBalances st raw = ret ()"
    and "cat (reserveCollateral raw (ctxPendingTransfers ctx)) (ctxPendingRebalances ctx)
       (ctxProposedRebalances ctx) = ret (ss, ds)"
    and "planRoutes bn st (js_sort largerFirst) raw ss ds = (ev, ret rs)"
  using assms by (auto simp: getRebalancingRoutes_def Let_def rbind_eq_Inr_iff split: sum.splits prod.splits)

section \<open>Categorization loops\<close>

fun surplus_of :: "balance_class result \<Rightarrow> int" where
  "surplus_of (Inr (Surplus a)) = a" | "surplus_of _ = 0"

fun deficit_of :: "balance_class result \<Rightarrow> int" where
  "deficit_of (Inr (Deficit a)) = a" | "deficit_of _ = 0"

definition surplusDeltas :: "(chain \<Rightarrow> balance_class result) \<Rightarrow> chain list \<Rightarrow> Delta list" where
  "surplusDeltas f cs = concat (map (\<lambda>c. case f c of Inr (Surplus a) \<Rightarrow> [\<lparr>d_chain = c, d_amount = a\<rparr>] | _ \<Rightarrow> []) cs)"

definition deficitDeltas :: "(chain \<Rightarrow> balance_class result) \<Rightarrow> chain list \<Rightarrow> Delta list" where
  "deficitDeltas f cs = concat (map (\<lambda>c. case f c of Inr (Deficit a) \<Rightarrow> [\<lparr>d_chain = c, d_amount = a\<rparr>] | _ \<Rightarrow> []) cs)"

lemma rfold_pushDelta:
  assumes "rfold (\<lambda>acc c. rbind (f c) (\<lambda>k. ret (pushDelta acc c k))) acc cs = ret res"
  shows "res = (fst acc @ surplusDeltas f cs, snd acc @ deficitDeltas f cs)
    \<and> (\<forall>c \<in> set cs. \<exists>k. f c = ret k)"
  using assms
proof (induction cs arbitrary: acc)
  case (Cons c cs)
  from Cons.prems obtain k where k: "f c = ret k"
    "rfold (\<lambda>acc c. rbind (f c) (\<lambda>k. ret (pushDelta acc c k))) (pushDelta acc c k) cs = ret res"
    by (auto simp: rbind_eq_Inr_iff)
  from Cons.IH [OF k(2)] k(1) show ?case
    by (cases k) (auto simp: pushDelta_def surplusDeltas_def deficitDeltas_def)
qed (simp add: surplusDeltas_def deficitDeltas_def)

lemma categorizeBy_ret:
  assumes "categorizeBy f cs = ret (ss, ds)"
  shows "ss = surplusDeltas f cs" "ds = deficitDeltas f cs" "\<forall>c \<in> set cs. \<exists>k. f c = ret k"
  using rfold_pushDelta [OF assms [unfolded categorizeBy_def]] by auto

lemma in_surplusDeltas:
  "s \<in> set (surplusDeltas f cs) \<longleftrightarrow> d_chain s \<in> set cs \<and> f (d_chain s) = ret (Surplus (d_amount s))"
  by (cases s) (force simp: surplusDeltas_def split: sum.splits balance_class.splits)

lemma in_deficitDeltas:
  "d \<in> set (deficitDeltas f cs) \<longleftrightarrow> d_chain d \<in> set cs \<and> f (d_chain d) = ret (Deficit (d_amount d))"
  by (cases d) (force simp: deficitDeltas_def split: sum.splits balance_class.splits)

lemma chains_surplusDeltas:
  "map d_chain (surplusDeltas f cs) = filter (\<lambda>c. \<exists>a. f c = ret (Surplus a)) cs"
  by (induction cs) (auto simp: surplusDeltas_def split: sum.splits balance_class.splits)

lemma chains_deficitDeltas:
  "map d_chain (deficitDeltas f cs) = filter (\<lambda>c. \<exists>a. f c = ret (Deficit a)) cs"
  by (induction cs) (auto simp: deficitDeltas_def split: sum.splits balance_class.splits)

lemma distinct_categorized:
  "distinct cs \<Longrightarrow> distinct (map d_chain (surplusDeltas f cs @ deficitDeltas f cs))"
  by (auto simp: chains_surplusDeltas chains_deficitDeltas)

lemma totalAmount_surplusDeltas:
  "totalAmount (surplusDeltas f cs) = sum_list (map (\<lambda>c. surplus_of (f c)) cs)"
  by (induction cs) (auto simp: surplusDeltas_def totalAmount_def split: sum.splits balance_class.splits)

lemma totalAmount_deficitDeltas:
  "totalAmount (deficitDeltas f cs) = sum_list (map (\<lambda>c. deficit_of (f c)) cs)"
  by (induction cs) (auto simp: deficitDeltas_def totalAmount_def split: sum.splits balance_class.splits)

lemma chainAmount_categorized:
  assumes "distinct cs"
  shows "chainAmount c (surplusDeltas f cs) = (if c \<in> set cs then surplus_of (f c) else 0)"
    and "chainAmount c (deficitDeltas f cs) = (if c \<in> set cs then deficit_of (f c) else 0)"
  using assms
  by (induction cs) (auto simp: surplusDeltas_def deficitDeltas_def chainAmount_def
      split: sum.splits balance_class.splits)

lemma sumBalances_ret:
  "sumBalances cs sim = ret t \<Longrightarrow> t = sum_list (map (balanceOr0 sim) cs)"
proof -
  have "rfold (\<lambda>sum c. case map_of sim c of None \<Rightarrow> throw TypeError | Some b \<Rightarrow> ret (sum + b)) a cs = ret t
     \<Longrightarrow> t = a + sum_list (map (balanceOr0 sim) cs)" for a
  proof (induction cs arbitrary: a)
    case (Cons c cs)
    from Cons.prems obtain b where b: "map_of sim c = Some b"
      by (auto simp: rbind_eq_Inr_iff split: option.splits)
    then have "t = (a + b) + sum_list (map (balanceOr0 sim) cs)"
      using Cons.prems by (intro Cons.IH) simp
    moreover have "balanceOr0 sim c = b" using b by (simp add: balanceOr0_def)
    ultimately show ?case by simp
  qed simp
  from this [of 0] show "sumBalances cs sim = ret t \<Longrightarrow> ?thesis" by (simp add: sumBalances_def)
qed

lemma sumBalances_defined:
  "sumBalances cs sim = ret t \<Longrightarrow> \<forall>c \<in> set cs. map_of sim c \<noteq> None"
proof -
  have "rfold (\<lambda>sum c. case map_of sim c of None \<Rightarrow> throw TypeError | Some b \<Rightarrow> ret (sum + b)) a cs = ret t
     \<Longrightarrow> \<forall>c \<in> set cs. map_of sim c \<noteq> None" for a
    by (induction cs arbitrary: a) (auto simp: rbind_eq_Inr_iff split: option.splits)
  from this [of 0] show "sumBalances cs sim = ret t \<Longrightarrow> ?thesis" by (simp add: sumBalances_def)
qed

section \<open>The contract of \<open>getCategorizedBalances\<close>\<close>

text \<open>
  What a strategy's categorization owes the base class, on the inputs that satisfy \<open>ok\<close>: deltas
  of positive surpluses and non-negative deficits, with no chain twice, on either side or across.
\<close>

locale categorizer =
  fixes cat :: categorize
    and ok :: "RawBalances \<Rightarrow> Route list \<Rightarrow> StrategyRoute list \<Rightarrow> bool"
  assumes surplus_pos: "cat b p q = ret (ss, ds) \<Longrightarrow> ok b p q \<Longrightarrow> s \<in> set ss \<Longrightarrow> 0 < d_amount s"
    and deficit_nonneg: "cat b p q = ret (ss, ds) \<Longrightarrow> ok b p q \<Longrightarrow> d \<in> set ds \<Longrightarrow> 0 \<le> d_amount d"
    and chains_distinct: "cat b p q = ret (ss, ds) \<Longrightarrow> ok b p q \<Longrightarrow> distinct (map d_chain (ss @ ds))"
begin

lemma cat_nonneg:
  assumes "cat b p q = ret (ss, ds)" "ok b p q"
  shows "nonneg_deltas ss" "nonneg_deltas ds"
  using surplus_pos [OF assms] deficit_nonneg [OF assms] by (auto simp: less_imp_le)

lemma plan_safe:
  assumes "cat b p q = ret (ss, ds)" "ok b p q" "mset (srt ss) = mset ss"
    and "planRoutes bn st srt raw ss ds = (ev, ret rs)"
  shows "safe_routes raw ss ds rs"
  using planRoutes_safe [OF assms(4,3) cat_nonneg [OF assms(1,2)]] .

lemma no_self_route:
  assumes "cat b p q = ret (ss, ds)" "ok b p q" "safe_routes raw ss ds rs" "r \<in> set rs"
  shows "sr_origin r \<noteq> sr_destination r"
  using chains_distinct [OF assms(1,2)] assms(3,4) by (fastforce simp: safe_routes_def)

lemma routes_safe:
  assumes "getRebalancingRoutes bn st cat raw ctx = (ev, ret rs)"
    and "ok (reserveCollateral raw (ctxPendingTransfers ctx)) (ctxPendingRebalances ctx)
       (ctxProposedRebalances ctx)"
  obtains ss ds where "cat (reserveCollateral raw (ctxPendingTransfers ctx)) (ctxPendingRebalances ctx)
       (ctxProposedRebalances ctx) = ret (ss, ds)" and "safe_routes raw ss ds rs"
    and "\<forall>r \<in> set rs. sr_origin r \<noteq> sr_destination r"
proof -
  from getRebalancingRoutes_plan [OF assms(1)] obtain ss ds where
      c: "cat (reserveCollateral raw (ctxPendingTransfers ctx)) (ctxPendingRebalances ctx)
       (ctxProposedRebalances ctx) = ret (ss, ds)"
      and p: "planRoutes bn st (js_sort largerFirst) raw ss ds = (ev, ret rs)" by blast
  have s: "safe_routes raw ss ds rs" using plan_safe [OF c assms(2) _ p] by simp
  then show ?thesis using that [OF c s] no_self_route [OF c assms(2) s] by blast
qed

end

end
