(* ===== verification/Weighted_Strategy.thy ===== *)
theory Weighted_Strategy
  imports Base_Strategy
begin

text \<open>
  \<open>typescript/rebalancer/src/strategy/WeightedStrategy.ts\<close>: each chain's target is its share of the
  total balance, by weight; a chain below its target by more than its tolerance is a deficit, a
  chain above its target a surplus.
\<close>

section \<open>Definitions\<close>

record WeightedChainConfig =
  weight :: int
  tolerance :: int

record WeightedStrategy = BaseStrategy +
  ws_config :: "(chain, WeightedChainConfig) dict"
  ws_totalWeight :: int

fun sumWeights :: "int \<Rightarrow> (chain, WeightedChainConfig) dict \<Rightarrow> int result" where
  "sumWeights tot [] = ret tot"
| "sumWeights tot ((c, w) # cfg) =
     (if weight w < 0 then throw (Thrown ''Weight must not be negative'' c)
      else if tolerance w < 0 \<or> tolerance w > 100
      then throw (Thrown ''Tolerance must be between 0 and 100'' c)
      else sumWeights (tot + weight w) cfg)"

definition new_WeightedStrategy ::
    "(chain, WeightedChainConfig) dict \<Rightarrow> BridgeConfigs \<Rightarrow> bool \<Rightarrow> (chain, Token) dict option
      \<Rightarrow> WeightedStrategy result" where
  "new_WeightedStrategy config bridges metrics tokens =
     rbind (new_BaseStrategy ''weighted'' (dict_keys config) bridges metrics tokens) (\<lambda>base.
     rbind (sumWeights 0 config) (\<lambda>totalWeight.
       if totalWeight \<le> 0
       then throw (Thrown ''The total weight for all chains must be greater than 0'' '''')
       else ret (BaseStrategy.extend base \<lparr>ws_config = config, ws_totalWeight = totalWeight\<rparr>)))"

definition weightedClassify :: "WeightedStrategy \<Rightarrow> int \<Rightarrow> RawBalances \<Rightarrow> chain \<Rightarrow> balance_class result" where
  "weightedClassify st tot sim c =
     (case map_of (ws_config st) c of
        None \<Rightarrow> throw TypeError
      | Some w \<Rightarrow>
          rbind (bigint_div (tot * weight w) (ws_totalWeight st)) (\<lambda>target.
          rbind (bigint_div (target * tolerance w) 100) (\<lambda>toleranceAmount.
          case map_of sim c of
            None \<Rightarrow> ret OnTarget
          | Some balance \<Rightarrow>
              ret (if balance < target - toleranceAmount then Deficit (target - balance)
                   else if balance > target then Surplus (balance - target)
                   else OnTarget))))"

text \<open>Comparing \<open>undefined\<close> with a \<open>bigint\<close> is false both ways; the sum before it throws first.\<close>

definition weightedSimulate :: "RawBalances \<Rightarrow> Route list \<Rightarrow> StrategyRoute list \<Rightarrow> RawBalances" where
  "weightedSimulate raw pending proposed =
     simulateProposedRebalances (simulatePendingRebalances raw pending) (map as_Route proposed)"

definition weightedCategorize :: "WeightedStrategy \<Rightarrow> categorize" where
  "weightedCategorize st raw pending proposed =
     (let sim = weightedSimulate raw pending proposed in
      rbind (sumBalances (bs_chains st) sim) (\<lambda>tot.
        categorizeBy (weightedClassify st tot sim) (bs_chains st)))"

definition weightedRoutes ::
    "bignumber_api \<Rightarrow> WeightedStrategy \<Rightarrow> RawBalances \<Rightarrow> InflightContext option \<Rightarrow> StrategyRoute list run" where
  "weightedRoutes bn st raw ctx =
     getRebalancingRoutes bn (BaseStrategy.truncate st) (weightedCategorize st) raw ctx"

section \<open>The configuration a constructor accepts\<close>

definition weighted_wf :: "WeightedStrategy \<Rightarrow> bool" where
  "weighted_wf st \<longleftrightarrow>
     distinct (bs_chains st) \<and> bs_chains st = dict_keys (ws_config st)
   \<and> (\<forall>w \<in> set (dict_values (ws_config st)). 0 \<le> weight w \<and> 0 \<le> tolerance w \<and> tolerance w \<le> 100)
   \<and> ws_totalWeight st = sum_list (map weight (dict_values (ws_config st)))
   \<and> 0 < ws_totalWeight st"

lemma weighted_wf_distinct: "weighted_wf st \<Longrightarrow> distinct (bs_chains st)"
  unfolding weighted_wf_def by blast

lemma sumWeights_ret:
  "sumWeights t cfg = ret t' \<Longrightarrow> t' = t + sum_list (map weight (dict_values cfg))
     \<and> (\<forall>w \<in> set (dict_values cfg). 0 \<le> weight w \<and> 0 \<le> tolerance w \<and> tolerance w \<le> 100)"
  by (induction t cfg rule: sumWeights.induct) (auto split: if_splits)

lemma new_WeightedStrategy_wf:
  assumes "new_WeightedStrategy cfg bridges metrics tokens = ret st" and "distinct (dict_keys cfg)"
  shows "weighted_wf st"
proof -
  from assms(1) obtain t where t: "sumWeights 0 cfg = ret t" "0 < t"
    and st: "st = \<lparr>bs_name = ''weighted'', bs_chains = dict_keys cfg, bs_bridgeConfigs = bridges,
      bs_metrics = metrics, bs_tokensByChainName = tokens, ws_config = cfg, ws_totalWeight = t\<rparr>"
    by (auto simp: new_WeightedStrategy_def new_BaseStrategy_def rbind_eq_Inr_iff
        BaseStrategy.extend_def split: if_splits)
  from sumWeights_ret [OF t(1)] t(2) assms(2) st show ?thesis
    unfolding weighted_wf_def by simp
qed

definition weightOf :: "WeightedStrategy \<Rightarrow> chain \<Rightarrow> int" where
  "weightOf st c = (case map_of (ws_config st) c of None \<Rightarrow> 0 | Some w \<Rightarrow> weight w)"

definition weightedTarget :: "WeightedStrategy \<Rightarrow> int \<Rightarrow> chain \<Rightarrow> int" where
  "weightedTarget st tot c = tot * weightOf st c div ws_totalWeight st"

lemma weightedClassify_cases:
  assumes wf: "weighted_wf st" and t0: "0 \<le> tot" and r: "weightedClassify st tot sim c = ret k"
    and b: "map_of sim c \<noteq> None"
  shows "surplus_of (ret k) - deficit_of (ret k) \<ge> balanceOr0 sim c - weightedTarget st tot c"
    and "k = Surplus a \<Longrightarrow> a = balanceOr0 sim c - weightedTarget st tot c \<and> 0 < a"
    and "k = Deficit a \<Longrightarrow> a = weightedTarget st tot c - balanceOr0 sim c \<and> 0 < a"
proof -
  from r obtain w where w: "map_of (ws_config st) c = Some w"
    by (auto simp: weightedClassify_def split: option.splits)
  have ww: "0 \<le> weight w" "0 \<le> tolerance w" "0 < ws_totalWeight st"
    using wf map_of_SomeD [OF w] by (force simp: weighted_wf_def)+
  obtain x where x: "map_of sim c = Some x" using b by auto
  let ?T = "weightedTarget st tot c"
  have T: "(tot * weight w) sdiv ws_totalWeight st = ?T" "0 \<le> ?T"
    using t0 ww w by (simp_all add: weightedTarget_def weightOf_def sdiv_nonneg pos_imp_zdiv_nonneg_iff)
  have tol: "0 \<le> (?T * tolerance w) sdiv 100" using T ww by (simp add: sdiv_nonneg pos_imp_zdiv_nonneg_iff)
  have k: "k = (if x < ?T - (?T * tolerance w) sdiv 100 then Deficit (?T - x)
      else if x > ?T then Surplus (x - ?T) else OnTarget)"
    using r w x T ww(3) by (auto simp: weightedClassify_def rbind_eq_Inr_iff)
  have bx: "balanceOr0 sim c = x" using x by (simp add: balanceOr0_def)
  show "surplus_of (ret k) - deficit_of (ret k) \<ge> balanceOr0 sim c - ?T"
    using k tol bx by auto
  show "k = Surplus a \<Longrightarrow> a = balanceOr0 sim c - ?T \<and> 0 < a"
    using k tol bx by (auto split: if_splits)
  show "k = Deficit a \<Longrightarrow> a = ?T - balanceOr0 sim c \<and> 0 < a"
    using k tol bx by (auto split: if_splits)
qed

lemma weightedClassify_deficit:
  assumes wf: "weighted_wf st" and t0: "0 \<le> tot" and r: "weightedClassify st tot sim c = ret k"
    and b: "map_of sim c \<noteq> None" and w: "map_of (ws_config st) c = Some w"
    and below: "balanceOr0 sim c < weightedTarget st tot c - weightedTarget st tot c * tolerance w div 100"
  shows "k = Deficit (weightedTarget st tot c - balanceOr0 sim c)"
proof -
  have ww: "0 \<le> weight w" "0 \<le> tolerance w" "0 < ws_totalWeight st"
    using wf map_of_SomeD [OF w] by (force simp: weighted_wf_def)+
  let ?T = "weightedTarget st tot c"
  have T: "(tot * weight w) sdiv ws_totalWeight st = ?T" "0 \<le> ?T"
    using t0 ww w by (simp_all add: weightedTarget_def weightOf_def sdiv_nonneg pos_imp_zdiv_nonneg_iff)
  then have "(?T * tolerance w) sdiv 100 = ?T * tolerance w div 100" using ww by (simp add: sdiv_nonneg)
  then show ?thesis
    using r w b T ww(3) below by (auto simp: weightedClassify_def rbind_eq_Inr_iff balanceOr0_def)
qed

text \<open>The inputs on which the categorization keeps its contract.\<close>

definition weighted_ok :: "WeightedStrategy \<Rightarrow> RawBalances \<Rightarrow> Route list \<Rightarrow> StrategyRoute list \<Rightarrow> bool" where
  "weighted_ok st raw pending proposed \<longleftrightarrow>
     weighted_wf st
   \<and> 0 \<le> sum_list (map (balanceOr0 (weightedSimulate raw pending proposed)) (bs_chains st))"

lemma weightedCategorize_ret:
  assumes "weightedCategorize st raw p q = ret (ss, ds)"
  defines "sim \<equiv> weightedSimulate raw p q"
  defines "tot \<equiv> sum_list (map (balanceOr0 sim) (bs_chains st))"
  shows "ss = surplusDeltas (weightedClassify st tot sim) (bs_chains st)"
    and "ds = deficitDeltas (weightedClassify st tot sim) (bs_chains st)"
    and "\<forall>c \<in> set (bs_chains st). map_of sim c \<noteq> None \<and> (\<exists>k. weightedClassify st tot sim c = ret k)"
proof -
  from assms(1) obtain t where t: "sumBalances (bs_chains st) sim = ret t"
      and c: "categorizeBy (weightedClassify st t sim) (bs_chains st) = ret (ss, ds)"
    by (auto simp: weightedCategorize_def sim_def Let_def rbind_eq_Inr_iff)
  have tt: "t = tot" using sumBalances_ret [OF t] by (simp add: tot_def)
  show "ss = surplusDeltas (weightedClassify st tot sim) (bs_chains st)"
    "ds = deficitDeltas (weightedClassify st tot sim) (bs_chains st)"
    using categorizeBy_ret [OF c] tt by auto
  show "\<forall>c \<in> set (bs_chains st). map_of sim c \<noteq> None \<and> (\<exists>k. weightedClassify st tot sim c = ret k)"
    using categorizeBy_ret(3) [OF c] sumBalances_defined [OF t] tt by auto
qed

interpretation weighted: categorizer "weightedCategorize st" "weighted_ok st" for st
proof
  fix b p q ss ds s
  assume c: "weightedCategorize st b p q = ret (ss, ds)" and k: "weighted_ok st b p q"
  let ?sim = "weightedSimulate b p q"
  let ?f = "weightedClassify st (sum_list (map (balanceOr0 ?sim) (bs_chains st))) ?sim"
  note r = weightedCategorize_ret [OF c]
  have wf: "weighted_wf st" and t0: "0 \<le> sum_list (map (balanceOr0 ?sim) (bs_chains st))"
    using k by (simp_all add: weighted_ok_def)
  show "0 < d_amount s" if "s \<in> set ss"
    using that r weightedClassify_cases(2) [OF wf t0] by (auto simp: in_surplusDeltas)
  show "0 \<le> d_amount s" if "s \<in> set ds"
    using that r weightedClassify_cases(3) [OF wf t0] by (fastforce simp: in_deficitDeltas)
  show "distinct (map d_chain (ss @ ds))"
    unfolding r(1,2) by (rule distinct_categorized [OF weighted_wf_distinct [OF wf]])
qed

section \<open>Routes\<close>

lemma sum_weightOf:
  assumes "weighted_wf st"
  shows "sum_list (map (weightOf st) (bs_chains st)) = ws_totalWeight st"
proof -
  have "distinct (dict_keys cfg) \<Longrightarrow> map (\<lambda>c. case map_of cfg c of None \<Rightarrow> 0 | Some w \<Rightarrow> weight w) (dict_keys cfg)
      = map weight (dict_values cfg)" for cfg :: "(chain, WeightedChainConfig) dict"
    by (auto simp: map_of_is_SomeI)
  then show ?thesis using assms unfolding weighted_wf_def weightOf_def by metis
qed

lemma sum_targets_le:
  assumes wf: "weighted_wf st"
  shows "sum_list (map (weightedTarget st tot) (bs_chains st)) \<le> tot"
proof -
  let ?W = "ws_totalWeight st"
  have W: "0 < ?W" using wf by (simp add: weighted_wf_def)
  have "?W * weightedTarget st tot c \<le> tot * weightOf st c" for c
    unfolding weightedTarget_def
    using mult_div_mod_eq [of ?W "tot * weightOf st c"] pos_mod_sign [OF W, of "tot * weightOf st c"]
    by linarith
  then have "sum_list (map (\<lambda>c. ?W * weightedTarget st tot c) (bs_chains st))
      \<le> sum_list (map (\<lambda>c. tot * weightOf st c) (bs_chains st))"
    by (intro sum_list_mono)
  then have "?W * sum_list (map (weightedTarget st tot) (bs_chains st)) \<le> ?W * tot"
    by (simp add: sum_list_const_mult sum_weightOf [OF wf] mult.commute)
  then show ?thesis using W by simp
qed

lemma weighted_surplus_covers:
  assumes "weightedCategorize st raw p q = ret (ss, ds)" and ok: "weighted_ok st raw p q"
  shows "totalAmount ds \<le> totalAmount ss"
proof -
  let ?sim = "weightedSimulate raw p q" and ?cs = "bs_chains st"
  let ?tot = "sum_list (map (balanceOr0 ?sim) ?cs)"
  let ?f = "weightedClassify st ?tot ?sim"
  have wf: "weighted_wf st" and t0: "0 \<le> ?tot" using ok by (simp_all add: weighted_ok_def)
  note r = weightedCategorize_ret [OF assms(1)]
  have "balanceOr0 ?sim c - weightedTarget st ?tot c \<le> surplus_of (?f c) - deficit_of (?f c)"
    if "c \<in> set ?cs" for c
    using r(3) that weightedClassify_cases(1) [OF wf t0] by fastforce
  then have "sum_list (map (\<lambda>c. balanceOr0 ?sim c - weightedTarget st ?tot c) ?cs)
      \<le> sum_list (map (\<lambda>c. surplus_of (?f c) - deficit_of (?f c)) ?cs)"
    by (intro sum_list_mono)
  then show ?thesis
    unfolding r(1,2) totalAmount_surplusDeltas totalAmount_deficitDeltas
    using sum_targets_le [OF wf, of ?tot] by (simp add: sum_list_subtractf)
qed

lemma weighted_chain_amounts:
  assumes "weightedCategorize st raw p q = ret (ss, ds)" and ok: "weighted_ok st raw p q"
    and c: "c \<in> set (bs_chains st)"
  defines "b \<equiv> balanceOr0 (weightedSimulate raw p q) c"
    and "T \<equiv> weightedTarget st (sum_list (map (balanceOr0 (weightedSimulate raw p q)) (bs_chains st))) c"
  shows "chainAmount c ss = (if 0 < chainAmount c ss then b - T else 0)"
    and "chainAmount c ds = (if 0 < chainAmount c ds then T - b else 0)"
proof -
  let ?sim = "weightedSimulate raw p q"
  let ?tot = "sum_list (map (balanceOr0 ?sim) (bs_chains st))"
  have wf: "weighted_wf st" and t0: "0 \<le> ?tot" using ok by (simp_all add: weighted_ok_def)
  have d: "distinct (bs_chains st)" by (rule weighted_wf_distinct [OF wf])
  note r = weightedCategorize_ret [OF assms(1)]
  obtain k where k: "weightedClassify st ?tot ?sim c = ret k" and m: "map_of ?sim c \<noteq> None"
    using r(3) c by auto
  show "chainAmount c ss = (if 0 < chainAmount c ss then b - T else 0)"
    unfolding r(1) chainAmount_categorized(1) [OF d] using c k weightedClassify_cases(2) [OF wf t0 k m]
    by (cases k) (auto simp: b_def T_def)
  show "chainAmount c ds = (if 0 < chainAmount c ds then T - b else 0)"
    unfolding r(2) chainAmount_categorized(2) [OF d] using c k weightedClassify_cases(3) [OF wf t0 k m]
    by (cases k) (auto simp: b_def T_def)
qed

lemma routeIn_nonneg: "\<forall>r \<in> set rs. 0 < sr_amount r \<Longrightarrow> 0 \<le> routeIn c rs"
  by (induction rs) auto

lemma routeOut_nonneg: "\<forall>r \<in> set rs. 0 < sr_amount r \<Longrightarrow> 0 \<le> routeOut c rs"
  by (induction rs) auto

text \<open>
  C5. A weighted strategy the constructor accepts never overshoots. Whenever it returns routes and
  the simulated balances (reserved, with pending and proposed rebalances) do not sum to a
  negative amount, every route is positive, covered by the raw balance of its origin and goes to
  another chain; a chain that receives starts below its target and ends at or below it, and a
  chain that sends ends at or above its target, whatever the routes taken together move.
\<close>

theorem weightedRoutes_no_overshoot:
  assumes new: "new_WeightedStrategy cfg bridges metrics tokens = ret st" and keys: "distinct (dict_keys cfg)"
    and run: "weightedRoutes bn st raw ctx = (ev, ret rs)"
    and sim: "sim = weightedSimulate (reserveCollateral raw (ctxPendingTransfers ctx))
        (ctxPendingRebalances ctx) (ctxProposedRebalances ctx)"
    and tot: "tot = sum_list (map (balanceOr0 sim) (bs_chains st))" and t0: "0 \<le> tot"
  shows "(\<forall>r \<in> set rs. 0 < sr_amount r \<and> sr_amount r \<le> balanceOr0 raw (sr_origin r)
        \<and> sr_origin r \<noteq> sr_destination r)
    \<and> (\<forall>c \<in> set (bs_chains st).
        (0 < routeIn c rs \<longrightarrow> balanceOr0 sim c + routeIn c rs \<le> weightedTarget st tot c)
      \<and> (0 < routeOut c rs \<longrightarrow> weightedTarget st tot c \<le> balanceOr0 sim c - routeOut c rs))"
proof -
  let ?eff = "reserveCollateral raw (ctxPendingTransfers ctx)"
  let ?p = "ctxPendingRebalances ctx" and ?q = "ctxProposedRebalances ctx"
  have ok: "weighted_ok st ?eff ?p ?q"
    using new_WeightedStrategy_wf [OF new keys] t0 by (simp add: weighted_ok_def tot sim)
  from weighted.routes_safe [OF run [unfolded weightedRoutes_def] ok] obtain ss ds where
      cat: "weightedCategorize st ?eff ?p ?q = ret (ss, ds)" and safe: "safe_routes raw ss ds rs"
      and self: "\<forall>r \<in> set rs. sr_origin r \<noteq> sr_destination r" .
  have bounds: "routeIn c rs \<le> chainAmount c ds" "routeOut c rs \<le> chainAmount c ss" for c
    using safe by (simp_all add: safe_routes_def)
  have "(0 < routeIn c rs \<longrightarrow> balanceOr0 sim c + routeIn c rs \<le> weightedTarget st tot c)
      \<and> (0 < routeOut c rs \<longrightarrow> weightedTarget st tot c \<le> balanceOr0 sim c - routeOut c rs)"
    if "c \<in> set (bs_chains st)" for c
    using weighted_chain_amounts [OF cat ok that] bounds [of c] unfolding sim tot
    by (auto split: if_splits)
  then show ?thesis using safe self by (auto simp: safe_routes_def)
qed

lemma weighted_keeps_all:
  assumes "matched ss ds rs" "distinct (map d_chain ss)"
    and "\<forall>s \<in> set ss. d_amount s \<le> balanceOr0 raw (d_chain s)" and "bs_tokensByChainName st = None"
    and r: "r \<in> set rs"
  shows "keepRoute bn st raw r = ret True"
proof -
  have pos: "\<forall>r \<in> set rs. 0 < sr_amount r" using assms(1) by (simp add: matched_def)
  have "sr_amount r \<le> routeOut (sr_origin r) rs"
    using pos r unfolding routeOut_def by (intro sum_list_ge_member) (auto simp: less_imp_le)
  also have "\<dots> \<le> chainAmount (sr_origin r) ss" using assms(1) by (simp add: matched_def)
  also obtain s where s: "s \<in> set ss" "d_chain s = sr_origin r"
    using assms(1) r by (auto simp: matched_def)
  then have "chainAmount (sr_origin r) ss = d_amount s" using chainAmount_distinct assms(2) by metis
  also have "\<dots> \<le> balanceOr0 raw (sr_origin r)" using assms(3) s by metis
  finally show ?thesis using assms(4) by (simp add: keepRoute_def)
qed

text \<open>
  C6. The weighted strategy restores every deficit exactly. Without a token map (so no bridge
  minimum drops a route) and when the surpluses are backed by the raw balances, each chain that
  is below its target by more than its tolerance receives exactly what it lacks, and the run
  records no failure: the surpluses of a weighted strategy always cover its deficits, so
  nothing is scaled down.
\<close>

theorem weightedRoutes_reach_target:
  assumes new: "new_WeightedStrategy cfg bridges metrics None = ret st" and keys: "distinct (dict_keys cfg)"
    and run: "weightedRoutes bn st raw ctx = (ev, ret rs)"
    and sim: "sim = weightedSimulate (reserveCollateral raw (ctxPendingTransfers ctx))
        (ctxPendingRebalances ctx) (ctxProposedRebalances ctx)"
    and tot: "tot = sum_list (map (balanceOr0 sim) (bs_chains st))" and t0: "0 \<le> tot"
    and backed: "\<forall>c \<in> set (bs_chains st). balanceOr0 sim c - weightedTarget st tot c \<le> balanceOr0 raw c"
    and w: "map_of cfg c = Some w"
    and below: "balanceOr0 sim c < weightedTarget st tot c - weightedTarget st tot c * tolerance w div 100"
  shows "balanceOr0 sim c + routeIn c rs = weightedTarget st tot c \<and> RebalancerFailure \<notin> set ev"
proof -
  let ?b = "reserveCollateral raw (ctxPendingTransfers ctx)"
  let ?p = "ctxPendingRebalances ctx" and ?q = "ctxProposedRebalances ctx"
  let ?st = "BaseStrategy.truncate st"
  have wf: "weighted_wf st" by (rule new_WeightedStrategy_wf [OF new keys])
  have st: "ws_config st = cfg" "bs_tokensByChainName ?st = None"
    using new by (auto simp: new_WeightedStrategy_def new_BaseStrategy_def rbind_eq_Inr_iff
        BaseStrategy.defs split: if_splits)
  have ok: "weighted_ok st ?b ?p ?q" using wf t0 by (simp add: weighted_ok_def tot sim)
  from getRebalancingRoutes_plan [OF run [unfolded weightedRoutes_def]] obtain ss ds where
      cat: "weightedCategorize st ?b ?p ?q = ret (ss, ds)"
      and plan: "planRoutes bn ?st (js_sort largerFirst) raw ss ds = (ev, ret rs)" by blast
  note r = weightedCategorize_ret [OF cat, folded sim, folded tot]
  have cs: "c \<in> set (bs_chains st)"
    using wf w st(1) map_of_SomeD [OF w] unfolding weighted_wf_def by (metis fst_conv image_eqI set_map)
  obtain k where k: "weightedClassify st tot sim c = ret k" and mc: "map_of sim c \<noteq> None"
    using r(3) cs by auto
  have def: "k = Deficit (weightedTarget st tot c - balanceOr0 sim c)"
    by (rule weightedClassify_deficit [OF wf t0 k mc _ below]) (simp add: st w)
  have cover: "totalAmount ds \<le> totalAmount ss" by (rule weighted_surplus_covers [OF cat ok])
  have dist: "distinct (map d_chain ss)" using weighted.chains_distinct [OF cat ok] by simp
  have "\<forall>s \<in> set ss. d_amount s \<le> balanceOr0 raw (d_chain s)"
    using r backed weightedClassify_cases(2) [OF wf t0] by (fastforce simp: in_surplusDeltas)
  note kept = weighted_keeps_all [OF _ dist this st(2)]
  from planRoutes_ret [OF plan _ weighted.cat_nonneg [OF cat ok]] obtain ds' rs' where
      ds': "scaleDeficits (totalAmount ss) (totalAmount ds) ds = ret ds'" and m: "matched ss ds' rs'"
      and rs': "rs = filter (\<lambda>r. keepRoute bn ?st raw r = ret True) rs'"
    by auto
  have [simp]: "ds' = ds" using ds' cover by (simp add: scaleDeficits_def)
  have [simp]: "rs = rs'" using rs' kept [OF m] by (simp add: filter_id_conv)
  have "routeIn c rs = chainAmount c ds"
    using m cover by (intro routeIn_exact) (auto simp: matched_def min_def)
  also have "\<dots> = weightedTarget st tot c - balanceOr0 sim c"
    unfolding r(2) chainAmount_categorized(2) [OF weighted_wf_distinct [OF wf]] using cs k def by simp
  finally have "balanceOr0 sim c + routeIn c rs = weightedTarget st tot c" by simp
  moreover have "RebalancerFailure \<notin> set ev"
    using plan cover by (auto simp: planRoutes_def Let_def split: sum.splits if_splits)
  ultimately show ?thesis by blast
qed

section \<open>Witnesses\<close>

definition ex_movable :: "string \<Rightarrow> BridgeConfigWithOverride" where
  "ex_movable b = \<lparr>baseConfig = \<lparr>bridgeMinAcceptedAmount = Some (AmountNumber 0),
     bc_executionType = ExecMovableCollateral, bc_bridge = Some b, bc_externalBridge = None\<rparr>, override = []\<rparr>"

definition ex_bridges :: BridgeConfigs where
  "ex_bridges = [(''a'', ex_movable ''0xA''), (''b'', ex_movable ''0xB'')]"

definition ex_weighted :: WeightedStrategy where
  "ex_weighted = \<lparr>bs_name = ''weighted'', bs_chains = [''a'', ''b''], bs_bridgeConfigs = ex_bridges,
     bs_metrics = True, bs_tokensByChainName = None,
     ws_config = [(''a'', \<lparr>weight = 1, tolerance = 0\<rparr>), (''b'', \<lparr>weight = 1, tolerance = 10\<rparr>)],
     ws_totalWeight = 2\<rparr>"

lemma ex_weighted_new:
  "new_WeightedStrategy [(''a'', \<lparr>weight = 1, tolerance = 0\<rparr>), (''b'', \<lparr>weight = 1, tolerance = 10\<rparr>)]
     ex_bridges True None = ret ex_weighted"
  by (simp add: new_WeightedStrategy_def new_BaseStrategy_def ex_weighted_def BaseStrategy.extend_def)

lemma ex_weighted_simulate: "weightedSimulate (reserveCollateral raw (ctxPendingTransfers None))
    (ctxPendingRebalances None) (ctxProposedRebalances None) = raw"
  by (simp add: weightedSimulate_def reserveCollateral_def ctxPendingTransfers_def
      ctxPendingRebalances_def ctxProposedRebalances_def simulatePendingRebalances_def
      simulateProposedRebalances_def)

lemma ex_weighted_run:
  "weightedRoutes ex_bn ex_weighted [(''a'', 10), (''b'', 2)] None =
     ([IntentCreated (MovableCollateralRoute ''a'' ''b'' 4 (Some ''0xA'')) ''weighted''],
      ret [MovableCollateralRoute ''a'' ''b'' 4 (Some ''0xA'')])"
  by (simp add: weightedRoutes_def getRebalancingRoutes_def ex_weighted_def BaseStrategy.defs
      validateRawBalances_def weightedCategorize_def ex_weighted_simulate
      sumBalances_def categorizeBy_def weightedClassify_def pushDelta_def planRoutes_def totalAmount_def
      scaleDeficits_def js_sort_def filterRoutes_def keepRoute_def balanceOr0_def
      getBridgeConfigForRoute_def getBridgeConfig_def ex_bridges_def ex_movable_def
      createStrategyRoute_def bigint_div_def signed_divide_int_def)

theorem weightedRoutes_no_overshoot_witness:
  "weightedTarget ex_weighted 12 ''a'' = 6 \<and> 6 \<le> balanceOr0 [(''a'', 10), (''b'', 2)] ''a''
     - routeOut ''a'' [MovableCollateralRoute ''a'' ''b'' 4 (Some ''0xA'')]"
  using weightedRoutes_no_overshoot [OF ex_weighted_new _ ex_weighted_run ex_weighted_simulate [symmetric] refl]
  by (simp add: ex_weighted_def balanceOr0_def weightedTarget_def weightOf_def)

theorem weightedRoutes_reach_target_witness:
  "balanceOr0 [(''a'', 10), (''b'', 2)] ''b'' + routeIn ''b'' [MovableCollateralRoute ''a'' ''b'' 4 (Some ''0xA'')]
     = weightedTarget ex_weighted 12 ''b''"
  using weightedRoutes_reach_target [OF ex_weighted_new _ ex_weighted_run ex_weighted_simulate [symmetric] refl,
      of "''b''" "\<lparr>weight = 1, tolerance = 10\<rparr>"]
  by (simp add: ex_weighted_def balanceOr0_def weightedTarget_def weightOf_def)

end
