(* ===== verification/MinAmount_Strategy.thy ===== *)
theory MinAmount_Strategy
  imports Base_Strategy
begin

text \<open>
  \<open>typescript/rebalancer/src/strategy/MinAmountStrategy.ts\<close>: a chain below its minimum is a deficit
  up to its target, a chain above its minimum has the rest as surplus. Minimum and target are
  absolute token amounts, or fractions of the total simulated balance.
\<close>

section \<open>Definitions\<close>

datatype MinAmountType = Absolute | Relative

record MinAmountChainConfig =
  ma_min :: amount_value
  ma_target :: amount_value
  ma_type :: MinAmountType

record MinAmountStrategy = BaseStrategy +
  ma_config :: "(chain, MinAmountChainConfig) dict"

definition sumTargets :: "bignumber_api \<Rightarrow> BaseStrategy \<Rightarrow> (chain, MinAmountChainConfig) dict \<Rightarrow> int result" where
  "sumTargets bn base config =
     rfold (\<lambda>sum cc. rbind (getTokenByChainName base (fst cc)) (\<lambda>token.
       rbind (normalizeConfiguredAmount bn (ma_target (snd cc)) token) (\<lambda>t. ret (sum + t)))) 0 config"

text \<open>The text of the thrown message formats both sums with the first chain's token.\<close>

definition validateAmounts ::
    "bignumber_api \<Rightarrow> BaseStrategy \<Rightarrow> int \<Rightarrow> MinAmountType \<Rightarrow> (chain, MinAmountChainConfig) dict \<Rightarrow> unit result" where
  "validateAmounts bn base totalCollateral minAmountType config =
     (if minAmountType = Absolute then
        (case bs_chains base of
           [] \<Rightarrow> throw (Thrown ''Token not found for chain'' '''')
         | c # _ \<Rightarrow>
            rbind (getTokenByChainName base c) (\<lambda>displayToken.
            rbind (sumTargets bn base config) (\<lambda>totalTargets.
              if totalTargets > totalCollateral then
                rbind (localAmountFromMessage totalTargets (token_scale displayToken)) (\<lambda>_.
                rbind (localAmountFromMessage totalCollateral (token_scale displayToken)) (\<lambda>_.
                  throw (Thrown ''Consider reducing the targets as the sum is greater than sum of collaterals'' '''')))
              else ret ())))
      else ret ())"

fun checkRanges :: "bignumber_api \<Rightarrow> (chain, MinAmountChainConfig) dict \<Rightarrow> unit result" where
  "checkRanges bn [] = ret ()"
| "checkRanges bn ((c, m) # cfg) =
     (if bn_lt bn (ma_target m) (ma_min m)
      then throw (Thrown ''Target must be greater than or equal to min'' c)
      else if bn_lt bn (ma_min m) (AmountNumber 0)
      then throw (Thrown ''Minimum amount cannot be negative'' c)
      else if bn_lt bn (ma_target m) (AmountNumber 0)
      then throw (Thrown ''Target amount cannot be negative'' c)
      else checkRanges bn cfg)"

definition new_MinAmountStrategy ::
    "bignumber_api \<Rightarrow> (chain, MinAmountChainConfig) dict \<Rightarrow> (chain, Token) dict \<Rightarrow> int \<Rightarrow> BridgeConfigs
      \<Rightarrow> bool \<Rightarrow> MinAmountStrategy result" where
  "new_MinAmountStrategy bn config tokens initialTotalCollateral bridges metrics =
     rbind (new_BaseStrategy ''minAmount'' (dict_keys config) bridges metrics (Some tokens)) (\<lambda>base.
       case config of
         [] \<Rightarrow> throw TypeError
       | (_, first) # _ \<Rightarrow>
           rbind (validateAmounts bn base initialTotalCollateral (ma_type first) config) (\<lambda>_.
           rbind (checkRanges bn config) (\<lambda>_.
             ret (BaseStrategy.extend base \<lparr>ma_config = config\<rparr>))))"

definition minAmountBounds ::
    "bignumber_api \<Rightarrow> BaseStrategy \<Rightarrow> int \<Rightarrow> chain \<Rightarrow> MinAmountChainConfig \<Rightarrow> (int \<times> int) result" where
  "minAmountBounds bn base totalCollateral c m =
     (if ma_type m = Absolute then
        rbind (getTokenByChainName base c) (\<lambda>token.
        rbind (normalizeConfiguredAmount bn (ma_min m) token) (\<lambda>minAmount.
        rbind (normalizeConfiguredAmount bn (ma_target m) token) (\<lambda>targetAmount.
          ret (minAmount, targetAmount))))
      else ret (bn_times_floor bn totalCollateral (ma_min m), bn_times_floor bn totalCollateral (ma_target m)))"

definition minAmountClassify ::
    "bignumber_api \<Rightarrow> MinAmountStrategy \<Rightarrow> int \<Rightarrow> RawBalances \<Rightarrow> chain \<Rightarrow> balance_class result" where
  "minAmountClassify bn st totalCollateral sim c =
     (case map_of (ma_config st) c of
        None \<Rightarrow> throw TypeError
      | Some m \<Rightarrow>
          rbind (minAmountBounds bn (BaseStrategy.truncate st) totalCollateral c m) (\<lambda>(minAmount, targetAmount).
          case map_of sim c of
            None \<Rightarrow> throw TypeError
          | Some balance \<Rightarrow>
              ret (if balance < minAmount then Deficit (targetAmount - balance)
                   else if balance - minAmount > 0 then Surplus (balance - minAmount)
                   else OnTarget)))"

definition minAmountSimulate :: "RawBalances \<Rightarrow> Route list \<Rightarrow> StrategyRoute list \<Rightarrow> RawBalances" where
  "minAmountSimulate raw pending proposed =
     simulateProposedRebalances (simulatePendingRebalances raw pending) (map as_Route proposed)"

definition minAmountCategorize :: "bignumber_api \<Rightarrow> MinAmountStrategy \<Rightarrow> categorize" where
  "minAmountCategorize bn st raw pending proposed =
     (let sim = minAmountSimulate raw pending proposed in
      rbind (sumBalances (bs_chains st) sim) (\<lambda>totalCollateral.
        categorizeBy (minAmountClassify bn st totalCollateral sim) (bs_chains st)))"

definition minAmountRoutes ::
    "bignumber_api \<Rightarrow> MinAmountStrategy \<Rightarrow> RawBalances \<Rightarrow> InflightContext option \<Rightarrow> StrategyRoute list run" where
  "minAmountRoutes bn st raw ctx =
     getRebalancingRoutes bn (BaseStrategy.truncate st) (minAmountCategorize bn st) raw ctx"

section \<open>The configuration a constructor accepts\<close>

text \<open>Every configured amount denotes a number, and the constructor has put them in order.\<close>

definition minAmount_ordered :: "(amount_value \<Rightarrow> rat option) \<Rightarrow> MinAmountChainConfig \<Rightarrow> bool" where
  "minAmount_ordered val m \<longleftrightarrow> (\<exists>x y. val (ma_min m) = Some x \<and> val (ma_target m) = Some y \<and> 0 \<le> x \<and> x \<le> y)"

definition minAmount_wf :: "(amount_value \<Rightarrow> rat option) \<Rightarrow> MinAmountStrategy \<Rightarrow> bool" where
  "minAmount_wf val st \<longleftrightarrow>
     distinct (bs_chains st) \<and> bs_chains st = dict_keys (ma_config st)
   \<and> (\<forall>m \<in> set (dict_values (ma_config st)). minAmount_ordered val m)"

definition amounts_numeric :: "(amount_value \<Rightarrow> rat option) \<Rightarrow> (chain, MinAmountChainConfig) dict \<Rightarrow> bool" where
  "amounts_numeric val cfg \<longleftrightarrow>
     (\<forall>m \<in> set (dict_values cfg). val (ma_min m) \<noteq> None \<and> val (ma_target m) \<noteq> None)"

lemma checkRanges_ordered:
  assumes bn: "bn_laws bn val" and "amounts_numeric val cfg" "checkRanges bn cfg = ret u"
  shows "\<forall>m \<in> set (dict_values cfg). minAmount_ordered val m"
  using assms(2,3)
proof (induction cfg)
  case (Cons cm cfg)
  obtain c m where cm: "cm = (c, m)" by fastforce
  obtain x y where xy: "val (ma_min m) = Some x" "val (ma_target m) = Some y"
    using Cons.prems(1) cm by (auto simp: amounts_numeric_def)
  have z: "val (AmountNumber 0) = Some 0" using bn by (simp add: bn_laws_def)
  have "\<not> y < x" "\<not> x < 0" "checkRanges bn cfg = ret u"
    using Cons.prems(2) bn_lawsD(1) [OF bn xy(2,1)] bn_lawsD(1) [OF bn xy(1) z]
    unfolding cm by (auto split: if_splits)
  then show ?case using Cons xy cm by (auto simp: amounts_numeric_def minAmount_ordered_def)
qed simp

lemma new_MinAmountStrategy_sel:
  assumes "new_MinAmountStrategy bn cfg tokens tot bridges metrics = ret st"
  shows "ma_config st = cfg" "bs_chains st = dict_keys cfg" "checkRanges bn cfg = ret ()"
  using assms
  by (auto simp: new_MinAmountStrategy_def new_BaseStrategy_def rbind_eq_Inr_iff BaseStrategy.extend_def
      split: if_splits list.splits)

lemma new_MinAmountStrategy_wf:
  assumes "bn_laws bn val" "amounts_numeric val cfg" "distinct (dict_keys cfg)"
    and "new_MinAmountStrategy bn cfg tokens tot bridges metrics = ret st"
  shows "minAmount_wf val st"
  using checkRanges_ordered [OF assms(1,2)] new_MinAmountStrategy_sel [OF assms(4)] assms(3)
  unfolding minAmount_wf_def by metis

lemma minAmount_wf_distinct: "minAmount_wf val st \<Longrightarrow> distinct (bs_chains st)"
  unfolding minAmount_wf_def by blast

lemma minAmountBounds_le:
  assumes bn: "bn_laws bn val" and m: "minAmount_ordered val m"
    and b: "minAmountBounds bn base tot c m = ret (lo, hi)" and t0: "ma_type m = Relative \<longrightarrow> 0 \<le> tot"
  shows "lo \<le> hi"
proof -
  obtain x y where xy: "val (ma_min m) = Some x" "val (ma_target m) = Some y" "0 \<le> x" "x \<le> y"
    using m by (auto simp: minAmount_ordered_def)
  show ?thesis
  proof (cases "ma_type m")
    case Absolute
    with b show ?thesis using normalizeConfiguredAmount_mono [OF bn xy]
      by (auto simp: minAmountBounds_def rbind_eq_Inr_iff)
  next
    case Relative
    then have "lo = \<lfloor>of_int tot * x\<rfloor>" "hi = \<lfloor>of_int tot * y\<rfloor>"
      using b bn_lawsD(2) [OF bn] xy by (auto simp: minAmountBounds_def)
    with Relative t0 xy show ?thesis by (simp add: floor_mono mult_left_mono)
  qed
qed

section \<open>Categorization\<close>

definition minAmount_ok ::
    "bignumber_api \<Rightarrow> (amount_value \<Rightarrow> rat option) \<Rightarrow> MinAmountStrategy \<Rightarrow> RawBalances \<Rightarrow> Route list
      \<Rightarrow> StrategyRoute list \<Rightarrow> bool" where
  "minAmount_ok bn val st raw pending proposed \<longleftrightarrow>
     bn_laws bn val \<and> minAmount_wf val st
   \<and> ((\<exists>m \<in> set (dict_values (ma_config st)). ma_type m = Relative) \<longrightarrow>
       0 \<le> sum_list (map (balanceOr0 (minAmountSimulate raw pending proposed)) (bs_chains st)))"

lemma minAmountClassify_cases:
  assumes "minAmountClassify bn st tot sim c = ret k"
  obtains m lo hi b where "map_of (ma_config st) c = Some m"
    and "minAmountBounds bn (BaseStrategy.truncate st) tot c m = ret (lo, hi)"
    and "map_of sim c = Some b" and "k = Surplus a \<Longrightarrow> a = b - lo \<and> 0 < a"
    and "k = Deficit a \<Longrightarrow> a = hi - b \<and> b < lo"
  using assms
  by (auto simp: minAmountClassify_def rbind_eq_Inr_iff split: option.splits prod.splits if_splits)

lemma minAmountCategorize_ret:
  assumes "minAmountCategorize bn st raw p q = ret (ss, ds)"
  defines "sim \<equiv> minAmountSimulate raw p q"
  defines "tot \<equiv> sum_list (map (balanceOr0 sim) (bs_chains st))"
  shows "ss = surplusDeltas (minAmountClassify bn st tot sim) (bs_chains st)"
    and "ds = deficitDeltas (minAmountClassify bn st tot sim) (bs_chains st)"
    and "\<forall>c \<in> set (bs_chains st). \<exists>k. minAmountClassify bn st tot sim c = ret k"
proof -
  from assms(1) obtain t where t: "sumBalances (bs_chains st) sim = ret t"
      and c: "categorizeBy (minAmountClassify bn st t sim) (bs_chains st) = ret (ss, ds)"
    by (auto simp: minAmountCategorize_def sim_def Let_def rbind_eq_Inr_iff)
  have tt: "t = tot" using sumBalances_ret [OF t] by (simp add: tot_def)
  show "ss = surplusDeltas (minAmountClassify bn st tot sim) (bs_chains st)"
    "ds = deficitDeltas (minAmountClassify bn st tot sim) (bs_chains st)"
    "\<forall>c \<in> set (bs_chains st). \<exists>k. minAmountClassify bn st tot sim c = ret k"
    using categorizeBy_ret [OF c] tt by auto
qed

lemma minAmount_bounds_ok:
  assumes ok: "minAmount_ok bn val st raw p q" and m: "map_of (ma_config st) c = Some m"
    and b: "minAmountBounds bn base (sum_list (map (balanceOr0 (minAmountSimulate raw p q)) (bs_chains st))) c m
      = ret (lo, hi)"
  shows "lo \<le> hi"
proof -
  have mem: "m \<in> set (dict_values (ma_config st))" using map_of_SomeD [OF m] by force
  show ?thesis
    using ok mem by (intro minAmountBounds_le [OF _ _ b]) (auto simp: minAmount_ok_def minAmount_wf_def)
qed

interpretation minAmount: categorizer "minAmountCategorize bn st" "minAmount_ok bn val st" for bn val st
proof
  fix b p q ss ds s
  assume c: "minAmountCategorize bn st b p q = ret (ss, ds)" and k: "minAmount_ok bn val st b p q"
  note r = minAmountCategorize_ret [OF c]
  have wf: "minAmount_wf val st" using k by (simp add: minAmount_ok_def)
  show "0 < d_amount s" if "s \<in> set ss"
    using that r(1) by (auto simp: in_surplusDeltas elim!: minAmountClassify_cases)
  show "0 \<le> d_amount s" if "s \<in> set ds"
    using that r(2) minAmount_bounds_ok [OF k] by (fastforce simp: in_deficitDeltas elim!: minAmountClassify_cases)
  show "distinct (map d_chain (ss @ ds))"
    unfolding r(1,2) by (rule distinct_categorized [OF minAmount_wf_distinct [OF wf]])
qed

section \<open>Routes\<close>

lemma minAmount_chain_amounts:
  assumes cat: "minAmountCategorize bn st raw p q = ret (ss, ds)" and ok: "minAmount_ok bn val st raw p q"
    and c: "c \<in> set (bs_chains st)" and m: "map_of (ma_config st) c = Some m"
    and b: "minAmountBounds bn (BaseStrategy.truncate st)
        (sum_list (map (balanceOr0 (minAmountSimulate raw p q)) (bs_chains st))) c m = ret (lo, hi)"
  shows "0 < chainAmount c ss \<Longrightarrow> chainAmount c ss = balanceOr0 (minAmountSimulate raw p q) c - lo"
    and "0 < chainAmount c ds \<Longrightarrow> chainAmount c ds = hi - balanceOr0 (minAmountSimulate raw p q) c
      \<and> balanceOr0 (minAmountSimulate raw p q) c < lo"
proof -
  note r = minAmountCategorize_ret [OF cat]
  have d: "distinct (bs_chains st)" using ok minAmount_wf_distinct by (auto simp: minAmount_ok_def)
  obtain k where k: "minAmountClassify bn st (sum_list (map (balanceOr0 (minAmountSimulate raw p q)) (bs_chains st)))
      (minAmountSimulate raw p q) c = ret k"
    using r(3) c by blast
  obtain x where x: "map_of (minAmountSimulate raw p q) c = Some x"
    and ks: "k = (if x < lo then Deficit (hi - x) else if x - lo > 0 then Surplus (x - lo) else OnTarget)"
    using k m b by (auto simp: minAmountClassify_def rbind_eq_Inr_iff split: option.splits)
  have bx: "balanceOr0 (minAmountSimulate raw p q) c = x" using x by (simp add: balanceOr0_def)
  show "chainAmount c ss = balanceOr0 (minAmountSimulate raw p q) c - lo" if "0 < chainAmount c ss"
    using that unfolding r(1) chainAmount_categorized(1) [OF d] bx using c k ks by (auto split: if_splits)
  show "chainAmount c ds = hi - balanceOr0 (minAmountSimulate raw p q) c
      \<and> balanceOr0 (minAmountSimulate raw p q) c < lo" if "0 < chainAmount c ds"
    using that unfolding r(2) chainAmount_categorized(2) [OF d] bx using c k ks by (auto split: if_splits)
qed

text \<open>
  C7. A minimum-amount strategy the constructor accepts protects the minimum. Whenever it returns
  routes (and, if some chain is configured by a fraction, the simulated balances do not sum to
  a negative amount), every route is positive, covered by the raw balance of its origin and goes to
  another chain; a chain that receives was below its minimum and is not filled past its target,
  and a chain that sends keeps at least its minimum.
\<close>

theorem minAmountRoutes_keep_minimum:
  assumes bn: "bn_laws bn val" and num: "amounts_numeric val cfg" and keys: "distinct (dict_keys cfg)"
    and new: "new_MinAmountStrategy bn cfg tokens collateral bridges metrics = ret st"
    and run: "minAmountRoutes bn st raw ctx = (ev, ret rs)"
    and sim: "sim = minAmountSimulate (reserveCollateral raw (ctxPendingTransfers ctx))
        (ctxPendingRebalances ctx) (ctxProposedRebalances ctx)"
    and tot: "tot = sum_list (map (balanceOr0 sim) (bs_chains st))"
    and t0: "(\<exists>m \<in> set (dict_values cfg). ma_type m = Relative) \<longrightarrow> 0 \<le> tot"
    and m: "map_of cfg c = Some m"
    and b: "minAmountBounds bn (BaseStrategy.truncate st) tot c m = ret (lo, hi)"
  shows "(\<forall>r \<in> set rs. 0 < sr_amount r \<and> sr_amount r \<le> balanceOr0 raw (sr_origin r)
        \<and> sr_origin r \<noteq> sr_destination r)
    \<and> (0 < routeIn c rs \<longrightarrow> balanceOr0 sim c < lo \<and> balanceOr0 sim c + routeIn c rs \<le> hi)
    \<and> (0 < routeOut c rs \<longrightarrow> lo \<le> balanceOr0 sim c - routeOut c rs)"
proof -
  let ?eff = "reserveCollateral raw (ctxPendingTransfers ctx)"
  let ?p = "ctxPendingRebalances ctx" and ?q = "ctxProposedRebalances ctx"
  have cfg: "ma_config st = cfg" "bs_chains st = dict_keys cfg"
    using new_MinAmountStrategy_sel [OF new] by auto
  have ok: "minAmount_ok bn val st ?eff ?p ?q"
    using bn new_MinAmountStrategy_wf [OF bn num keys new] t0
    unfolding minAmount_ok_def tot sim cfg by blast
  from minAmount.routes_safe [OF run [unfolded minAmountRoutes_def] ok] obtain ss ds where
      cat: "minAmountCategorize bn st ?eff ?p ?q = ret (ss, ds)" and safe: "safe_routes raw ss ds rs"
      and self: "\<forall>r \<in> set rs. sr_origin r \<noteq> sr_destination r" .
  have c: "c \<in> set (bs_chains st)" using map_of_SomeD [OF m] unfolding cfg by force
  note amt = minAmount_chain_amounts [OF cat ok c m [folded cfg(1)], folded sim, folded tot, OF b]
  have bounds: "routeIn c rs \<le> chainAmount c ds" "routeOut c rs \<le> chainAmount c ss"
    using safe by (simp_all add: safe_routes_def)
  then have "(0 < routeIn c rs \<longrightarrow> balanceOr0 sim c < lo \<and> balanceOr0 sim c + routeIn c rs \<le> hi)
    \<and> (0 < routeOut c rs \<longrightarrow> lo \<le> balanceOr0 sim c - routeOut c rs)"
    using amt by linarith
  then show ?thesis using safe self by (auto simp: safe_routes_def)
qed

definition ex_min_cfg :: "(chain, MinAmountChainConfig) dict" where
  "ex_min_cfg = [(''a'', \<lparr>ma_min = AmountString ''1'', ma_target = AmountString ''2'', ma_type = Absolute\<rparr>),
     (''b'', \<lparr>ma_min = AmountString ''1'', ma_target = AmountString ''2'', ma_type = Absolute\<rparr>)]"

definition ex_min_tokens :: "(chain, Token) dict" where
  "ex_min_tokens = [(''a'', (ex_token ''a'')\<lparr>token_decimals := 2\<rparr>), (''b'', (ex_token ''b'')\<lparr>token_decimals := 2\<rparr>)]"

definition ex_min_bridges :: BridgeConfigs where
  "ex_min_bridges = [(''a'', \<lparr>baseConfig = \<lparr>bridgeMinAcceptedAmount = None,
     bc_executionType = ExecInventory, bc_bridge = None, bc_externalBridge = Some LiFi\<rparr>, override = []\<rparr>)]"

definition ex_minAmount :: MinAmountStrategy where
  "ex_minAmount = \<lparr>bs_name = ''minAmount'', bs_chains = [''a'', ''b''], bs_bridgeConfigs = ex_min_bridges,
     bs_metrics = False, bs_tokensByChainName = Some ex_min_tokens, ma_config = ex_min_cfg\<rparr>"

lemma ex_bn_lt [simp]: "bn_lt ex_bn a b \<longleftrightarrow> ex_num a < ex_num b"
  by (simp add: ex_bn_def)

lemma ex_min_new:
  "new_MinAmountStrategy ex_bn ex_min_cfg ex_min_tokens 400 ex_min_bridges False = ret ex_minAmount"
  by (simp add: new_MinAmountStrategy_def new_BaseStrategy_def ex_min_cfg_def validateAmounts_def
      getTokenByChainName_def ex_min_tokens_def sumTargets_def ex_normalize ex_num_def
      ex_vals ex_minAmount_def BaseStrategy.extend_def)

lemma ex_min_simulate: "minAmountSimulate (reserveCollateral raw (ctxPendingTransfers None))
    (ctxPendingRebalances None) (ctxProposedRebalances None) = raw"
  by (simp add: minAmountSimulate_def reserveCollateral_def ctxPendingTransfers_def
      ctxPendingRebalances_def ctxProposedRebalances_def simulatePendingRebalances_def
      simulateProposedRebalances_def)

lemma ex_min_run:
  "minAmountRoutes ex_bn ex_minAmount [(''a'', 350), (''b'', 50)] None = ([], ret [InventoryRoute ''a'' ''b'' 150 (Some LiFi)])"
  by (simp add: minAmountRoutes_def getRebalancingRoutes_def ex_minAmount_def BaseStrategy.defs
      validateRawBalances_def minAmountCategorize_def ex_min_simulate sumBalances_def categorizeBy_def
      minAmountClassify_def ex_min_cfg_def minAmountBounds_def getTokenByChainName_def ex_min_tokens_def
      ex_normalize pushDelta_def planRoutes_def totalAmount_def scaleDeficits_def js_sort_def
      filterRoutes_def keepRoute_def balanceOr0_def getBridgeConfigForRoute_def getBridgeConfig_def
      ex_min_bridges_def createStrategyRoute_def)

theorem minAmountRoutes_keep_minimum_witness:
  "balanceOr0 [(''a'', 350), (''b'', 50)] ''b'' + routeIn ''b'' [InventoryRoute ''a'' ''b'' 150 (Some LiFi)] \<le> 200"
proof -
  have num: "amounts_numeric ex_val ex_min_cfg"
    by (simp add: amounts_numeric_def ex_min_cfg_def ex_vals)
  have b: "minAmountBounds ex_bn (BaseStrategy.truncate ex_minAmount) 400 ''b''
      \<lparr>ma_min = AmountString ''1'', ma_target = AmountString ''2'', ma_type = Absolute\<rparr> = ret (100, 200)"
    by (simp add: minAmountBounds_def getTokenByChainName_def ex_minAmount_def BaseStrategy.defs
        ex_min_tokens_def ex_normalize)
  have tot: "400 = sum_list (map (balanceOr0 [(''a'', 350), (''b'', 50)]) (bs_chains ex_minAmount))"
    by (simp add: ex_minAmount_def balanceOr0_def)
  show ?thesis
    using minAmountRoutes_keep_minimum [OF ex_bn_laws num _ ex_min_new ex_min_run ex_min_simulate [symmetric] tot _ _ b]
    by (simp add: ex_min_cfg_def)
qed

end
