(* ===== verification/Deficit_Strategy.thy ===== *)
theory Deficit_Strategy
  imports Base_Strategy "HOL-Library.Product_Lexorder"
begin

text \<open>
  \<open>typescript/rebalancer/src/strategy/CollateralDeficitStrategy.ts\<close>: a chain whose simulated balance
  is negative is a deficit of its magnitude plus a buffer, a chain with a positive one is a
  surplus. The strategy overrides \<open>getRebalancingRoutes\<close>: it takes no proposed rebalances into
  account, and it draws from the origins of the transfers that caused a deficit first.
\<close>

section \<open>Definitions\<close>

record CollateralDeficitStrategy = BaseStrategy +
  cd_config :: "(chain, amount_value) dict"

definition new_CollateralDeficitStrategy ::
    "(chain, amount_value) dict \<Rightarrow> (chain, Token) dict \<Rightarrow> BridgeConfigs \<Rightarrow> bool
      \<Rightarrow> CollateralDeficitStrategy result" where
  "new_CollateralDeficitStrategy config tokens bridges metrics =
     rbind (new_BaseStrategy ''collateralDeficit'' (dict_keys config) bridges metrics (Some tokens)) (\<lambda>base.
       ret (BaseStrategy.extend base \<lparr>cd_config = config\<rparr>))"

text \<open>A bridge that is an absent key, \<open>undefined\<close> or the empty string does not decide.\<close>

definition matchesConfiguredBridge :: "BaseStrategy \<Rightarrow> Route \<Rightarrow> bool result" where
  "matchesConfiguredBridge st r =
     rbind (getBridgeConfigForRoute st (origin r) (destination r)) (\<lambda>bc.
       if bridge r \<noteq> None \<and> bridge r \<noteq> Some [] then
         ret (isMovableCollateralConfig bc \<and> bc_bridge bc = bridge r)
       else if externalBridge r \<noteq> None then
         ret (isInventoryConfig bc \<and> bc_externalBridge bc = externalBridge r)
       else ret True)"

definition filterByConfiguredBridges :: "BaseStrategy \<Rightarrow> Route list \<Rightarrow> Route list result" where
  "filterByConfiguredBridges st rs =
     (if rs = [] then ret [] else rfilter (matchesConfiguredBridge st) rs)"

text \<open>Both comparisons of \<open>undefined\<close> with \<open>0n\<close> are false.\<close>

definition deficitClassify ::
    "bignumber_api \<Rightarrow> CollateralDeficitStrategy \<Rightarrow> RawBalances \<Rightarrow> chain \<Rightarrow> balance_class result" where
  "deficitClassify bn st sim c =
     rbind (getTokenByChainName (BaseStrategy.truncate st) c) (\<lambda>token.
     case map_of (cd_config st) c of
       None \<Rightarrow> throw TypeError
     | Some buffer \<Rightarrow>
         rbind (normalizeConfiguredAmount bn buffer token) (\<lambda>bufferWei.
         ret (case map_of sim c of
                None \<Rightarrow> OnTarget
              | Some balance \<Rightarrow>
                  if balance < 0 then Deficit (- balance + bufferWei)
                  else if balance > 0 then Surplus balance
                  else OnTarget)))"

definition deficitSimulate ::
    "BaseStrategy \<Rightarrow> RawBalances \<Rightarrow> Route list \<Rightarrow> StrategyRoute list \<Rightarrow> RawBalances result" where
  "deficitSimulate st raw pending proposed =
     rbind (filterByConfiguredBridges st pending) (\<lambda>filteredPending.
     rbind (filterByConfiguredBridges st (map as_Route proposed)) (\<lambda>filteredProposed.
       ret (simulateProposedRebalances (simulatePendingRebalances raw filteredPending) filteredProposed)))"

definition deficitCategorize :: "bignumber_api \<Rightarrow> CollateralDeficitStrategy \<Rightarrow> categorize" where
  "deficitCategorize bn st raw pending proposed =
     rbind (deficitSimulate (BaseStrategy.truncate st) raw pending proposed) (\<lambda>sim.
       categorizeBy (deficitClassify bn st sim) (bs_chains st))"

definition originMapStep ::
    "chain list \<Rightarrow> (chain, chain list) dict \<Rightarrow> Route \<Rightarrow> (chain, chain list) dict" where
  "originMapStep deficitChains originMap t =
     (if List.member deficitChains (destination t) then
        let origins = (case map_of originMap (destination t) of None \<Rightarrow> [] | Some os \<Rightarrow> os)
        in AList.update (destination t) (List.insert (origin t) origins) originMap
      else originMap)"

definition buildTransferOriginMap :: "Route list \<Rightarrow> chain list \<Rightarrow> (chain, chain list) dict" where
  "buildTransferOriginMap transfers deficitChains = foldl (originMapStep deficitChains) [] transfers"

definition allOriginChains :: "(chain, chain list) dict \<Rightarrow> chain list" where
  "allOriginChains originMap = concat (dict_values originMap)"

definition originPreference :: "chain list \<Rightarrow> Delta \<Rightarrow> Delta \<Rightarrow> int" where
  "originPreference origins a b =
     (let aIsOrigin = List.member origins (d_chain a);
          bIsOrigin = List.member origins (d_chain b)
      in if aIsOrigin \<and> \<not> bIsOrigin then -1
         else if \<not> aIsOrigin \<and> bIsOrigin then 1
         else if d_amount a > d_amount b then -1 else 1)"

definition sortSurplusesWithOriginPreference :: "(chain, chain list) dict \<Rightarrow> Delta list \<Rightarrow> Delta list" where
  "sortSurplusesWithOriginPreference originMap surpluses =
     js_sort (originPreference (allOriginChains originMap)) surpluses"

definition deficitRoutes ::
    "bignumber_api \<Rightarrow> CollateralDeficitStrategy \<Rightarrow> RawBalances \<Rightarrow> InflightContext option
      \<Rightarrow> StrategyRoute list run" where
  "deficitRoutes bn st raw ctx =
     (let base = BaseStrategy.truncate st;
          transfers = ctxPendingTransfers ctx;
          categorized = rbind (validateRawBalances base raw) (\<lambda>_.
            deficitCategorize bn st (reserveCollateral raw transfers) (ctxPendingRebalances ctx) [])
      in case categorized of
           Inl e \<Rightarrow> ([], Inl e)
         | Inr (surpluses, deficits) \<Rightarrow>
             let originMap = buildTransferOriginMap transfers (map d_chain deficits)
             in planRoutes bn base (sortSurplusesWithOriginPreference originMap) raw surpluses deficits)"

section \<open>Categorization\<close>

lemma deficitCategorize_ret:
  assumes "deficitCategorize bn st raw p q = ret (ss, ds)"
  obtains sim where "deficitSimulate (BaseStrategy.truncate st) raw p q = ret sim"
    and "ss = surplusDeltas (deficitClassify bn st sim) (bs_chains st)"
    and "ds = deficitDeltas (deficitClassify bn st sim) (bs_chains st)"
    and "\<forall>c \<in> set (bs_chains st). \<exists>k. deficitClassify bn st sim c = ret k"
  using assms categorizeBy_ret by (fastforce simp: deficitCategorize_def rbind_eq_Inr_iff)

lemma deficitClassify_cases:
  assumes "deficitClassify bn st sim c = ret k"
  obtains t b w where "getTokenByChainName (BaseStrategy.truncate st) c = ret t"
    and "map_of (cd_config st) c = Some b" and "normalizeConfiguredAmount bn b t = ret w" and "0 \<le> w"
    and "k = (if balanceOr0 sim c < 0 then Deficit (- balanceOr0 sim c + w)
       else if balanceOr0 sim c > 0 then Surplus (balanceOr0 sim c) else OnTarget)"
  using assms normalizeConfiguredAmount_nonneg
  by (fastforce simp: deficitClassify_def balanceOr0_def rbind_eq_Inr_iff split: option.splits)

interpretation deficit: categorizer "deficitCategorize bn st" "\<lambda>_ _ _. distinct (bs_chains st)" for bn st
proof
  fix b p q ss ds s
  assume c: "deficitCategorize bn st b p q = ret (ss, ds)" and d: "distinct (bs_chains st)"
  from deficitCategorize_ret [OF c] obtain sim where
    r: "ss = surplusDeltas (deficitClassify bn st sim) (bs_chains st)"
      "ds = deficitDeltas (deficitClassify bn st sim) (bs_chains st)" by blast
  show "0 < d_amount s" if "s \<in> set ss"
    using that r by (auto simp: in_surplusDeltas split: if_splits elim!: deficitClassify_cases)
  show "0 \<le> d_amount s" if "s \<in> set ds"
    using that r by (auto simp: in_deficitDeltas split: if_splits elim!: deficitClassify_cases)
  show "distinct (map d_chain (ss @ ds))" unfolding r by (rule distinct_categorized [OF d])
qed

section \<open>The order of the surpluses\<close>

lemma foldl_originMapStep:
  "(\<exists>os. map_of (foldl (originMapStep dcs) m ts) d = Some os \<and> x \<in> set os) \<longleftrightarrow>
     (\<exists>os. map_of m d = Some os \<and> x \<in> set os)
   \<or> (\<exists>t \<in> set ts. destination t = d \<and> d \<in> set dcs \<and> origin t = x)"
proof (induction ts arbitrary: m)
  case (Cons t ts)
  have "(\<exists>os. map_of (originMapStep dcs m t) d = Some os \<and> x \<in> set os) \<longleftrightarrow>
      (\<exists>os. map_of m d = Some os \<and> x \<in> set os)
    \<or> (destination t = d \<and> d \<in> set dcs \<and> origin t = x)"
    by (cases "map_of m d") (auto simp: originMapStep_def Let_def)
  then show ?case using Cons.IH [of "originMapStep dcs m t"] by auto
qed simp

lemma distinct_originMap:
  "distinct (dict_keys m) \<Longrightarrow> distinct (dict_keys (foldl (originMapStep dcs) m ts))"
  by (induction ts arbitrary: m) (simp_all add: originMapStep_def Let_def)

lemma in_allOriginChains:
  "distinct (dict_keys m) \<Longrightarrow>
     x \<in> set (allOriginChains m) \<longleftrightarrow> (\<exists>d os. map_of m d = Some os \<and> x \<in> set os)"
  by (force simp: allOriginChains_def)

text \<open>The preferred chains are the origins of the pending transfers to a deficit chain.\<close>

definition transferOrigin :: "Route list \<Rightarrow> Delta list \<Rightarrow> chain \<Rightarrow> bool" where
  "transferOrigin ts ds c \<longleftrightarrow> (\<exists>t \<in> set ts. destination t \<in> d_chain ` set ds \<and> origin t = c)"

lemma allOriginChains_transferOrigin:
  "c \<in> set (allOriginChains (buildTransferOriginMap ts (map d_chain ds))) \<longleftrightarrow> transferOrigin ts ds c"
  unfolding buildTransferOriginMap_def
  by (subst in_allOriginChains [OF distinct_originMap])
    (auto simp: foldl_originMapStep transferOrigin_def)

lemma originPreference_key:
  "originPreference os a b < 0 \<longleftrightarrow>
     (d_chain b \<in> set os, d_amount b) < (d_chain a \<in> set os, d_amount a)"
  by (auto simp: originPreference_def Let_def)

lemma sortSurpluses_sorted:
  "sorted_wrt (\<lambda>a b. (d_chain b \<in> set (allOriginChains m), d_amount b)
      \<le> (d_chain a \<in> set (allOriginChains m), d_amount a)) (sortSurplusesWithOriginPreference m ss)"
  unfolding sortSurplusesWithOriginPreference_def
  by (rule sorted_js_sort) (rule originPreference_key)

lemma mset_sortSurpluses [simp]: "mset (sortSurplusesWithOriginPreference m ss) = mset ss"
  by (simp add: sortSurplusesWithOriginPreference_def)

lemma split_preferred:
  assumes "sorted_wrt (\<lambda>a b. (P b, f b) \<le> (P a, f a :: int)) xs"
  shows "xs = filter P xs @ filter (\<lambda>x. \<not> P x) xs"
  using assms
proof (induction xs)
  case (Cons x xs)
  show ?case
  proof (cases "P x")
    case False
    then have "\<forall>y \<in> set xs. \<not> P y" using Cons.prems by auto
    then have "filter P xs = []" "filter (\<lambda>x. \<not> P x) xs = xs" by (simp_all add: filter_empty_conv filter_id_conv)
    with False show ?thesis by simp
  qed (use Cons in simp)
qed simp

lemma matchRoutes_preferred_first:
  assumes m: "matchRoutes bc zs ds = ret rs"
    and split: "zs = filter (\<lambda>s. d_chain s \<in> A) zs @ filter (\<lambda>s. d_chain s \<notin> A) zs"
    and d: "distinct (map d_chain zs)" and nn: "nonneg_deltas zs" "nonneg_deltas ds"
    and r: "r \<in> set rs" "sr_origin r \<notin> A"
  shows "\<forall>s \<in> set zs. d_chain s \<in> A \<longrightarrow> routeOut (d_chain s) rs = d_amount s"
proof -
  have "sr_origin r \<in> d_chain ` set zs" using matchRoutes_matched [OF m nn] r(1) by (simp add: matched_def)
  then have "sr_origin r \<in> d_chain ` set (filter (\<lambda>s. d_chain s \<notin> A) zs)" using r(2) by auto
  then have "\<forall>s \<in> set (filter (\<lambda>s. d_chain s \<in> A) zs). routeOut (d_chain s) rs = d_amount s"
    using matchRoutes_in_order [of bc "filter (\<lambda>s. d_chain s \<in> A) zs" "filter (\<lambda>s. d_chain s \<notin> A) zs",
        folded split, OF m d nn r(1)] by blast
  then show ?thesis by simp
qed

section \<open>Routes\<close>

lemma deficitRoutes_plan:
  assumes "deficitRoutes bn st raw ctx = (ev, ret rs)"
  obtains ss ds where "deficitCategorize bn st (reserveCollateral raw (ctxPendingTransfers ctx))
       (ctxPendingRebalances ctx) [] = ret (ss, ds)"
    and "planRoutes bn (BaseStrategy.truncate st) (sortSurplusesWithOriginPreference
       (buildTransferOriginMap (ctxPendingTransfers ctx) (map d_chain ds))) raw ss ds = (ev, ret rs)"
  using assms by (auto simp: deficitRoutes_def Let_def rbind_eq_Inr_iff split: sum.splits prod.splits)

lemma deficit_chain_amounts:
  assumes cat: "deficitCategorize bn st raw p q = ret (ss, ds)" and d: "distinct (bs_chains st)"
    and sim: "deficitSimulate (BaseStrategy.truncate st) raw p q = ret sim" and c: "c \<in> set (bs_chains st)"
    and t: "getTokenByChainName (BaseStrategy.truncate st) c = ret t" and b: "map_of (cd_config st) c = Some b"
    and w: "normalizeConfiguredAmount bn b t = ret w"
  shows "chainAmount c ss = max 0 (balanceOr0 sim c)"
    and "chainAmount c ds = (if balanceOr0 sim c < 0 then - balanceOr0 sim c + w else 0)"
proof -
  from deficitCategorize_ret [OF cat] obtain sim' where
    s: "deficitSimulate (BaseStrategy.truncate st) raw p q = ret sim'"
    and r': "ss = surplusDeltas (deficitClassify bn st sim') (bs_chains st)"
      "ds = deficitDeltas (deficitClassify bn st sim') (bs_chains st)"
      "\<forall>c \<in> set (bs_chains st). \<exists>k. deficitClassify bn st sim' c = ret k" .
  have "sim' = sim" using s sim by simp
  then have r: "ss = surplusDeltas (deficitClassify bn st sim) (bs_chains st)"
      "ds = deficitDeltas (deficitClassify bn st sim) (bs_chains st)"
      "\<exists>k. deficitClassify bn st sim c = ret k" using r' c by blast+
  from r(3) obtain k where k: "deficitClassify bn st sim c = ret k" by blast
  have "k = (if balanceOr0 sim c < 0 then Deficit (- balanceOr0 sim c + w)
      else if balanceOr0 sim c > 0 then Surplus (balanceOr0 sim c) else OnTarget)"
    using k t b w by (auto elim!: deficitClassify_cases)
  then show "chainAmount c ss = max 0 (balanceOr0 sim c)"
    "chainAmount c ds = (if balanceOr0 sim c < 0 then - balanceOr0 sim c + w else 0)"
    unfolding r(1,2) chainAmount_categorized [OF d] using c k by auto
qed

lemma new_CollateralDeficitStrategy_sel:
  assumes "new_CollateralDeficitStrategy cfg tokens bridges metrics = ret st"
  shows "cd_config st = cfg" "bs_chains st = dict_keys cfg"
  using assms by (auto simp: new_CollateralDeficitStrategy_def new_BaseStrategy_def rbind_eq_Inr_iff
      BaseStrategy.extend_def split: if_splits)

text \<open>
  C8. A collateral-deficit strategy moves collateral only out of chains that stay solvent. On the
  balances left after the pending transfers are reserved and the pending rebalances over the
  configured bridges are added, every returned route is positive, covered by the raw balance of its
  origin and goes to another chain; a chain sends at most its positive balance, and a chain that
  receives had a negative balance and receives at most its deficit plus the configured buffer.
  The routes proposed by other strategies play no part in that balance.
\<close>

theorem deficitRoutes_cover_deficits:
  assumes new: "new_CollateralDeficitStrategy cfg tokens bridges metrics = ret st"
    and keys: "distinct (dict_keys cfg)" and run: "deficitRoutes bn st raw ctx = (ev, ret rs)"
    and sim: "deficitSimulate (BaseStrategy.truncate st) (reserveCollateral raw (ctxPendingTransfers ctx))
        (ctxPendingRebalances ctx) [] = ret sim"
    and b: "map_of cfg c = Some b" and t: "getTokenByChainName (BaseStrategy.truncate st) c = ret t"
    and w: "normalizeConfiguredAmount bn b t = ret w"
  shows "(\<forall>r \<in> set rs. 0 < sr_amount r \<and> sr_amount r \<le> balanceOr0 raw (sr_origin r)
        \<and> sr_origin r \<noteq> sr_destination r)
    \<and> routeOut c rs \<le> max 0 (balanceOr0 sim c)
    \<and> (0 < routeIn c rs \<longrightarrow> balanceOr0 sim c < 0 \<and> balanceOr0 sim c + routeIn c rs \<le> w)"
proof -
  note sel = new_CollateralDeficitStrategy_sel [OF new]
  have d: "distinct (bs_chains st)" "c \<in> set (bs_chains st)"
    using keys map_of_SomeD [OF b] unfolding sel by force+
  from deficitRoutes_plan [OF run] obtain ss ds where
      cat: "deficitCategorize bn st (reserveCollateral raw (ctxPendingTransfers ctx))
        (ctxPendingRebalances ctx) [] = ret (ss, ds)"
      and plan: "planRoutes bn (BaseStrategy.truncate st) (sortSurplusesWithOriginPreference
        (buildTransferOriginMap (ctxPendingTransfers ctx) (map d_chain ds))) raw ss ds = (ev, ret rs)" .
  have safe: "safe_routes raw ss ds rs"
    by (rule deficit.plan_safe [OF cat d(1) _ plan]) simp
  note amt = deficit_chain_amounts [OF cat d(1) sim d(2) t b [folded sel(1)] w]
  have "routeOut c rs \<le> chainAmount c ss" "routeIn c rs \<le> chainAmount c ds"
    using safe by (simp_all add: safe_routes_def)
  then show ?thesis
    using safe deficit.no_self_route [OF cat d(1) safe] amt
    by (auto simp: safe_routes_def split: if_splits)
qed


section \<open>An example\<close>

definition ex_def_cfg :: "(chain, amount_value) dict" where
  "ex_def_cfg = [(''a'', AmountString ''1''), (''b'', AmountString ''1''), (''c'', AmountString ''1'')]"

definition ex_def_tokens :: "(chain, Token) dict" where
  "ex_def_tokens = map (\<lambda>c. (c, (ex_token c)\<lparr>token_decimals := 2\<rparr>)) [''a'', ''b'', ''c'']"

definition ex_bridge :: address where
  "ex_bridge = ''0x'' @ replicate 40 (CHR ''b'')"

definition ex_def_bridges :: BridgeConfigs where
  "ex_def_bridges = map (\<lambda>c. (c, \<lparr>baseConfig = \<lparr>bridgeMinAcceptedAmount = Some (AmountNumber 0),
     bc_executionType = ExecMovableCollateral, bc_bridge = Some ex_bridge, bc_externalBridge = None\<rparr>,
     override = []\<rparr>)) [''a'', ''b'', ''c'']"

definition ex_def_ctx :: InflightContext where
  "ex_def_ctx = \<lparr>pendingRebalances = [], pendingTransfers = [\<lparr>origin = ''b'', destination = ''a'', amount = 400,
     executionMethod = None, deliveredAmount = None, awaitingDeliveryAmount = None, bridge = None,
     externalBridge = None\<rparr>], proposedRebalances = None\<rparr>"

definition ex_deficit :: CollateralDeficitStrategy where
  "ex_deficit = \<lparr>bs_name = ''collateralDeficit'', bs_chains = [''a'', ''b'', ''c''],
     bs_bridgeConfigs = ex_def_bridges, bs_metrics = False, bs_tokensByChainName = Some ex_def_tokens,
     cd_config = ex_def_cfg\<rparr>"

abbreviation "ex_def_raw \<equiv> [(''a'', 50), (''b'', 300), (''c'', 500)]"

abbreviation "ex_def_routes \<equiv> [MovableCollateralRoute ''b'' ''a'' 300 (Some ex_bridge),
  MovableCollateralRoute ''c'' ''a'' 150 (Some ex_bridge)]"

lemma ex_normalize_0: "normalizeConfiguredAmount ex_bn (AmountNumber 0) ((ex_token c)\<lparr>token_decimals := 2\<rparr>) = ret 0"
  by (simp add: normalizeConfiguredAmount_def toWei_def normalizeToCanonical_def ex_token_def
      messageAmountFromLocal_eq validScale_def DEFAULT_SCALE_def)

lemma ex_def_new: "new_CollateralDeficitStrategy ex_def_cfg ex_def_tokens ex_def_bridges False = ret ex_deficit"
  by (simp add: new_CollateralDeficitStrategy_def new_BaseStrategy_def ex_def_cfg_def ex_deficit_def
      BaseStrategy.extend_def)

lemma ex_def_simulate:
  "deficitSimulate (BaseStrategy.truncate ex_deficit) (reserveCollateral ex_def_raw (ctxPendingTransfers (Some ex_def_ctx)))
     (ctxPendingRebalances (Some ex_def_ctx)) [] = ret [(''a'', -350), (''b'', 300), (''c'', 500)]"
  by (simp add: deficitSimulate_def filterByConfiguredBridges_def ctxPendingTransfers_def
      ctxPendingRebalances_def ex_def_ctx_def reserveCollateral_def simulatePendingRebalances_def
      simulateProposedRebalances_def balanceOr0_def)

lemma ex_def_token:
  "getTokenByChainName (BaseStrategy.truncate ex_deficit) ''a'' = ret ((ex_token ''a'')\<lparr>token_decimals := 2\<rparr>)"
  "getTokenByChainName (BaseStrategy.truncate ex_deficit) ''b'' = ret ((ex_token ''b'')\<lparr>token_decimals := 2\<rparr>)"
  "getTokenByChainName (BaseStrategy.truncate ex_deficit) ''c'' = ret ((ex_token ''c'')\<lparr>token_decimals := 2\<rparr>)"
  by (simp_all add: getTokenByChainName_def ex_deficit_def BaseStrategy.defs ex_def_tokens_def)

lemma ex_def_sel:
  "bs_chains ex_deficit = [''a'', ''b'', ''c'']" "cd_config ex_deficit = ex_def_cfg"
  by (simp_all add: ex_deficit_def)

lemma ex_def_categorize:
  "deficitCategorize ex_bn ex_deficit (reserveCollateral ex_def_raw (ctxPendingTransfers (Some ex_def_ctx)))
     (ctxPendingRebalances (Some ex_def_ctx)) []
   = ret ([\<lparr>d_chain = ''b'', d_amount = 300\<rparr>, \<lparr>d_chain = ''c'', d_amount = 500\<rparr>],
       [\<lparr>d_chain = ''a'', d_amount = 450\<rparr>])"
  by (simp add: deficitCategorize_def ex_def_simulate categorizeBy_def deficitClassify_def
      ex_def_token ex_def_sel ex_def_cfg_def ex_normalize pushDelta_def)

lemma ex_def_run:
  "deficitRoutes ex_bn ex_deficit ex_def_raw (Some ex_def_ctx) = ([], ret ex_def_routes)"
proof -
  have v: "validateRawBalances (BaseStrategy.truncate ex_deficit) ex_def_raw = ret ()"
    by (simp add: validateRawBalances_def ex_deficit_def BaseStrategy.defs)
  have s: "sortSurplusesWithOriginPreference (buildTransferOriginMap (ctxPendingTransfers (Some ex_def_ctx)) [''a''])
      [\<lparr>d_chain = ''b'', d_amount = 300\<rparr>, \<lparr>d_chain = ''c'', d_amount = 500\<rparr>]
    = [\<lparr>d_chain = ''b'', d_amount = 300\<rparr>, \<lparr>d_chain = ''c'', d_amount = 500\<rparr>]"
    by (simp add: sortSurplusesWithOriginPreference_def buildTransferOriginMap_def originMapStep_def
        ctxPendingTransfers_def ex_def_ctx_def js_sort_def originPreference_def allOriginChains_def)
  have p: "planRoutes ex_bn (BaseStrategy.truncate ex_deficit) (sortSurplusesWithOriginPreference
      (buildTransferOriginMap (ctxPendingTransfers (Some ex_def_ctx)) [''a''])) ex_def_raw
      [\<lparr>d_chain = ''b'', d_amount = 300\<rparr>, \<lparr>d_chain = ''c'', d_amount = 500\<rparr>]
      [\<lparr>d_chain = ''a'', d_amount = 450\<rparr>] = ([], ret ex_def_routes)"
    by (simp add: planRoutes_def s scaleDeficits_def js_sort_def filterRoutes_def keepRoute_def
        balanceOr0_def getBridgeConfigForRoute_def getBridgeConfig_def ex_deficit_def BaseStrategy.defs
        ex_def_bridges_def ex_def_tokens_def createStrategyRoute_def ex_normalize_0)
  show ?thesis by (simp add: deficitRoutes_def v ex_def_categorize p)
qed

theorem deficitRoutes_cover_deficits_witness:
  "balanceOr0 [(''a'', -350), (''b'', 300), (''c'', 500)] ''a'' + routeIn ''a'' ex_def_routes \<le> 100"
  using deficitRoutes_cover_deficits [OF ex_def_new _ ex_def_run ex_def_simulate _ ex_def_token(1) ex_normalize(1)]
  by (simp add: ex_def_cfg_def)


end
