(* ===== verification/Rebalancer_Config.thy ===== *)
theory Rebalancer_Config
  imports Weighted_Strategy MinAmount_Strategy Deficit_Strategy
begin

text \<open>
  \<open>typescript/rebalancer/src/config/types.ts\<close>, from the parsed objects on: the cross-field validation
  of \<open>RebalancerConfigSchema\<close> as the list of issues it adds, in their order, and the functions that
  read a strategy configuration. The field schemas themselves are \<open>zod\<close>'s and are the types here.
  \<open>bridgeLockTime\<close>, which nothing below reads, has no field.
\<close>

section \<open>Configuration objects\<close>

record ChainConfig =
  cc_bridge :: "address option"
  cc_executionType :: "executionType option"
  cc_externalBridge :: "ExternalBridgeType option"
  cc_bridgeMinAcceptedAmount :: "amount_value option"
  cc_override :: "(chain, BridgeConfigPartial) dict option"

datatype StrategyConfig =
    WeightedConfig "(chain, ChainConfig \<times> WeightedChainConfig) dict"
  | MinAmountConfig "(chain, ChainConfig \<times> MinAmountChainConfig) dict"
  | CollateralDeficitConfig "(chain, ChainConfig \<times> amount_value) dict"

text \<open>The \<open>chains\<close> of a strategy, by what all strategies' chains have.\<close>

fun chainsOf :: "StrategyConfig \<Rightarrow> (chain, ChainConfig) dict" where
  "chainsOf (WeightedConfig m) = map (\<lambda>(c, b, _). (c, b)) m"
| "chainsOf (MinAmountConfig m) = map (\<lambda>(c, b, _). (c, b)) m"
| "chainsOf (CollateralDeficitConfig m) = map (\<lambda>(c, b, _). (c, b)) m"

fun isCollateralDeficitConfig :: "StrategyConfig \<Rightarrow> bool" where
  "isCollateralDeficitConfig (CollateralDeficitConfig _) = True"
| "isCollateralDeficitConfig _ = False"

record RebalancerConfig =
  warpRouteId :: string
  rc_strategy :: "StrategyConfig list"
  inventorySigners :: "(string, address) dict option"
  lifiIntegrator :: "string option"
  intentTTL :: rat

definition DEFAULT_INTENT_TTL_S :: rat where
  "DEFAULT_INTENT_TTL_S = 604800"

definition DEFAULT_INTENT_TTL_MS :: rat where
  "DEFAULT_INTENT_TTL_MS = DEFAULT_INTENT_TTL_S * 1000"

definition DEFAULT_MOVEMENT_STALENESS_MS :: int where
  "DEFAULT_MOVEMENT_STALENESS_MS = 30 * 60 * 1000"

text \<open>The strategies given as one configuration or as an array of them.\<close>

fun strategyArray :: "StrategyConfig + StrategyConfig list \<Rightarrow> StrategyConfig list" where
  "strategyArray (Inl s) = [s]"
| "strategyArray (Inr ss) = ss"

definition intentTTL_ms :: "rat option \<Rightarrow> rat" where
  "intentTTL_ms v = (case v of None \<Rightarrow> DEFAULT_INTENT_TTL_S | Some s \<Rightarrow> s) * 1000"

section \<open>Reading a configuration\<close>

definition getStrategyChainNames :: "StrategyConfig list \<Rightarrow> chain list" where
  "getStrategyChainNames strategies =
     foldl (\<lambda>acc c. if List.member acc c then acc else acc @ [c]) []
       (concat (map (\<lambda>s. dict_keys (chainsOf s)) strategies))"

fun getStrategyChainConfig :: "StrategyConfig list \<Rightarrow> chain \<Rightarrow> ChainConfig option" where
  "getStrategyChainConfig [] c = None"
| "getStrategyChainConfig (s # ss) c =
     (case map_of (chainsOf s) c of Some cc \<Rightarrow> Some cc | None \<Rightarrow> getStrategyChainConfig ss c)"

definition overrides :: "ChainConfig \<Rightarrow> (chain, BridgeConfigPartial) dict" where
  "overrides cc = (case cc_override cc of None \<Rightarrow> [] | Some o' \<Rightarrow> o')"

definition truthy :: "string option \<Rightarrow> bool" where
  "truthy s \<longleftrightarrow> s \<noteq> None \<and> s \<noteq> Some []"

definition addNew :: "'a list \<Rightarrow> 'a list \<Rightarrow> 'a list" where
  "addNew acc xs = foldl (\<lambda>acc x. if List.member acc x then acc else acc @ [x]) acc xs"

definition chainBridges :: "ChainConfig \<Rightarrow> address list" where
  "chainBridges cc = map the (filter truthy (cc_bridge cc # map p_bridge (dict_values (overrides cc))))"

definition getAllBridges :: "StrategyConfig list \<Rightarrow> address list" where
  "getAllBridges strategies =
     addNew [] (concat (map (\<lambda>s. concat (map chainBridges (dict_values (chainsOf s)))) strategies))"

definition executionTypeOr :: "executionType option \<Rightarrow> executionType" where
  "executionTypeOr e = (case e of None \<Rightarrow> ExecMovableCollateral | Some t \<Rightarrow> t)"

definition getChainExecutionType :: "StrategyConfig list \<Rightarrow> chain \<Rightarrow> executionType" where
  "getChainExecutionType strategies c =
     (case getStrategyChainConfig strategies c of
        None \<Rightarrow> ExecMovableCollateral
      | Some cc \<Rightarrow> executionTypeOr (cc_executionType cc))"

text \<open>The execution type an override gives a route, by itself or from its chain.\<close>

definition overrideIsInventory :: "ChainConfig \<Rightarrow> BridgeConfigPartial \<Rightarrow> bool" where
  "overrideIsInventory cc p \<longleftrightarrow>
     executionTypeOr (spread (cc_executionType cc) (p_executionType p)) = ExecInventory"

definition strategyInventoryChains :: "StrategyConfig \<Rightarrow> chain list" where
  "strategyInventoryChains s =
     (let entries = chainsOf s in
      map fst (filter (\<lambda>e. cc_executionType (snd e) = Some ExecInventory) entries)
      @ concat (map (\<lambda>e. map fst (filter (\<lambda>o'. overrideIsInventory (snd e) (snd o')) (overrides (snd e)))) entries))"

definition getInventoryChainNames :: "StrategyConfig list \<Rightarrow> chain list" where
  "getInventoryChainNames strategies = addNew [] (concat (map strategyInventoryChains strategies))"

definition getInventoryOriginChainNames :: "StrategyConfig list \<Rightarrow> chain list" where
  "getInventoryOriginChainNames strategies =
     addNew [] (concat (map (\<lambda>s. map fst (filter (\<lambda>e. \<exists>p \<in> set (dict_values (overrides (snd e))).
        overrideIsInventory (snd e) p) (chainsOf s))) strategies))"

definition hasInventoryChains :: "StrategyConfig list \<Rightarrow> bool" where
  "hasInventoryChains strategies \<longleftrightarrow> length (getInventoryChainNames strategies) > 0"

section \<open>Validation\<close>

datatype config_issue =
    DeficitNotFirst
  | OverrideUnknownChain nat chain chain
  | OverrideSelf nat chain chain
  | MixedMinAmountTypes nat
  | MissingBridge nat chain
  | MissingExternalBridge nat chain
  | OverrideMissingBridge nat chain chain
  | OverrideMissingExternalBridge nat chain chain
  | InventorySignersRequired
  | InvalidSigner string
  | LiFiRequired
  | LiFiNotConfigured chain "chain option"

definition issue_if :: "bool \<Rightarrow> config_issue \<Rightarrow> config_issue list" where
  "issue_if b i = (if b then [i] else [])"

definition deficitFirstIssues :: "StrategyConfig list \<Rightarrow> config_issue list" where
  "deficitFirstIssues strategies =
     issue_if (length strategies > 1 \<and> (\<exists>s \<in> set strategies. isCollateralDeficitConfig s)
       \<and> \<not> isCollateralDeficitConfig (hd strategies)) DeficitNotFirst"

definition overrideKeyIssues :: "nat \<Rightarrow> (chain, ChainConfig) dict \<Rightarrow> config_issue list" where
  "overrideKeyIssues i cs =
     concat (map (\<lambda>(c, cc). concat (map (\<lambda>d.
         issue_if (\<not> List.member (dict_keys cs) d) (OverrideUnknownChain i c d)
         @ issue_if (c = d) (OverrideSelf i c d)) (dict_keys (overrides cc)))) cs)"

fun minAmountTypeIssues :: "nat \<Rightarrow> StrategyConfig \<Rightarrow> config_issue list" where
  "minAmountTypeIssues i (MinAmountConfig m) =
     issue_if (length (remdups (map (\<lambda>(_, _, a). ma_type a) m)) > 1) (MixedMinAmountTypes i)"
| "minAmountTypeIssues i _ = []"

text \<open>The bridge a chain needs, for itself and for each override merged over it.\<close>

definition overrideIssues :: "nat \<Rightarrow> chain \<Rightarrow> ChainConfig \<Rightarrow> chain \<times> BridgeConfigPartial \<Rightarrow> config_issue list" where
  "overrideIssues i c cc o' =
     (let d = fst o'; p = snd o';
          mergedExecutionType = executionTypeOr (spread (cc_executionType cc) (p_executionType p))
      in issue_if (mergedExecutionType = ExecMovableCollateral \<and> \<not> truthy (spread (cc_bridge cc) (p_bridge p)))
           (OverrideMissingBridge i c d)
         @ issue_if (mergedExecutionType = ExecInventory
             \<and> spread (cc_externalBridge cc) (p_externalBridge p) = None)
           (OverrideMissingExternalBridge i c d))"

definition bridgeIssues :: "nat \<Rightarrow> chain \<Rightarrow> ChainConfig \<Rightarrow> config_issue list" where
  "bridgeIssues i c cc =
     issue_if (executionTypeOr (cc_executionType cc) = ExecMovableCollateral \<and> \<not> truthy (cc_bridge cc))
       (MissingBridge i c)
     @ issue_if (executionTypeOr (cc_executionType cc) = ExecInventory \<and> cc_externalBridge cc = None)
       (MissingExternalBridge i c)
     @ concat (map (overrideIssues i c cc) (overrides cc))"

definition strategyIssues :: "nat \<Rightarrow> StrategyConfig \<Rightarrow> config_issue list" where
  "strategyIssues i s =
     overrideKeyIssues i (chainsOf s) @ minAmountTypeIssues i s
     @ concat (map (\<lambda>(c, cc). bridgeIssues i c cc) (chainsOf s))"

definition isHexDigit :: "char \<Rightarrow> bool" where
  "isHexDigit ch \<longleftrightarrow> ch \<in> set ''0123456789abcdefABCDEF''"

text \<open>\<open>isAddressEvm\<close> of \<open>typescript/utils/src/addresses.ts\<close>, and the base58 test.\<close>

definition isAddressEvm :: "address \<Rightarrow> bool" where
  "isAddressEvm a \<longleftrightarrow> take 2 a = ''0x'' \<and> length a = 42 \<and> list_all isHexDigit (drop 2 a)"

definition isBase58Address :: "address \<Rightarrow> bool" where
  "isBase58Address a \<longleftrightarrow> 32 \<le> length a \<and> length a \<le> 44
     \<and> list_all (\<lambda>ch. ch \<in> set ''123456789ABCDEFGHJKLMNPQRSTUVWXYZabcdefghijkmnopqrstuvwxyz'') a"

definition signerIssues :: "string \<times> address \<Rightarrow> config_issue list" where
  "signerIssues sg =
     (let protocol = fst sg; a = snd sg in
      if protocol = ''ethereum'' then issue_if (\<not> isAddressEvm a) (InvalidSigner protocol)
      else if protocol = ''sealevel'' then issue_if (\<not> isBase58Address a) (InvalidSigner protocol)
      else if protocol = ''tron'' then issue_if (\<not> isAddressEvm a) (InvalidSigner protocol)
      else [])"

definition inventoryIssues :: "RebalancerConfig \<Rightarrow> config_issue list" where
  "inventoryIssues cfg =
     (if hasInventoryChains (rc_strategy cfg) then
        issue_if (inventorySigners cfg = None \<or> inventorySigners cfg = Some []) InventorySignersRequired
        @ (case inventorySigners cfg of None \<Rightarrow> [] | Some sgs \<Rightarrow> concat (map signerIssues sgs))
        @ issue_if (\<not> truthy (lifiIntegrator cfg)) LiFiRequired
      else [])"

definition checkLifiBridge :: "RebalancerConfig \<Rightarrow> chain \<Rightarrow> chain option \<Rightarrow> ExternalBridgeType option \<Rightarrow> config_issue list" where
  "checkLifiBridge cfg c d e =
     issue_if (e = Some LiFi \<and> \<not> truthy (lifiIntegrator cfg)) (LiFiNotConfigured c d)"

definition lifiIssues :: "RebalancerConfig \<Rightarrow> config_issue list" where
  "lifiIssues cfg =
     concat (map (\<lambda>s. concat (map (\<lambda>(c, cc).
         checkLifiBridge cfg c None (cc_externalBridge cc)
         @ concat (map (\<lambda>(d, p). checkLifiBridge cfg c (Some d) (spread (cc_externalBridge cc) (p_externalBridge p)))
             (overrides cc))) (chainsOf s))) (rc_strategy cfg))"

definition validateConfig :: "RebalancerConfig \<Rightarrow> config_issue list" where
  "validateConfig cfg =
     deficitFirstIssues (rc_strategy cfg)
     @ concat (map (\<lambda>(i, s). strategyIssues i s) (List.enumerate 0 (rc_strategy cfg)))
     @ inventoryIssues cfg @ lifiIssues cfg"

definition load_RebalancerConfig :: "RebalancerConfig \<Rightarrow> (config_issue list + js_error) + RebalancerConfig" where
  "load_RebalancerConfig cfg =
     (if validateConfig cfg \<noteq> [] then Inl (Inl (validateConfig cfg))
      else if length (getStrategyChainNames (rc_strategy cfg)) = 0
      then Inl (Inr (Thrown ''No chains configured'' ''''))
      else Inr cfg)"

section \<open>Lemmas\<close>

lemma issue_if_empty [simp]: "issue_if b i = [] \<longleftrightarrow> \<not> b"
  by (simp add: issue_if_def)

lemma set_addNew: "set (addNew acc xs) = set acc \<union> set xs"
  unfolding addNew_def by (induction xs arbitrary: acc) auto

lemma distinct_addNew: "distinct acc \<Longrightarrow> distinct (addNew acc xs)"
  unfolding addNew_def by (induction xs arbitrary: acc) auto

lemma getStrategyChainNames_addNew:
  "getStrategyChainNames ss = addNew [] (concat (map (\<lambda>s. dict_keys (chainsOf s)) ss))"
  by (simp add: getStrategyChainNames_def addNew_def)

lemma validateConfig_strategy:
  assumes "validateConfig cfg = []" "s \<in> set (rc_strategy cfg)"
  obtains i where "strategyIssues i s = []"
proof -
  obtain i where "i < length (rc_strategy cfg)" "rc_strategy cfg ! i = s"
    using assms(2) by (auto simp: in_set_conv_nth)
  then have "(i, s) \<in> set (List.enumerate 0 (rc_strategy cfg))"
    by (auto simp: in_set_enumerate_eq)
  then have "strategyIssues i s = []" using assms(1) by (force simp: validateConfig_def)
  then show ?thesis by (rule that)
qed

lemma strategyIssues_chain:
  assumes "strategyIssues i s = []" "map_of (chainsOf s) c = Some cc"
  shows "executionTypeOr (cc_executionType cc) = ExecMovableCollateral \<Longrightarrow> truthy (cc_bridge cc)"
    and "executionTypeOr (cc_executionType cc) = ExecInventory \<Longrightarrow> cc_externalBridge cc \<noteq> None"
    and "map_of (overrides cc) d = Some p \<Longrightarrow> overrideIssues i c cc (d, p) = []"
proof -
  have "bridgeIssues i c cc = []" using assms map_of_SomeD [OF assms(2)] by (force simp: strategyIssues_def)
  then show "executionTypeOr (cc_executionType cc) = ExecMovableCollateral \<Longrightarrow> truthy (cc_bridge cc)"
    "executionTypeOr (cc_executionType cc) = ExecInventory \<Longrightarrow> cc_externalBridge cc \<noteq> None"
    "map_of (overrides cc) d = Some p \<Longrightarrow> overrideIssues i c cc (d, p) = []"
    by (auto simp: bridgeIssues_def dest: map_of_SomeD)
qed

end
