(* ===== verification/Hex_Messages.thy ===== *)
theory Hex_Messages
  imports JS_Prelude "HOL-Library.Word"
begin

text \<open>
  Hyperlane messages as hex strings: \<open>typescript/utils/src/messages.ts\<close>, the hex helpers of
  \<open>strings.ts\<close> and \<open>addresses.ts\<close>. A \<open>Buffer\<close> is a list of bytes. The functions of the \<open>ethers\<close>
  package are the record \<open>ethers_api\<close>, an argument of the definitions that call them; what the
  code relies on of them is \<open>ethers_laws\<close>.
\<close>

type_synonym byte = "8 word"
type_synonym hex = string

section \<open>Hex strings and buffers\<close>

definition hexChars :: string where
  "hexChars = ''0123456789abcdef''"

definition hexValue :: "char \<Rightarrow> nat option" where
  "hexValue ch =
     (let n = of_char ch :: nat in
      if 48 \<le> n \<and> n \<le> 57 then Some (n - 48)
      else if 97 \<le> n \<and> n \<le> 102 then Some (n - 87)
      else if 65 \<le> n \<and> n \<le> 70 then Some (n - 55)
      else None)"

text \<open>\<open>Buffer.from(s, 'hex')\<close> stops at the first pair that is not two digits.\<close>

fun bufferFromHex :: "string \<Rightarrow> byte list" where
  "bufferFromHex (a # b # s) =
     (case (hexValue a, hexValue b) of
        (Some x, Some y) \<Rightarrow> word_of_nat (16 * x + y) # bufferFromHex s
      | _ \<Rightarrow> [])"
| "bufferFromHex _ = []"

definition byteHex :: "byte \<Rightarrow> string" where
  "byteHex b = [hexChars ! (unat b div 16), hexChars ! (unat b mod 16)]"

definition bufferToHex :: "byte list \<Rightarrow> string" where
  "bufferToHex bs = concat (map byteHex bs)"

definition startsWith :: "string \<Rightarrow> string \<Rightarrow> bool" where
  "startsWith s p \<longleftrightarrow> take (length p) s = p"

definition strip0x :: "string \<Rightarrow> string" where
  "strip0x s = (if startsWith s ''0x'' then drop 2 s else s)"

definition ensure0x :: "string \<Rightarrow> string" where
  "ensure0x s = (if startsWith s ''0x'' then s else ''0x'' @ s)"

definition fromHexString :: "string \<Rightarrow> byte list" where
  "fromHexString s = bufferFromHex (strip0x s)"

definition toHexString :: "byte list \<Rightarrow> string" where
  "toHexString bs = ensure0x (bufferToHex bs)"

definition subarray :: "nat \<Rightarrow> nat \<Rightarrow> byte list \<Rightarrow> byte list" where
  "subarray i j bs = take (j - i) (drop i bs)"

definition isHexDigits :: "string \<Rightarrow> bool" where
  "isHexDigits s \<longleftrightarrow> list_all (\<lambda>ch. hexValue ch \<noteq> None) s"

text \<open>\<open>BigInt\<close> of a string with the prefix \<open>0x\<close>: at least one digit and nothing else.\<close>

definition hexNumber :: "string \<Rightarrow> nat" where
  "hexNumber s = foldl (\<lambda>n ch. 16 * n + (case hexValue ch of Some v \<Rightarrow> v | None \<Rightarrow> 0)) 0 s"

definition bigintOfHex :: "string \<Rightarrow> int result" where
  "bigintOfHex s =
     (if startsWith s ''0x'' \<and> drop 2 s \<noteq> [] \<and> isHexDigits (drop 2 s)
      then ret (int (hexNumber (drop 2 s))) else throw SyntaxError)"

definition readUInt :: "nat \<Rightarrow> nat \<Rightarrow> byte list \<Rightarrow> nat result" where
  "readUInt n off bs =
     (if off + n \<le> length bs
      then ret (foldl (\<lambda>v b. 256 * v + unat b) 0 (subarray off (off + n) bs))
      else throw RangeError)"

section \<open>The ethers package\<close>

datatype abi = AbiUint nat int | AbiBytes32 hex | AbiBytes hex | AbiAddress hex

record ethers_api =
  arrayify :: "hex \<Rightarrow> byte list result"
  hexlify :: "byte list \<Rightarrow> hex"
  hexZeroPad32 :: "hex \<Rightarrow> hex"
  solidityPack :: "abi list \<Rightarrow> hex result"
  getAddress :: "hex \<Rightarrow> hex result"

definition AddressZero :: hex where
  "AddressZero = ''0x'' @ replicate 40 (CHR ''0'')"

section \<open>Messages\<close>

definition isBytes32 :: "string \<Rightarrow> bool" where
  "isBytes32 s \<longleftrightarrow> startsWith s ''0x'' \<and> length s = 66 \<and> isHexDigits (drop 2 s)"

definition bytesToBytes32 :: "ethers_api \<Rightarrow> byte list \<Rightarrow> hex result" where
  "bytesToBytes32 E bs =
     (if length bs > 32 then throw (Thrown ''bytes must be 32 bytes or less'' '''')
      else ret (hexZeroPad32 E (ensure0x (bufferToHex bs))))"

text \<open>\<open>addressToBytes\<close>, which decodes the address of a protocol, is an argument.\<close>

definition addressToBytes32 :: "ethers_api \<Rightarrow> (string \<Rightarrow> byte list result) \<Rightarrow> string \<Rightarrow> hex result" where
  "addressToBytes32 E addressToBytes a =
     (if isBytes32 (ensure0x a) then ret (ensure0x a)
      else rbind (addressToBytes a) (bytesToBytes32 E))"

definition formatMessage ::
    "ethers_api \<Rightarrow> (string \<Rightarrow> byte list result) \<Rightarrow> int \<Rightarrow> int \<Rightarrow> int \<Rightarrow> string \<Rightarrow> int \<Rightarrow> string \<Rightarrow> hex \<Rightarrow> hex result" where
  "formatMessage E addressToBytes version nonce originDomain senderAddr destinationDomain recipientAddr body =
     rbind (addressToBytes32 E addressToBytes senderAddr) (\<lambda>snd32.
     rbind (addressToBytes32 E addressToBytes recipientAddr) (\<lambda>rcp32.
       solidityPack E [AbiUint 8 version, AbiUint 32 nonce, AbiUint 32 originDomain, AbiBytes32 snd32,
         AbiUint 32 destinationDomain, AbiBytes32 rcp32, AbiBytes body]))"

record ParsedMessage =
  pm_version :: nat
  pm_nonce :: nat
  pm_origin :: nat
  pm_sender :: hex
  pm_destination :: nat
  pm_recipient :: hex
  pm_body :: hex

definition parseMessage :: "ethers_api \<Rightarrow> hex \<Rightarrow> ParsedMessage result" where
  "parseMessage E message =
     rbind (arrayify E message) (\<lambda>buf.
     rbind (readUInt 1 0 buf) (\<lambda>version.
     rbind (readUInt 4 1 buf) (\<lambda>nonce.
     rbind (readUInt 4 5 buf) (\<lambda>org.
     rbind (readUInt 4 41 buf) (\<lambda>dest.
       ret \<lparr>pm_version = version, pm_nonce = nonce, pm_origin = org, pm_sender = hexlify E (subarray 9 41 buf),
         pm_destination = dest, pm_recipient = hexlify E (subarray 45 77 buf),
         pm_body = hexlify E (drop 77 buf)\<rparr>)))))"

record ParsedWarpRouteMessage =
  pw_recipient :: hex
  pw_amount :: int

definition parseWarpRouteMessage :: "hex \<Rightarrow> ParsedWarpRouteMessage result" where
  "parseWarpRouteMessage messageBody =
     (let buf = fromHexString messageBody;
          recipient = toHexString (subarray 0 32 buf)
      in rbind (bigintOfHex (toHexString (subarray 32 64 buf))) (\<lambda>amt.
           ret \<lparr>pw_recipient = recipient, pw_amount = amt\<rparr>))"

section \<open>Hook metadata\<close>

definition DEFAULT_GAS_LIMIT :: int where
  "DEFAULT_GAS_LIMIT = 50000"

record StandardHookMetadataParams =
  hm_refundAddress :: "hex option"
  hm_msgValue :: "int option"
  hm_gasLimit :: "int option"

definition getOr :: "'a option \<Rightarrow> 'a \<Rightarrow> 'a" where
  "getOr v d = (case v of None \<Rightarrow> d | Some x \<Rightarrow> x)"

definition formatStandardHookMetadata :: "ethers_api \<Rightarrow> StandardHookMetadataParams \<Rightarrow> hex result" where
  "formatStandardHookMetadata E p =
     solidityPack E [AbiUint 16 1, AbiUint 256 (getOr (hm_msgValue p) 0),
       AbiUint 256 (getOr (hm_gasLimit p) DEFAULT_GAS_LIMIT), AbiAddress (getOr (hm_refundAddress p) AddressZero)]"

definition MSG_VALUE_START :: nat where "MSG_VALUE_START = 2 + 4"
definition GAS_LIMIT_START :: nat where "GAS_LIMIT_START = MSG_VALUE_START + 64"
definition REFUND_START :: nat where "REFUND_START = GAS_LIMIT_START + 64"
definition REFUND_END :: nat where "REFUND_END = REFUND_START + 40"

definition slice :: "nat \<Rightarrow> nat \<Rightarrow> string \<Rightarrow> string" where
  "slice i j s = take (j - i) (drop i s)"

text \<open>The parsed value, gas limit and refund address; every failure is \<open>null\<close>.\<close>

definition parseStandardHookMetadata :: "ethers_api \<Rightarrow> hex option \<Rightarrow> (int \<times> int \<times> hex) option" where
  "parseStandardHookMetadata E metadata =
     (case metadata of
        None \<Rightarrow> None
      | Some m \<Rightarrow>
          if m = [] \<or> m = ''0x'' then None
          else if \<not> (startsWith m ''0x'' \<and> isHexDigits (drop 2 m)) then None
          else if \<not> startsWith m ''0x0001'' then None
          else if length m < REFUND_END then None
          else (case rbind (bigintOfHex (''0x'' @ slice MSG_VALUE_START GAS_LIMIT_START m)) (\<lambda>msgValue.
                     rbind (bigintOfHex (''0x'' @ slice GAS_LIMIT_START REFUND_START m)) (\<lambda>gasLimit.
                     rbind (getAddress E (''0x'' @ slice REFUND_START REFUND_END m)) (\<lambda>refundAddress.
                       ret (msgValue, gasLimit, refundAddress)))) of
                  Inl _ \<Rightarrow> None
                | Inr r \<Rightarrow> Some r))"

definition extractRefundAddressFromMetadata :: "ethers_api \<Rightarrow> hex option \<Rightarrow> hex option" where
  "extractRefundAddressFromMetadata E metadata =
     map_option (\<lambda>r. snd (snd r)) (parseStandardHookMetadata E metadata)"

definition toLowerHex :: "string \<Rightarrow> string" where
  "toLowerHex s = map (\<lambda>ch. if 65 \<le> (of_char ch :: nat) \<and> (of_char ch :: nat) \<le> 90
     then char_of ((of_char ch :: nat) + 32) else ch) s"

definition hasValidRefundAddress :: "ethers_api \<Rightarrow> hex option \<Rightarrow> bool" where
  "hasValidRefundAddress E metadata =
     (case extractRefundAddressFromMetadata E metadata of
        None \<Rightarrow> False
      | Some a \<Rightarrow> toLowerHex a \<noteq> AddressZero)"

section \<open>Hex lemmas\<close>

lemma hexChars_value: "n < 16 \<Longrightarrow> hexValue (hexChars ! n) = Some n"
proof -
  have "\<forall>n \<in> {..<16}. hexValue (hexChars ! n) = Some n"
    by (simp add: hexValue_def hexChars_def lessThan_nat_numeral lessThan_Suc eval_nat_numeral)
  then show "n < 16 \<Longrightarrow> ?thesis" by blast
qed

lemma byte_split: "word_of_nat (16 * (unat (b :: byte) div 16) + unat b mod 16) = b"
proof -
  have "16 * (unat b div 16) + unat b mod 16 = unat b" by simp
  then show ?thesis by simp
qed

lemma unat_byte_less: "unat (b :: byte) < 256"
  using unsigned_less [of b] by simp

lemma unat_byte_div: "unat (b :: byte) div 16 < 16"
  using unat_byte_less [of b] by (simp add: div_less_iff_less_mult)

lemma bufferToHex_simps [simp]:
  "bufferToHex [] = []" "bufferToHex (b # bs) = byteHex b @ bufferToHex bs"
  "bufferToHex (xs @ ys) = bufferToHex xs @ bufferToHex ys"
  by (simp_all add: bufferToHex_def)

lemma bufferFromHex_byteHex: "bufferFromHex (byteHex b @ s) = b # bufferFromHex s"
  using unat_byte_div [of b]
  by (simp add: byteHex_def hexChars_value byte_split del: mult_div_mod_eq)

lemma bufferFromHex_toHex [simp]: "bufferFromHex (bufferToHex bs) = bs"
  by (induction bs) (simp_all add: bufferFromHex_byteHex)

lemma length_bufferToHex [simp]: "length (bufferToHex bs) = 2 * length bs"
  by (induction bs) (simp_all add: byteHex_def)

lemma isHexDigits_simps [simp]:
  "isHexDigits []" "isHexDigits (c # s) \<longleftrightarrow> hexValue c \<noteq> None \<and> isHexDigits s"
  "isHexDigits (s @ t) \<longleftrightarrow> isHexDigits s \<and> isHexDigits t"
  by (simp_all add: isHexDigits_def)

lemma length_byteHex [simp]: "length (byteHex b) = 2"
  by (simp add: byteHex_def)

lemma isHexDigits_byteHex: "isHexDigits (byteHex b)"
  using unat_byte_div by (simp add: byteHex_def hexChars_value)

lemma isHexDigits_bufferToHex [simp]: "isHexDigits (bufferToHex bs)"
  by (induction bs) (simp_all add: isHexDigits_byteHex)

lemma startsWith_0x [simp]: "startsWith (''0x'' @ s) ''0x''"
  by (simp add: startsWith_def)

text \<open>No digit pair is the prefix.\<close>

lemma bufferToHex_no_prefix: "\<not> startsWith (bufferToHex bs) ''0x''"
proof
  assume s: "startsWith (bufferToHex bs) ''0x''"
  then have "bufferToHex bs ! 1 = CHR ''x''" "1 < length (bufferToHex bs)"
    by (cases bs; simp add: startsWith_def byteHex_def)+
  then have "hexValue (CHR ''x'') \<noteq> None"
    using isHexDigits_bufferToHex [of bs] unfolding isHexDigits_def list_all_length by metis
  then show False by (simp add: hexValue_def)
qed

lemma toHexString_eq: "toHexString bs = ''0x'' @ bufferToHex bs"
  by (simp add: toHexString_def ensure0x_def bufferToHex_no_prefix)

lemma fromHexString_toHexString [simp]: "fromHexString (toHexString bs) = bs"
  by (simp add: toHexString_eq fromHexString_def strip0x_def startsWith_def)

lemma fromHexString_prefix [simp]: "fromHexString (''0x'' @ bufferToHex bs) = bs"
  using fromHexString_toHexString [of bs] by (simp only: toHexString_eq)

section \<open>Big-endian numbers\<close>

fun beBytes :: "nat \<Rightarrow> nat \<Rightarrow> byte list" where
  "beBytes 0 v = []"
| "beBytes (Suc n) v = beBytes n (v div 256) @ [word_of_nat (v mod 256)]"

definition beValue :: "byte list \<Rightarrow> nat" where
  "beValue bs = foldl (\<lambda>v b. 256 * v + unat b) 0 bs"

lemma length_beBytes [simp]: "length (beBytes n v) = n"
  by (induction n arbitrary: v) simp_all

lemma unat_word_of_nat_byte: "v < 256 \<Longrightarrow> unat (word_of_nat v :: byte) = v"
  by (simp add: unsigned_of_nat take_bit_nat_eq_self_iff)

lemma beValue_beBytes: "v < 256 ^ n \<Longrightarrow> beValue (beBytes n v) = v"
proof (induction n arbitrary: v)
  case (Suc n)
  then have "v div 256 < 256 ^ n" by (simp add: less_mult_imp_div_less mult.commute)
  then have "beValue (beBytes n (v div 256)) = v div 256" by (rule Suc.IH)
  then show ?case by (simp add: beValue_def unat_word_of_nat_byte)
qed (simp add: beValue_def)

lemma hexNumber_append_byte: "hexNumber (s @ byteHex b) = 256 * hexNumber s + unat b"
proof -
  have "16 * (16 * n + unat b div 16) + unat b mod 16 = 256 * n + unat b" for n by simp
  then show ?thesis
    using unat_byte_div [of b] by (simp add: hexNumber_def byteHex_def hexChars_value del: mult_div_mod_eq)
qed

lemma hexNumber_bufferToHex: "hexNumber (bufferToHex bs) = beValue bs"
proof (induction bs rule: rev_induct)
  case (snoc b bs)
  then show ?case by (simp add: hexNumber_append_byte beValue_def del: bufferToHex_simps(2))
    (simp add: hexNumber_append_byte)
qed (simp add: hexNumber_def beValue_def)

lemma bigintOfHex_toHexString:
  "bigintOfHex (toHexString bs) = (if bs = [] then throw SyntaxError else ret (int (beValue bs)))"
proof -
  have "bufferToHex bs = [] \<longleftrightarrow> bs = []" by (metis length_0_conv length_bufferToHex mult_eq_0_iff zero_neq_numeral)
  then show ?thesis by (simp add: bigintOfHex_def toHexString_eq startsWith_def hexNumber_bufferToHex)
qed

lemma subarray_mid: "length xs = i \<Longrightarrow> i + length ys = j \<Longrightarrow> subarray i j (xs @ ys @ zs) = ys"
  by (auto simp: subarray_def)

lemma readUInt_mid:
  "length xs = i \<Longrightarrow> length ys = n \<Longrightarrow> readUInt n i (xs @ ys @ zs) = ret (beValue ys)"
  by (simp add: readUInt_def subarray_mid beValue_def)

section \<open>What the code relies on of ethers\<close>

fun abi_ok :: "abi \<Rightarrow> bool" where
  "abi_ok (AbiUint w n) = (8 dvd w \<and> 0 \<le> n \<and> n < 2 ^ w)"
| "abi_ok (AbiBytes32 h) = isBytes32 h"
| "abi_ok (AbiBytes h) = (startsWith h ''0x'' \<and> isHexDigits (drop 2 h) \<and> even (length h))"
| "abi_ok (AbiAddress h) = (startsWith h ''0x'' \<and> isHexDigits (drop 2 h) \<and> length h = 42)"

fun abi_bytes :: "abi \<Rightarrow> byte list" where
  "abi_bytes (AbiUint w n) = beBytes (w div 8) (nat n)"
| "abi_bytes (AbiBytes32 h) = fromHexString h"
| "abi_bytes (AbiBytes h) = fromHexString h"
| "abi_bytes (AbiAddress h) = fromHexString h"

text \<open>
  Documented behaviour of \<open>hexlify\<close>, \<open>arrayify\<close>, \<open>hexZeroPad\<close>, \<open>solidityPack\<close> (tightly packed
  big-endian values) and \<open>getAddress\<close> (the same twenty bytes in checksum case).
\<close>

definition ethers_laws :: "ethers_api \<Rightarrow> bool" where
  "ethers_laws E \<longleftrightarrow>
     (\<forall>bs. hexlify E bs = toHexString bs)
   \<and> (\<forall>bs. arrayify E (toHexString bs) = ret bs)
   \<and> (\<forall>bs. length bs \<le> 32 \<longrightarrow> hexZeroPad32 E (toHexString bs) = toHexString (replicate (32 - length bs) 0 @ bs))
   \<and> (\<forall>vs. list_all abi_ok vs \<longrightarrow> solidityPack E vs = ret (toHexString (concat (map abi_bytes vs))))
   \<and> (\<forall>bs. length bs = 20 \<longrightarrow> (\<exists>a. getAddress E (toHexString bs) = ret a \<and> length a = 42 \<and> fromHexString a = bs))"

lemma ethers_lawsD:
  assumes "ethers_laws E"
  shows "hexlify E bs = toHexString bs" and "arrayify E (toHexString bs) = ret bs"
    and "length bs \<le> 32 \<Longrightarrow> hexZeroPad32 E (toHexString bs) = toHexString (replicate (32 - length bs) 0 @ bs)"
    and "list_all abi_ok vs \<Longrightarrow> solidityPack E vs = ret (toHexString (concat (map abi_bytes vs)))"
    and "length bs = 20 \<Longrightarrow> \<exists>a. getAddress E (toHexString bs) = ret a \<and> length a = 42 \<and> fromHexString a = bs"
  using assms unfolding ethers_laws_def by blast+

lemma length_bufferFromHex: "isHexDigits h \<Longrightarrow> length (bufferFromHex h) = length h div 2"
  by (induction h rule: bufferFromHex.induct) (auto split: option.splits)

lemma isBytes32_length: "isBytes32 h \<Longrightarrow> length (fromHexString h) = 32"
  by (simp add: isBytes32_def fromHexString_def strip0x_def length_bufferFromHex)

lemma isBytes32_toHexString: "length bs = 32 \<Longrightarrow> isBytes32 (toHexString bs)"
  by (simp add: isBytes32_def toHexString_eq startsWith_def)

lemma addressToBytes32_ret:
  assumes E: "ethers_laws E" and a: "addressToBytes32 E dec a = ret h"
  shows "isBytes32 h"
proof (cases "isBytes32 (ensure0x a)")
  case True
  with a show ?thesis by (simp add: addressToBytes32_def)
next
  case False
  with a obtain bs where bs: "bytesToBytes32 E bs = ret h" by (auto simp: addressToBytes32_def rbind_eq_Inr_iff)
  then have l: "length bs \<le> 32" and h: "h = hexZeroPad32 E (toHexString bs)"
    by (auto simp: bytesToBytes32_def toHexString_def split: if_splits)
  have "length (replicate (32 - length bs) 0 @ bs) = 32" using l by simp
  then show ?thesis using ethers_lawsD(3) [OF E l] h isBytes32_toHexString by simp
qed

section \<open>Round trips\<close>

text \<open>
  C38. A formatted message parses back: for a version of one byte, nonce and domains of four
  bytes and a hex body, \<open>parseMessage\<close> of what \<open>formatMessage\<close> returns gives the same numbers, the
  padded addresses and the body, as lower-case hex.
\<close>

theorem parseMessage_formatMessage:
  assumes E: "ethers_laws E" and m: "formatMessage E dec v n org sa dest ra body = ret msg"
    and s: "addressToBytes32 E dec sa = ret s32" and r: "addressToBytes32 E dec ra = ret r32"
    and rng: "v \<in> {0..<2^8}" "n \<in> {0..<2^32}" "org \<in> {0..<2^32}" "dest \<in> {0..<2^32}"
    and b: "abi_ok (AbiBytes body)"
  shows "parseMessage E msg = ret \<lparr>pm_version = nat v, pm_nonce = nat n, pm_origin = nat org,
    pm_sender = toHexString (fromHexString s32), pm_destination = nat dest,
    pm_recipient = toHexString (fromHexString r32), pm_body = toHexString (fromHexString body)\<rparr>"
proof -
  have b32: "isBytes32 s32" "isBytes32 r32" using addressToBytes32_ret [OF E] s r by auto
  note len = b32 [THEN isBytes32_length]
  let ?v = "beBytes 1 (nat v)" and ?n = "beBytes 4 (nat n)" and ?o = "beBytes 4 (nat org)"
    and ?d = "beBytes 4 (nat dest)" and ?s = "fromHexString s32" and ?r = "fromHexString r32"
    and ?b = "fromHexString body"
  let ?buf = "?v @ ?n @ ?o @ ?s @ ?d @ ?r @ ?b"
  have "msg = toHexString ?buf"
    using m s r b rng b32 ethers_lawsD(4) [OF E, of "[AbiUint 8 v, AbiUint 32 n, AbiUint 32 org, AbiBytes32 s32,
         AbiUint 32 dest, AbiBytes32 r32, AbiBytes body]"]
    by (simp add: formatMessage_def del: beBytes.simps)
  then have a: "arrayify E msg = ret ?buf" using ethers_lawsD(2) [OF E] by simp
  have rd: "readUInt 1 0 ?buf = ret (nat v)" "readUInt 4 1 ?buf = ret (nat n)"
      "readUInt 4 5 ?buf = ret (nat org)" "readUInt 4 41 ?buf = ret (nat dest)"
    using readUInt_mid [of "[]" 0 ?v 1] readUInt_mid [of ?v 1 ?n 4] readUInt_mid [of "?v @ ?n" 5 ?o 4]
      readUInt_mid [of "?v @ ?n @ ?o @ ?s" 41 ?d 4] len rng
    by (simp_all add: beValue_beBytes nat_less_iff del: beBytes.simps)
  have sub: "subarray 9 41 ?buf = ?s" "subarray 45 77 ?buf = ?r" "drop 77 ?buf = ?b"
    using subarray_mid [of "?v @ ?n @ ?o" 9 ?s 41] subarray_mid [of "?v @ ?n @ ?o @ ?s @ ?d" 45 ?r 77] len
    by (simp_all del: beBytes.simps)
  show ?thesis unfolding parseMessage_def a using rd sub ethers_lawsD(1) [OF E] by simp
qed

lemma parseWarpRouteMessage_eq:
  "parseWarpRouteMessage body =
     (if length (fromHexString body) \<le> 32 then throw SyntaxError
      else ret \<lparr>pw_recipient = toHexString (take 32 (fromHexString body)),
        pw_amount = int (beValue (take 32 (drop 32 (fromHexString body))))\<rparr>)"
  by (simp add: parseWarpRouteMessage_def Let_def subarray_def bigintOfHex_toHexString)

text \<open>
  A warp route body is read as a 32-byte recipient and a big-endian amount, whatever follows:
  the amount is that of the bytes from 32 to 64. A body whose decoded bytes end before the amount
  is rejected, and one that ends inside it gives the number of the bytes there are.
\<close>

theorem parseWarpRouteMessage_amount:
  "parseWarpRouteMessage body =
     (if length (fromHexString body) \<le> 32 then throw SyntaxError
      else ret \<lparr>pw_recipient = toHexString (take 32 (fromHexString body)),
        pw_amount = int (beValue (take 32 (drop 32 (fromHexString body))))\<rparr>)"
  by (rule parseWarpRouteMessage_eq)

lemma hex_prefix_byte: "startsWith (toHexString (xs @ ys)) (toHexString xs)"
  by (simp add: startsWith_def toHexString_eq)

lemma slice_mid: "slice (2 + 2 * length xs) (2 + 2 * length xs + 2 * length ys) (toHexString (xs @ ys @ zs))
    = bufferToHex ys"
  by (simp add: slice_def toHexString_eq)

lemma hookVariant: "beBytes 2 (Suc 0) = [0, 1]"
  by (simp add: numeral_2_eq_2)

lemma toHex_01: "toHexString [0, 1] = ''0x0001''"
  by (simp add: toHexString_eq byteHex_def hexChars_def)

text \<open>
  Hook metadata round trip: \<open>parseStandardHookMetadata\<close> of what \<open>formatStandardHookMetadata\<close>
  returns gives back the value and the gas limit, with their defaults filled in, and an address of
  the same twenty bytes.
\<close>

theorem parse_formatStandardHookMetadata:
  assumes E: "ethers_laws E" and f: "formatStandardHookMetadata E p = ret md"
    and v: "getOr (hm_msgValue p) 0 \<in> {0..<2^256}" and g: "getOr (hm_gasLimit p) DEFAULT_GAS_LIMIT \<in> {0..<2^256}"
    and a: "abi_ok (AbiAddress (getOr (hm_refundAddress p) AddressZero))"
  shows "\<exists>r. parseStandardHookMetadata E (Some md)
      = Some (getOr (hm_msgValue p) 0, getOr (hm_gasLimit p) DEFAULT_GAS_LIMIT, r)
    \<and> fromHexString r = fromHexString (getOr (hm_refundAddress p) AddressZero)"
proof -
  let ?v = "getOr (hm_msgValue p) 0" and ?g = "getOr (hm_gasLimit p) DEFAULT_GAS_LIMIT"
    and ?a = "getOr (hm_refundAddress p) AddressZero"
  let ?V = "beBytes 32 (nat ?v)" and ?G = "beBytes 32 (nat ?g)" and ?A = "fromHexString ?a"
  have md: "md = toHexString ([0, 1] @ ?V @ ?G @ ?A)"
    using f v g a ethers_lawsD(4) [OF E, of "[AbiUint 16 1, AbiUint 256 ?v, AbiUint 256 ?g, AbiAddress ?a]"]
    by (simp add: formatStandardHookMetadata_def hookVariant del: beBytes.simps)
  have la: "length ?A = 20" using a by (simp add: fromHexString_def strip0x_def length_bufferFromHex)
  obtain r where r: "getAddress E (toHexString ?A) = ret r" "fromHexString r = ?A"
    using ethers_lawsD(5) [OF E la] by blast
  have sl: "slice MSG_VALUE_START GAS_LIMIT_START md = bufferToHex ?V"
      "slice GAS_LIMIT_START REFUND_START md = bufferToHex ?G"
      "slice REFUND_START REFUND_END md = bufferToHex ?A"
    using slice_mid [of "[0, 1]" ?V "?G @ ?A"] slice_mid [of "[0, 1] @ ?V" ?G ?A]
      slice_mid [of "[0, 1] @ ?V @ ?G" ?A "[]"] la
    by (simp_all add: md MSG_VALUE_START_def GAS_LIMIT_START_def REFUND_START_def REFUND_END_def
        del: beBytes.simps)
  have num: "bigintOfHex (''0x'' @ bufferToHex ?V) = ret ?v" "bigintOfHex (''0x'' @ bufferToHex ?G) = ret ?g"
    using bigintOfHex_toHexString [of ?V] bigintOfHex_toHexString [of ?G] v g
    by (simp_all add: toHexString_eq beValue_beBytes nat_less_iff del: beBytes.simps)
       (metis length_0_conv length_beBytes zero_neq_numeral)+
  have ok: "length md = REFUND_END" "startsWith md ''0x''" "isHexDigits (drop 2 md)" "startsWith md ''0x0001''"
    using hex_prefix_byte [of "[0, 1]" "?V @ ?G @ ?A"] la
    by (simp_all add: md toHex_01 del: beBytes.simps)
       (simp_all add: toHexString_eq startsWith_def isHexDigits_byteHex MSG_VALUE_START_def GAS_LIMIT_START_def REFUND_START_def REFUND_END_def
        del: beBytes.simps)
  have ne: "md \<noteq> []" "md \<noteq> ''0x''"
    using ok(1) by (auto simp: MSG_VALUE_START_def GAS_LIMIT_START_def REFUND_START_def REFUND_END_def)
  show ?thesis using ok ne r num by (simp add: parseStandardHookMetadata_def sl toHexString_eq)
qed

section \<open>An instance of the package\<close>

text \<open>The functions of the record on byte lists, for the witnesses: they satisfy the laws.\<close>

definition ex_ethers :: ethers_api where
  "ex_ethers = \<lparr>arrayify = \<lambda>h. ret (fromHexString h), hexlify = toHexString,
     hexZeroPad32 = \<lambda>h. toHexString (replicate (32 - length (fromHexString h)) 0 @ fromHexString h),
     solidityPack = \<lambda>vs. ret (toHexString (concat (map abi_bytes vs))), getAddress = \<lambda>h. ret h\<rparr>"

lemma ex_ethers_laws: "ethers_laws ex_ethers"
  by (simp add: ethers_laws_def ex_ethers_def) (simp add: toHexString_eq)

definition ex_addr :: string where
  "ex_addr = ''0x'' @ concat (replicate 32 ''0a'')"

lemma ex_addr_bytes32: "addressToBytes32 ex_ethers dec ex_addr = ret ex_addr"
  by (simp add: addressToBytes32_def ensure0x_def startsWith_def ex_addr_def isBytes32_def eval_nat_numeral
      hexValue_def)

theorem parseMessage_formatMessage_witness:
  "parseMessage ex_ethers (case formatMessage ex_ethers (\<lambda>_. throw TypeError) 3 7 1 ex_addr 10 ex_addr ''0xab'' of
      Inr h \<Rightarrow> h | Inl _ \<Rightarrow> [])
    = ret \<lparr>pm_version = 3, pm_nonce = 7, pm_origin = nat 1, pm_sender = toHexString (fromHexString ex_addr),
        pm_destination = 10, pm_recipient = toHexString (fromHexString ex_addr),
        pm_body = toHexString (fromHexString ''0xab'')\<rparr>"
proof -
  obtain msg where f: "formatMessage ex_ethers (\<lambda>_. throw TypeError) 3 7 1 ex_addr 10 ex_addr ''0xab'' = ret msg"
    by (simp add: formatMessage_def ex_addr_bytes32) (simp add: ex_ethers_def)
  show ?thesis
    using parseMessage_formatMessage [OF ex_ethers_laws f ex_addr_bytes32 ex_addr_bytes32] f
    by (simp add: startsWith_def hexValue_def)
qed

theorem parse_formatStandardHookMetadata_witness:
  "\<exists>md r. formatStandardHookMetadata ex_ethers \<lparr>hm_refundAddress = None, hm_msgValue = Some 5, hm_gasLimit = None\<rparr> = ret md
    \<and> parseStandardHookMetadata ex_ethers (Some md) = Some (5, 50000, r)"
proof -
  let ?p = "\<lparr>hm_refundAddress = None, hm_msgValue = Some 5, hm_gasLimit = None\<rparr> :: StandardHookMetadataParams"
  obtain md where f: "formatStandardHookMetadata ex_ethers ?p = ret md"
    by (simp add: formatStandardHookMetadata_def ex_ethers_def)
  show ?thesis
    using parse_formatStandardHookMetadata [OF ex_ethers_laws f] f
    by (auto simp: getOr_def DEFAULT_GAS_LIMIT_def AddressZero_def startsWith_def isHexDigits_def hexValue_def
        list_all_length)
qed

end
