(* ===== verification/JS_Async.thy ===== *)
theory JS_Async
  imports JS_Prelude
begin

text \<open>
  Methods of objects with state: an operation takes the state and returns its result, which may be
  a thrown error, and the state it leaves, which keeps whatever was written before the throw. The
  sources await every call before the next one, so an operation runs without interleaving.
  \<open>keeps P m\<close> says that \<open>m\<close> preserves \<open>P\<close>, whether it returns or throws; the collection \<open>keeps\<close>
  holds the rules for the combinators and for the operations of the components.
\<close>

type_synonym ('s, 'a) op = "'s \<Rightarrow> 'a result \<times> 's"

definition op_ret :: "'a \<Rightarrow> ('s, 'a) op" where
  "op_ret x = (\<lambda>s. (ret x, s))"

definition op_throw :: "js_error \<Rightarrow> ('s, 'a) op" where
  "op_throw e = (\<lambda>s. (throw e, s))"

definition op_bind :: "('s, 'a) op \<Rightarrow> ('a \<Rightarrow> ('s, 'b) op) \<Rightarrow> ('s, 'b) op" where
  "op_bind m f = (\<lambda>s. case m s of (Inl e, s') \<Rightarrow> (Inl e, s') | (Inr x, s') \<Rightarrow> f x s')"

definition op_seq :: "('s, unit) op \<Rightarrow> ('s, 'b) op \<Rightarrow> ('s, 'b) op" where
  "op_seq m n = op_bind m (\<lambda>_. n)"

definition op_gets :: "('s \<Rightarrow> 'a) \<Rightarrow> ('s, 'a) op" where
  "op_gets f = (\<lambda>s. (ret (f s), s))"

definition op_modify :: "('s \<Rightarrow> 's) \<Rightarrow> ('s, unit) op" where
  "op_modify f = (\<lambda>s. (ret (), f s))"

definition op_lift :: "'a result \<Rightarrow> ('s, 'a) op" where
  "op_lift r = (\<lambda>s. (r, s))"

definition op_when :: "bool \<Rightarrow> ('s, unit) op \<Rightarrow> ('s, unit) op" where
  "op_when b m = (if b then m else op_ret ())"

text \<open>\<open>try { m } catch { h }\<close>: the handler starts from the state the throw left.\<close>

definition op_try :: "('s, 'a) op \<Rightarrow> ('s, 'a) op \<Rightarrow> ('s, 'a) op" where
  "op_try m h = (\<lambda>s. case m s of (Inl _, s') \<Rightarrow> h s' | r \<Rightarrow> r)"

text \<open>The same with a handler that uses the error.\<close>

definition op_catch :: "('s, 'a) op \<Rightarrow> (js_error \<Rightarrow> ('s, 'a) op) \<Rightarrow> ('s, 'a) op" where
  "op_catch m h = (\<lambda>s. case m s of (Inl e, s') \<Rightarrow> h e s' | r \<Rightarrow> r)"

text \<open>A promise of \<open>Promise.allSettled\<close>: a throw becomes a value.\<close>

definition op_settle :: "('s, 'a) op \<Rightarrow> ('s, 'a result) op" where
  "op_settle m = (\<lambda>s. case m s of (r, s') \<Rightarrow> (ret r, s'))"

fun op_for :: "'a list \<Rightarrow> ('a \<Rightarrow> ('s, unit) op) \<Rightarrow> ('s, unit) op" where
  "op_for [] f = op_ret ()"
| "op_for (x # xs) f = op_seq (f x) (op_for xs f)"

fun op_fold :: "('b \<Rightarrow> 'a \<Rightarrow> ('s, 'b) op) \<Rightarrow> 'b \<Rightarrow> 'a list \<Rightarrow> ('s, 'b) op" where
  "op_fold f b [] = op_ret b"
| "op_fold f b (x # xs) = op_bind (f b x) (\<lambda>b'. op_fold f b' xs)"

fun op_map :: "('a \<Rightarrow> ('s, 'b) op) \<Rightarrow> 'a list \<Rightarrow> ('s, 'b list) op" where
  "op_map f [] = op_ret []"
| "op_map f (x # xs) = op_bind (f x) (\<lambda>y. op_bind (op_map f xs) (\<lambda>ys. op_ret (y # ys)))"

named_theorems op_simps \<open>evaluation of operations\<close>

lemma op_run [op_simps]:
  "op_ret x s = (ret x, s)" "op_throw e s = (throw e, s)" "op_gets f s = (ret (f s), s)"
  "op_modify g s = (ret (), g s)" "op_lift r s = (r, s)" "op_when True u = u" "op_when False u = op_ret ()"
  by (simp_all add: op_ret_def op_throw_def op_gets_def op_modify_def op_lift_def op_when_def)

lemma op_bind_run [op_simps]:
  "op_bind m f s = (case m s of (Inl e, s') \<Rightarrow> (Inl e, s') | (Inr x, s') \<Rightarrow> f x s')"
  "op_seq u n s = (case u s of (Inl e, s') \<Rightarrow> (Inl e, s') | (Inr x, s') \<Rightarrow> n s')"
  "op_try m h s = (case m s of (Inl e, s') \<Rightarrow> h s' | (Inr x, s') \<Rightarrow> (Inr x, s'))"
  "op_catch m g s = (case m s of (Inl e, s') \<Rightarrow> g e s' | (Inr x, s') \<Rightarrow> (Inr x, s'))"
  by (simp_all add: op_bind_def op_seq_def op_try_def op_catch_def split: prod.splits sum.splits)

section \<open>Invariants of operations\<close>

named_theorems keeps \<open>operations that preserve a predicate on the state\<close>

definition keeps :: "('s \<Rightarrow> bool) \<Rightarrow> ('s, 'a) op \<Rightarrow> bool" where
  "keeps P m \<longleftrightarrow> (\<forall>s. P s \<longrightarrow> P (snd (m s)))"

lemma keepsD: "keeps P m \<Longrightarrow> P s \<Longrightarrow> m s = (r, s') \<Longrightarrow> P s'"
  unfolding keeps_def by (metis snd_conv)

lemma keeps_basic [keeps]:
  "keeps P (op_ret x)" "keeps P (op_throw e)" "keeps P (op_gets f)" "keeps P (op_lift r)"
  by (simp_all add: keeps_def op_simps)

lemma keeps_modify: "(\<And>s. P s \<Longrightarrow> P (f s)) \<Longrightarrow> keeps P (op_modify f)"
  by (simp add: keeps_def op_simps)

lemma keeps_bind [keeps]: "keeps P m \<Longrightarrow> (\<And>x. keeps P (f x)) \<Longrightarrow> keeps P (op_bind m f)"
  by (force simp: keeps_def op_simps split: prod.splits sum.splits)

lemma keeps_seq [keeps]: "keeps P m \<Longrightarrow> keeps P n \<Longrightarrow> keeps P (op_seq m n)"
  unfolding op_seq_def by (rule keeps_bind)

lemma keeps_try [keeps]: "keeps P m \<Longrightarrow> keeps P h \<Longrightarrow> keeps P (op_try m h)"
  by (force simp: keeps_def op_simps split: prod.splits sum.splits)

lemma keeps_catch [keeps]: "keeps P m \<Longrightarrow> (\<And>e. keeps P (h e)) \<Longrightarrow> keeps P (op_catch m h)"
  by (force simp: keeps_def op_simps split: prod.splits sum.splits)

lemma keeps_settle [keeps]: "keeps P m \<Longrightarrow> keeps P (op_settle m)"
  by (force simp: keeps_def op_settle_def split: prod.split)

lemma keeps_when [keeps]: "keeps P m \<Longrightarrow> keeps P (op_when b m)"
  by (simp add: op_when_def keeps)

lemma keeps_if [keeps]: "keeps P m \<Longrightarrow> keeps P n \<Longrightarrow> keeps P (if b then m else n)"
  by simp

lemma keeps_option [keeps]:
  "keeps P m \<Longrightarrow> (\<And>x. keeps P (f x)) \<Longrightarrow> keeps P (case v of None \<Rightarrow> m | Some x \<Rightarrow> f x)"
  by (cases v) simp_all

lemma keeps_for [keeps]: "(\<And>x. x \<in> set xs \<Longrightarrow> keeps P (f x)) \<Longrightarrow> keeps P (op_for xs f)"
  by (induction xs) (simp_all add: keeps)

lemma keeps_fold [keeps]: "(\<And>b x. x \<in> set xs \<Longrightarrow> keeps P (f b x)) \<Longrightarrow> keeps P (op_fold f b xs)"
  by (induction xs arbitrary: b) (simp_all add: keeps)

lemma keeps_map [keeps]: "(\<And>x. x \<in> set xs \<Longrightarrow> keeps P (f x)) \<Longrightarrow> keeps P (op_map f xs)"
  by (induction xs) (simp_all add: keeps)

section \<open>Loops\<close>

text \<open>A loop whose body always returns is a fold over the states.\<close>

lemma op_for_total:
  "(\<And>x s. x \<in> set xs \<Longrightarrow> f x s = (ret (), g x s)) \<Longrightarrow> op_for xs f s = (ret (), fold g xs s)"
  by (induction xs arbitrary: s) (simp_all add: op_simps)

text \<open>
  The loop rule: \<open>I done s\<close> holds of the elements processed so far; a body that throws ends the
  loop, so the conclusion is about a loop that returned.
\<close>

lemma op_for_invariant:
  assumes "op_for xs f s = (ret u, s')" and "I [] s"
    and step: "\<And>ys x zs s t. xs = ys @ x # zs \<Longrightarrow> I ys s \<Longrightarrow> f x s = (ret (), t) \<Longrightarrow> I (ys @ [x]) t"
  shows "I xs s'"
proof -
  have "op_for zs f s = (ret u, s') \<Longrightarrow> xs = ys @ zs \<Longrightarrow> I ys s \<Longrightarrow> I xs s'" for ys zs s
  proof (induction zs arbitrary: ys s)
    case (Cons z zs)
    from Cons.prems(1) obtain t where t: "f z s = (ret (), t)" "op_for zs f t = (ret u, s')"
      by (auto simp: op_simps split: prod.splits sum.splits)
    show ?case using Cons.IH [OF t(2), of "ys @ [z]"] step [OF Cons.prems(2,3) t(1)] Cons.prems(2) by simp
  qed (simp add: op_simps)
  from this [of xs s "[]"] assms(1,2) show ?thesis by simp
qed

text \<open>The same for a loop that never throws, with the state of each pass known.\<close>

lemma op_for_returns:
  assumes "I [] s" and "\<And>ys x zs s. xs = ys @ x # zs \<Longrightarrow> I ys s \<Longrightarrow> \<exists>t. f x s = (ret (), t) \<and> I (ys @ [x]) t"
  shows "\<exists>s'. op_for xs f s = (ret (), s') \<and> I xs s'"
proof -
  have "xs = ys @ zs \<Longrightarrow> I ys s \<Longrightarrow> \<exists>s'. op_for zs f s = (ret (), s') \<and> I xs s'" for ys zs s
  proof (induction zs arbitrary: ys s)
    case (Cons z zs)
    obtain t where "f z s = (ret (), t)" "I (ys @ [z]) t" using assms(2) [OF Cons.prems] by blast
    with Cons.IH [of "ys @ [z]" t] Cons.prems(1) show ?case by (simp add: op_simps)
  qed (simp add: op_simps)
  from this [of "[]" xs s] assms(1) show ?thesis by simp
qed

lemma op_fold_returns:
  assumes "I [] b s"
    and "\<And>ys x zs b s. xs = ys @ x # zs \<Longrightarrow> I ys b s \<Longrightarrow> \<exists>b' t. f b x s = (ret b', t) \<and> I (ys @ [x]) b' t"
  shows "\<exists>b' s'. op_fold f b xs s = (ret b', s') \<and> I xs b' s'"
proof -
  have "xs = ys @ zs \<Longrightarrow> I ys b s \<Longrightarrow> \<exists>b' s'. op_fold f b zs s = (ret b', s') \<and> I xs b' s'" for ys zs b s
  proof (induction zs arbitrary: ys b s)
    case (Cons z zs)
    obtain b' t where "f b z s = (ret b', t)" "I (ys @ [z]) b' t" using assms(2) [OF Cons.prems] by blast
    with Cons.IH [of "ys @ [z]" b' t] Cons.prems(1) show ?case by (simp add: op_simps)
  qed (simp add: op_simps)
  from this [of "[]" xs b s] assms(1) show ?thesis by simp
qed

section \<open>Weakest preconditions\<close>

text \<open>
  \<open>wp m Q X s\<close>: started in \<open>s\<close>, \<open>m\<close> returns with \<open>Q\<close> or throws with \<open>X\<close> on the state it leaves. The
  equations of \<open>wp_simps\<close> push it through the combinators.
\<close>

named_theorems wp_simps \<open>weakest preconditions of the combinators\<close>

definition wp :: "('s, 'a) op \<Rightarrow> ('a \<Rightarrow> 's \<Rightarrow> bool) \<Rightarrow> ('s \<Rightarrow> bool) \<Rightarrow> 's \<Rightarrow> bool" where
  "wp m Q X s \<longleftrightarrow> (case m s of (Inl e, s') \<Rightarrow> X s' | (Inr x, s') \<Rightarrow> Q x s')"

lemma wpD: "wp m Q X s \<Longrightarrow> m s = (Inr x, s') \<Longrightarrow> Q x s'" "wp m Q X s \<Longrightarrow> m s = (Inl e, s') \<Longrightarrow> X s'"
  by (simp_all add: wp_def)

lemma wp_both: "wp m (\<lambda>_. P) P s \<longleftrightarrow> P (snd (m s))"
  by (auto simp: wp_def split: prod.split sum.split)

lemma wp_mono: "wp m Q X s \<Longrightarrow> (\<And>x s'. Q x s' \<Longrightarrow> Q' x s') \<Longrightarrow> (\<And>s'. X s' \<Longrightarrow> X' s') \<Longrightarrow> wp m Q' X' s"
  by (auto simp: wp_def split: prod.splits sum.splits)

lemma wp_keeps: "keeps P m \<Longrightarrow> P s \<Longrightarrow> (\<And>x s'. P s' \<Longrightarrow> Q x s') \<Longrightarrow> (\<And>s'. P s' \<Longrightarrow> X s') \<Longrightarrow> wp m Q X s"
  by (force simp: keeps_def wp_def split: prod.split sum.split)

lemma wp_and_keeps: "wp m Q X s \<Longrightarrow> keeps P m \<Longrightarrow> P s \<Longrightarrow> wp m (\<lambda>x s'. Q x s' \<and> P s') (\<lambda>s'. X s' \<and> P s') s"
  by (force simp: keeps_def wp_def split: prod.splits sum.splits)

lemma wp_basic [wp_simps]:
  "wp (op_ret x) Q X s = Q x s" "wp (op_throw e) Q X s = X s" "wp (op_gets f) Q X s = Q (f s) s"
  "wp (op_modify g) Q' X s = Q' () (g s)" "wp (op_lift (Inl e)) Q X s = X s" "wp (op_lift (Inr x)) Q X s = Q x s"
  by (simp_all add: wp_def op_simps)

lemma wp_bind [wp_simps]: "wp (op_bind m f) Q X s = wp m (\<lambda>x. wp (f x) Q X) X s"
  by (auto simp: wp_def op_simps split: prod.split sum.split)

lemma wp_seq [wp_simps]: "wp (op_seq m n) Q X s = wp m (\<lambda>_. wp n Q X) X s"
  by (simp add: op_seq_def wp_bind)

lemma wp_try [wp_simps]: "wp (op_try m h) Q X s = wp m Q (wp h Q X) s"
  by (auto simp: wp_def op_simps split: prod.split sum.split)

lemma wp_catch: "wp m Q (\<lambda>s'. \<forall>e. wp (h e) Q X s') s \<Longrightarrow> wp (op_catch m h) Q X s"
  unfolding wp_def op_simps by (cases "m s"; cases "fst (m s)") auto

lemma wp_settle [wp_simps]: "wp (op_settle m) Q X s = wp m (\<lambda>x. Q (Inr x)) (\<lambda>s'. \<exists>e. m s = (Inl e, s') \<and> Q (Inl e) s') s"
  by (auto simp: wp_def op_settle_def split: prod.split sum.split)

lemma wp_lift: "(\<And>x. r = Inr x \<Longrightarrow> Q x s) \<Longrightarrow> X s \<Longrightarrow> wp (op_lift r) Q X s"
  by (cases r) (simp_all add: wp_simps)

lemma wp_bind_lift: "(\<And>x. r = Inr x \<Longrightarrow> wp (f x) Q X s) \<Longrightarrow> X s \<Longrightarrow> wp (op_bind (op_lift r) f) Q X s"
  by (simp add: wp_bind wp_lift)

lemma wp_fold:
  assumes "I [] b s" and "\<And>ys x zs b s. xs = ys @ x # zs \<Longrightarrow> I ys b s \<Longrightarrow> wp (f b x) (\<lambda>b'. I (ys @ [x]) b') X s"
  shows "wp (op_fold f b xs) (I xs) X s"
proof -
  have "xs = ys @ zs \<Longrightarrow> I ys b s \<Longrightarrow> wp (op_fold f b zs) (I xs) X s" for ys zs b s
  proof (induction zs arbitrary: ys b s)
    case (Cons z zs)
    show ?case unfolding op_fold.simps wp_bind
      by (rule wp_mono [OF assms(2) [OF Cons.prems]]) (use Cons.IH Cons.prems(1) in simp_all)
  qed (simp add: wp_simps)
  from this [of "[]" xs b s] assms(1) show ?thesis by simp
qed

end
