(* ===== verification/Entity_Store.thy ===== *)
theory Entity_Store
  imports JS_Async
begin

text \<open>
  \<open>typescript/rebalancer/src/tracking/store\<close>: the interface \<open>IStore\<close> of a store of tracked entities
  and its implementation \<open>InMemoryStore\<close> over a \<open>Map\<close>. An entity is any extension of the record
  \<open>TrackedActionBase\<close>, polymorphic in its status. A partial update is the function that applies it.
\<close>

type_synonym domain = nat

record 's TrackedActionBase =
  te_id :: string
  te_status :: 's
  te_origin :: domain
  te_destination :: domain
  te_amount :: int
  te_createdAt :: int
  te_updatedAt :: int

type_synonym ('s, 'm) entity = "('s, 'm) TrackedActionBase_scheme"
type_synonym ('s, 'm) store = "(string, ('s, 'm) entity) dict"

section \<open>InMemoryStore\<close>

definition store_save :: "('s, 'm) entity \<Rightarrow> ('s, 'm) store \<Rightarrow> ('s, 'm) store" where
  "store_save e st = AList.update (te_id e) e st"

definition store_get :: "('s, 'm) store \<Rightarrow> string \<Rightarrow> ('s, 'm) entity option" where
  "store_get st i = map_of st i"

definition store_getAll :: "('s, 'm) store \<Rightarrow> ('s, 'm) entity list" where
  "store_getAll st = dict_values st"

definition store_update ::
    "int \<Rightarrow> string \<Rightarrow> (('s, 'm) entity \<Rightarrow> ('s, 'm) entity) \<Rightarrow> ('s, 'm) store \<Rightarrow> ('s, 'm) store result" where
  "store_update now i updates st =
     (case map_of st i of
        None \<Rightarrow> throw (Thrown ''Entity not found'' i)
      | Some existing \<Rightarrow> ret (AList.update i ((updates existing)\<lparr>te_updatedAt := now\<rparr>) st))"

definition store_delete :: "string \<Rightarrow> ('s, 'm) store \<Rightarrow> ('s, 'm) store" where
  "store_delete i st = AList.delete i st"

definition store_getByStatus :: "'s \<Rightarrow> ('s, 'm) store \<Rightarrow> ('s, 'm) entity list" where
  "store_getByStatus v st = filter (\<lambda>e. te_status e = v) (dict_values st)"

definition store_getByDestination :: "domain \<Rightarrow> ('s, 'm) store \<Rightarrow> ('s, 'm) entity list" where
  "store_getByDestination d st = filter (\<lambda>e. te_destination e = d) (dict_values st)"

section \<open>The interface\<close>

text \<open>
  \<open>inv\<close> is the representation invariant; \<open>lookup\<close> is what \<open>get\<close> returns. The laws say what each
  operation does to the lookups, and that the queries are the looked-up entities.
\<close>

locale IStore =
  fixes inv :: "'st \<Rightarrow> bool"
    and lookup :: "'st \<Rightarrow> string \<Rightarrow> ('s, 'm) entity option"
    and all :: "'st \<Rightarrow> ('s, 'm) entity list"
    and save :: "('s, 'm) entity \<Rightarrow> 'st \<Rightarrow> 'st"
    and upd :: "int \<Rightarrow> string \<Rightarrow> (('s, 'm) entity \<Rightarrow> ('s, 'm) entity) \<Rightarrow> 'st \<Rightarrow> 'st result"
    and del :: "string \<Rightarrow> 'st \<Rightarrow> 'st"
  assumes lookup_id: "inv st \<Longrightarrow> lookup st i = Some e \<Longrightarrow> te_id e = i"
    and all_lookup: "inv st \<Longrightarrow> e \<in> set (all st) \<longleftrightarrow> lookup st (te_id e) = Some e"
    and all_distinct: "inv st \<Longrightarrow> distinct (map te_id (all st))"
    and save_inv: "inv st \<Longrightarrow> inv (save e st)"
    and save_lookup: "inv st \<Longrightarrow> lookup (save e st) i = (if i = te_id e then Some e else lookup st i)"
    and upd_missing: "lookup st i = None \<Longrightarrow> upd now i f st = throw (Thrown ''Entity not found'' i)"
    and upd_returns: "inv st \<Longrightarrow> lookup st i = Some e \<Longrightarrow> te_id (f e) = te_id e \<Longrightarrow> \<exists>st'. upd now i f st = ret st'
       \<and> inv st' \<and> lookup st' = (lookup st)(i \<mapsto> (f e)\<lparr>te_updatedAt := now\<rparr>)"
    and del_inv: "inv st \<Longrightarrow> inv (del i st)"
    and del_lookup: "inv st \<Longrightarrow> lookup (del i st) j = (if j = i then None else lookup st j)"
begin

lemma upd_ret:
  assumes "inv st" "upd now i f st = ret st'" "\<And>e. te_id (f e) = te_id e"
  obtains e where "lookup st i = Some e" and "inv st'"
    and "lookup st' = (lookup st)(i \<mapsto> (f e)\<lparr>te_updatedAt := now\<rparr>)"
proof (cases "lookup st i")
  case None
  then show ?thesis using upd_missing [OF None, of now f] assms(2) by simp
next
  case (Some e)
  then show ?thesis using upd_returns [OF assms(1) Some, of f now] that assms(2,3) by fastforce
qed

lemma save_all: "inv st \<Longrightarrow> set (all (save e st)) = insert e {x \<in> set (all st). te_id x \<noteq> te_id e}"
  by (auto simp: all_lookup save_inv save_lookup split: if_splits)

lemma upd_all:
  assumes "inv st" "upd now i f st = ret st'" "\<And>e. te_id (f e) = te_id e"
  obtains e where "lookup st i = Some e"
    and "set (all st') = insert ((f e)\<lparr>te_updatedAt := now\<rparr>) {x \<in> set (all st). te_id x \<noteq> i}"
proof -
  obtain e where e: "lookup st i = Some e" "inv st'" "lookup st' = (lookup st)(i \<mapsto> (f e)\<lparr>te_updatedAt := now\<rparr>)"
    by (rule upd_ret [OF assms]) auto
  have "te_id ((f e)\<lparr>te_updatedAt := now\<rparr>) = i" using lookup_id [OF assms(1) e(1)] assms(3) by simp
  then have "set (all st') = insert ((f e)\<lparr>te_updatedAt := now\<rparr>) {x \<in> set (all st). te_id x \<noteq> i}"
    using e by (auto simp: all_lookup assms(1) split: if_splits)
  then show ?thesis using that e(1) by blast
qed

lemma upd_status:
  assumes "inv st" "upd now i f st = ret st'" "\<And>e. te_id (f e) = te_id e" "\<And>e. te_status (f e) = v"
    and "x \<in> set (all st')"
  shows "te_id x = i \<and> te_status x = v \<or> te_id x \<noteq> i \<and> x \<in> set (all st)"
proof -
  obtain e where e: "lookup st i = Some e"
      "set (all st') = insert ((f e)\<lparr>te_updatedAt := now\<rparr>) {x \<in> set (all st). te_id x \<noteq> i}"
    by (rule upd_all [OF assms(1-3)]) auto
  then show ?thesis using assms(3-5) lookup_id [OF assms(1) e(1)] by auto
qed

end

section \<open>The implementation of the interface\<close>

definition store_wf :: "('s, 'm) store \<Rightarrow> bool" where
  "store_wf st \<longleftrightarrow> distinct (dict_keys st) \<and> (\<forall>(k, e) \<in> set st. te_id e = k)"

lemma store_wf_empty [simp]: "store_wf []"
  by (simp add: store_wf_def)

lemma set_alist_update:
  "distinct (dict_keys m) \<Longrightarrow> set (AList.update k v m) = insert (k, v) {x \<in> set m. fst x \<noteq> k}"
  by (induction m) force+

lemma store_wf_update: "store_wf st \<Longrightarrow> te_id e = k \<Longrightarrow> store_wf (AList.update k e st)"
  by (auto simp: store_wf_def set_alist_update)

lemma in_set_deleteD: "x \<in> set (AList.delete k m) \<Longrightarrow> x \<in> set m"
  by (induction m) (auto split: if_splits)

lemma store_wf_delete: "store_wf st \<Longrightarrow> store_wf (AList.delete k st)"
  by (auto simp: store_wf_def distinct_delete dest: in_set_deleteD)

lemma in_values_iff: "store_wf st \<Longrightarrow> e \<in> set (dict_values st) \<longleftrightarrow> map_of st (te_id e) = Some e"
  by (force simp: store_wf_def)

lemma store_ids: "store_wf st \<Longrightarrow> map te_id (dict_values st) = dict_keys st"
  by (auto simp: store_wf_def)

interpretation InMemoryStore: IStore store_wf store_get store_getAll store_save store_update store_delete
proof
  fix st :: "('s, 'm) store" and e i j now f
  show "store_wf st \<Longrightarrow> store_get st i = Some e \<Longrightarrow> te_id e = i"
    by (auto simp: store_wf_def store_get_def dest: map_of_SomeD)
  show "store_wf st \<Longrightarrow> e \<in> set (store_getAll st) \<longleftrightarrow> store_get st (te_id e) = Some e"
    by (simp add: store_getAll_def store_get_def in_values_iff del: set_map)
  show "store_wf st \<Longrightarrow> distinct (map te_id (store_getAll st))"
    unfolding store_getAll_def by (simp only: store_ids) (simp add: store_wf_def)
  show "store_wf st \<Longrightarrow> store_wf (store_save e st)" by (simp add: store_save_def store_wf_update)
  show "store_wf st \<Longrightarrow> store_get (store_save e st) i = (if i = te_id e then Some e else store_get st i)"
    by (simp add: store_get_def store_save_def)
  show "store_get st i = None \<Longrightarrow> store_update now i f st = throw (Thrown ''Entity not found'' i)"
    by (simp add: store_get_def store_update_def)
  show "store_wf st \<Longrightarrow> store_wf (store_delete i st)" by (simp add: store_delete_def store_wf_delete)
  show "store_get (store_delete i st) j = (if j = i then None else store_get st j)"
    by (simp add: store_get_def store_delete_def delete_conv')
  assume wf: "store_wf st" and e: "store_get st i = Some e" and f: "te_id (f e) = te_id e"
  have "te_id e = i" using wf e by (auto simp: store_wf_def store_get_def dest: map_of_SomeD)
  then show "\<exists>st'. store_update now i f st = ret st' \<and> store_wf st'
      \<and> store_get st' = (store_get st)(i \<mapsto> (f e)\<lparr>te_updatedAt := now\<rparr>)"
    using wf e f by (auto simp: store_get_def store_update_def store_wf_update fun_eq_iff)
qed

section \<open>Updates as maps\<close>

text \<open>
  An update changes one entry in place. \<open>core\<close> forgets the time of the last update, which no query
  reads.
\<close>

definition core :: "('s, 'm) entity \<Rightarrow> ('s, 'm) entity" where
  "core e = e\<lparr>te_updatedAt := 0\<rparr>"

lemma core_simps [simp]:
  "te_id (core e) = te_id e" "te_status (core e) = te_status e" "te_amount (core e) = te_amount e"
  "te_createdAt (core e) = te_createdAt e" "te_origin (core e) = te_origin e"
  "te_destination (core e) = te_destination e" "core (core e) = core e"
  "core (e\<lparr>te_updatedAt := t\<rparr>) = core e" "core (e\<lparr>te_status := v\<rparr>) = (core e)\<lparr>te_status := v\<rparr>"
  by (simp_all add: core_def)

definition map_store :: "(('s, 'm) entity \<Rightarrow> ('s, 'm) entity) \<Rightarrow> ('s, 'm) store \<Rightarrow> ('s, 'm) store" where
  "map_store f st = map (\<lambda>(k, e). (k, f e)) st"

lemma map_store_comp [simp]: "map_store f (map_store g st) = map_store (\<lambda>e. f (g e)) st"
  by (auto simp: map_store_def)

lemma map_store_cong: "(\<And>e. e \<in> set (dict_values st) \<Longrightarrow> f e = g e) \<Longrightarrow> map_store f st = map_store g st"
  by (force simp: map_store_def)

lemma values_map_store [simp]: "dict_values (map_store f st) = map f (dict_values st)"
  by (auto simp: map_store_def)

lemma alist_update_map:
  assumes "distinct (dict_keys m)" "k \<in> set (dict_keys m)"
  shows "AList.update k v m = map (\<lambda>(j, e). (j, if j = k then v else e)) m"
  using assms
proof (induction m)
  case (Cons p m)
  have id: "k \<notin> set (dict_keys m) \<Longrightarrow> map (\<lambda>(j, e). (j, if j = k then v else e)) m = m"
    by (induction m) auto
  with Cons show ?case by (cases p) auto
qed simp

lemma store_update_map:
  assumes wf: "store_wf st" and i: "store_get st i \<noteq> None"
  shows "store_update now i f st
    = ret (map_store (\<lambda>e. if te_id e = i then (f e)\<lparr>te_updatedAt := now\<rparr> else e) st)"
proof -
  obtain e where e: "map_of st i = Some e" using i by (auto simp: store_get_def)
  have d: "distinct (dict_keys st)" "\<forall>(k, e) \<in> set st. te_id e = k" using wf by (simp_all add: store_wf_def)
  have "AList.update i ((f e)\<lparr>te_updatedAt := now\<rparr>) st
      = map (\<lambda>(j, x). (j, if j = i then (f e)\<lparr>te_updatedAt := now\<rparr> else x)) st"
    using alist_update_map [OF d(1)] map_of_SomeD [OF e] by force
  also have "\<dots> = map_store (\<lambda>x. if te_id x = i then (f x)\<lparr>te_updatedAt := now\<rparr> else x) st"
    unfolding map_store_def
  proof (rule map_cong [OF refl])
    fix p assume m: "p \<in> set st"
    obtain k x where p: "p = (k, x)" by fastforce
    have k: "te_id x = k" using d(2) m p by auto
    moreover have "k = i \<Longrightarrow> x = e" using m p e d(1) by (simp add: map_of_eq_Some_iff)
    ultimately show "(case p of (j, x) \<Rightarrow> (j, if j = i then (f e)\<lparr>te_updatedAt := now\<rparr> else x))
        = (case p of (k, x) \<Rightarrow> (k, if te_id x = i then (f x)\<lparr>te_updatedAt := now\<rparr> else x))" using p by auto
  qed
  finally show ?thesis using e by (simp add: store_update_def)
qed

lemma keys_map_store [simp]: "dict_keys (map_store f st) = dict_keys st"
  by (auto simp: map_store_def)

lemma store_get_map_store [simp]: "store_get (map_store f st) i = map_option f (store_get st i)"
  by (induction st) (auto simp: store_get_def map_store_def)

lemma store_wf_map_store: "store_wf st \<Longrightarrow> (\<And>e. te_id (f e) = te_id e) \<Longrightarrow> store_wf (map_store f st)"
  unfolding store_wf_def keys_map_store by (auto simp: map_store_def)

lemma store_get_None_iff: "store_get st i = None \<longleftrightarrow> i \<notin> set (dict_keys st)"
  by (simp add: store_get_def map_of_eq_None_iff)

lemma store_get_member: "store_wf st \<Longrightarrow> e \<in> set (dict_values st) \<longleftrightarrow> store_get st (te_id e) = Some e"
  unfolding store_get_def by (rule in_values_iff)

lemma store_unique:
  assumes "store_wf st" "a \<in> set (dict_values st)" "b \<in> set (dict_values st)" "te_id a = te_id b"
  shows "a = b"
proof -
  have "store_get st (te_id a) = Some a" "store_get st (te_id b) = Some b"
    using store_get_member [OF assms(1), THEN iffD1] assms(2,3) by blast+
  then show ?thesis using assms(4) by (metis option.inject)
qed

end
