(* ===== verification/Action_Tracker.thy ===== *)
theory Action_Tracker
  imports Rebalancer_Config Hex_Messages Entity_Store
begin

text \<open>
  \<open>typescript/rebalancer/src/tracking/ActionTracker.ts\<close>: the operations on the stores of transfers,
  rebalance intents and rebalance actions, with \<open>tracking/types.ts\<close> and \<open>utils/blockTag.ts\<close>. What the
  tracker calls outside itself is the record \<open>tracker_env\<close>: the Explorer's answers, message delivery
  and block queries, the clock, the uuid generator and the external bridges' status. The clock and the
  uuids are read through counters of the state, so that every reading may differ. Log calls have
  no entry in the model.
\<close>

section \<open>Tracked entities\<close>

datatype TransferStatus = TransferInProgress | TransferComplete

datatype RebalanceIntentStatus =
  IntentNotStarted | IntentInProgress | IntentComplete | IntentCancelled | IntentFailed

datatype RebalanceActionStatus = ActionInProgress | ActionComplete | ActionFailed

datatype ActionType = rebalance_message | inventory_movement | inventory_deposit

datatype BridgeTransferStatus = bridge_pending | bridge_complete | bridge_failed | bridge_not_found

record Transfer = "TransferStatus TrackedActionBase" +
  tr_messageId :: string
  tr_sender :: address
  tr_recipient :: address

record RebalanceIntent = "RebalanceIntentStatus TrackedActionBase" +
  ri_bridge :: "address option"
  ri_priority :: "int option"
  ri_strategyType :: "string option"
  ri_executionMethod :: "ExecutionMethod option"
  ri_externalBridge :: "ExternalBridgeType option"

record RebalanceAction = "RebalanceActionStatus TrackedActionBase" +
  ra_type :: ActionType
  ra_intentId :: string
  ra_messageId :: "string option"
  ra_txHash :: "string option"
  ra_externalBridgeTransferId :: "string option"
  ra_externalBridgeId :: "ExternalBridgeType option"
  ra_lastBridgeStatus :: "BridgeTransferStatus option"
  ra_nonPendingSince :: "int option"

record PartialInventoryIntent =
  pi_intent :: RebalanceIntent
  completedAmount :: int
  remaining :: int
  hasInflightDeposit :: bool

record ActionTrackerConfig =
  routersByDomain :: "(domain, string) dict"
  at_bridges :: "address list"
  rebalancerAddress :: address
  inventorySignerAddresses :: "address list option"
  at_intentTTL :: rat

record tracker =
  transferStore :: "(string, Transfer) dict"
  rebalanceIntentStore :: "(string, RebalanceIntent) dict"
  rebalanceActionStore :: "(string, RebalanceAction) dict"
  ticks :: nat
  uuids :: nat

section \<open>The tracker's environment\<close>

record ExplorerMessage =
  msg_id :: string
  origin_domain_id :: domain
  destination_domain_id :: domain
  msg_sender :: address
  msg_recipient :: address
  origin_tx_hash :: string
  origin_tx_sender :: string
  origin_tx_recipient :: string
  is_delivered :: bool
  message_body :: hex
  send_occurred_at :: "string option"

datatype block_tag = BlockNumber int | BlockName string

text \<open>
  A chain's provider: a JSON-RPC one, with its answer to \<open>eth_blockNumber\<close> when that is a string, or
  another one, with its block number.
\<close>

datatype provider = JsonRpcProvider "string option result" | OtherProvider "int result"

record chain_metadata =
  cm_protocol :: string
  cm_reorgPeriod :: "(int + string) option"

text \<open>\<open>Date_parse s\<close> is \<open>new Date(s + 'Z').getTime()\<close>, with \<open>None\<close> for \<open>NaN\<close>.\<close>

record tracker_env =
  clock :: "nat \<Rightarrow> int"
  uuidv4 :: "nat \<Rightarrow> string"
  Date_parse :: "string \<Rightarrow> int option"
  getChainName :: "domain \<Rightarrow> chain result"
  getChainMetadata :: "chain \<Rightarrow> chain_metadata result"
  getProvider :: "chain \<Rightarrow> provider result"
  isDelivered :: "chain \<Rightarrow> string \<Rightarrow> block_tag option \<Rightarrow> bool result"
  getInflightUserTransfers :: "(domain, string) dict \<Rightarrow> address list \<Rightarrow> ExplorerMessage list result"
  getInflightRebalanceActions ::
    "address list \<Rightarrow> (domain, string) dict \<Rightarrow> address \<Rightarrow> address list option \<Rightarrow> ExplorerMessage list result"

type_synonym 'a tracker_op = "(tracker, 'a) op"

definition isEVMLike :: "string \<Rightarrow> bool" where
  "isEVMLike p \<longleftrightarrow> p = ''ethereum'' \<or> p = ''tron''"

text \<open>A block number is a finite double: the digits of a larger one parse to infinity.\<close>

definition parseBlockNumber :: "chain \<Rightarrow> string option \<Rightarrow> int result" where
  "parseBlockNumber c answer =
     (case answer of
        None \<Rightarrow> throw (Thrown ''Invalid eth_blockNumber response'' c)
      | Some h \<Rightarrow>
          if \<not> (startsWith h ''0x'' \<and> drop 2 h \<noteq> [] \<and> isHexDigits (drop 2 h))
          then throw (Thrown ''Invalid eth_blockNumber response'' c)
          else if hexNumber (drop 2 h) \<ge> 2 ^ 1024
          then throw (Thrown ''Parsed block number is not finite'' c)
          else ret (int (hexNumber (drop 2 h))))"

definition latestBlock :: "chain \<Rightarrow> provider \<Rightarrow> int result" where
  "latestBlock c p =
     (case p of
        JsonRpcProvider answer \<Rightarrow> rbind answer (parseBlockNumber c)
      | OtherProvider n \<Rightarrow> n)"

definition getConfirmedBlockTag :: "tracker_env \<Rightarrow> chain \<Rightarrow> block_tag option" where
  "getConfirmedBlockTag E c =
     (case rbind (getChainMetadata E c) (\<lambda>metadata.
        if \<not> isEVMLike (cm_protocol metadata) then ret None
        else case cm_reorgPeriod metadata of
          Some (Inr tag) \<Rightarrow>
            if cm_protocol metadata = ''tron'' then ret None else ret (Some (BlockName tag))
        | p \<Rightarrow>
            let reorgPeriod = (case p of Some (Inl n) \<Rightarrow> n | _ \<Rightarrow> 32)
            in rbind (getProvider E c) (\<lambda>provider.
               rbind (latestBlock c provider) (\<lambda>latest.
                 ret (Some (BlockNumber (max 0 (latest - reorgPeriod))))))) of
        Inl _ \<Rightarrow> None
      | Inr tag \<Rightarrow> tag)"

section \<open>Basic operations\<close>

definition dateNow :: "tracker_env \<Rightarrow> int tracker_op" where
  "dateNow E = (\<lambda>s. (ret (clock E (ticks s)), s\<lparr>ticks := Suc (ticks s)\<rparr>))"

definition newUuid :: "tracker_env \<Rightarrow> string tracker_op" where
  "newUuid E = (\<lambda>s. (ret (uuidv4 E (uuids s)), s\<lparr>uuids := Suc (uuids s)\<rparr>))"

definition saveTransfer :: "Transfer \<Rightarrow> unit tracker_op" where
  "saveTransfer t = op_modify (\<lambda>s. s\<lparr>transferStore := store_save t (transferStore s)\<rparr>)"

definition saveIntent :: "RebalanceIntent \<Rightarrow> unit tracker_op" where
  "saveIntent i = op_modify (\<lambda>s. s\<lparr>rebalanceIntentStore := store_save i (rebalanceIntentStore s)\<rparr>)"

definition saveAction :: "RebalanceAction \<Rightarrow> unit tracker_op" where
  "saveAction a = op_modify (\<lambda>s. s\<lparr>rebalanceActionStore := store_save a (rebalanceActionStore s)\<rparr>)"

text \<open>An update reads the clock only for an entity that exists.\<close>

definition updateTransfer :: "tracker_env \<Rightarrow> string \<Rightarrow> (Transfer \<Rightarrow> Transfer) \<Rightarrow> unit tracker_op" where
  "updateTransfer E i f = (\<lambda>s. case store_update (clock E (ticks s)) i f (transferStore s) of
     Inl e \<Rightarrow> (Inl e, s) | Inr st \<Rightarrow> (ret (), s\<lparr>transferStore := st, ticks := Suc (ticks s)\<rparr>))"

definition updateIntent :: "tracker_env \<Rightarrow> string \<Rightarrow> (RebalanceIntent \<Rightarrow> RebalanceIntent) \<Rightarrow> unit tracker_op" where
  "updateIntent E i f = (\<lambda>s. case store_update (clock E (ticks s)) i f (rebalanceIntentStore s) of
     Inl e \<Rightarrow> (Inl e, s) | Inr st \<Rightarrow> (ret (), s\<lparr>rebalanceIntentStore := st, ticks := Suc (ticks s)\<rparr>))"

definition updateAction :: "tracker_env \<Rightarrow> string \<Rightarrow> (RebalanceAction \<Rightarrow> RebalanceAction) \<Rightarrow> unit tracker_op" where
  "updateAction E i f = (\<lambda>s. case store_update (clock E (ticks s)) i f (rebalanceActionStore s) of
     Inl e \<Rightarrow> (Inl e, s) | Inr st \<Rightarrow> (ret (), s\<lparr>rebalanceActionStore := st, ticks := Suc (ticks s)\<rparr>))"

section \<open>Queries\<close>

definition getTransfer :: "tracker \<Rightarrow> string \<Rightarrow> Transfer option" where
  "getTransfer s i = store_get (transferStore s) i"

definition getInProgressTransfers :: "tracker \<Rightarrow> Transfer list" where
  "getInProgressTransfers s = store_getByStatus TransferInProgress (transferStore s)"

definition getTransfersByDestination :: "tracker \<Rightarrow> domain \<Rightarrow> Transfer list" where
  "getTransfersByDestination s d = store_getByDestination d (transferStore s)"

definition getRebalanceIntent :: "tracker \<Rightarrow> string \<Rightarrow> RebalanceIntent option" where
  "getRebalanceIntent s i = store_get (rebalanceIntentStore s) i"

definition getActiveRebalanceIntents :: "tracker \<Rightarrow> RebalanceIntent list" where
  "getActiveRebalanceIntents s = store_getByStatus IntentInProgress (rebalanceIntentStore s)"

definition getRebalanceIntentsByDestination :: "tracker \<Rightarrow> domain \<Rightarrow> RebalanceIntent list" where
  "getRebalanceIntentsByDestination s d = store_getByDestination d (rebalanceIntentStore s)"

definition getRebalanceAction :: "tracker \<Rightarrow> string \<Rightarrow> RebalanceAction option" where
  "getRebalanceAction s i = store_get (rebalanceActionStore s) i"

definition getInProgressActions :: "tracker \<Rightarrow> RebalanceAction list" where
  "getInProgressActions s = store_getByStatus ActionInProgress (rebalanceActionStore s)"

definition getActionsByType :: "tracker \<Rightarrow> ActionType \<Rightarrow> RebalanceAction list" where
  "getActionsByType s t = filter (\<lambda>a. ra_type a = t) (store_getAll (rebalanceActionStore s))"

definition getInflightInventoryMovements :: "tracker \<Rightarrow> domain \<Rightarrow> int" where
  "getInflightInventoryMovements s d =
     sum_list (map te_amount (filter (\<lambda>a. ra_type a = inventory_movement \<and> te_status a = ActionInProgress
       \<and> te_origin a = d) (store_getAll (rebalanceActionStore s))))"

definition getActionsForIntent :: "tracker \<Rightarrow> string \<Rightarrow> RebalanceAction list" where
  "getActionsForIntent s i = filter (\<lambda>a. ra_intentId a = i) (store_getAll (rebalanceActionStore s))"

definition getCompletedAmountForIntent :: "tracker \<Rightarrow> string \<Rightarrow> int" where
  "getCompletedAmountForIntent s i =
     sum_list (map te_amount (filter (\<lambda>a. te_status a = ActionComplete
       \<and> (ra_type a = inventory_deposit \<or> ra_type a = rebalance_message)) (getActionsForIntent s i)))"

section \<open>Delivery\<close>

type_synonym block_tags = "(chain, block_tag option) dict"

definition confirmedBlockTag :: "tracker_env \<Rightarrow> block_tags option \<Rightarrow> domain \<Rightarrow> block_tag option result" where
  "confirmedBlockTag E tags d =
     rbind (getChainName E d) (\<lambda>c.
       ret (case tags of
              Some m \<Rightarrow> (case map_of m c of None \<Rightarrow> None | Some t \<Rightarrow> t)
            | None \<Rightarrow> getConfirmedBlockTag E c))"

definition isMessageDelivered :: "tracker_env \<Rightarrow> string \<Rightarrow> domain \<Rightarrow> block_tag option \<Rightarrow> bool" where
  "isMessageDelivered E messageId d tag =
     (case rbind (getChainName E d) (\<lambda>c. isDelivered E c messageId tag) of
        Inl _ \<Rightarrow> False
      | Inr b \<Rightarrow> b)"

section \<open>Intents and actions\<close>

record CreateRebalanceIntentParams =
  cp_origin :: domain
  cp_destination :: domain
  cp_amount :: int
  cp_bridge :: "address option"
  cp_priority :: "int option"
  cp_strategyType :: "string option"
  cp_executionMethod :: "ExecutionMethod option"
  cp_externalBridge :: "ExternalBridgeType option"

record CreateRebalanceActionParams =
  ca_intentId :: string
  ca_origin :: domain
  ca_destination :: domain
  ca_amount :: int
  ca_type :: ActionType
  ca_messageId :: "string option"
  ca_txHash :: "string option"
  ca_externalBridgeTransferId :: "string option"
  ca_externalBridgeId :: "ExternalBridgeType option"

definition createRebalanceIntent :: "tracker_env \<Rightarrow> CreateRebalanceIntentParams \<Rightarrow> RebalanceIntent tracker_op" where
  "createRebalanceIntent E p =
     op_bind (newUuid E) (\<lambda>i.
     op_bind (dateNow E) (\<lambda>created.
     op_bind (dateNow E) (\<lambda>updated.
       let intent = \<lparr>te_id = i, te_status = IntentNotStarted, te_origin = cp_origin p,
         te_destination = cp_destination p, te_amount = cp_amount p, te_createdAt = created,
         te_updatedAt = updated, ri_bridge = cp_bridge p, ri_priority = cp_priority p,
         ri_strategyType = cp_strategyType p, ri_executionMethod = cp_executionMethod p,
         ri_externalBridge = cp_externalBridge p\<rparr>
       in op_seq (saveIntent intent) (op_ret intent))))"

definition completeRebalanceIntent :: "tracker_env \<Rightarrow> string \<Rightarrow> unit tracker_op" where
  "completeRebalanceIntent E i = updateIntent E i (\<lambda>x. x\<lparr>te_status := IntentComplete\<rparr>)"

definition cancelRebalanceIntent :: "tracker_env \<Rightarrow> string \<Rightarrow> unit tracker_op" where
  "cancelRebalanceIntent E i = updateIntent E i (\<lambda>x. x\<lparr>te_status := IntentCancelled\<rparr>)"

definition failRebalanceIntent :: "tracker_env \<Rightarrow> string \<Rightarrow> unit tracker_op" where
  "failRebalanceIntent E i = updateIntent E i (\<lambda>x. x\<lparr>te_status := IntentFailed\<rparr>)"

text \<open>The parent intent of a new action leaves \<open>not_started\<close>.\<close>

definition startIntent :: "tracker_env \<Rightarrow> string \<Rightarrow> unit tracker_op" where
  "startIntent E i =
     op_bind (op_gets (\<lambda>s. getRebalanceIntent s i)) (\<lambda>intent.
       case intent of
         None \<Rightarrow> op_ret ()
       | Some x \<Rightarrow> op_when (te_status x = IntentNotStarted)
           (updateIntent E (te_id x) (\<lambda>y. y\<lparr>te_status := IntentInProgress\<rparr>)))"

definition createRebalanceAction :: "tracker_env \<Rightarrow> CreateRebalanceActionParams \<Rightarrow> RebalanceAction tracker_op" where
  "createRebalanceAction E p =
     op_bind (newUuid E) (\<lambda>i.
     op_bind (dateNow E) (\<lambda>created.
     op_bind (dateNow E) (\<lambda>updated.
       let action = \<lparr>te_id = i, te_status = ActionInProgress, te_origin = ca_origin p,
         te_destination = ca_destination p, te_amount = ca_amount p, te_createdAt = created,
         te_updatedAt = updated, ra_type = ca_type p, ra_intentId = ca_intentId p,
         ra_messageId = ca_messageId p, ra_txHash = ca_txHash p,
         ra_externalBridgeTransferId = ca_externalBridgeTransferId p,
         ra_externalBridgeId = ca_externalBridgeId p, ra_lastBridgeStatus = None, ra_nonPendingSince = None\<rparr>
       in op_seq (saveAction action) (op_seq (startIntent E (ca_intentId p)) (op_ret action)))))"

definition checkAndCompleteIntent :: "tracker_env \<Rightarrow> string \<Rightarrow> unit tracker_op" where
  "checkAndCompleteIntent E i =
     op_bind (op_gets (\<lambda>s. getRebalanceIntent s i)) (\<lambda>intent.
       case intent of
         None \<Rightarrow> op_ret ()
       | Some x \<Rightarrow>
           if te_status x = IntentComplete then op_ret ()
           else op_bind (op_gets (\<lambda>s. getCompletedAmountForIntent s i)) (\<lambda>completed.
             op_when (completed \<ge> te_amount x) (updateIntent E i (\<lambda>y. y\<lparr>te_status := IntentComplete\<rparr>))))"

definition completeRebalanceAction :: "tracker_env \<Rightarrow> string \<Rightarrow> unit tracker_op" where
  "completeRebalanceAction E i =
     op_bind (op_gets (\<lambda>s. getRebalanceAction s i)) (\<lambda>action.
       case action of
         None \<Rightarrow> op_throw (Thrown ''RebalanceAction not found'' i)
       | Some a \<Rightarrow> op_seq (updateAction E i (\<lambda>x. x\<lparr>te_status := ActionComplete\<rparr>))
           (checkAndCompleteIntent E (ra_intentId a)))"

definition failRebalanceAction :: "tracker_env \<Rightarrow> string \<Rightarrow> unit tracker_op" where
  "failRebalanceAction E i = updateAction E i (\<lambda>x. x\<lparr>te_status := ActionFailed\<rparr>)"

section \<open>Synchronization\<close>

definition newTransfer :: "ExplorerMessage \<Rightarrow> int \<Rightarrow> int \<Rightarrow> int \<Rightarrow> Transfer" where
  "newTransfer msg amt created updated =
     \<lparr>te_id = msg_id msg, te_status = TransferInProgress, te_origin = origin_domain_id msg,
      te_destination = destination_domain_id msg, te_amount = amt, te_createdAt = created,
      te_updatedAt = updated, tr_messageId = msg_id msg, tr_sender = msg_sender msg,
      tr_recipient = msg_recipient msg\<rparr>"

definition syncTransferMessage :: "tracker_env \<Rightarrow> ExplorerMessage \<Rightarrow> unit tracker_op" where
  "syncTransferMessage E msg =
     op_bind (op_gets (\<lambda>s. getTransfer s (msg_id msg))) (\<lambda>transfer.
       case transfer of
         Some _ \<Rightarrow> op_ret ()
       | None \<Rightarrow> op_try
           (op_bind (op_lift (parseWarpRouteMessage (message_body msg))) (\<lambda>parsed.
            op_bind (dateNow E) (\<lambda>created.
            op_bind (dateNow E) (\<lambda>updated.
              saveTransfer (newTransfer msg (pw_amount parsed) created updated)))))
           (op_ret ()))"

definition checkTransferDelivery :: "tracker_env \<Rightarrow> block_tags option \<Rightarrow> Transfer \<Rightarrow> unit tracker_op" where
  "checkTransferDelivery E tags t =
     op_bind (op_lift (confirmedBlockTag E tags (te_destination t))) (\<lambda>tag.
       op_when (isMessageDelivered E (tr_messageId t) (te_destination t) tag)
         (updateTransfer E (te_id t) (\<lambda>x. x\<lparr>te_status := TransferComplete\<rparr>)))"

definition excludeTxSenders :: "ActionTrackerConfig \<Rightarrow> address list" where
  "excludeTxSenders cfg = rebalancerAddress cfg #
     (case inventorySignerAddresses cfg of None \<Rightarrow> [] | Some as \<Rightarrow> as)"

definition syncTransfers :: "tracker_env \<Rightarrow> ActionTrackerConfig \<Rightarrow> block_tags option \<Rightarrow> unit tracker_op" where
  "syncTransfers E cfg tags =
     op_bind (op_lift (getInflightUserTransfers E (routersByDomain cfg) (excludeTxSenders cfg))) (\<lambda>msgs.
     op_seq (op_for msgs (syncTransferMessage E))
     (op_bind (op_gets getInProgressTransfers) (\<lambda>existing.
       op_for existing (checkTransferDelivery E tags))))"

definition expireIntent :: "tracker_env \<Rightarrow> RebalanceAction list \<Rightarrow> RebalanceIntent \<Rightarrow> unit tracker_op" where
  "expireIntent E inProgress i =
     op_seq (updateIntent E (te_id i) (\<lambda>x. x\<lparr>te_status := IntentFailed\<rparr>))
       (op_for inProgress (\<lambda>a. op_when (ra_intentId a = te_id i)
          (updateAction E (te_id a) (\<lambda>x. x\<lparr>te_status := ActionFailed\<rparr>))))"

definition syncIntent ::
    "tracker_env \<Rightarrow> rat \<Rightarrow> int \<Rightarrow> RebalanceAction list \<Rightarrow> RebalanceIntent \<Rightarrow> unit tracker_op" where
  "syncIntent E ttl now inProgress i =
     op_bind (op_gets (\<lambda>s. getCompletedAmountForIntent s (te_id i))) (\<lambda>completed.
       if completed \<ge> te_amount i
       then updateIntent E (te_id i) (\<lambda>x. x\<lparr>te_status := IntentComplete\<rparr>)
       else if of_int (now - te_createdAt i) > ttl then expireIntent E inProgress i
       else op_ret ())"

definition syncRebalanceIntents :: "tracker_env \<Rightarrow> ActionTrackerConfig \<Rightarrow> unit tracker_op" where
  "syncRebalanceIntents E cfg =
     op_bind (op_gets getActiveRebalanceIntents) (\<lambda>intents.
     op_bind (op_gets getInProgressActions) (\<lambda>inProgress.
     op_bind (dateNow E) (\<lambda>now.
       op_for intents (syncIntent E (at_intentTTL cfg) now inProgress))))"

definition recoveredCreatedAt :: "tracker_env \<Rightarrow> ExplorerMessage \<Rightarrow> int tracker_op" where
  "recoveredCreatedAt E msg =
     (case send_occurred_at msg of
        None \<Rightarrow> dateNow E
      | Some d \<Rightarrow>
          if d = [] then dateNow E
          else op_lift (case Date_parse E d of
            None \<Rightarrow> throw (AssertionError ''Invalid send_occurred_at timestamp'')
          | Some t \<Rightarrow> ret t))"

definition recoveredIntent :: "ExplorerMessage \<Rightarrow> string \<Rightarrow> int \<Rightarrow> int \<Rightarrow> int \<Rightarrow> RebalanceIntent" where
  "recoveredIntent msg i amt created updated =
     \<lparr>te_id = i, te_status = IntentInProgress, te_origin = origin_domain_id msg,
      te_destination = destination_domain_id msg, te_amount = amt, te_createdAt = created,
      te_updatedAt = updated, ri_bridge = None, ri_priority = None, ri_strategyType = None,
      ri_executionMethod = None, ri_externalBridge = None\<rparr>"

definition recoveredAction :: "ExplorerMessage \<Rightarrow> string \<Rightarrow> int \<Rightarrow> int \<Rightarrow> int \<Rightarrow> RebalanceAction" where
  "recoveredAction msg i amt created updated =
     \<lparr>te_id = msg_id msg, te_status = ActionInProgress, te_origin = origin_domain_id msg,
      te_destination = destination_domain_id msg, te_amount = amt, te_createdAt = created,
      te_updatedAt = updated, ra_type = rebalance_message, ra_intentId = i,
      ra_messageId = Some (msg_id msg), ra_txHash = Some (origin_tx_hash msg),
      ra_externalBridgeTransferId = None, ra_externalBridgeId = None, ra_lastBridgeStatus = None,
      ra_nonPendingSince = None\<rparr>"

definition recoverAction :: "tracker_env \<Rightarrow> ExplorerMessage \<Rightarrow> unit tracker_op" where
  "recoverAction E msg =
     op_bind (op_gets (\<lambda>s. getRebalanceAction s (msg_id msg))) (\<lambda>existing.
       case existing of
         Some _ \<Rightarrow> op_ret ()
       | None \<Rightarrow> op_try
           (op_bind (op_lift (parseWarpRouteMessage (message_body msg))) (\<lambda>parsed.
            op_bind (recoveredCreatedAt E msg) (\<lambda>created.
            op_bind (newUuid E) (\<lambda>i.
            op_bind (dateNow E) (\<lambda>updated.
            op_seq (saveIntent (recoveredIntent msg i (pw_amount parsed) created updated))
            (op_bind (dateNow E) (\<lambda>updated2.
              saveAction (recoveredAction msg i (pw_amount parsed) created updated2))))))))
           (op_ret ()))"

definition inflightRebalanceActions :: "tracker_env \<Rightarrow> ActionTrackerConfig \<Rightarrow> ExplorerMessage list result" where
  "inflightRebalanceActions E cfg =
     getInflightRebalanceActions E (at_bridges cfg) (routersByDomain cfg) (rebalancerAddress cfg)
       (inventorySignerAddresses cfg)"

definition checkActionDelivery :: "tracker_env \<Rightarrow> block_tags option \<Rightarrow> RebalanceAction \<Rightarrow> unit tracker_op" where
  "checkActionDelivery E tags a =
     (case ra_messageId a of
        None \<Rightarrow> op_ret ()
      | Some messageId \<Rightarrow>
          if messageId = [] then op_ret ()
          else op_bind (op_lift (confirmedBlockTag E tags (te_destination a))) (\<lambda>tag.
            op_when (isMessageDelivered E messageId (te_destination a) tag)
              (completeRebalanceAction E (te_id a))))"

definition syncRebalanceActions :: "tracker_env \<Rightarrow> ActionTrackerConfig \<Rightarrow> block_tags option \<Rightarrow> unit tracker_op" where
  "syncRebalanceActions E cfg tags =
     op_bind (op_lift (inflightRebalanceActions E cfg)) (\<lambda>msgs.
     op_bind (op_gets (\<lambda>s. store_getAll (rebalanceActionStore s))) (\<lambda>allActions.
     op_seq (op_for msgs (\<lambda>msg.
         op_when (\<forall>a \<in> set allActions. ra_messageId a \<noteq> Some (msg_id msg)) (recoverAction E msg)))
     (op_bind (op_gets getInProgressActions) (\<lambda>inProgress.
       op_for inProgress (checkActionDelivery E tags)))))"

definition initialize :: "tracker_env \<Rightarrow> ActionTrackerConfig \<Rightarrow> unit tracker_op" where
  "initialize E cfg =
     op_bind (op_lift (inflightRebalanceActions E cfg)) (\<lambda>msgs.
     op_seq (op_for msgs (recoverAction E))
     (op_seq (syncTransfers E cfg None)
     (op_seq (syncRebalanceIntents E cfg)
       (syncRebalanceActions E cfg None))))"

section \<open>Inventory intents and movements\<close>

definition isStaleMovement :: "int \<Rightarrow> RebalanceAction \<Rightarrow> bool" where
  "isStaleMovement now a =
     (if ra_lastBridgeStatus a = Some bridge_pending then False
      else now - (case ra_nonPendingSince a of Some t \<Rightarrow> t | None \<Rightarrow> te_createdAt a)
        \<ge> DEFAULT_MOVEMENT_STALENESS_MS)"

definition depositAmount :: "RebalanceActionStatus \<Rightarrow> RebalanceAction list \<Rightarrow> int" where
  "depositAmount status actions =
     sum_list (map te_amount (filter (\<lambda>a. te_status a = status \<and> ra_type a = inventory_deposit) actions))"

definition partialIntentStep ::
    "tracker_env \<Rightarrow> PartialInventoryIntent list \<Rightarrow> RebalanceIntent \<Rightarrow> PartialInventoryIntent list tracker_op" where
  "partialIntentStep E acc i =
     (if ri_executionMethod i \<noteq> Some inventory then op_ret acc
      else op_bind (op_gets (\<lambda>s. getActionsForIntent s (te_id i))) (\<lambda>actions.
        op_bind (dateNow E) (\<lambda>now.
          let inflightMovements = filter (\<lambda>a. te_status a = ActionInProgress \<and> ra_type a = inventory_movement) actions;
              staleMovements = filter (isStaleMovement now) inflightMovements
          in if \<exists>a \<in> set inflightMovements. te_id a \<notin> te_id ` set staleMovements then op_ret acc
             else op_seq (op_for staleMovements (\<lambda>a. failRebalanceAction E (te_id a)))
               (let completed = depositAmount ActionComplete actions;
                    inflightAmount = depositAmount ActionInProgress actions;
                    remain = te_amount i - completed - inflightAmount
                in op_ret (if remain > 0 \<or> inflightAmount > 0
                     then acc @ [\<lparr>pi_intent = i, completedAmount = completed, remaining = remain,
                       hasInflightDeposit = inflightAmount > 0\<rparr>]
                     else acc)))))"

definition getPartiallyFulfilledInventoryIntents :: "tracker_env \<Rightarrow> PartialInventoryIntent list tracker_op" where
  "getPartiallyFulfilledInventoryIntents E =
     op_bind (op_gets (\<lambda>s. store_getByStatus IntentInProgress (rebalanceIntentStore s)
        @ store_getByStatus IntentNotStarted (rebalanceIntentStore s))) (\<lambda>allActiveIntents.
       op_fold (partialIntentStep E) [] allActiveIntents)"

text \<open>The registry gives a bridge's \<open>getStatus\<close>, when it has the bridge.\<close>

type_synonym bridge_registry =
  "ExternalBridgeType \<Rightarrow> (string \<Rightarrow> domain \<Rightarrow> domain \<Rightarrow> BridgeTransferStatus result) option"

definition applyBridgeStatus ::
    "tracker_env \<Rightarrow> RebalanceAction \<Rightarrow> nat \<times> nat \<Rightarrow> BridgeTransferStatus \<Rightarrow> (nat \<times> nat) tracker_op" where
  "applyBridgeStatus E a counts status =
     (case status of
        bridge_complete \<Rightarrow> op_seq (completeRebalanceAction E (te_id a)) (op_ret (Suc (fst counts), snd counts))
      | bridge_failed \<Rightarrow> op_seq (failRebalanceAction E (te_id a)) (op_ret (fst counts, Suc (snd counts)))
      | bridge_pending \<Rightarrow> op_seq (updateAction E (te_id a)
            (\<lambda>x. x\<lparr>ra_lastBridgeStatus := Some bridge_pending, ra_nonPendingSince := None\<rparr>)) (op_ret counts)
      | bridge_not_found \<Rightarrow>
          op_bind (case ra_nonPendingSince a of Some t \<Rightarrow> op_ret t | None \<Rightarrow> dateNow E) (\<lambda>since.
          op_seq (updateAction E (te_id a)
            (\<lambda>x. x\<lparr>ra_lastBridgeStatus := Some bridge_not_found, ra_nonPendingSince := Some since\<rparr>)) (op_ret counts)))"

definition syncMovementStep ::
    "tracker_env \<Rightarrow> bridge_registry \<Rightarrow> nat \<times> nat \<Rightarrow> RebalanceAction \<Rightarrow> (nat \<times> nat) tracker_op" where
  "syncMovementStep E registry counts a =
     (case (ra_txHash a, ra_externalBridgeId a) of
        (Some txHash, Some bridgeId) \<Rightarrow>
          if txHash = [] then op_ret counts
          else (case registry bridgeId of
            None \<Rightarrow> op_ret counts
          | Some getStatus \<Rightarrow> op_try
              (op_bind (op_lift (getStatus txHash (te_origin a) (te_destination a))) (applyBridgeStatus E a counts))
              (op_ret counts))
      | _ \<Rightarrow> op_ret counts)"

definition syncInventoryMovementActions :: "tracker_env \<Rightarrow> bridge_registry \<Rightarrow> (nat \<times> nat) tracker_op" where
  "syncInventoryMovementActions E registry =
     op_bind (op_gets getInProgressActions) (\<lambda>inProgress.
       op_fold (syncMovementStep E registry) (0, 0)
         (filter (\<lambda>a. ra_type a = inventory_movement) inProgress))"

end
