(* ===== verification/Tracker_Examples.thy ===== *)
theory Tracker_Examples
  imports Action_Tracker
begin

text \<open>
  A concrete environment and a concrete state of the action tracker, on which the hypotheses of its
  theorems hold: two chains, a transfer \<open>m1\<close> and a rebalance message \<open>m2\<close> that are both delivered, an
  intent \<open>i1\<close> of 100 with 60 deposited by \<open>a1\<close> and 40 under way by \<open>a2\<close>, and an intent \<open>i2\<close>
  that is too old, with an action \<open>a3\<close> under way.
\<close>

definition ex_body :: hex where
  "ex_body = toHexString (replicate 63 0 @ [5])"

definition ex_msg :: "string \<Rightarrow> ExplorerMessage" where
  "ex_msg i = \<lparr>msg_id = i, origin_domain_id = 1, destination_domain_id = 2, msg_sender = ''s'',
     msg_recipient = ''r'', origin_tx_hash = ''tx'', origin_tx_sender = ''me'',
     origin_tx_recipient = ''r'', is_delivered = False, message_body = ex_body, send_occurred_at = None\<rparr>"

definition ex_env :: tracker_env where
  "ex_env = \<lparr>clock = (\<lambda>n. 1000 + int n), uuidv4 = (\<lambda>n. replicate (Suc n) (CHR ''u'')), Date_parse = (\<lambda>_. Some 0),
     getChainName = (\<lambda>d. ret (if d = 1 then ''alpha'' else ''beta'')),
     getChainMetadata = (\<lambda>_. ret \<lparr>cm_protocol = ''ethereum'', cm_reorgPeriod = Some (Inl 2)\<rparr>),
     getProvider = (\<lambda>_. ret (OtherProvider (ret 10))),
     isDelivered = (\<lambda>_ _ tag. ret (tag = Some (BlockNumber 8))),
     getInflightUserTransfers = (\<lambda>_ _. ret [ex_msg ''m1'', ex_msg ''m3'']),
     getInflightRebalanceActions = (\<lambda>_ _ _ _. ret [ex_msg ''m2''])\<rparr>"

definition ex_cfg :: ActionTrackerConfig where
  "ex_cfg = \<lparr>routersByDomain = [(1, ''r1''), (2, ''r2'')], at_bridges = [], rebalancerAddress = ''me'',
     inventorySignerAddresses = None, at_intentTTL = 500\<rparr>"

definition ex_transfer :: "string \<Rightarrow> Transfer" where
  "ex_transfer i = \<lparr>te_id = i, te_status = TransferInProgress, te_origin = 1, te_destination = 2, te_amount = 30,
     te_createdAt = 0, te_updatedAt = 0, tr_messageId = i, tr_sender = ''s'', tr_recipient = ''r''\<rparr>"

definition ex_intent :: "string \<Rightarrow> int \<Rightarrow> RebalanceIntent" where
  "ex_intent i created = \<lparr>te_id = i, te_status = IntentInProgress, te_origin = 1, te_destination = 2, te_amount = 100,
     te_createdAt = created, te_updatedAt = 0, ri_bridge = None, ri_priority = None, ri_strategyType = None,
     ri_executionMethod = Some inventory, ri_externalBridge = None\<rparr>"

definition ex_action :: "string \<Rightarrow> string \<Rightarrow> RebalanceActionStatus \<Rightarrow> int \<Rightarrow> RebalanceAction" where
  "ex_action i intent st amt = \<lparr>te_id = i, te_status = st, te_origin = 1, te_destination = 2, te_amount = amt,
     te_createdAt = 0, te_updatedAt = 0, ra_type = inventory_deposit, ra_intentId = intent, ra_messageId = Some (CHR ''m'' # i),
     ra_txHash = None, ra_externalBridgeTransferId = None, ra_externalBridgeId = None, ra_lastBridgeStatus = None,
     ra_nonPendingSince = None\<rparr>"

definition ex_state :: tracker where
  "ex_state = \<lparr>transferStore = [(''m1'', ex_transfer ''m1'')],
     rebalanceIntentStore = [(''i1'', ex_intent ''i1'' 900), (''i2'', ex_intent ''i2'' 100)],
     rebalanceActionStore = [(''a1'', ex_action ''a1'' ''i1'' ActionComplete 60),
       (''a2'', ex_action ''a2'' ''i1'' ActionInProgress 40), (''a3'', ex_action ''a3'' ''i2'' ActionInProgress 70)],
     ticks = 0, uuids = 0\<rparr>"

lemma ex_state_stores:
  "store_wf (transferStore ex_state)" "store_wf (rebalanceIntentStore ex_state)" "store_wf (rebalanceActionStore ex_state)"
  by (simp_all add: ex_state_def store_wf_def ex_transfer_def ex_intent_def ex_action_def)

lemma ex_lookups:
  "getTransfer ex_state ''m1'' = Some (ex_transfer ''m1'')"
  "getRebalanceIntent ex_state ''i1'' = Some (ex_intent ''i1'' 900)"
  "getRebalanceIntent ex_state ''i2'' = Some (ex_intent ''i2'' 100)"
  "getRebalanceAction ex_state ''a2'' = Some (ex_action ''a2'' ''i1'' ActionInProgress 40)"
  "getRebalanceAction ex_state ''a3'' = Some (ex_action ''a3'' ''i2'' ActionInProgress 70)"
  by (simp_all add: ex_state_def store_get_def getTransfer_def getRebalanceIntent_def getRebalanceAction_def)

lemma ex_completed:
  "getCompletedAmountForIntent ex_state ''i1'' = 60" "getCompletedAmountForIntent ex_state ''i2'' = 0"
  by (simp_all add: getCompletedAmountForIntent_def getActionsForIntent_def store_getAll_def ex_state_def ex_action_def)

lemma ex_uuids: "inj (uuidv4 ex_env)"
  by (rule injI) (metis One_nat_def Suc_inject ex_env_def length_replicate tracker_env.select_convs(2))

lemma ex_body_parses: "\<exists>p. parseWarpRouteMessage ex_body = ret p \<and> pw_amount p = 5"
proof -
  have "foldl (\<lambda>v b. 256 * v + unat b) 0 (replicate n (0 :: byte)) = 0" for n by (induction n) simp_all
  then show ?thesis by (simp add: parseWarpRouteMessage_eq ex_body_def beValue_def)
qed

end
