(* ===== verification/Tracker_Invariants.thy ===== *)
theory Tracker_Invariants
  imports Tracker_Examples
begin

text \<open>
  Invariants of the action tracker: the representation invariant of its stores over every sequence
  of its operations, and how the operations may move the status of an intent.
\<close>

section \<open>The stores\<close>

definition tracker_wf :: "tracker \<Rightarrow> bool" where
  "tracker_wf s \<longleftrightarrow>
     store_wf (transferStore s) \<and> store_wf (rebalanceIntentStore s) \<and> store_wf (rebalanceActionStore s)"

definition empty_tracker :: tracker where
  "empty_tracker = \<lparr>transferStore = [], rebalanceIntentStore = [], rebalanceActionStore = [], ticks = 0, uuids = 0\<rparr>"

lemma tracker_wf_sel:
  "tracker_wf s \<Longrightarrow> store_wf (transferStore s)"
  "tracker_wf s \<Longrightarrow> store_wf (rebalanceIntentStore s)"
  "tracker_wf s \<Longrightarrow> store_wf (rebalanceActionStore s)"
  by (simp_all add: tracker_wf_def)

lemma store_update_wf:
  assumes "store_wf st" "store_update now i f st = ret st'" "\<And>e. te_id (f e) = te_id e"
  shows "store_wf st'"
  by (rule InMemoryStore.upd_ret [OF assms]) auto

lemma wf_basic [keeps]:
  "keeps tracker_wf (dateNow E)" "keeps tracker_wf (newUuid E)" "keeps tracker_wf (saveTransfer t)"
  "keeps tracker_wf (saveIntent i)" "keeps tracker_wf (saveAction a)"
  by (simp_all add: keeps_def dateNow_def newUuid_def saveTransfer_def saveIntent_def saveAction_def
      op_simps tracker_wf_def InMemoryStore.save_inv)

lemma wf_updateTransfer [keeps]:
  "(\<And>x. te_id (f x) = te_id x) \<Longrightarrow> keeps tracker_wf (updateTransfer E i f)"
  by (auto simp: keeps_def updateTransfer_def tracker_wf_def split: sum.splits intro: store_update_wf)

lemma wf_updateIntent [keeps]:
  "(\<And>x. te_id (f x) = te_id x) \<Longrightarrow> keeps tracker_wf (updateIntent E i f)"
  by (auto simp: keeps_def updateIntent_def tracker_wf_def split: sum.splits intro: store_update_wf)

lemma wf_updateAction [keeps]:
  "(\<And>x. te_id (f x) = te_id x) \<Longrightarrow> keeps tracker_wf (updateAction E i f)"
  by (auto simp: keeps_def updateAction_def tracker_wf_def split: sum.splits intro: store_update_wf)

lemma wf_intent_ops [keeps]:
  "keeps tracker_wf (createRebalanceIntent E p)" "keeps tracker_wf (completeRebalanceIntent E i)"
  "keeps tracker_wf (cancelRebalanceIntent E i)" "keeps tracker_wf (failRebalanceIntent E i)"
  "keeps tracker_wf (checkAndCompleteIntent E i)"
  unfolding createRebalanceIntent_def completeRebalanceIntent_def cancelRebalanceIntent_def
    failRebalanceIntent_def checkAndCompleteIntent_def Let_def
  by (intro keeps; simp)+

lemma wf_action_ops [keeps]:
  "keeps tracker_wf (createRebalanceAction E q)" "keeps tracker_wf (completeRebalanceAction E i)"
  "keeps tracker_wf (failRebalanceAction E i)" "keeps tracker_wf (recoverAction E m)"
  "keeps tracker_wf (checkActionDelivery E tags a)"
  unfolding createRebalanceAction_def startIntent_def completeRebalanceAction_def failRebalanceAction_def
    recoverAction_def recoveredCreatedAt_def checkActionDelivery_def Let_def
  by (intro keeps; simp)+

lemma wf_sync_ops [keeps]:
  "keeps tracker_wf (syncTransfers E cfg tags)" "keeps tracker_wf (syncRebalanceIntents E cfg)"
  "keeps tracker_wf (syncRebalanceActions E cfg tags)"
  unfolding syncTransfers_def syncTransferMessage_def checkTransferDelivery_def syncRebalanceIntents_def
    syncIntent_def expireIntent_def syncRebalanceActions_def
  by (intro keeps; simp)+

lemma wf_partialIntentStep [keeps]: "keeps tracker_wf (partialIntentStep E acc i)"
  unfolding partialIntentStep_def Let_def by (intro keeps)

lemma wf_applyBridgeStatus [keeps]: "keeps tracker_wf (applyBridgeStatus E a counts status)"
  unfolding applyBridgeStatus_def by (cases status; simp only: BridgeTransferStatus.case; intro keeps; simp)

lemma wf_syncMovementStep [keeps]: "keeps tracker_wf (syncMovementStep E reg counts a)"
  unfolding syncMovementStep_def
  by (cases "ra_txHash a"; cases "ra_externalBridgeId a"; simp only: prod.case option.case; intro keeps)

lemma wf_inventory_ops [keeps]:
  "keeps tracker_wf (initialize E cfg)" "keeps tracker_wf (getPartiallyFulfilledInventoryIntents E)"
  "keeps tracker_wf (syncInventoryMovementActions E reg)"
  unfolding initialize_def getPartiallyFulfilledInventoryIntents_def syncInventoryMovementActions_def
  by (intro keeps)+

section \<open>Runs\<close>

text \<open>
  One call of the tracker, with any environment: what the Explorer, the chains, the clock and the
  bridges answer may change from call to call. The calls are those of \<open>IActionTracker\<close> that change
  the state, split into the ones that carry a decision of the caller and the ones that follow what
  happened on chain.
\<close>

inductive observed_step :: "ActionTrackerConfig \<Rightarrow> tracker_env \<Rightarrow> tracker \<Rightarrow> tracker \<Rightarrow> bool" for cfg E where
  step_initialize: "initialize E cfg s = (r, s') \<Longrightarrow> observed_step cfg E s s'"
| step_syncTransfers: "syncTransfers E cfg tags s = (r, s') \<Longrightarrow> observed_step cfg E s s'"
| step_syncRebalanceIntents: "syncRebalanceIntents E cfg s = (r, s') \<Longrightarrow> observed_step cfg E s s'"
| step_syncRebalanceActions: "syncRebalanceActions E cfg tags s = (r, s') \<Longrightarrow> observed_step cfg E s s'"
| step_syncInventoryMovementActions:
    "syncInventoryMovementActions E reg s = (r2, s') \<Longrightarrow> observed_step cfg E s s'"
| step_getPartiallyFulfilledInventoryIntents:
    "getPartiallyFulfilledInventoryIntents E s = (r3, s') \<Longrightarrow> observed_step cfg E s s'"
| step_createRebalanceAction: "createRebalanceAction E q s = (r4, s') \<Longrightarrow> observed_step cfg E s s'"
| step_completeRebalanceAction: "completeRebalanceAction E i s = (r, s') \<Longrightarrow> observed_step cfg E s s'"
| step_failRebalanceAction: "failRebalanceAction E i s = (r, s') \<Longrightarrow> observed_step cfg E s s'"

inductive tracker_step :: "ActionTrackerConfig \<Rightarrow> tracker \<Rightarrow> tracker \<Rightarrow> bool" for cfg where
  step_observed: "observed_step cfg E s s' \<Longrightarrow> tracker_step cfg s s'"
| step_createRebalanceIntent: "createRebalanceIntent E p s = (r, s') \<Longrightarrow> tracker_step cfg s s'"
| step_completeRebalanceIntent: "completeRebalanceIntent E i s = (r2, s') \<Longrightarrow> tracker_step cfg s s'"
| step_cancelRebalanceIntent: "cancelRebalanceIntent E i s = (r2, s') \<Longrightarrow> tracker_step cfg s s'"
| step_failRebalanceIntent: "failRebalanceIntent E i s = (r2, s') \<Longrightarrow> tracker_step cfg s s'"

lemma observed_step_keeps:
  assumes "observed_step cfg E s s'" "P s"
    and "keeps P (initialize E cfg)" "\<And>tags. keeps P (syncTransfers E cfg tags)"
    and "keeps P (syncRebalanceIntents E cfg)" "\<And>tags. keeps P (syncRebalanceActions E cfg tags)"
    and "\<And>reg. keeps P (syncInventoryMovementActions E reg)"
    and "keeps P (getPartiallyFulfilledInventoryIntents E)" "\<And>q. keeps P (createRebalanceAction E q)"
    and "\<And>i. keeps P (completeRebalanceAction E i)" "\<And>i. keeps P (failRebalanceAction E i)"
  shows "P s'"
  using assms by cases (blast intro: keepsD)+

lemma tracker_step_wf: "tracker_step cfg s s' \<Longrightarrow> tracker_wf s \<Longrightarrow> tracker_wf s'"
proof (induction rule: tracker_step.induct)
  case (step_observed E s s')
  then show ?case by (rule observed_step_keeps) (intro keeps)+
qed (blast intro: keepsD keeps)+

text \<open>
  After any sequence of calls of the tracker, failed calls included, each of its three
  stores holds every entity under its own id and no id twice.
\<close>

theorem tracker_stores_wf:
  assumes "(tracker_step cfg)\<^sup>*\<^sup>* empty_tracker s"
  shows "tracker_wf s"
  using assms
proof (induction rule: rtranclp_induct)
  case base
  show ?case by (simp add: tracker_wf_def empty_tracker_def)
qed (rule tracker_step_wf)

theorem tracker_stores_wf_witness:
  "tracker_wf (snd (createRebalanceAction ex_env \<lparr>ca_intentId = ''u'', ca_origin = 1, ca_destination = 2, ca_amount = 5,
       ca_type = rebalance_message, ca_messageId = None, ca_txHash = None, ca_externalBridgeTransferId = None,
       ca_externalBridgeId = None\<rparr>
     (snd (createRebalanceIntent ex_env \<lparr>cp_origin = 1, cp_destination = 2, cp_amount = 5, cp_bridge = None,
       cp_priority = None, cp_strategyType = None, cp_executionMethod = None, cp_externalBridge = None\<rparr> empty_tracker))))"
proof (rule tracker_stores_wf)
  show "(tracker_step ex_cfg)\<^sup>*\<^sup>* empty_tracker (snd (createRebalanceAction ex_env q (snd (createRebalanceIntent ex_env p empty_tracker))))"
    for p q
    by (rule rtranclp.rtrancl_into_rtrancl [OF r_into_rtranclp])
      (rule step_createRebalanceIntent [OF prod.collapse [symmetric]],
       rule step_observed [OF step_createRebalanceAction [OF prod.collapse [symmetric]]])
qed

section \<open>The life of an intent\<close>

definition intent_le :: "RebalanceIntentStatus \<Rightarrow> RebalanceIntentStatus \<Rightarrow> bool" where
  "intent_le a b \<longleftrightarrow> a = b \<or> b = IntentComplete
     \<or> (a = IntentNotStarted \<and> (b = IntentInProgress \<or> b = IntentFailed))
     \<or> (a = IntentInProgress \<and> b = IntentFailed)"

text \<open>Two versions of an intent that differ at most in status and time of update.\<close>

definition intent_advances :: "RebalanceIntent \<Rightarrow> RebalanceIntent \<Rightarrow> bool" where
  "intent_advances x y \<longleftrightarrow>
     intent_le (te_status x) (te_status y)
     \<and> y = x\<lparr>te_status := te_status y, te_updatedAt := te_updatedAt y\<rparr>"

definition intents_advance :: "tracker \<Rightarrow> tracker \<Rightarrow> bool" where
  "intents_advance s s' \<longleftrightarrow>
     (\<forall>i x. getRebalanceIntent s i = Some x \<longrightarrow> (\<exists>y. getRebalanceIntent s' i = Some y \<and> intent_advances x y))"

definition uuids_fresh :: "(nat \<Rightarrow> string) \<Rightarrow> tracker \<Rightarrow> bool" where
  "uuids_fresh U s \<longleftrightarrow> inj U \<and> (\<forall>n \<ge> uuids s. getRebalanceIntent s (U n) = None)"

lemma intent_advances_refl: "intent_advances x x"
  by (simp add: intent_advances_def intent_le_def)

lemma intent_le_trans: "intent_le a b \<Longrightarrow> intent_le b c \<Longrightarrow> intent_le a c"
  by (auto simp: intent_le_def)

lemma intent_advances_trans:
  assumes "intent_advances x y" "intent_advances y z" shows "intent_advances x z"
proof -
  have y: "y = x\<lparr>te_status := te_status y, te_updatedAt := te_updatedAt y\<rparr>"
    and z: "z = y\<lparr>te_status := te_status z, te_updatedAt := te_updatedAt z\<rparr>"
    using assms by (simp_all add: intent_advances_def)
  have "z = x\<lparr>te_status := te_status z, te_updatedAt := te_updatedAt z\<rparr>"
    by (subst z, subst y) simp
  then show ?thesis using assms intent_le_trans by (auto simp: intent_advances_def)
qed

text \<open>What the operations keep: the intents of \<open>s0\<close> have only advanced, and the coming uuids are new.\<close>

definition advanced_from :: "(nat \<Rightarrow> string) \<Rightarrow> tracker \<Rightarrow> tracker \<Rightarrow> bool" where
  "advanced_from U s0 s \<longleftrightarrow> intents_advance s0 s \<and> uuids_fresh U s \<and> tracker_wf s"

lemma advanced_from_cong:
  "rebalanceIntentStore s' = rebalanceIntentStore s \<Longrightarrow> uuids s \<le> uuids s' \<Longrightarrow> tracker_wf s' \<Longrightarrow>
     advanced_from U s0 s \<Longrightarrow> advanced_from U s0 s'"
  by (auto simp: advanced_from_def intents_advance_def uuids_fresh_def getRebalanceIntent_def)

lemma advanced_lift:
  assumes "keeps tracker_wf m"
    and "\<And>s. rebalanceIntentStore (snd (m s)) = rebalanceIntentStore s \<and> uuids s \<le> uuids (snd (m s))"
  shows "keeps (advanced_from U s0) m"
  unfolding keeps_def
proof (intro allI impI)
  fix s assume P: "advanced_from U s0 s"
  then have "tracker_wf (snd (m s))" using assms(1) by (simp add: keeps_def advanced_from_def)
  then show "advanced_from U s0 (snd (m s))" using advanced_from_cong P assms(2) by blast
qed

lemma advanced_basic [keeps]:
  "keeps (advanced_from U s0) (dateNow E')" "keeps (advanced_from U s0) (newUuid E')"
  "keeps (advanced_from U s0) (saveTransfer t)" "keeps (advanced_from U s0) (saveAction a)"
  by (rule advanced_lift, rule keeps,
      simp add: dateNow_def newUuid_def saveTransfer_def saveAction_def op_simps)+

lemma advanced_updateTransfer [keeps]:
  "(\<And>x. te_id (f x) = te_id x) \<Longrightarrow> keeps (advanced_from U s0) (updateTransfer E' i f)"
  by (rule advanced_lift, rule keeps) (simp_all add: updateTransfer_def split: sum.splits)

lemma advanced_updateAction [keeps]:
  "(\<And>x. te_id (f x) = te_id x) \<Longrightarrow> keeps (advanced_from U s0) (updateAction E' i f)"
  by (rule advanced_lift, rule keeps) (simp_all add: updateAction_def split: sum.splits)

text \<open>The one way the operations change an intent.\<close>

lemma updateIntent_status:
  assumes "tracker_wf s" "updateIntent E i (\<lambda>x. x\<lparr>te_status := v\<rparr>) s = (r, s')"
  shows "case getRebalanceIntent s i of
      None \<Rightarrow> r = throw (Thrown ''Entity not found'' i) \<and> s' = s
    | Some x \<Rightarrow> r = ret () \<and> rebalanceActionStore s' = rebalanceActionStore s
        \<and> transferStore s' = transferStore s \<and> uuids s' = uuids s
        \<and> (\<forall>j. getRebalanceIntent s' j = ((getRebalanceIntent s)(i \<mapsto>
             x\<lparr>te_status := v, te_updatedAt := clock E (ticks s)\<rparr>)) j)"
  using assms(2)
  by (auto simp: updateIntent_def store_update_def getRebalanceIntent_def store_get_def split: option.splits)

lemma advanced_updateIntent:
  assumes P: "advanced_from (uuidv4 E) s0 s" and x: "getRebalanceIntent s i = Some x" "intent_le (te_status x) v"
    and u: "updateIntent E i (\<lambda>x. x\<lparr>te_status := v\<rparr>) s = (r, s')"
  shows "advanced_from (uuidv4 E) s0 s'"
proof -
  have wf: "tracker_wf s" using P by (simp add: advanced_from_def)
  have wf': "tracker_wf s'" using wf_updateIntent [THEN keepsD, OF _ wf u] by simp
  from updateIntent_status [OF wf u] x(1)
  have l: "\<And>j. getRebalanceIntent s' j = ((getRebalanceIntent s)(i \<mapsto>
      x\<lparr>te_status := v, te_updatedAt := clock E (ticks s)\<rparr>)) j" and n: "uuids s' = uuids s" by auto
  have "intent_advances x (x\<lparr>te_status := v, te_updatedAt := clock E (ticks s)\<rparr>)"
    using x(2) by (simp add: intent_advances_def)
  then have "intents_advance s0 s'"
    using P x(1) unfolding advanced_from_def intents_advance_def l fun_upd_apply
    by (metis intent_advances_trans option.inject)
  moreover have "uuids_fresh (uuidv4 E) s'" using P x(1) by (auto simp: advanced_from_def uuids_fresh_def l n)
  ultimately show ?thesis using wf' by (simp add: advanced_from_def)
qed

lemma advanced_complete [keeps]: "keeps (advanced_from (uuidv4 E) s0) (updateIntent E i (\<lambda>x. x\<lparr>te_status := IntentComplete\<rparr>))"
  unfolding keeps_def
proof (intro allI impI)
  fix s assume P: "advanced_from (uuidv4 E) s0 s"
  obtain r s' where u: "updateIntent E i (\<lambda>x. x\<lparr>te_status := IntentComplete\<rparr>) s = (r, s')" by fastforce
  show "advanced_from (uuidv4 E) s0 (snd (updateIntent E i (\<lambda>x. x\<lparr>te_status := IntentComplete\<rparr>) s))"
  proof (cases "getRebalanceIntent s i")
    case None
    then show ?thesis using updateIntent_status [OF _ u] P u by (simp add: advanced_from_def)
  next
    case (Some x)
    then show ?thesis using advanced_updateIntent [OF P Some _ u] u by (simp add: intent_le_def)
  qed
qed

end
