(* ===== verification/Tracker_Intents.thy ===== *)
theory Tracker_Intents
  imports Tracker_Invariants
begin

text \<open>
  What the synchronization of intents does, as a functional specification: each intent and each
  action of the stores before determines the one after, up to the time of the last update.
\<close>

section \<open>Updates\<close>

lemma getRebalanceIntent_wf: "tracker_wf s \<Longrightarrow> getRebalanceIntent s i = Some x \<Longrightarrow> te_id x = i"
  using InMemoryStore.lookup_id [of "rebalanceIntentStore s" i x]
  by (simp add: getRebalanceIntent_def tracker_wf_def)

lemma getRebalanceAction_wf: "tracker_wf s \<Longrightarrow> getRebalanceAction s i = Some x \<Longrightarrow> te_id x = i"
  using InMemoryStore.lookup_id [of "rebalanceActionStore s" i x]
  by (simp add: getRebalanceAction_def tracker_wf_def)

lemma updateIntent_run:
  assumes "tracker_wf s" "getRebalanceIntent s i \<noteq> None"
  shows "updateIntent E i f s = (ret (), s\<lparr>rebalanceIntentStore :=
      map_store (\<lambda>e. if te_id e = i then (f e)\<lparr>te_updatedAt := clock E (ticks s)\<rparr> else e) (rebalanceIntentStore s),
    ticks := Suc (ticks s)\<rparr>)"
  using store_update_map [of "rebalanceIntentStore s" i] assms
  by (simp add: updateIntent_def tracker_wf_def getRebalanceIntent_def)

lemma updateAction_run:
  assumes "store_wf (rebalanceActionStore s)" "i \<in> set (dict_keys (rebalanceActionStore s))"
  shows "updateAction E i f s = (ret (), s\<lparr>rebalanceActionStore :=
      map_store (\<lambda>e. if te_id e = i then (f e)\<lparr>te_updatedAt := clock E (ticks s)\<rparr> else e) (rebalanceActionStore s),
    ticks := Suc (ticks s)\<rparr>)"
proof -
  have "store_get (rebalanceActionStore s) i \<noteq> None" using assms(2) by (simp add: store_get_None_iff)
  then show ?thesis using store_update_map [OF assms(1)] by (simp add: updateAction_def)
qed

section \<open>The amounts an intent has completed\<close>

abbreviation counts_for :: "string \<Rightarrow> RebalanceAction \<Rightarrow> bool" where
  "counts_for i a \<equiv> te_status a = ActionComplete
     \<and> (ra_type a = inventory_deposit \<or> ra_type a = rebalance_message) \<and> ra_intentId a = i"

lemma getCompletedAmount_eq:
  "getCompletedAmountForIntent s i
     = sum_list (map (\<lambda>a. if counts_for i a then te_amount a else 0) (dict_values (rebalanceActionStore s)))"
proof -
  have "sum_list (map te_amount (filter (\<lambda>a. te_status a = ActionComplete
      \<and> (ra_type a = inventory_deposit \<or> ra_type a = rebalance_message)) (filter (\<lambda>a. ra_intentId a = i) st)))
    = sum_list (map (\<lambda>a. if counts_for i a then te_amount a else 0) st)" for st :: "RebalanceAction list"
    by (induction st) auto
  then show ?thesis by (simp add: getCompletedAmountForIntent_def getActionsForIntent_def store_getAll_def)
qed

lemma core_action [simp]:
  "ra_type (core a) = ra_type a" "ra_intentId (core a) = ra_intentId a"
  "ra_lastBridgeStatus (core a) = ra_lastBridgeStatus a" "ra_nonPendingSince (core a) = ra_nonPendingSince a"
  "ra_messageId (core a) = ra_messageId a"
  by (simp_all add: core_def)

lemma core_intent [simp]: "ri_executionMethod (core x) = ri_executionMethod x"
  by (simp add: core_def)

text \<open>Failing actions that were in progress leaves the completed amounts.\<close>

lemma getCompletedAmount_cong:
  assumes "map_store core (rebalanceActionStore t) = map_store (\<lambda>a. core (g a)) (rebalanceActionStore s)"
    and "\<And>a. a \<in> set (dict_values (rebalanceActionStore s)) \<Longrightarrow>
      g a = a \<or> te_status a \<noteq> ActionComplete \<and> te_status (g a) \<noteq> ActionComplete"
  shows "getCompletedAmountForIntent t i = getCompletedAmountForIntent s i"
proof -
  let ?h = "\<lambda>a :: RebalanceAction. if counts_for i a then te_amount a else 0"
  have hc: "?h (core a) = ?h a" for a by (simp cong: if_cong)
  have hg: "?h (core (g a)) = ?h a" if "a \<in> set (dict_values (rebalanceActionStore s))" for a
    by (rule disjE [OF assms(2) [OF that]]) (simp_all cong: if_cong)
  have "map ?h (dict_values (rebalanceActionStore t)) = map ?h (dict_values (map_store core (rebalanceActionStore t)))"
    unfolding values_map_store map_map comp_def hc ..
  also have "\<dots> = map ?h (dict_values (rebalanceActionStore s))"
    unfolding assms(1) values_map_store map_map comp_def by (rule map_cong [OF refl]) (rule hg, force)
  finally show ?thesis by (simp only: getCompletedAmount_eq)
qed

section \<open>Expiring an intent\<close>

definition failActions :: "string set \<Rightarrow> RebalanceAction \<Rightarrow> RebalanceAction" where
  "failActions ids a = (if te_id a \<in> ids then a\<lparr>te_status := ActionFailed\<rparr> else a)"

lemma failActions_core: "core (failActions A a) = failActions A (core a)"
  by (simp add: failActions_def)

lemma failActions_un: "failActions A (failActions B a) = failActions (A \<union> B) a"
  by (simp add: failActions_def)

lemma failActions_id [simp]: "te_id (failActions A a) = te_id a"
  by (simp add: failActions_def)

lemma fail_loop:
  assumes "store_wf (rebalanceActionStore t)"
    and "\<And>a. a \<in> set as \<Longrightarrow> te_id a \<in> set (dict_keys (rebalanceActionStore t))"
  shows "\<exists>t'. op_for as (\<lambda>a. op_when (P a) (updateAction E (te_id a) (\<lambda>x. x\<lparr>te_status := ActionFailed\<rparr>))) t
      = (ret (), t') \<and> rebalanceIntentStore t' = rebalanceIntentStore t \<and> transferStore t' = transferStore t
    \<and> uuids t' = uuids t \<and> store_wf (rebalanceActionStore t')
    \<and> map_store core (rebalanceActionStore t')
      = map_store (\<lambda>a. core (failActions (te_id ` {a \<in> set as. P a}) a)) (rebalanceActionStore t)"
  using assms
proof (induction as arbitrary: t)
  case Nil
  then show ?case by (simp add: op_simps failActions_def)
next
  case (Cons a as)
  let ?upd = "\<lambda>a. updateAction E (te_id a) (\<lambda>x. x\<lparr>te_status := ActionFailed\<rparr>)"
  obtain t1 where t1: "op_when (P a) (?upd a) t = (ret (), t1)"
      "rebalanceIntentStore t1 = rebalanceIntentStore t" "transferStore t1 = transferStore t" "uuids t1 = uuids t"
      "store_wf (rebalanceActionStore t1)" "dict_keys (rebalanceActionStore t1) = dict_keys (rebalanceActionStore t)"
      "map_store core (rebalanceActionStore t1)
        = map_store (\<lambda>x. core (failActions (te_id ` {x. x = a \<and> P a}) x)) (rebalanceActionStore t)"
  proof (cases "P a")
    case True
    let ?g = "\<lambda>e. if te_id e = te_id a then e\<lparr>te_status := ActionFailed, te_updatedAt := clock E (ticks t)\<rparr> else e"
    have "store_wf (map_store ?g (rebalanceActionStore t))" using Cons.prems(1) by (rule store_wf_map_store) simp
    then show ?thesis
      using that updateAction_run [OF Cons.prems(1), of "te_id a" E "\<lambda>x. x\<lparr>te_status := ActionFailed\<rparr>"] Cons.prems(2) [of a] True
      by (simp add: op_simps failActions_def if_distrib [of core] cong: if_cong)
  next
    case False
    then show ?thesis using that [of t] Cons.prems(1) by (simp add: op_simps failActions_def)
  qed
  from Cons.IH [OF t1(5)] Cons.prems(2) t1(6) obtain t2 where
    t2: "op_for as (\<lambda>a. op_when (P a) (?upd a)) t1 = (ret (), t2)"
      "rebalanceIntentStore t2 = rebalanceIntentStore t1" "transferStore t2 = transferStore t1" "uuids t2 = uuids t1"
      "store_wf (rebalanceActionStore t2)"
      "map_store core (rebalanceActionStore t2)
        = map_store (\<lambda>x. core (failActions (te_id ` {a \<in> set as. P a}) x)) (rebalanceActionStore t1)"
    by auto
  have "map_store (\<lambda>x. core (failActions (te_id ` {a \<in> set as. P a}) x)) (rebalanceActionStore t1)
      = map_store (failActions (te_id ` {a \<in> set as. P a})) (map_store core (rebalanceActionStore t1))"
    by (simp add: failActions_core)
  also have "\<dots> = map_store (\<lambda>x. core (failActions (te_id ` {x \<in> set (a # as). P x}) x)) (rebalanceActionStore t)"
  proof -
    have "te_id ` {a \<in> set as. P a} \<union> te_id ` {x. x = a \<and> P a} = te_id ` {x \<in> set (a # as). P x}" by auto
    then show ?thesis unfolding t1(7) by (simp add: failActions_core failActions_un)
  qed
  finally show ?case using t1 t2 by (simp add: op_simps)
qed

section \<open>The specification\<close>

definition expired :: "rat \<Rightarrow> int \<Rightarrow> RebalanceIntent \<Rightarrow> bool" where
  "expired ttl now x \<longleftrightarrow> of_int (now - te_createdAt x) > ttl"

definition synced_status :: "tracker \<Rightarrow> rat \<Rightarrow> int \<Rightarrow> RebalanceIntent \<Rightarrow> RebalanceIntentStatus" where
  "synced_status s ttl now x =
     (if te_status x \<noteq> IntentInProgress then te_status x
      else if te_amount x \<le> getCompletedAmountForIntent s (te_id x) then IntentComplete
      else if expired ttl now x then IntentFailed
      else IntentInProgress)"

definition synced_intent :: "tracker \<Rightarrow> rat \<Rightarrow> int \<Rightarrow> RebalanceIntent \<Rightarrow> RebalanceIntent" where
  "synced_intent s ttl now x = x\<lparr>te_status := synced_status s ttl now x\<rparr>"

text \<open>An action in progress fails with its intent.\<close>

definition synced_action :: "tracker \<Rightarrow> rat \<Rightarrow> int \<Rightarrow> RebalanceAction \<Rightarrow> RebalanceAction" where
  "synced_action s ttl now a =
     (if te_status a = ActionInProgress
        \<and> (\<exists>x. getRebalanceIntent s (ra_intentId a) = Some x \<and> te_status x = IntentInProgress
            \<and> synced_status s ttl now x = IntentFailed)
      then a\<lparr>te_status := ActionFailed\<rparr> else a)"

definition failing_actions ::
    "tracker \<Rightarrow> rat \<Rightarrow> int \<Rightarrow> RebalanceIntent list \<Rightarrow> string set" where
  "failing_actions s ttl now xs = te_id ` {a \<in> set (getInProgressActions s).
     \<exists>x \<in> set xs. ra_intentId a = te_id x \<and> synced_status s ttl now x = IntentFailed}"

definition sync_inv :: "tracker \<Rightarrow> rat \<Rightarrow> int \<Rightarrow> RebalanceIntent list \<Rightarrow> tracker \<Rightarrow> bool" where
  "sync_inv s ttl now ys t \<longleftrightarrow>
     tracker_wf t \<and> transferStore t = transferStore s \<and> uuids t = uuids s
   \<and> map_store core (rebalanceIntentStore t)
      = map_store (\<lambda>x. core (if te_id x \<in> te_id ` set ys then synced_intent s ttl now x else x)) (rebalanceIntentStore s)
   \<and> map_store core (rebalanceActionStore t)
      = map_store (\<lambda>a. core (failActions (failing_actions s ttl now ys) a)) (rebalanceActionStore s)"

lemma keys_core_eq: "map_store core st = map_store f st' \<Longrightarrow> dict_keys st = dict_keys st'"
  by (metis keys_map_store)

lemma in_progress_unique:
  assumes "tracker_wf s" "a \<in> set (dict_values (rebalanceActionStore s))" "te_id a \<in> failing_actions s ttl now ys"
  shows "te_status a = ActionInProgress"
    and "\<exists>x \<in> set ys. ra_intentId a = te_id x \<and> synced_status s ttl now x = IntentFailed"
proof -
  from assms(3) obtain b where ab: "te_id a = te_id b" and m: "b \<in> {a \<in> set (getInProgressActions s).
      \<exists>x \<in> set ys. ra_intentId a = te_id x \<and> synced_status s ttl now x = IntentFailed}"
    unfolding failing_actions_def by (rule imageE)
  have b: "b \<in> set (getInProgressActions s)" "te_id b = te_id a"
    "\<exists>x \<in> set ys. ra_intentId b = te_id x \<and> synced_status s ttl now x = IntentFailed" using m ab [symmetric] by blast+
  have "b \<in> set (dict_values (rebalanceActionStore s))" "te_status b = ActionInProgress"
    using b(1) by (simp_all add: getInProgressActions_def store_getByStatus_def del: set_map)
  moreover from this have "a = b"
    using store_unique [OF tracker_wf_sel(3) [OF assms(1)] assms(2) _ ab] by blast
  ultimately show "te_status a = ActionInProgress"
    "\<exists>x \<in> set ys. ra_intentId a = te_id x \<and> synced_status s ttl now x = IntentFailed" using b(3) by simp_all
qed

lemma sync_inv_completed:
  assumes "tracker_wf s" "sync_inv s ttl now ys t"
  shows "getCompletedAmountForIntent t i = getCompletedAmountForIntent s i"
proof (rule getCompletedAmount_cong)
  show "map_store core (rebalanceActionStore t)
      = map_store (\<lambda>a. core (failActions (failing_actions s ttl now ys) a)) (rebalanceActionStore s)"
    using assms(2) by (simp add: sync_inv_def)
  show "failActions (failing_actions s ttl now ys) a = a \<or> te_status a \<noteq> ActionComplete
      \<and> te_status (failActions (failing_actions s ttl now ys) a) \<noteq> ActionComplete"
    if "a \<in> set (dict_values (rebalanceActionStore s))" for a
    using in_progress_unique(1) [OF assms(1) that] by (auto simp: failActions_def)
qed

text \<open>One intent's status written.\<close>

lemma sync_inv_intents:
  assumes wf: "tracker_wf s" and x: "x \<in> set (dict_values (rebalanceIntentStore s))" "te_id x \<notin> te_id ` set ys"
    and inv: "map_store core st = map_store (\<lambda>x. core (if te_id x \<in> te_id ` set ys then synced_intent s ttl now x else x))
      (rebalanceIntentStore s)"
    and st': "map_store core st' = map_store (\<lambda>e. core (if te_id e = te_id x then e\<lparr>te_status := synced_status s ttl now x\<rparr> else e)) st"
  shows "map_store core st' = map_store (\<lambda>e. core (if te_id e \<in> te_id ` set (ys @ [x]) then synced_intent s ttl now e else e))
      (rebalanceIntentStore s)"
proof -
  let ?h = "\<lambda>e. if te_id e = te_id x then e\<lparr>te_status := synced_status s ttl now x\<rparr> else e"
  have "map_store core st' = map_store ?h (map_store core st)" unfolding st'
    by (simp add: if_distrib [of core] cong: if_cong)
  also have "\<dots> = map_store (\<lambda>e. core (if te_id e \<in> te_id ` set (ys @ [x]) then synced_intent s ttl now e else e))
      (rebalanceIntentStore s)"
    unfolding inv map_store_comp
  proof (rule map_store_cong)
    fix e assume e: "e \<in> set (dict_values (rebalanceIntentStore s))"
    have "e = x" if "te_id e = te_id x"
      by (rule store_unique [OF tracker_wf_sel(2) [OF wf] e x(1) that])
    then show "?h (core (if te_id e \<in> te_id ` set ys then synced_intent s ttl now e else e))
        = core (if te_id e \<in> te_id ` set (ys @ [x]) then synced_intent s ttl now e else e)"
      using x(2) by (auto simp: synced_intent_def)
  qed
  finally show ?thesis .
qed

section \<open>The loop over the intents\<close>

lemma failing_actions_append:
  "failing_actions s ttl now (ys @ [x]) = failing_actions s ttl now ys \<union>
     (if synced_status s ttl now x = IntentFailed
      then te_id ` {a \<in> set (getInProgressActions s). ra_intentId a = te_id x} else {})"
  by (auto simp: failing_actions_def)

lemma sync_inv_skip:
  assumes wf: "tracker_wf s" and x: "x \<in> set (dict_values (rebalanceIntentStore s))" "te_id x \<notin> te_id ` set ys"
    and inv: "sync_inv s ttl now ys t" and v: "synced_status s ttl now x = te_status x" "te_status x = IntentInProgress"
  shows "sync_inv s ttl now (ys @ [x]) t"
proof -
  have e: "e = x" if "e \<in> set (dict_values (rebalanceIntentStore s))" "te_id e = te_id x" for e
    by (rule store_unique [OF tracker_wf_sel(2) [OF wf] that(1) x(1) that(2)])
  have si: "synced_intent s ttl now x = x" using v(1) by (simp add: synced_intent_def)
  have "map_store (\<lambda>e. core (if te_id e \<in> te_id ` set (ys @ [x]) then synced_intent s ttl now e else e)) (rebalanceIntentStore s)
      = map_store (\<lambda>e. core (if te_id e \<in> te_id ` set ys then synced_intent s ttl now e else e)) (rebalanceIntentStore s)"
  proof (rule map_store_cong)
    fix y assume "y \<in> set (dict_values (rebalanceIntentStore s))"
    then have "te_id y = te_id x \<Longrightarrow> y = x" by (rule e)
    then show "core (if te_id y \<in> te_id ` set (ys @ [x]) then synced_intent s ttl now y else y)
        = core (if te_id y \<in> te_id ` set ys then synced_intent s ttl now y else y)"
      using si by (cases "te_id y = te_id x") auto
  qed
  then show ?thesis using inv v unfolding sync_inv_def failing_actions_append by simp
qed

lemma sync_inv_written:
  assumes wf: "tracker_wf s" and x: "x \<in> set (dict_values (rebalanceIntentStore s))" "te_id x \<notin> te_id ` set ys"
    and inv: "sync_inv s ttl now ys t"
  obtains t1 where "updateIntent E (te_id x) (\<lambda>e. e\<lparr>te_status := synced_status s ttl now x\<rparr>) t = (ret (), t1)"
    and "tracker_wf t1" "transferStore t1 = transferStore s" "uuids t1 = uuids s"
      "rebalanceActionStore t1 = rebalanceActionStore t"
    and "map_store core (rebalanceIntentStore t1) = map_store (\<lambda>e. core (if te_id e \<in> te_id ` set (ys @ [x])
      then synced_intent s ttl now e else e)) (rebalanceIntentStore s)"
proof -
  let ?f = "\<lambda>e. e\<lparr>te_status := synced_status s ttl now x\<rparr>"
  have wft: "tracker_wf t" and eq: "map_store core (rebalanceIntentStore t) = map_store (\<lambda>x. core
      (if te_id x \<in> te_id ` set ys then synced_intent s ttl now x else x)) (rebalanceIntentStore s)"
    using inv by (simp_all add: sync_inv_def)
  have "te_id x \<in> set (dict_keys (rebalanceIntentStore s))"
    using x(1) store_ids [OF tracker_wf_sel(2) [OF wf]] by (metis image_eqI set_map)
  then have ex: "getRebalanceIntent t (te_id x) \<noteq> None"
    using keys_core_eq [OF eq] by (simp add: getRebalanceIntent_def store_get_None_iff del: set_map)
  note run = updateIntent_run [OF wft ex, of E ?f]
  define t1 where "t1 = snd (updateIntent E (te_id x) ?f t)"
  have u: "updateIntent E (te_id x) ?f t = (ret (), t1)" by (simp add: t1_def run)
  have w: "tracker_wf t1" by (rule wf_updateIntent [THEN keepsD, OF _ wft u]) simp
  have i: "map_store core (rebalanceIntentStore t1)
      = map_store (\<lambda>e. core (if te_id e = te_id x then ?f e else e)) (rebalanceIntentStore t)"
    by (simp add: t1_def run if_distrib [of core] cong: if_cong)
  show ?thesis
  proof (rule that [OF u w _ _ _ sync_inv_intents [OF wf x eq i]])
    show "transferStore t1 = transferStore s" "uuids t1 = uuids s" "rebalanceActionStore t1 = rebalanceActionStore t"
      using inv by (simp_all add: t1_def run sync_inv_def)
  qed
qed

lemma syncIntent_step:
  assumes wf: "tracker_wf s" and x: "x \<in> set (getActiveRebalanceIntents s)" "te_id x \<notin> te_id ` set ys"
    and inv: "sync_inv s ttl now ys t"
  shows "\<exists>t'. syncIntent E ttl now (getInProgressActions s) x t = (ret (), t') \<and> sync_inv s ttl now (ys @ [x]) t'"
proof -
  have mem: "x \<in> set (dict_values (rebalanceIntentStore s))" and st: "te_status x = IntentInProgress"
    using x(1) by (simp_all add: getActiveRebalanceIntents_def store_getByStatus_def del: set_map)
  have c: "getCompletedAmountForIntent t (te_id x) = getCompletedAmountForIntent s (te_id x)"
    by (rule sync_inv_completed [OF wf inv])
  let ?v = "synced_status s ttl now x"
  obtain t1 where t1: "updateIntent E (te_id x) (\<lambda>e. e\<lparr>te_status := ?v\<rparr>) t = (ret (), t1)"
    "tracker_wf t1" "transferStore t1 = transferStore s" "uuids t1 = uuids s"
    "rebalanceActionStore t1 = rebalanceActionStore t"
    "map_store core (rebalanceIntentStore t1) = map_store (\<lambda>e. core (if te_id e \<in> te_id ` set (ys @ [x])
      then synced_intent s ttl now e else e)) (rebalanceIntentStore s)"
    by (rule sync_inv_written [OF wf mem x(2) inv])
  have acts: "map_store core (rebalanceActionStore t)
      = map_store (\<lambda>a. core (failActions (failing_actions s ttl now ys) a)) (rebalanceActionStore s)"
    using inv by (simp add: sync_inv_def)
  have "?v = IntentInProgress \<or> ?v = IntentComplete \<or> ?v = IntentFailed"
    using st by (simp add: synced_status_def)
  then consider "?v = IntentInProgress" | "?v = IntentComplete" | "?v = IntentFailed" by blast
  then show ?thesis
  proof cases
    case 1
    then have "syncIntent E ttl now (getInProgressActions s) x t = (ret (), t)"
      using st c by (auto simp: syncIntent_def op_simps synced_status_def expired_def split: if_splits)
    then show ?thesis using sync_inv_skip [OF wf mem x(2) inv] 1 st by auto
  next
    case 2
    then have "syncIntent E ttl now (getInProgressActions s) x t = (ret (), t1)"
      using st c t1(1) by (auto simp: syncIntent_def op_simps synced_status_def split: if_splits)
    moreover have "sync_inv s ttl now (ys @ [x]) t1"
      using t1 acts 2 unfolding sync_inv_def failing_actions_append by simp
    ultimately show ?thesis by blast
  next
    case 3
    have keys: "te_id a \<in> set (dict_keys (rebalanceActionStore t1))" if "a \<in> set (getInProgressActions s)" for a
    proof -
      have "a \<in> set (dict_values (rebalanceActionStore s))"
        using that by (simp add: getInProgressActions_def store_getByStatus_def del: set_map)
      then have "te_id a \<in> set (dict_keys (rebalanceActionStore s))"
        using store_ids [OF tracker_wf_sel(3) [OF wf]] by (metis image_eqI set_map)
      then show ?thesis using keys_core_eq [OF acts] t1(5) by simp
    qed
    from fail_loop [OF tracker_wf_sel(3) [OF t1(2)] keys, of "getInProgressActions s" "\<lambda>a. ra_intentId a = te_id x" E]
    obtain t2 where t2: "op_for (getInProgressActions s) (\<lambda>a. op_when (ra_intentId a = te_id x)
        (updateAction E (te_id a) (\<lambda>x. x\<lparr>te_status := ActionFailed\<rparr>))) t1 = (ret (), t2)"
      "rebalanceIntentStore t2 = rebalanceIntentStore t1" "transferStore t2 = transferStore t1" "uuids t2 = uuids t1"
      "store_wf (rebalanceActionStore t2)"
      "map_store core (rebalanceActionStore t2) = map_store (\<lambda>a. core (failActions (te_id `
        {a \<in> set (getInProgressActions s). ra_intentId a = te_id x}) a)) (rebalanceActionStore t1)" by blast
    have run: "syncIntent E ttl now (getInProgressActions s) x t = (ret (), t2)"
      using st c t1(1) t2(1) 3
      by (auto simp: syncIntent_def expireIntent_def op_simps synced_status_def expired_def split: if_splits)
    let ?A = "te_id ` {a \<in> set (getInProgressActions s). ra_intentId a = te_id x}"
    have "map_store (\<lambda>a. core (failActions ?A a)) (rebalanceActionStore t)
        = map_store (failActions ?A) (map_store core (rebalanceActionStore t))" by (simp add: failActions_core)
    also have "\<dots> = map_store (\<lambda>a. core (failActions (failing_actions s ttl now (ys @ [x])) a)) (rebalanceActionStore s)"
      unfolding acts failing_actions_append by (simp add: failActions_core failActions_un 3 Un_commute)
    finally have "sync_inv s ttl now (ys @ [x]) t2"
      using t1 t2 unfolding sync_inv_def tracker_wf_def by simp
    then show ?thesis using run by blast
  qed
qed

lemma active_ids:
  assumes wf: "tracker_wf s" and x: "x \<in> set (dict_values (rebalanceIntentStore s))"
  shows "te_id x \<in> te_id ` set (getActiveRebalanceIntents s) \<longleftrightarrow> te_status x = IntentInProgress"
proof
  assume "te_id x \<in> te_id ` set (getActiveRebalanceIntents s)"
  then obtain y where y: "te_id x = te_id y" "y \<in> set (getActiveRebalanceIntents s)" by (rule imageE)
  then have "y \<in> set (dict_values (rebalanceIntentStore s))" "te_status y = IntentInProgress"
    by (simp_all add: getActiveRebalanceIntents_def store_getByStatus_def del: set_map)
  then show "te_status x = IntentInProgress"
    using store_unique [OF tracker_wf_sel(2) [OF wf] x _ y(1)] by blast
next
  assume "te_status x = IntentInProgress"
  then have "x \<in> set (getActiveRebalanceIntents s)"
    using x by (simp add: getActiveRebalanceIntents_def store_getByStatus_def del: set_map)
  then show "te_id x \<in> te_id ` set (getActiveRebalanceIntents s)" by (rule imageI)
qed

lemma synced_action_eq:
  assumes wf: "tracker_wf s" and a: "a \<in> set (dict_values (rebalanceActionStore s))"
  shows "failActions (failing_actions s ttl now (getActiveRebalanceIntents s)) a = synced_action s ttl now a"
proof -
  have "te_id a \<in> failing_actions s ttl now (getActiveRebalanceIntents s) \<longleftrightarrow>
      te_status a = ActionInProgress \<and> (\<exists>x. getRebalanceIntent s (ra_intentId a) = Some x
        \<and> te_status x = IntentInProgress \<and> synced_status s ttl now x = IntentFailed)" (is "?L \<longleftrightarrow> ?R")
  proof
    assume L: ?L
    from in_progress_unique(2) [OF wf a L] obtain x where x: "x \<in> set (getActiveRebalanceIntents s)"
        "ra_intentId a = te_id x" "synced_status s ttl now x = IntentFailed" by blast
    then have m: "x \<in> set (dict_values (rebalanceIntentStore s))" "te_status x = IntentInProgress"
      by (simp_all add: getActiveRebalanceIntents_def store_getByStatus_def del: set_map)
    have "getRebalanceIntent s (te_id x) = Some x"
      using store_get_member [OF tracker_wf_sel(2) [OF wf], THEN iffD1, OF m(1)] by (simp add: getRebalanceIntent_def)
    then show ?R using in_progress_unique(1) [OF wf a L] x m(2) by auto
  next
    assume R: ?R
    then obtain x where x: "getRebalanceIntent s (ra_intentId a) = Some x" "te_status x = IntentInProgress"
        "synced_status s ttl now x = IntentFailed" by blast
    have id: "te_id x = ra_intentId a" by (rule getRebalanceIntent_wf [OF wf x(1)])
    have "x \<in> set (dict_values (rebalanceIntentStore s))"
      using store_get_member [OF tracker_wf_sel(2) [OF wf], THEN iffD2, of x] x(1) id by (simp add: getRebalanceIntent_def)
    then have "x \<in> set (getActiveRebalanceIntents s)"
      using x(2) by (simp add: getActiveRebalanceIntents_def store_getByStatus_def del: set_map)
    moreover have "a \<in> set (getInProgressActions s)"
      using R a by (simp add: getInProgressActions_def store_getByStatus_def del: set_map)
    ultimately show ?L using x(3) id [symmetric] unfolding failing_actions_def by (intro imageI) blast
  qed
  then show ?thesis by (simp only: failActions_def synced_action_def)
qed

lemma syncRebalanceIntents_run:
  assumes wf: "tracker_wf s" and ttl: "ttl = at_intentTTL cfg" and now: "now = clock E (ticks s)"
  shows "\<exists>s'. syncRebalanceIntents E cfg s = (ret (), s') \<and> tracker_wf s' \<and> transferStore s' = transferStore s \<and> uuids s' = uuids s
    \<and> map_store core (rebalanceIntentStore s') = map_store (\<lambda>x. core (synced_intent s ttl now x)) (rebalanceIntentStore s)
    \<and> map_store core (rebalanceActionStore s') = map_store (\<lambda>a. core (synced_action s ttl now a)) (rebalanceActionStore s)"
proof -
  let ?xs = "getActiveRebalanceIntents s" and ?t = "s\<lparr>ticks := Suc (ticks s)\<rparr>"
  have dist: "distinct (map te_id ?xs)"
    using InMemoryStore.all_distinct [OF tracker_wf_sel(2) [OF wf]]
    unfolding getActiveRebalanceIntents_def store_getByStatus_def store_getAll_def by (rule distinct_map_filter)
  have "\<exists>s'. op_for ?xs (syncIntent E ttl now (getInProgressActions s)) ?t = (ret (), s') \<and> sync_inv s ttl now ?xs s'"
  proof (rule op_for_returns)
    show "sync_inv s ttl now [] ?t"
      using wf by (simp add: sync_inv_def tracker_wf_def failing_actions_def failActions_def)
    show "\<exists>t'. syncIntent E ttl now (getInProgressActions s) x t = (ret (), t') \<and> sync_inv s ttl now (ys @ [x]) t'"
      if "?xs = ys @ x # zs" "sync_inv s ttl now ys t" for ys x zs t
      using syncIntent_step [OF wf _ _ that(2)] dist that(1) by simp
  qed
  then obtain s' where run: "op_for ?xs (syncIntent E ttl now (getInProgressActions s)) ?t = (ret (), s')"
      and inv: "sync_inv s ttl now ?xs s'" by blast
  have "map_store (\<lambda>x. core (if te_id x \<in> te_id ` set ?xs then synced_intent s ttl now x else x)) (rebalanceIntentStore s)
      = map_store (\<lambda>x. core (synced_intent s ttl now x)) (rebalanceIntentStore s)"
    by (rule map_store_cong) (simp only: active_ids [OF wf], simp add: synced_intent_def synced_status_def)
  moreover have "map_store (\<lambda>a. core (failActions (failing_actions s ttl now ?xs) a)) (rebalanceActionStore s)
      = map_store (\<lambda>a. core (synced_action s ttl now a)) (rebalanceActionStore s)"
    by (rule map_store_cong) (simp only: synced_action_eq [OF wf])
  moreover have "syncRebalanceIntents E cfg s = (ret (), s')"
    using run by (simp add: syncRebalanceIntents_def op_simps dateNow_def ttl now)
  ultimately show ?thesis using inv unfolding sync_inv_def by simp
qed

text \<open>
  C32. Synchronizing intents never fails and does exactly this, with the one clock reading \<open>now\<close>: an
  intent in progress becomes complete when its completed deposits and rebalance messages reach its
  amount, else failed when it is older than the configured time to live, else stays; every other
  intent stays. An action in progress fails exactly when its intent was in progress and failed so.
  Transfers are untouched. Only times of update may differ besides.
\<close>

theorem syncRebalanceIntents_spec:
  assumes "tracker_wf s" "ttl = at_intentTTL cfg" "now = clock E (ticks s)"
  shows "\<exists>s'. syncRebalanceIntents E cfg s = (ret (), s') \<and> tracker_wf s' \<and> transferStore s' = transferStore s
    \<and> map_store core (rebalanceIntentStore s') = map_store (\<lambda>x. core (synced_intent s ttl now x)) (rebalanceIntentStore s)
    \<and> map_store core (rebalanceActionStore s') = map_store (\<lambda>a. core (synced_action s ttl now a)) (rebalanceActionStore s)"
  using syncRebalanceIntents_run [OF assms] by blast

lemma ex_state_wf: "tracker_wf ex_state"
  using ex_state_stores by (simp add: tracker_wf_def)

lemma ex_synced:
  "core (synced_intent ex_state 500 1000 (ex_intent ''i1'' 900)) = ex_intent ''i1'' 900"
  "core (synced_intent ex_state 500 1000 (ex_intent ''i2'' 100)) = (ex_intent ''i2'' 100)\<lparr>te_status := IntentFailed\<rparr>"
  "te_status (synced_action ex_state 500 1000 (ex_action ''a3'' ''i2'' ActionInProgress 70)) = ActionFailed"
  "te_status (synced_action ex_state 500 1000 (ex_action ''a2'' ''i1'' ActionInProgress 40)) = ActionInProgress"
  by (simp_all add: synced_intent_def synced_action_def synced_status_def ex_completed ex_lookups)
    (auto simp: ex_intent_def ex_action_def core_def ex_lookups ex_completed expired_def)

theorem syncRebalanceIntents_spec_witness:
  "tracker_wf ex_state \<and> (\<exists>s'. syncRebalanceIntents ex_env ex_cfg ex_state = (ret (), s')
     \<and> map_store core (rebalanceIntentStore s')
       = [(''i1'', ex_intent ''i1'' 900), (''i2'', (ex_intent ''i2'' 100)\<lparr>te_status := IntentFailed\<rparr>)])"
proof -
  have "at_intentTTL ex_cfg = 500" "clock ex_env (ticks ex_state) = 1000" by (simp_all add: ex_cfg_def ex_env_def ex_state_def)
  moreover have "map_store (\<lambda>x. core (synced_intent ex_state 500 1000 x)) (rebalanceIntentStore ex_state)
      = [(''i1'', ex_intent ''i1'' 900), (''i2'', (ex_intent ''i2'' 100)\<lparr>te_status := IntentFailed\<rparr>)]"
    unfolding map_store_def by (subst (2) ex_state_def) (simp add: ex_synced)
  ultimately show ?thesis
    using syncRebalanceIntents_spec [OF ex_state_wf refl refl, of ex_env ex_cfg] ex_state_wf by auto
qed

section \<open>Intents only advance\<close>

lemma core_eqD: "core y = core z \<Longrightarrow> y = z\<lparr>te_updatedAt := te_updatedAt y\<rparr>"
  by (cases y; cases z) (simp add: core_def)

lemma synced_advances: "core y = core (synced_intent s ttl now x) \<Longrightarrow> intent_advances x y"
proof -
  assume "core y = core (synced_intent s ttl now x)"
  then have "y = (synced_intent s ttl now x)\<lparr>te_updatedAt := te_updatedAt y\<rparr>" by (rule core_eqD)
  then have y: "y = x\<lparr>te_status := synced_status s ttl now x, te_updatedAt := te_updatedAt y\<rparr>"
    by (simp add: synced_intent_def)
  then have st: "te_status y = synced_status s ttl now x" by (metis TrackedActionBase.select_convs(2)
      TrackedActionBase.surjective TrackedActionBase.update_convs(2,7))
  have "intent_le (te_status x) (te_status y)" by (auto simp: st synced_status_def intent_le_def)
  moreover have "y = x\<lparr>te_status := te_status y, te_updatedAt := te_updatedAt y\<rparr>" using y st by simp
  ultimately show ?thesis by (simp add: intent_advances_def)
qed

lemma intents_advance_trans: "intents_advance s t \<Longrightarrow> intents_advance t u \<Longrightarrow> intents_advance s u"
  unfolding intents_advance_def by (meson intent_advances_trans)

lemma advanced_from_trans:
  assumes "advanced_from U s0 s" "intents_advance s s'"
    and "\<And>i. getRebalanceIntent s i = None \<Longrightarrow> getRebalanceIntent s' i = None"
    and "uuids s' = uuids s" "tracker_wf s'"
  shows "advanced_from U s0 s'"
proof -
  have "uuids_fresh U s'" using assms(1,3,4) by (auto simp: advanced_from_def uuids_fresh_def)
  then show ?thesis using intents_advance_trans assms(1,2,5) by (auto simp: advanced_from_def)
qed

lemma advanced_syncRebalanceIntents [keeps]: "keeps (advanced_from (uuidv4 E) s0) (syncRebalanceIntents E cfg)"
  unfolding keeps_def
proof (intro allI impI)
  fix s assume P: "advanced_from (uuidv4 E) s0 s"
  then have "tracker_wf s" by (simp add: advanced_from_def)
  from syncRebalanceIntents_run [OF this refl refl, of E cfg] obtain s' where
    s': "syncRebalanceIntents E cfg s = (ret (), s')" "tracker_wf s'" "uuids s' = uuids s"
      and m: "map_store core (rebalanceIntentStore s')
        = map_store (\<lambda>x. core (synced_intent s (at_intentTTL cfg) (clock E (ticks s)) x)) (rebalanceIntentStore s)" by blast
  have l: "map_option core (getRebalanceIntent s' i)
      = map_option (\<lambda>x. core (synced_intent s (at_intentTTL cfg) (clock E (ticks s)) x)) (getRebalanceIntent s i)" for i
    using arg_cong [OF m, of "\<lambda>st. store_get st i"] by (simp add: getRebalanceIntent_def)
  have "intents_advance s s'"
    unfolding intents_advance_def
  proof (intro allI impI)
    fix i x assume x: "getRebalanceIntent s i = Some x"
    then obtain y where "getRebalanceIntent s' i = Some y"
        "core y = core (synced_intent s (at_intentTTL cfg) (clock E (ticks s)) x)" using l [of i] by auto
    then show "\<exists>y. getRebalanceIntent s' i = Some y \<and> intent_advances x y" using synced_advances by blast
  qed
  moreover have "getRebalanceIntent s' i = None" if "getRebalanceIntent s i = None" for i using l [of i] that by simp
  ultimately have "advanced_from (uuidv4 E) s0 s'" using advanced_from_trans [OF P _ _ s'(3,2)] by blast
  then show "advanced_from (uuidv4 E) s0 (snd (syncRebalanceIntents E cfg s))" using s'(1) by simp
qed

lemma advanced_startIntent [keeps]: "keeps (advanced_from (uuidv4 E) s0) (startIntent E i)"
  unfolding keeps_def
proof (intro allI impI)
  fix s assume P: "advanced_from (uuidv4 E) s0 s"
  then have wf: "tracker_wf s" by (simp add: advanced_from_def)
  show "advanced_from (uuidv4 E) s0 (snd (startIntent E i s))"
  proof (cases "getRebalanceIntent s i")
    case (Some x)
    have id: "te_id x = i" by (rule getRebalanceIntent_wf [OF wf Some])
    obtain r s' where u: "updateIntent E i (\<lambda>y. y\<lparr>te_status := IntentInProgress\<rparr>) s = (r, s')" by fastforce
    show ?thesis
    proof (cases "te_status x = IntentNotStarted")
      case True
      then have "advanced_from (uuidv4 E) s0 s'" by (intro advanced_updateIntent [OF P Some _ u]) (simp add: intent_le_def)
      then show ?thesis using Some True id u by (simp add: startIntent_def op_simps)
    qed (use Some P in \<open>simp add: startIntent_def op_simps\<close>)
  qed (use P in \<open>simp add: startIntent_def op_simps\<close>)
qed

text \<open>A recovered action brings a new intent under a fresh uuid.\<close>

lemma saveIntent_fresh:
  assumes P: "advanced_from (uuidv4 E) s0 s" and u: "uuids s = Suc n" "getRebalanceIntent s (uuidv4 E n) = None"
    and i: "te_id x = uuidv4 E n" and "saveIntent x s = (r, s')"
  shows "advanced_from (uuidv4 E) s0 s'"
proof -
  have s': "s' = s\<lparr>rebalanceIntentStore := store_save x (rebalanceIntentStore s)\<rparr>"
    using assms(5) by (simp add: saveIntent_def op_simps)
  have wf: "tracker_wf s" "tracker_wf s'"
    using P wf_basic(4) [THEN keepsD, OF _ assms(5)] by (simp_all add: advanced_from_def)
  have l: "getRebalanceIntent s' j = (if j = te_id x then Some x else getRebalanceIntent s j)" for j
    using InMemoryStore.save_lookup [OF tracker_wf_sel(2) [OF wf(1)]] by (simp add: s' getRebalanceIntent_def)
  have adv: "intents_advance s0 s'" using P u(2) i unfolding advanced_from_def intents_advance_def l
    by (metis option.distinct(1))
  have "uuidv4 E m \<noteq> te_id x" if "Suc n \<le> m" for m
    using P that i by (auto simp: advanced_from_def uuids_fresh_def inj_eq)
  moreover have "uuids s' = Suc n" using u(1) by (simp add: s')
  ultimately have "uuids_fresh (uuidv4 E) s'" using P u(1) by (auto simp: advanced_from_def uuids_fresh_def l)
  then show ?thesis using wf(2) adv by (simp add: advanced_from_def)
qed

lemma recoverAction_run:
  assumes "getRebalanceAction s (msg_id m) = None" "parseWarpRouteMessage (message_body m) = ret p"
    and "recoveredCreatedAt E m s = (ret c, s1)"
  shows "recoverAction E m s = (ret (),
     let i = uuidv4 E (uuids s1); c2 = clock E (ticks s1); c3 = clock E (Suc (ticks s1));
         s2 = s1\<lparr>uuids := Suc (uuids s1), ticks := Suc (ticks s1)\<rparr>;
         s3 = snd (saveIntent (recoveredIntent m i (pw_amount p) c c2) s2)
     in snd (saveAction (recoveredAction m i (pw_amount p) c c3) (s3\<lparr>ticks := Suc (Suc (ticks s1))\<rparr>)))"
  using assms
  by (simp add: recoverAction_def op_simps newUuid_def dateNow_def saveIntent_def saveAction_def Let_def)

lemma recoveredCreatedAt_keeps:
  assumes "recoveredCreatedAt E m s = (r, s1)"
  shows "s1 = s \<or> s1 = s\<lparr>ticks := Suc (ticks s)\<rparr>"
  using assms by (auto simp: recoveredCreatedAt_def dateNow_def op_simps split: option.splits if_splits)

lemma recoverAction_skip:
  assumes "getRebalanceAction s (msg_id m) \<noteq> None \<or> (\<exists>e. parseWarpRouteMessage (message_body m) = throw e)
    \<or> (\<exists>e. fst (recoveredCreatedAt E m s) = throw e)"
  shows "recoverAction E m s = (ret (), s)"
  using assms
  by (cases "getRebalanceAction s (msg_id m)"; cases "parseWarpRouteMessage (message_body m)")
    (auto simp: recoverAction_def recoveredCreatedAt_def dateNow_def op_simps split: option.splits if_splits)

lemma advanced_recoverAction [keeps]: "keeps (advanced_from (uuidv4 E) s0) (recoverAction E m)"
  unfolding keeps_def
proof (intro allI impI)
  fix s assume P: "advanced_from (uuidv4 E) s0 s"
  obtain r s1 where c: "recoveredCreatedAt E m s = (r, s1)" by fastforce
  show "advanced_from (uuidv4 E) s0 (snd (recoverAction E m s))"
  proof (cases "getRebalanceAction s (msg_id m) \<noteq> None \<or> (\<exists>e. parseWarpRouteMessage (message_body m) = throw e)
      \<or> (\<exists>e. r = throw e)")
    case True
    then show ?thesis using recoverAction_skip [of s m E] c P by auto
  next
    case False
    then obtain p t where ok: "getRebalanceAction s (msg_id m) = None" "parseWarpRouteMessage (message_body m) = ret p" "r = ret t"
      by (metis sum.exhaust_sel)
    let ?i = "uuidv4 E (uuids s1)"
    let ?s2 = "s1\<lparr>uuids := Suc (uuids s1), ticks := Suc (ticks s1)\<rparr>"
    let ?x = "recoveredIntent m ?i (pw_amount p) t (clock E (ticks s1))"
    have s1: "rebalanceIntentStore s1 = rebalanceIntentStore s" "rebalanceActionStore s1 = rebalanceActionStore s"
        "transferStore s1 = transferStore s" "uuids s1 = uuids s"
      using recoveredCreatedAt_keeps [OF c] by auto
    have P2: "advanced_from (uuidv4 E) s0 ?s2"
      using P by (rule advanced_from_cong [rotated 3]) (use P s1 in \<open>simp_all add: advanced_from_def tracker_wf_def\<close>)
    have new: "getRebalanceIntent ?s2 ?i = None"
      using P s1 by (simp add: advanced_from_def uuids_fresh_def getRebalanceIntent_def)
    obtain r3 s3 where s3: "saveIntent ?x ?s2 = (r3, s3)" by fastforce
    have P3: "advanced_from (uuidv4 E) s0 s3"
      by (rule saveIntent_fresh [OF P2 _ new _ s3]) (simp_all add: recoveredIntent_def)
    have "advanced_from (uuidv4 E) s0 (s3\<lparr>ticks := Suc (Suc (ticks s1))\<rparr>)"
      using P3 by (rule advanced_from_cong [rotated 3]) (use P3 in \<open>simp_all add: advanced_from_def tracker_wf_def\<close>)
    then have "advanced_from (uuidv4 E) s0 (snd (saveAction a (s3\<lparr>ticks := Suc (Suc (ticks s1))\<rparr>)))" for a
      using advanced_basic(4) [of "uuidv4 E" s0 a] by (simp add: keeps_def)
    then show ?thesis using recoverAction_run [OF ok(1,2), of E t s1] c ok(3) s3 by (simp add: Let_def)
  qed
qed

lemma advanced_ops [keeps]:
  "keeps (advanced_from (uuidv4 E) s0) (checkAndCompleteIntent E i)"
  "keeps (advanced_from (uuidv4 E) s0) (completeRebalanceAction E i)"
  "keeps (advanced_from (uuidv4 E) s0) (failRebalanceAction E i)"
  "keeps (advanced_from (uuidv4 E) s0) (createRebalanceAction E q)"
  "keeps (advanced_from (uuidv4 E) s0) (syncTransfers E cfg tags)"
  "keeps (advanced_from (uuidv4 E) s0) (syncRebalanceActions E cfg tags)"
  unfolding checkAndCompleteIntent_def completeRebalanceAction_def failRebalanceAction_def
    createRebalanceAction_def syncTransfers_def syncTransferMessage_def checkTransferDelivery_def
    syncRebalanceActions_def checkActionDelivery_def Let_def
  by (intro keeps; simp)+

lemma advanced_partialIntentStep [keeps]: "keeps (advanced_from (uuidv4 E) s0) (partialIntentStep E acc i)"
  unfolding partialIntentStep_def Let_def by (intro keeps)

lemma advanced_applyBridgeStatus [keeps]:
  "keeps (advanced_from (uuidv4 E) s0) (applyBridgeStatus E a counts status)"
  unfolding applyBridgeStatus_def by (cases status; simp only: BridgeTransferStatus.case; intro keeps; simp)

lemma advanced_syncMovementStep [keeps]:
  "keeps (advanced_from (uuidv4 E) s0) (syncMovementStep E reg counts a)"
  unfolding syncMovementStep_def
  by (cases "ra_txHash a"; cases "ra_externalBridgeId a"; simp only: prod.case option.case; intro keeps)

lemma advanced_inventory_ops [keeps]:
  "keeps (advanced_from (uuidv4 E) s0) (initialize E cfg)"
  "keeps (advanced_from (uuidv4 E) s0) (getPartiallyFulfilledInventoryIntents E)"
  "keeps (advanced_from (uuidv4 E) s0) (syncInventoryMovementActions E reg)"
  unfolding initialize_def getPartiallyFulfilledInventoryIntents_def syncInventoryMovementActions_def
  by (intro keeps)+

text \<open>
  C33. Following what happens on chain never loses or rewrites an intent. Over any sequence of
  synchronizations, recoveries and action updates, in environments that share a generator of fresh
  uuids, every intent is still there with its origin, destination, amount, bridge and age, and its
  status has only advanced: from not started to in progress or failed, from in progress to failed,
  and from anything to complete, which it never leaves.
\<close>

theorem observed_steps_advance_intents:
  assumes run: "(\<lambda>s s'. \<exists>E. uuidv4 E = U \<and> observed_step cfg E s s')\<^sup>*\<^sup>* s s'"
    and wf: "tracker_wf s" and fresh: "uuids_fresh U s"
    and x: "getRebalanceIntent s i = Some x"
  shows "\<exists>y. getRebalanceIntent s' i = Some y \<and> intent_le (te_status x) (te_status y)
    \<and> y = x\<lparr>te_status := te_status y, te_updatedAt := te_updatedAt y\<rparr>"
proof -
  from run have "advanced_from U s s'"
  proof (induction rule: rtranclp_induct)
    case base
    show ?case using wf fresh intent_advances_refl by (auto simp: advanced_from_def intents_advance_def)
  next
    case (step t u)
    then obtain E where E: "uuidv4 E = U" "observed_step cfg E t u" by blast
    have "advanced_from (uuidv4 E) s u"
      using E(2) step.IH [folded E(1)] by (rule observed_step_keeps) (intro keeps)+
    then show ?case by (simp only: E(1))
  qed
  then show ?thesis using x by (auto simp: advanced_from_def intents_advance_def intent_advances_def)
qed


theorem observed_steps_advance_intents_witness:
  "\<exists>y. getRebalanceIntent (snd (initialize ex_env ex_cfg ex_state)) ''i2'' = Some y
     \<and> y = (ex_intent ''i2'' 100)\<lparr>te_status := te_status y, te_updatedAt := te_updatedAt y\<rparr>"
proof -
  let ?R = "\<lambda>s s'. \<exists>E. uuidv4 E = uuidv4 ex_env \<and> observed_step ex_cfg E s s'"
  have "?R ex_state (snd (initialize ex_env ex_cfg ex_state))"
    by (metis prod.collapse step_initialize)
  then have run: "?R\<^sup>*\<^sup>* ex_state (snd (initialize ex_env ex_cfg ex_state))" by (rule r_into_rtranclp)
  have "getRebalanceIntent ex_state (uuidv4 ex_env n) = None" for n
    by (simp add: ex_state_def ex_env_def getRebalanceIntent_def store_get_def)
  then have "uuids_fresh (uuidv4 ex_env) ex_state" using ex_uuids by (simp add: uuids_fresh_def)
  from observed_steps_advance_intents [OF run ex_state_wf this ex_lookups(3)] show ?thesis by blast
qed

end
