(* ===== verification/Tracker_Actions.thy ===== *)
theory Tracker_Actions
  imports Tracker_Intents
begin

text \<open>
  What the tracker's operations on actions and transfers do: completing an action, creating one,
  recovering one from a message, and synchronizing transfers and actions with the chains.
\<close>

section \<open>Completing an action\<close>

lemma getRebalanceIntent_ticks [simp]: "getRebalanceIntent (s\<lparr>ticks := n\<rparr>) i = getRebalanceIntent s i"
  by (simp add: getRebalanceIntent_def)

lemma completed_after:
  assumes "rebalanceActionStore t = map_store (\<lambda>e. if te_id e = i then (e\<lparr>te_status := ActionComplete\<rparr>)\<lparr>te_updatedAt := c\<rparr> else e)
     (rebalanceActionStore s)"
    and wf: "tracker_wf s" and a: "getRebalanceAction s i = Some a"
  shows "getCompletedAmountForIntent t j = getCompletedAmountForIntent s j
    + (if ra_intentId a = j \<and> ra_type a \<noteq> inventory_movement \<and> te_status a \<noteq> ActionComplete then te_amount a else 0)"
proof -
  let ?h = "\<lambda>a :: RebalanceAction. if counts_for j a then te_amount a else 0"
  let ?g = "\<lambda>e :: RebalanceAction. if te_id e = i then (e\<lparr>te_status := ActionComplete\<rparr>)\<lparr>te_updatedAt := c\<rparr> else e"
  let ?d = "if ra_intentId a = j \<and> ra_type a \<noteq> inventory_movement \<and> te_status a \<noteq> ActionComplete then te_amount a else 0"
  have ia: "te_id a = i" by (rule getRebalanceAction_wf [OF wf a])
  have ty: "ra_type x = inventory_deposit \<or> ra_type x = rebalance_message \<longleftrightarrow> ra_type x \<noteq> inventory_movement" for x
    by (cases "ra_type x") simp_all
  have S: "distinct (map te_id xs) \<Longrightarrow> (\<forall>x \<in> set xs. te_id x = i \<longrightarrow> x = a) \<Longrightarrow>
      sum_list (map ?h (map ?g xs)) = sum_list (map ?h xs) + (if a \<in> set xs then ?d else 0)" for xs
  proof (induction xs)
    case (Cons x xs)
    have IH: "sum_list (map ?h (map ?g xs)) = sum_list (map ?h xs) + (if a \<in> set xs then ?d else 0)"
      by (rule Cons.IH) (use Cons.prems in auto)
    show ?case
    proof (cases "x = a")
      case True
      then have "a \<notin> set xs" using Cons.prems(1) by auto
      then show ?thesis using IH True ia ty [of a] by simp
    next
      case False
      then have "te_id x \<noteq> i" using Cons.prems(2) by auto
      then show ?thesis using IH False by simp
    qed
  qed simp
  have d: "distinct (map te_id (dict_values (rebalanceActionStore s)))"
    using InMemoryStore.all_distinct [OF tracker_wf_sel(3) [OF wf]] by (simp only: store_getAll_def)
  have m: "a \<in> set (dict_values (rebalanceActionStore s))"
    using store_get_member [OF tracker_wf_sel(3) [OF wf], THEN iffD2] a ia by (simp add: getRebalanceAction_def)
  have "\<forall>x \<in> set (dict_values (rebalanceActionStore s)). te_id x = i \<longrightarrow> x = a"
  proof (intro ballI impI)
    fix x assume "x \<in> set (dict_values (rebalanceActionStore s))" "te_id x = i"
    then show "x = a" using store_unique [OF tracker_wf_sel(3) [OF wf] _ m] ia by simp
  qed
  from S [OF d this] show ?thesis
    unfolding getCompletedAmount_eq assms(1) values_map_store using m by (simp only: if_True)
qed

lemma checkAndCompleteIntent_run:
  assumes wf: "tracker_wf s" and C: "C = getCompletedAmountForIntent s j"
  shows "\<exists>s'. checkAndCompleteIntent E j s = (ret (), s') \<and> tracker_wf s' \<and> transferStore s' = transferStore s
    \<and> rebalanceActionStore s' = rebalanceActionStore s
    \<and> map_store core (rebalanceIntentStore s') = map_store (\<lambda>x. core (if te_id x = j \<and> te_amount x \<le> C
       then x\<lparr>te_status := IntentComplete\<rparr> else x)) (rebalanceIntentStore s)"
proof -
  let ?f = "\<lambda>e. if te_id e = j then (e\<lparr>te_status := IntentComplete\<rparr>)\<lparr>te_updatedAt := clock E (ticks s)\<rparr> else e"
  let ?spec = "\<lambda>x. core (if te_id x = j \<and> te_amount x \<le> C then x\<lparr>te_status := IntentComplete\<rparr> else x)"
  define s2 where "s2 = s\<lparr>rebalanceIntentStore := map_store ?f (rebalanceIntentStore s), ticks := Suc (ticks s)\<rparr>"
  have look: "getRebalanceIntent s j = Some x" if "x \<in> set (dict_values (rebalanceIntentStore s))" "te_id x = j" for x
    using store_get_member [OF tracker_wf_sel(2) [OF wf], THEN iffD1, OF that(1)] that(2) by (simp add: getRebalanceIntent_def)
  show ?thesis
  proof (cases "\<exists>y. getRebalanceIntent s j = Some y \<and> te_status y \<noteq> IntentComplete \<and> te_amount y \<le> C")
    case False
    have "checkAndCompleteIntent E j s = (ret (), s)"
      using False C by (cases "getRebalanceIntent s j") (auto simp: checkAndCompleteIntent_def op_simps)
    moreover have "map_store core (rebalanceIntentStore s) = map_store ?spec (rebalanceIntentStore s)"
    proof (rule map_store_cong)
      fix x assume "x \<in> set (dict_values (rebalanceIntentStore s))"
      then show "core x = ?spec x" using look [of x] False by (cases "te_id x = j") auto
    qed
    ultimately show ?thesis using wf by auto
  next
    case True
    then obtain y where y: "getRebalanceIntent s j = Some y" "te_status y \<noteq> IntentComplete" "te_amount y \<le> C" by blast
    have u: "updateIntent E j (\<lambda>x. x\<lparr>te_status := IntentComplete\<rparr>) s = (ret (), s2)"
      using updateIntent_run [OF wf, of j E] y(1) by (simp add: s2_def)
    have wf2: "tracker_wf s2" by (rule wf_updateIntent [THEN keepsD, OF _ wf u]) simp
    have "checkAndCompleteIntent E j s = (ret (), s2)" using y u C by (simp add: checkAndCompleteIntent_def op_simps)
    moreover have "map_store (\<lambda>x. core (?f x)) (rebalanceIntentStore s) = map_store ?spec (rebalanceIntentStore s)"
    proof (rule map_store_cong)
      fix x assume x: "x \<in> set (dict_values (rebalanceIntentStore s))"
      then show "core (?f x) = ?spec x" using look [OF x] y(1,3) by (cases "te_id x = j") auto
    qed
    ultimately show ?thesis using wf2 by (simp add: s2_def)
  qed
qed

lemma completeRebalanceAction_run:
  assumes wf: "tracker_wf s" and a: "getRebalanceAction s i = Some a"
  shows "\<exists>s'. completeRebalanceAction E i s = (ret (), s') \<and> tracker_wf s' \<and> transferStore s' = transferStore s
    \<and> map_store core (rebalanceActionStore s')
      = map_store (\<lambda>x. core (if te_id x = i then x\<lparr>te_status := ActionComplete\<rparr> else x)) (rebalanceActionStore s)
    \<and> getCompletedAmountForIntent s' (ra_intentId a) = getCompletedAmountForIntent s (ra_intentId a)
      + (if ra_type a \<noteq> inventory_movement \<and> te_status a \<noteq> ActionComplete then te_amount a else 0)
    \<and> map_store core (rebalanceIntentStore s') = map_store (\<lambda>x. core (if te_id x = ra_intentId a
         \<and> te_amount x \<le> getCompletedAmountForIntent s' (ra_intentId a)
       then x\<lparr>te_status := IntentComplete\<rparr> else x)) (rebalanceIntentStore s)"
proof -
  let ?j = "ra_intentId a"
  let ?g = "\<lambda>e. if te_id e = i then (e\<lparr>te_status := ActionComplete\<rparr>)\<lparr>te_updatedAt := clock E (ticks s)\<rparr> else e"
  define s1 where "s1 = s\<lparr>rebalanceActionStore := map_store ?g (rebalanceActionStore s), ticks := Suc (ticks s)\<rparr>"
  have "i \<in> set (dict_keys (rebalanceActionStore s))"
    using a store_get_None_iff [of "rebalanceActionStore s" i] by (simp add: getRebalanceAction_def del: set_map)
  then have u: "updateAction E i (\<lambda>x. x\<lparr>te_status := ActionComplete\<rparr>) s = (ret (), s1)"
    using updateAction_run [OF tracker_wf_sel(3) [OF wf]] by (simp add: s1_def)
  have wf1: "tracker_wf s1" by (rule wf_updateAction [THEN keepsD, OF _ wf u]) simp
  have c1: "getCompletedAmountForIntent s1 ?j = getCompletedAmountForIntent s ?j
      + (if ra_type a \<noteq> inventory_movement \<and> te_status a \<noteq> ActionComplete then te_amount a else 0)"
    using completed_after [OF _ wf a, of s1] by (simp add: s1_def)
  have acts: "map_store core (rebalanceActionStore s1)
      = map_store (\<lambda>x. core (if te_id x = i then x\<lparr>te_status := ActionComplete\<rparr> else x)) (rebalanceActionStore s)"
    by (simp add: s1_def if_distrib [of core] cong: if_cong)
  have run: "completeRebalanceAction E i s = checkAndCompleteIntent E ?j s1"
    using a u by (simp add: completeRebalanceAction_def op_simps)
  from checkAndCompleteIntent_run [OF wf1 refl, of E ?j] obtain s2 where
    s2: "checkAndCompleteIntent E ?j s1 = (ret (), s2)" "tracker_wf s2" "transferStore s2 = transferStore s1"
      "rebalanceActionStore s2 = rebalanceActionStore s1"
      "map_store core (rebalanceIntentStore s2) = map_store (\<lambda>x. core (if te_id x = ?j
        \<and> te_amount x \<le> getCompletedAmountForIntent s1 ?j then x\<lparr>te_status := IntentComplete\<rparr> else x)) (rebalanceIntentStore s1)"
    by blast
  have c2: "getCompletedAmountForIntent s2 ?j = getCompletedAmountForIntent s1 ?j" using s2(4) by (simp add: getCompletedAmount_eq)
  have same: "transferStore s1 = transferStore s" "rebalanceIntentStore s1 = rebalanceIntentStore s" by (simp_all add: s1_def)
  show ?thesis using run s2 acts c1 c2 same by auto
qed

text \<open>
  C34. Completing an action completes it and nothing else among the actions, and completes its intent
  exactly when the deposits and rebalance messages completed for it, this one now included, reach
  the intent's amount. Movements of inventory do not count. An unknown action is an error that
  changes nothing.
\<close>

theorem completeRebalanceAction_spec:
  assumes "tracker_wf s"
  shows "case getRebalanceAction s i of
      None \<Rightarrow> completeRebalanceAction E i s = (throw (Thrown ''RebalanceAction not found'' i), s)
    | Some a \<Rightarrow> \<exists>s'. completeRebalanceAction E i s = (ret (), s')
        \<and> map_store core (rebalanceActionStore s')
          = map_store (\<lambda>x. core (if te_id x = i then x\<lparr>te_status := ActionComplete\<rparr> else x)) (rebalanceActionStore s)
        \<and> getCompletedAmountForIntent s' (ra_intentId a) = getCompletedAmountForIntent s (ra_intentId a)
          + (if ra_type a \<noteq> inventory_movement \<and> te_status a \<noteq> ActionComplete then te_amount a else 0)
        \<and> map_store core (rebalanceIntentStore s') = map_store (\<lambda>x. core (if te_id x = ra_intentId a
             \<and> te_amount x \<le> getCompletedAmountForIntent s' (ra_intentId a)
           then x\<lparr>te_status := IntentComplete\<rparr> else x)) (rebalanceIntentStore s)"
proof (cases "getRebalanceAction s i")
  case None
  then show ?thesis by (simp add: completeRebalanceAction_def op_simps)
next
  case (Some a)
  then show ?thesis using completeRebalanceAction_run [OF assms Some, of E] by auto
qed


theorem completeRebalanceAction_spec_witness:
  "tracker_wf ex_state \<and> (\<exists>s'. completeRebalanceAction ex_env ''a2'' ex_state = (ret (), s')
     \<and> getCompletedAmountForIntent s' ''i1'' = 100
     \<and> map_store core (rebalanceIntentStore s')
       = [(''i1'', (ex_intent ''i1'' 900)\<lparr>te_status := IntentComplete\<rparr>), (''i2'', ex_intent ''i2'' 100)])"
proof -
  have a: "ra_intentId (ex_action ''a2'' ''i1'' ActionInProgress 40) = ''i1''"
      "ra_type (ex_action ''a2'' ''i1'' ActionInProgress 40) = inventory_deposit"
      "te_status (ex_action ''a2'' ''i1'' ActionInProgress 40) = ActionInProgress"
      "te_amount (ex_action ''a2'' ''i1'' ActionInProgress 40) = 40" by (simp_all add: ex_action_def)
  have m: "map_store (\<lambda>x. core (if te_id x = ''i1'' \<and> te_amount x \<le> 100 then x\<lparr>te_status := IntentComplete\<rparr> else x))
        (rebalanceIntentStore ex_state)
      = [(''i1'', (ex_intent ''i1'' 900)\<lparr>te_status := IntentComplete\<rparr>), (''i2'', ex_intent ''i2'' 100)]"
    by (simp add: map_store_def ex_state_def ex_intent_def core_def)
  from completeRebalanceAction_spec [OF ex_state_wf, where i = "''a2''" and E = ex_env] obtain s' where
    s': "completeRebalanceAction ex_env ''a2'' ex_state = (ret (), s')" "getCompletedAmountForIntent s' ''i1'' = 100"
      "map_store core (rebalanceIntentStore s') = map_store (\<lambda>x. core (if te_id x = ''i1''
         \<and> te_amount x \<le> getCompletedAmountForIntent s' ''i1'' then x\<lparr>te_status := IntentComplete\<rparr> else x)) (rebalanceIntentStore ex_state)"
    by (auto simp: ex_lookups a ex_completed)
  then show ?thesis using ex_state_wf m by auto
qed


section \<open>Creating an action\<close>

definition started :: "string \<Rightarrow> int \<Rightarrow> RebalanceIntent \<Rightarrow> RebalanceIntent" where
  "started j now x = (if te_id x = j \<and> te_status x = IntentNotStarted
     then x\<lparr>te_status := IntentInProgress, te_updatedAt := now\<rparr> else x)"

lemma startIntent_lookup:
  assumes wf: "tracker_wf s"
  shows "\<exists>s'. startIntent E j s = (ret (), s') \<and> transferStore s' = transferStore s \<and> uuids s' = uuids s
    \<and> rebalanceActionStore s' = rebalanceActionStore s
    \<and> getRebalanceIntent s' = (\<lambda>i. map_option (started j (clock E (ticks s))) (getRebalanceIntent s i))"
proof (cases "\<exists>y. getRebalanceIntent s j = Some y \<and> te_status y = IntentNotStarted")
  case False
  then have run: "startIntent E j s = (ret (), s)"
    by (cases "getRebalanceIntent s j") (auto simp: startIntent_def op_simps)
  have "map_option (started j c) (getRebalanceIntent s i) = getRebalanceIntent s i" for c i
    using getRebalanceIntent_wf [OF wf, of i] False by (cases "getRebalanceIntent s i") (auto simp: started_def)
  then show ?thesis using run by auto
next
  case True
  then obtain y where y: "getRebalanceIntent s j = Some y" "te_status y = IntentNotStarted" by blast
  have id: "te_id y = j" by (rule getRebalanceIntent_wf [OF wf y(1)])
  obtain r s' where u: "updateIntent E j (\<lambda>y. y\<lparr>te_status := IntentInProgress\<rparr>) s = (r, s')" by fastforce
  from updateIntent_status [OF wf u] y(1) have s': "r = ret ()" "rebalanceActionStore s' = rebalanceActionStore s"
      "transferStore s' = transferStore s" "uuids s' = uuids s"
      "\<And>i. getRebalanceIntent s' i = ((getRebalanceIntent s)(j \<mapsto>
         y\<lparr>te_status := IntentInProgress, te_updatedAt := clock E (ticks s)\<rparr>)) i" by auto
  have "startIntent E j s = (ret (), s')" using y id u s'(1) by (simp add: startIntent_def op_simps)
  moreover have "getRebalanceIntent s' i = map_option (started j (clock E (ticks s))) (getRebalanceIntent s i)" for i
  proof (cases "i = j")
    case True
    then show ?thesis using y id s'(5) [of i] by (simp add: started_def)
  next
    case False
    then show ?thesis
      using getRebalanceIntent_wf [OF wf, of i] s'(5) [of i] by (cases "getRebalanceIntent s i") (simp_all add: started_def)
  qed
  ultimately show ?thesis using s'(2-4) by auto
qed

lemma createRebalanceAction_run:
  assumes "tracker_wf s"
  obtains a s' where "createRebalanceAction E q s = (ret a, s')" "tracker_wf s'" "uuids s' = Suc (uuids s)"
    "te_id a = uuidv4 E (uuids s)" "te_status a = ActionInProgress" "ra_intentId a = ca_intentId q"
    "te_amount a = ca_amount q" "ra_type a = ca_type q" "ra_messageId a = ca_messageId q" "ra_txHash a = ca_txHash q"
    "te_origin a = ca_origin q" "te_destination a = ca_destination q" "transferStore s' = transferStore s"
    "getRebalanceAction s' = (getRebalanceAction s)(te_id a \<mapsto> a)"
    "getRebalanceIntent s' = (\<lambda>i. map_option (started (ca_intentId q) (clock E (Suc (Suc (ticks s))))) (getRebalanceIntent s i))"
proof -
  define a where "a = \<lparr>te_id = uuidv4 E (uuids s), te_status = ActionInProgress, te_origin = ca_origin q,
    te_destination = ca_destination q, te_amount = ca_amount q, te_createdAt = clock E (ticks s),
    te_updatedAt = clock E (Suc (ticks s)), ra_type = ca_type q, ra_intentId = ca_intentId q,
    ra_messageId = ca_messageId q, ra_txHash = ca_txHash q, ra_externalBridgeTransferId = ca_externalBridgeTransferId q,
    ra_externalBridgeId = ca_externalBridgeId q, ra_lastBridgeStatus = None, ra_nonPendingSince = None\<rparr>"
  define s1 where "s1 = s\<lparr>uuids := Suc (uuids s), ticks := Suc (Suc (ticks s)),
    rebalanceActionStore := store_save a (rebalanceActionStore s)\<rparr>"
  have wf1: "tracker_wf s1"
    using assms InMemoryStore.save_inv [OF tracker_wf_sel(3) [OF assms]] by (simp add: s1_def tracker_wf_def)
  have look: "getRebalanceAction s1 = (getRebalanceAction s)(te_id a \<mapsto> a)"
    using InMemoryStore.save_lookup [OF tracker_wf_sel(3) [OF assms]] by (auto simp: s1_def getRebalanceAction_def fun_eq_iff)
  from startIntent_lookup [OF wf1, of E "ca_intentId q"] obtain s' where
    s': "startIntent E (ca_intentId q) s1 = (ret (), s')" "transferStore s' = transferStore s1" "uuids s' = uuids s1"
      "rebalanceActionStore s' = rebalanceActionStore s1"
      "getRebalanceIntent s' = (\<lambda>i. map_option (started (ca_intentId q) (clock E (ticks s1))) (getRebalanceIntent s1 i))"
    by blast
  have run: "createRebalanceAction E q s = (ret a, s')"
    using s'(1) by (simp add: createRebalanceAction_def newUuid_def dateNow_def saveAction_def op_simps Let_def a_def s1_def)
  have wf': "tracker_wf s'" using keepsD [OF wf_action_ops(1) assms run] .
  have "getRebalanceAction s' = getRebalanceAction s1" using s'(4) by (simp add: getRebalanceAction_def fun_eq_iff)
  moreover have "getRebalanceIntent s1 = getRebalanceIntent s" by (simp add: s1_def getRebalanceIntent_def fun_eq_iff)
  ultimately show ?thesis
    using that [OF run wf'] s' look by (simp add: a_def s1_def)
qed

text \<open>
  Creating an action never fails: it adds one action in progress under the next uuid, with
  the caller's fields, and starts its intent if that has not started; every other
  action, intent and transfer stays.
\<close>

theorem createRebalanceAction_spec:
  assumes "tracker_wf s"
  shows "\<exists>a s'. createRebalanceAction E q s = (ret a, s')
    \<and> te_id a = uuidv4 E (uuids s) \<and> te_status a = ActionInProgress \<and> ra_intentId a = ca_intentId q
    \<and> te_amount a = ca_amount q \<and> ra_type a = ca_type q \<and> ra_messageId a = ca_messageId q
    \<and> te_origin a = ca_origin q \<and> te_destination a = ca_destination q
    \<and> getRebalanceAction s' = (getRebalanceAction s)(te_id a \<mapsto> a) \<and> transferStore s' = transferStore s
    \<and> getRebalanceIntent s' = (\<lambda>i. map_option (started (ca_intentId q) (clock E (Suc (Suc (ticks s))))) (getRebalanceIntent s i))"
  by (rule createRebalanceAction_run [OF assms, of E q]) blast

theorem createRebalanceAction_spec_witness:
  "tracker_wf ex_state \<and> (\<exists>a s'. createRebalanceAction ex_env \<lparr>ca_intentId = ''i1'', ca_origin = 1, ca_destination = 2,
       ca_amount = 5, ca_type = rebalance_message, ca_messageId = None, ca_txHash = None,
       ca_externalBridgeTransferId = None, ca_externalBridgeId = None\<rparr> ex_state = (ret a, s')
     \<and> te_id a = ''u'' \<and> getRebalanceAction s' ''u'' = Some a
     \<and> getRebalanceAction s' ''a2'' = Some (ex_action ''a2'' ''i1'' ActionInProgress 40))"
proof -
  have u: "uuidv4 ex_env (uuids ex_state) = ''u''" by (simp add: ex_env_def ex_state_def)
  show ?thesis
    using createRebalanceAction_spec [OF ex_state_wf, of ex_env "\<lparr>ca_intentId = ''i1'', ca_origin = 1, ca_destination = 2,
       ca_amount = 5, ca_type = rebalance_message, ca_messageId = None, ca_txHash = None,
       ca_externalBridgeTransferId = None, ca_externalBridgeId = None\<rparr>"] ex_state_wf
    by (auto simp: u ex_lookups)
qed

end
