(* ===== verification/Tracker_Recovery.thy ===== *)
theory Tracker_Recovery
  imports Tracker_Actions
begin

text \<open>
  The recovery of rebalance messages from the Explorer: which messages are tracked after a
  synchronization of actions, and that none is tracked twice.
\<close>

section \<open>The messages of a store\<close>

definition message_view :: "tracker \<Rightarrow> (string, string option) dict" where
  "message_view s = map (\<lambda>(k, a). (k, ra_messageId a)) (rebalanceActionStore s)"

definition messages_once :: "tracker \<Rightarrow> bool" where
  "messages_once s \<longleftrightarrow> (\<forall>i j a b m. getRebalanceAction s i = Some a \<longrightarrow> getRebalanceAction s j = Some b \<longrightarrow>
     ra_messageId a = Some m \<longrightarrow> ra_messageId b = Some m \<longrightarrow> i = j)"

definition recoverable :: "tracker_env \<Rightarrow> ExplorerMessage \<Rightarrow> bool" where
  "recoverable E m \<longleftrightarrow> (\<exists>p. parseWarpRouteMessage (message_body m) = ret p)
     \<and> (\<forall>d. send_occurred_at m = Some d \<longrightarrow> d \<noteq> [] \<longrightarrow> Date_parse E d \<noteq> None)"

lemma message_view_lookup: "map_of (message_view s) i = map_option ra_messageId (getRebalanceAction s i)"
proof -
  have "map_of (map (\<lambda>(k, a). (k, ra_messageId a)) st) i = map_option ra_messageId (map_of st i)"
    for st :: "(string, RebalanceAction) dict"
    by (induction st) auto
  then show ?thesis by (simp add: message_view_def getRebalanceAction_def store_get_def)
qed

lemma messages_once_view:
  "messages_once s \<longleftrightarrow> (\<forall>i j m. map_of (message_view s) i = Some (Some m) \<longrightarrow>
     map_of (message_view s) j = Some (Some m) \<longrightarrow> i = j)"
  by (auto simp: messages_once_def message_view_lookup)

lemma message_view_update:
  "map (\<lambda>(k, a). (k, ra_messageId a)) (AList.update i e st)
    = AList.update i (ra_messageId e) (map (\<lambda>(k, a). (k, ra_messageId a)) st)"
  by (induction st) auto

lemma view_updateAction [keeps]:
  assumes "\<And>x. ra_messageId (f x) = ra_messageId x"
  shows "keeps (\<lambda>t. message_view t = v) (updateAction E i f)"
proof -
  have "AList.update i (ra_messageId e) (map (\<lambda>(k, a). (k, ra_messageId a)) st) = map (\<lambda>(k, a). (k, ra_messageId a)) st"
    if "map_of st i = Some e" for e :: RebalanceAction and st
    using that by (induction st) (auto split: if_splits)
  then show ?thesis
    by (auto simp: keeps_def updateAction_def store_update_def message_view_def message_view_update assms
        split: option.splits)
qed

lemma view_updateIntent [keeps]: "keeps (\<lambda>t. message_view t = v) (updateIntent E i g)"
  by (auto simp: keeps_def updateIntent_def message_view_def split: sum.splits)

lemma view_checkActionDelivery [keeps]: "keeps (\<lambda>t. message_view t = v) (checkActionDelivery E tags a)"
  unfolding checkActionDelivery_def completeRebalanceAction_def checkAndCompleteIntent_def
  by (intro keeps; simp)

section \<open>One message\<close>

text \<open>\<open>recoverAction\<close> adds at most one action, under the message's id.\<close>

lemma recoverAction_view:
  "\<exists>t. recoverAction E m s = (ret (), t)
    \<and> (map_of (message_view t) = map_of (message_view s)
       \<or> getRebalanceAction s (msg_id m) = None
         \<and> map_of (message_view t) = (map_of (message_view s))(msg_id m \<mapsto> Some (msg_id m)))
    \<and> (recoverable E m \<longrightarrow> getRebalanceAction t (msg_id m) \<noteq> None)"
proof -
  obtain r s1 where c: "recoveredCreatedAt E m s = (r, s1)" by fastforce
  have rec: "recoverable E m \<longleftrightarrow> (\<exists>p. parseWarpRouteMessage (message_body m) = ret p) \<and> (\<exists>t. r = ret t)"
    using c by (auto simp: recoverable_def recoveredCreatedAt_def dateNow_def op_simps split: option.splits if_splits)
  show ?thesis
  proof (cases "getRebalanceAction s (msg_id m) \<noteq> None \<or> (\<exists>e. parseWarpRouteMessage (message_body m) = throw e)
      \<or> (\<exists>e. r = throw e)")
    case True
    then show ?thesis using recoverAction_skip [of s m E] c rec by auto
  next
    case False
    then obtain p t where ok: "getRebalanceAction s (msg_id m) = None" "parseWarpRouteMessage (message_body m) = ret p" "r = ret t"
      by (metis sum.exhaust_sel)
    have s1: "rebalanceActionStore s1 = rebalanceActionStore s" using recoveredCreatedAt_keeps [OF c] by auto
    obtain t' where run: "recoverAction E m s = (ret (), t')"
      and st: "\<exists>i a u. rebalanceActionStore t' = store_save (recoveredAction m i a t u) (rebalanceActionStore s)"
      using recoverAction_run [OF ok(1,2), of E t s1] c ok(3) s1
      by (auto simp: Let_def saveIntent_def saveAction_def op_simps)
    have v: "map_of (message_view t') = (map_of (message_view s))(msg_id m \<mapsto> Some (msg_id m))"
      using st by (auto simp: message_view_def store_save_def message_view_update recoveredAction_def update_conv)
    have "getRebalanceAction t' (msg_id m) \<noteq> None"
      using fun_cong [OF v, of "msg_id m"] by (auto simp: message_view_lookup)
    then show ?thesis using run ok(1) v by blast
  qed
qed

definition tracked :: "tracker \<Rightarrow> ExplorerMessage \<Rightarrow> bool" where
  "tracked s m \<longleftrightarrow> getRebalanceAction s (msg_id m) \<noteq> None
     \<or> (\<exists>i a. getRebalanceAction s i = Some a \<and> ra_messageId a = Some (msg_id m))"

lemma tracked_view:
  "tracked s m \<longleftrightarrow> map_of (message_view s) (msg_id m) \<noteq> None
     \<or> (\<exists>i. map_of (message_view s) i = Some (Some (msg_id m)))"
  by (auto simp: tracked_def message_view_lookup)

text \<open>
  While the messages \<open>ms\<close> of a synchronization that began in \<open>s\<close> are processed: old actions keep their
  message, a new one has its message as its id, and no action had that message.
\<close>

definition recovery_inv :: "tracker_env \<Rightarrow> tracker \<Rightarrow> ExplorerMessage list \<Rightarrow> tracker \<Rightarrow> bool" where
  "recovery_inv E s ms t \<longleftrightarrow>
     (\<forall>i x. map_of (message_view s) i = Some x \<longrightarrow> map_of (message_view t) i = Some x)
   \<and> (\<forall>i x. map_of (message_view t) i = Some x \<longrightarrow> map_of (message_view s) i = Some x
        \<or> x = Some i \<and> (\<forall>j. map_of (message_view s) j \<noteq> Some (Some i)))
   \<and> (\<forall>m \<in> set ms. recoverable E m \<longrightarrow> tracked t m)"

lemma recovery_inv_once: "recovery_inv E s ms t \<Longrightarrow> messages_once s \<Longrightarrow> messages_once t"
  unfolding recovery_inv_def messages_once_view by (metis option.inject)

abbreviation recoverStep :: "tracker_env \<Rightarrow> tracker \<Rightarrow> ExplorerMessage \<Rightarrow> unit tracker_op" where
  "recoverStep E s msg \<equiv> op_when (\<forall>a \<in> set (store_getAll (rebalanceActionStore s)). ra_messageId a \<noteq> Some (msg_id msg))
     (recoverAction E msg)"

lemma recovery_step:
  assumes wf: "tracker_wf s" and inv: "recovery_inv E s ms t"
  shows "\<exists>t'. recoverStep E s m t = (ret (), t') \<and> recovery_inv E s (ms @ [m]) t'"
proof (cases "\<forall>a \<in> set (store_getAll (rebalanceActionStore s)). ra_messageId a \<noteq> Some (msg_id m)")
  case False
  then obtain a where a: "a \<in> set (store_getAll (rebalanceActionStore s))" "ra_messageId a = Some (msg_id m)" by blast
  then have "getRebalanceAction s (te_id a) = Some a"
    using InMemoryStore.all_lookup [OF tracker_wf_sel(3) [OF wf], THEN iffD1] by (simp add: getRebalanceAction_def)
  then have "map_of (message_view s) (te_id a) = Some (Some (msg_id m))" using a(2) by (simp add: message_view_lookup)
  then have "tracked t m" using inv unfolding recovery_inv_def tracked_view by blast
  then have "recovery_inv E s (ms @ [m]) t" using inv by (auto simp: recovery_inv_def)
  then show ?thesis unfolding op_when_def if_not_P [OF False] by (simp add: op_simps)
next
  case True
  have none: "map_of (message_view s) j \<noteq> Some (Some (msg_id m))" for j
  proof
    assume "map_of (message_view s) j = Some (Some (msg_id m))"
    then obtain a where a: "getRebalanceAction s j = Some a" "ra_messageId a = Some (msg_id m)"
      by (auto simp: message_view_lookup)
    have "te_id a = j" by (rule getRebalanceAction_wf [OF wf a(1)])
    then have "a \<in> set (store_getAll (rebalanceActionStore s))"
      using InMemoryStore.all_lookup [OF tracker_wf_sel(3) [OF wf], THEN iffD2, of a] a(1) by (simp add: getRebalanceAction_def)
    then show False using True a(2) by blast
  qed
  obtain t' where t': "recoverAction E m t = (ret (), t')"
      "map_of (message_view t') = map_of (message_view t)
       \<or> getRebalanceAction t (msg_id m) = None
         \<and> map_of (message_view t') = (map_of (message_view t))(msg_id m \<mapsto> Some (msg_id m))"
      "recoverable E m \<longrightarrow> getRebalanceAction t' (msg_id m) \<noteq> None"
    using recoverAction_view by blast
  have m: "recoverable E m \<longrightarrow> tracked t' m" using t'(3) by (simp add: tracked_def)
  have "recovery_inv E s (ms @ [m]) t'"
  proof (rule disjE [OF t'(2)])
    assume "map_of (message_view t') = map_of (message_view t)"
    then show ?thesis using inv m unfolding recovery_inv_def tracked_view by auto
  next
    assume new: "getRebalanceAction t (msg_id m) = None
      \<and> map_of (message_view t') = (map_of (message_view t))(msg_id m \<mapsto> Some (msg_id m))"
    then have nt: "map_of (message_view t) (msg_id m) = None" by (simp add: message_view_lookup)
    then have ns: "map_of (message_view s) (msg_id m) = None"
      using inv unfolding recovery_inv_def by (metis option.exhaust option.simps(3))
    have "tracked t' k" if "tracked t k" for k
      using that nt new unfolding tracked_view by (metis fun_upd_apply option.distinct(1))
    then have "\<forall>k \<in> set (ms @ [m]). recoverable E k \<longrightarrow> tracked t' k"
      using inv m unfolding recovery_inv_def by auto
    then show ?thesis using inv ns new none unfolding recovery_inv_def by auto
  qed
  then show ?thesis using True t'(1) by (simp add: op_when_def)
qed

lemma recovery_loop:
  assumes "tracker_wf s"
  shows "\<exists>t. op_for msgs (recoverStep E s) s = (ret (), t) \<and> recovery_inv E s msgs t"
proof (rule op_for_returns)
  show "recovery_inv E s [] s" by (simp add: recovery_inv_def)
qed (use recovery_step [OF assms] in blast)

text \<open>
  C36. A synchronization of actions never tracks a message twice: when no two actions share a message
  before it, none do afterwards, whatever the Explorer returned and even if a delivery check
  failed. Every message of the Explorer whose body and timestamp are readable is then tracked, and
  no action has lost its message.
\<close>

theorem syncRebalanceActions_tracks_once:
  assumes wf: "tracker_wf s" and once: "messages_once s"
    and msgs: "inflightRebalanceActions E cfg = ret msgs"
    and run: "syncRebalanceActions E cfg tags s = (r, s')"
  shows "messages_once s'
    \<and> (\<forall>m \<in> set msgs. recoverable E m \<longrightarrow> tracked s' m)
    \<and> (\<forall>i a. getRebalanceAction s i = Some a \<longrightarrow>
        (\<exists>b. getRebalanceAction s' i = Some b \<and> ra_messageId b = ra_messageId a))"
proof -
  obtain t where t: "op_for msgs (recoverStep E s) s = (ret (), t)" "recovery_inv E s msgs t"
    using recovery_loop [OF wf] by blast
  have "op_for (getInProgressActions t) (checkActionDelivery E tags) t = (r, s')"
    using run t(1) msgs by (simp add: syncRebalanceActions_def op_simps)
  moreover have "keeps (\<lambda>u. message_view u = message_view t) (op_for (getInProgressActions t) (checkActionDelivery E tags))"
    by (intro keeps)
  ultimately have v: "message_view s' = message_view t" using keepsD [of "\<lambda>u. message_view u = message_view t"] by blast
  have inv: "recovery_inv E s msgs s'" using t(2) unfolding recovery_inv_def tracked_view v by simp
  moreover have "\<exists>b. getRebalanceAction s' i = Some b \<and> ra_messageId b = ra_messageId a"
    if "getRebalanceAction s i = Some a" for i a
  proof -
    have "map_of (message_view s') i = Some (ra_messageId a)"
      using inv that unfolding recovery_inv_def by (auto simp: message_view_lookup)
    then show ?thesis by (auto simp: message_view_lookup)
  qed
  ultimately show ?thesis using recovery_inv_once [OF inv once] unfolding recovery_inv_def by blast
qed

theorem syncRebalanceActions_tracks_once_witness:
  "messages_once ex_state \<and> messages_once (snd (syncRebalanceActions ex_env ex_cfg None ex_state))
    \<and> tracked (snd (syncRebalanceActions ex_env ex_cfg None ex_state)) (ex_msg ''m2'')"
proof -
  have once: "messages_once ex_state"
    by (simp add: messages_once_def ex_state_def getRebalanceAction_def store_get_def ex_action_def)
  have msgs: "inflightRebalanceActions ex_env ex_cfg = ret [ex_msg ''m2'']"
    by (simp add: inflightRebalanceActions_def ex_env_def)
  have "recoverable ex_env (ex_msg ''m2'')" using ex_body_parses by (auto simp: recoverable_def ex_msg_def)
  then show ?thesis
    using syncRebalanceActions_tracks_once [OF ex_state_wf once msgs prod.collapse [symmetric], of None] once by simp
qed

end
