(* ===== verification/Tracker_Transfers.thy ===== *)
theory Tracker_Transfers
  imports Tracker_Intents
begin

text \<open>The synchronization of user transfers with the Explorer and the chains.\<close>

section \<open>New transfers\<close>

definition transfer_delivered :: "tracker_env \<Rightarrow> block_tags option \<Rightarrow> Transfer \<Rightarrow> bool" where
  "transfer_delivered E tags t \<longleftrightarrow>
     (\<exists>tag. confirmedBlockTag E tags (te_destination t) = ret tag
        \<and> isMessageDelivered E (tr_messageId t) (te_destination t) tag)"

definition is_new_transfer :: "ExplorerMessage \<Rightarrow> Transfer \<Rightarrow> bool" where
  "is_new_transfer m t \<longleftrightarrow>
     (\<exists>p c u. parseWarpRouteMessage (message_body m) = ret p \<and> t = newTransfer m (pw_amount p) c u)"

lemma getTransfer_wf: "tracker_wf s \<Longrightarrow> getTransfer s i = Some x \<Longrightarrow> te_id x = i"
  using InMemoryStore.lookup_id [of "transferStore s" i x]
  by (simp add: getTransfer_def tracker_wf_def)

lemma syncTransferMessage_run:
  assumes wf: "tracker_wf s"
  shows "\<exists>s'. syncTransferMessage E m s = (ret (), s') \<and> tracker_wf s'
    \<and> (\<forall>i x. getTransfer s i = Some x \<longrightarrow> getTransfer s' i = Some x)
    \<and> (\<forall>i x. getTransfer s i = None \<longrightarrow> getTransfer s' i = Some x \<longrightarrow> is_new_transfer m x)
    \<and> (\<forall>p. parseWarpRouteMessage (message_body m) = ret p \<longrightarrow> getTransfer s' (msg_id m) \<noteq> None)"
proof (cases "getTransfer s (msg_id m) = None \<and> (\<exists>p. parseWarpRouteMessage (message_body m) = ret p)")
  case False
  then have "syncTransferMessage E m s = (ret (), s)"
    by (cases "getTransfer s (msg_id m)"; cases "parseWarpRouteMessage (message_body m)")
      (auto simp: syncTransferMessage_def op_simps)
  then show ?thesis using wf False by auto
next
  case True
  then obtain p where p: "getTransfer s (msg_id m) = None" "parseWarpRouteMessage (message_body m) = ret p" by blast
  let ?x = "newTransfer m (pw_amount p) (clock E (ticks s)) (clock E (Suc (ticks s)))"
  define s' where "s' = s\<lparr>ticks := Suc (Suc (ticks s)), transferStore := store_save ?x (transferStore s)\<rparr>"
  have "syncTransferMessage E m s = (ret (), s')"
    using p by (simp add: syncTransferMessage_def op_simps dateNow_def saveTransfer_def s'_def)
  moreover have "getTransfer s' i = (if i = msg_id m then Some ?x else getTransfer s i)" for i
    using InMemoryStore.save_lookup [OF tracker_wf_sel(1) [OF wf], of ?x i]
    by (simp add: s'_def getTransfer_def newTransfer_def)
  moreover have "tracker_wf s'"
    using wf InMemoryStore.save_inv [OF tracker_wf_sel(1) [OF wf], of ?x] by (simp add: s'_def tracker_wf_def)
  ultimately show ?thesis using p by (auto simp: is_new_transfer_def)
qed

definition messages_inv :: "tracker \<Rightarrow> ExplorerMessage list \<Rightarrow> tracker \<Rightarrow> bool" where
  "messages_inv s ms t \<longleftrightarrow> tracker_wf t
   \<and> (\<forall>i x. getTransfer s i = Some x \<longrightarrow> getTransfer t i = Some x)
   \<and> (\<forall>i x. getTransfer s i = None \<longrightarrow> getTransfer t i = Some x \<longrightarrow> (\<exists>m \<in> set ms. is_new_transfer m x))
   \<and> (\<forall>m \<in> set ms. \<forall>p. parseWarpRouteMessage (message_body m) = ret p \<longrightarrow> getTransfer t (msg_id m) \<noteq> None)"

lemma messages_loop:
  assumes wf: "tracker_wf s"
  shows "\<exists>t. op_for ms (syncTransferMessage E) s = (ret (), t) \<and> messages_inv s ms t"
proof (rule op_for_returns)
  show "messages_inv s [] s" using wf by (simp add: messages_inv_def)
  fix ys m zs t assume "ms = ys @ m # zs" and inv: "messages_inv s ys t"
  have wft: "tracker_wf t" using inv by (simp add: messages_inv_def)
  from syncTransferMessage_run [OF wft, of E m] obtain t' where
    t': "syncTransferMessage E m t = (ret (), t')" "tracker_wf t'"
      "\<forall>i x. getTransfer t i = Some x \<longrightarrow> getTransfer t' i = Some x"
      "\<forall>i x. getTransfer t i = None \<longrightarrow> getTransfer t' i = Some x \<longrightarrow> is_new_transfer m x"
      "\<forall>p. parseWarpRouteMessage (message_body m) = ret p \<longrightarrow> getTransfer t' (msg_id m) \<noteq> None" by blast
  have "\<exists>k \<in> set (ys @ [m]). is_new_transfer k x" if "getTransfer s i = None" "getTransfer t' i = Some x" for i x
  proof (cases "getTransfer t i")
    case None
    then show ?thesis using t'(4) that(2) by auto
  next
    case (Some y)
    then have "y = x" using t'(3) that(2) by auto
    then show ?thesis using inv Some that(1) unfolding messages_inv_def by auto
  qed
  moreover have "getTransfer t' i = Some x" if "getTransfer s i = Some x" for i x
    using inv t'(3) that unfolding messages_inv_def by blast
  moreover have "getTransfer t' (msg_id k) \<noteq> None"
    if "k \<in> set (ys @ [m])" "parseWarpRouteMessage (message_body k) = ret p" for k p
  proof (cases "k = m")
    case False
    then have "getTransfer t (msg_id k) \<noteq> None" using inv that unfolding messages_inv_def by auto
    then show ?thesis using t'(3) by auto
  qed (use t'(5) that in blast)
  ultimately have "messages_inv s (ys @ [m]) t'" using t'(2) unfolding messages_inv_def by blast
  then show "\<exists>t'. syncTransferMessage E m t = (ret (), t') \<and> messages_inv s (ys @ [m]) t'" using t'(1) by blast
qed

section \<open>Delivery\<close>

definition delivery_spec :: "tracker_env \<Rightarrow> block_tags option \<Rightarrow> string set \<Rightarrow> Transfer \<Rightarrow> Transfer" where
  "delivery_spec E tags ids x =
     (if te_id x \<in> ids \<and> transfer_delivered E tags x then x\<lparr>te_status := TransferComplete\<rparr> else x)"

lemma updateTransfer_run:
  assumes "tracker_wf s" "getTransfer s i \<noteq> None"
  shows "updateTransfer E i f s = (ret (), s\<lparr>transferStore :=
      map_store (\<lambda>e. if te_id e = i then (f e)\<lparr>te_updatedAt := clock E (ticks s)\<rparr> else e) (transferStore s),
    ticks := Suc (ticks s)\<rparr>)"
  using store_update_map [of "transferStore s" i] assms
  by (simp add: updateTransfer_def tracker_wf_def getTransfer_def)

lemma delivery_spec_id [simp]: "te_id (delivery_spec E tags A x) = te_id x"
  by (simp add: delivery_spec_def)

lemma delivery_step:
  assumes wf: "tracker_wf s" "tracker_wf t" and x: "x \<in> set (dict_values (transferStore s))"
    and inv: "map_store core (transferStore t) = map_store (\<lambda>x. core (delivery_spec E tags ids x)) (transferStore s)"
    and run: "checkTransferDelivery E tags x t = (ret (), t')"
  shows "tracker_wf t' \<and> map_store core (transferStore t')
    = map_store (\<lambda>y. core (delivery_spec E tags (insert (te_id x) ids) y)) (transferStore s)"
proof -
  have uniq: "y = x" if "y \<in> set (dict_values (transferStore s))" "te_id y = te_id x" for y
    by (rule store_unique [OF tracker_wf_sel(1) [OF wf(1)] that(1) x that(2)])
  from run obtain tag where tag: "confirmedBlockTag E tags (te_destination x) = ret tag"
    by (auto simp: checkTransferDelivery_def op_simps split: prod.splits sum.splits)
  show ?thesis
  proof (cases "isMessageDelivered E (tr_messageId x) (te_destination x) tag")
    case False
    then have "t' = t" and nd: "\<not> transfer_delivered E tags x"
      using run tag by (auto simp: checkTransferDelivery_def op_simps transfer_delivered_def)
    moreover have "map_store (\<lambda>y. core (delivery_spec E tags (insert (te_id x) ids) y)) (transferStore s)
        = map_store (\<lambda>x. core (delivery_spec E tags ids x)) (transferStore s)"
    proof (rule map_store_cong)
      fix y assume "y \<in> set (dict_values (transferStore s))"
      then have "te_id y = te_id x \<Longrightarrow> \<not> transfer_delivered E tags y" using uniq nd by blast
      then show "core (delivery_spec E tags (insert (te_id x) ids) y) = core (delivery_spec E tags ids y)"
        by (auto simp: delivery_spec_def)
    qed
    ultimately show ?thesis using wf(2) inv by simp
  next
    case True
    let ?f = "\<lambda>e. if te_id e = te_id x then (e\<lparr>te_status := TransferComplete\<rparr>)\<lparr>te_updatedAt := clock E (ticks t)\<rparr> else e"
    have del: "transfer_delivered E tags x" using True tag by (auto simp: transfer_delivered_def)
    have u: "updateTransfer E (te_id x) (\<lambda>x. x\<lparr>te_status := TransferComplete\<rparr>) t = (ret (), t')"
      using run tag True by (simp add: checkTransferDelivery_def op_simps)
    have "te_id x \<in> set (dict_keys (transferStore s))"
      using x store_ids [OF tracker_wf_sel(1) [OF wf(1)]] by (metis image_eqI set_map)
    then have "getTransfer t (te_id x) \<noteq> None"
      using keys_core_eq [OF inv] by (simp add: getTransfer_def store_get_None_iff del: set_map)
    then have t': "transferStore t' = map_store ?f (transferStore t)"
      using updateTransfer_run [OF wf(2), of "te_id x" E "\<lambda>x. x\<lparr>te_status := TransferComplete\<rparr>"] u by auto
    let ?g = "\<lambda>e. if te_id e = te_id x then e\<lparr>te_status := TransferComplete\<rparr> else e"
    have "map_store core (transferStore t') = map_store ?g (map_store core (transferStore t))"
      unfolding t' by (simp add: if_distrib [of core] cong: if_cong)
    also have "\<dots> = map_store (\<lambda>y. core (delivery_spec E tags (insert (te_id x) ids) y)) (transferStore s)"
      unfolding inv map_store_comp
    proof (rule map_store_cong)
      fix y assume "y \<in> set (dict_values (transferStore s))"
      then have "te_id y = te_id x \<Longrightarrow> transfer_delivered E tags y" using uniq del by blast
      then show "?g (core (delivery_spec E tags ids y)) = core (delivery_spec E tags (insert (te_id x) ids) y)"
        by (auto simp: delivery_spec_def)
    qed
    finally show ?thesis using wf_updateTransfer [THEN keepsD, OF _ wf(2) u] by simp
  qed
qed

lemma delivery_returns:
  assumes wf: "tracker_wf s" "tracker_wf t" and x: "x \<in> set (dict_values (transferStore s))"
    and inv: "map_store core (transferStore t) = map_store (\<lambda>x. core (delivery_spec E tags ids x)) (transferStore s)"
    and chain: "getChainName E (te_destination x) = ret c"
  shows "\<exists>t'. checkTransferDelivery E tags x t = (ret (), t')"
proof -
  have "te_id x \<in> set (dict_keys (transferStore s))"
    using x store_ids [OF tracker_wf_sel(1) [OF wf(1)]] by (metis image_eqI set_map)
  then have "getTransfer t (te_id x) \<noteq> None"
    using keys_core_eq [OF inv] by (simp add: getTransfer_def store_get_None_iff del: set_map)
  then show ?thesis
    using updateTransfer_run [OF wf(2), of "te_id x" E "\<lambda>x. x\<lparr>te_status := TransferComplete\<rparr>"] chain
    by (auto simp: checkTransferDelivery_def confirmedBlockTag_def op_simps op_when_def)
qed

lemma delivery_loop:
  assumes wf: "tracker_wf s" and xs: "set xs \<subseteq> set (dict_values (transferStore s))"
    and known: "\<And>x. x \<in> set xs \<Longrightarrow> \<exists>c. getChainName E (te_destination x) = ret c"
  shows "\<exists>s'. op_for xs (checkTransferDelivery E tags) s = (ret (), s') \<and> tracker_wf s' \<and>
    map_store core (transferStore s') = map_store (\<lambda>x. core (delivery_spec E tags (te_id ` set xs) x)) (transferStore s)"
proof (rule op_for_returns)
  show "tracker_wf s \<and> map_store core (transferStore s)
      = map_store (\<lambda>x. core (delivery_spec E tags (te_id ` set []) x)) (transferStore s)"
    using wf by (simp add: delivery_spec_def)
  fix ys x zs t
  assume xs': "xs = ys @ x # zs" and inv: "tracker_wf t \<and> map_store core (transferStore t)
      = map_store (\<lambda>x. core (delivery_spec E tags (te_id ` set ys) x)) (transferStore s)"
  have x: "x \<in> set (dict_values (transferStore s))" using xs xs' by auto
  obtain c where c: "getChainName E (te_destination x) = ret c" using known [of x] xs' by auto
  obtain t' where t': "checkTransferDelivery E tags x t = (ret (), t')"
    using delivery_returns [OF wf conjunct1 [OF inv] x conjunct2 [OF inv] c] by blast
  show "\<exists>t'. checkTransferDelivery E tags x t = (ret (), t') \<and> tracker_wf t' \<and> map_store core (transferStore t')
      = map_store (\<lambda>z. core (delivery_spec E tags (te_id ` set (ys @ [x])) z)) (transferStore s)"
    using delivery_step [OF wf conjunct1 [OF inv] x conjunct2 [OF inv] t'] t' by auto
qed

section \<open>A synchronization\<close>

text \<open>A transfer after the check of its delivery.\<close>

definition synced_transfer :: "tracker_env \<Rightarrow> block_tags option \<Rightarrow> Transfer \<Rightarrow> Transfer" where
  "synced_transfer E tags x =
     (if te_status x = TransferInProgress \<and> transfer_delivered E tags x then x\<lparr>te_status := TransferComplete\<rparr> else x)"

lemma core_transfer [simp]: "tr_messageId (core t) = tr_messageId t"
  by (simp add: core_def)

lemma transfer_delivered_core [simp]: "transfer_delivered E tags (core t) = transfer_delivered E tags t"
  by (simp add: transfer_delivered_def)

lemma getTransfer_core:
  assumes "map_store core (transferStore t) = map_store (\<lambda>x. core (g x)) (transferStore s)"
  shows "map_option core (getTransfer t i) = map_option (\<lambda>x. core (g x)) (getTransfer s i)"
  using arg_cong [OF assms, of "\<lambda>st. store_get st i"] by (simp add: getTransfer_def)

lemma delivery_pass:
  assumes wf: "tracker_wf s" and known: "\<And>d. \<exists>c. getChainName E d = ret c"
  shows "\<exists>s'. op_for (getInProgressTransfers s) (checkTransferDelivery E tags) s = (ret (), s') \<and> tracker_wf s' \<and>
    map_store core (transferStore s') = map_store (\<lambda>x. core (synced_transfer E tags x)) (transferStore s)"
proof -
  let ?ids = "te_id ` set (getInProgressTransfers s)"
  have sub: "set (getInProgressTransfers s) \<subseteq> set (dict_values (transferStore s))"
    by (auto simp: getInProgressTransfers_def store_getByStatus_def)
  have "map_store (\<lambda>x. core (delivery_spec E tags ?ids x)) (transferStore s)
      = map_store (\<lambda>x. core (synced_transfer E tags x)) (transferStore s)"
  proof (rule map_store_cong)
    fix x assume x: "x \<in> set (dict_values (transferStore s))"
    have "te_id x \<in> ?ids \<longleftrightarrow> te_status x = TransferInProgress"
    proof
      assume "te_id x \<in> ?ids"
      then obtain y where y: "y \<in> set (getInProgressTransfers s)" "te_id x = te_id y" by blast
      have "x = y" by (rule store_unique [OF tracker_wf_sel(1) [OF wf] x _ y(2)]) (use y(1) sub in blast)
      then show "te_status x = TransferInProgress" using y(1) by (simp add: getInProgressTransfers_def store_getByStatus_def)
    qed (use x in \<open>auto simp: getInProgressTransfers_def store_getByStatus_def\<close>)
    then show "core (delivery_spec E tags ?ids x) = core (synced_transfer E tags x)"
      by (simp add: delivery_spec_def synced_transfer_def)
  qed
  then show ?thesis using delivery_loop [OF wf sub known, of tags] by simp
qed

lemma syncTransfers_run:
  assumes wf: "tracker_wf s" and known: "\<And>d. \<exists>c. getChainName E d = ret c"
    and msgs: "getInflightUserTransfers E (routersByDomain cfg) (excludeTxSenders cfg) = ret msgs"
  obtains s1 s' where "syncTransfers E cfg tags s = (ret (), s')" "tracker_wf s'" "messages_inv s msgs s1"
    "map_store core (transferStore s') = map_store (\<lambda>x. core (synced_transfer E tags x)) (transferStore s1)"
proof -
  obtain s1 where s1: "op_for msgs (syncTransferMessage E) s = (ret (), s1)" "messages_inv s msgs s1"
    using messages_loop [OF wf] by blast
  have wf1: "tracker_wf s1" using s1(2) by (simp add: messages_inv_def)
  from delivery_pass [OF wf1 known] obtain s' where
    "op_for (getInProgressTransfers s1) (checkTransferDelivery E tags) s1 = (ret (), s')" "tracker_wf s'"
    "map_store core (transferStore s') = map_store (\<lambda>x. core (synced_transfer E tags x)) (transferStore s1)" by blast
  then show ?thesis using that s1 msgs by (simp add: syncTransfers_def op_simps)
qed

text \<open>
  C35. When the Explorer answers and every domain has a chain, a synchronization of transfers
  returns. A known transfer is complete afterwards exactly when it was complete or its message is
  delivered at the confirmed block, and is otherwise unchanged; every new transfer is that of one of
  the Explorer's messages, checked for delivery in the same pass; every message that parses has a
  transfer; and no transfer left in progress is delivered.
\<close>

theorem syncTransfers_spec:
  assumes wf: "tracker_wf s" and known: "\<And>d. \<exists>c. getChainName E d = ret c"
    and msgs: "getInflightUserTransfers E (routersByDomain cfg) (excludeTxSenders cfg) = ret msgs"
  shows "\<exists>s'. syncTransfers E cfg tags s = (ret (), s')
    \<and> (\<forall>i x. getTransfer s i = Some x \<longrightarrow> (\<exists>y. getTransfer s' i = Some y \<and> core y = core (synced_transfer E tags x)))
    \<and> (\<forall>i y. getTransfer s i = None \<longrightarrow> getTransfer s' i = Some y \<longrightarrow>
        (\<exists>m \<in> set msgs. \<exists>x. is_new_transfer m x \<and> core y = core (synced_transfer E tags x)))
    \<and> (\<forall>m \<in> set msgs. \<forall>p. parseWarpRouteMessage (message_body m) = ret p \<longrightarrow> getTransfer s' (msg_id m) \<noteq> None)
    \<and> (\<forall>y \<in> set (getInProgressTransfers s'). \<not> transfer_delivered E tags y)"
proof -
  obtain s1 s' where run: "syncTransfers E cfg tags s = (ret (), s')" "tracker_wf s'" and inv: "messages_inv s msgs s1"
    and st: "map_store core (transferStore s') = map_store (\<lambda>x. core (synced_transfer E tags x)) (transferStore s1)"
    by (rule syncTransfers_run [OF wf known msgs])
  note look = getTransfer_core [OF st]
  have old: "\<exists>y. getTransfer s' i = Some y \<and> core y = core (synced_transfer E tags x)" if "getTransfer s i = Some x" for i x
  proof -
    have "getTransfer s1 i = Some x" using inv that unfolding messages_inv_def by blast
    then show ?thesis using look [of i] by auto
  qed
  have new: "\<exists>m \<in> set msgs. \<exists>x. is_new_transfer m x \<and> core y = core (synced_transfer E tags x)"
    if n: "getTransfer s i = None" "getTransfer s' i = Some y" for i y
  proof -
    obtain x where x: "getTransfer s1 i = Some x" "core y = core (synced_transfer E tags x)"
      using look [of i] n(2) by (cases "getTransfer s1 i") auto
    then show ?thesis using inv n(1) unfolding messages_inv_def by blast
  qed
  have present: "getTransfer s' (msg_id m) \<noteq> None"
    if "m \<in> set msgs" "parseWarpRouteMessage (message_body m) = ret p" for m p
  proof -
    have "getTransfer s1 (msg_id m) \<noteq> None" using inv that unfolding messages_inv_def by blast
    then show ?thesis using look [of "msg_id m"] by auto
  qed
  have "\<not> transfer_delivered E tags y" if y: "y \<in> set (getInProgressTransfers s')" for y
  proof -
    have "y \<in> set (dict_values (transferStore s'))" and p: "te_status y = TransferInProgress"
      using y by (auto simp: getInProgressTransfers_def store_getByStatus_def)
    then have "getTransfer s' (te_id y) = Some y"
      using store_get_member [OF tracker_wf_sel(1) [OF run(2)], THEN iffD1] by (simp add: getTransfer_def)
    then obtain x where x: "core y = core (synced_transfer E tags x)"
      using look [of "te_id y"] by (cases "getTransfer s1 (te_id y)") auto
    have "te_status (synced_transfer E tags x) = TransferInProgress"
      using arg_cong [OF x, of te_status] p by simp
    then have "te_status x = TransferInProgress \<and> \<not> transfer_delivered E tags x"
      by (auto simp: synced_transfer_def split: if_splits)
    then have "core y = core x \<and> \<not> transfer_delivered E tags x" using x by (simp add: synced_transfer_def)
    then show ?thesis by (metis transfer_delivered_core)
  qed
  then show ?thesis using run(1) old new present by blast
qed


theorem syncTransfers_spec_witness:
  "tracker_wf ex_state \<and> (\<exists>s' y. syncTransfers ex_env ex_cfg None ex_state = (ret (), s')
     \<and> getTransfer s' ''m1'' = Some y \<and> core y = (ex_transfer ''m1'')\<lparr>te_status := TransferComplete\<rparr>)"
proof -
  have known: "\<exists>c. getChainName ex_env d = ret c" for d by (simp add: ex_env_def)
  have msgs: "getInflightUserTransfers ex_env (routersByDomain ex_cfg) (excludeTxSenders ex_cfg)
      = ret [ex_msg ''m1'', ex_msg ''m3'']" by (simp add: ex_env_def)
  have "core (synced_transfer ex_env None (ex_transfer ''m1'')) = (ex_transfer ''m1'')\<lparr>te_status := TransferComplete\<rparr>"
    by (simp add: synced_transfer_def transfer_delivered_def confirmedBlockTag_def getConfirmedBlockTag_def
        isMessageDelivered_def isEVMLike_def latestBlock_def ex_env_def ex_transfer_def core_def)
  then show ?thesis
    using syncTransfers_spec [OF ex_state_wf known msgs, of None] ex_state_wf ex_lookups(1) by metis
qed

end
