(* ===== verification/Gas_Estimation.thy ===== *)
theory Gas_Estimation
  imports Action_Tracker
begin

text \<open>
  \<open>typescript/rebalancer/src/utils/gasEstimation.ts\<close>: what a \<open>transferRemote\<close> costs and how much of an
  inventory it can send, with \<open>addBufferToGasLimit\<close> (\<open>utils/src/amount.ts\<close>) and \<open>isZeroishAddress\<close>
  (\<open>utils/src/addresses.ts\<close>). What the token adapter and the provider answer is the record \<open>gas_env\<close>:
  the calculation asks each question at most once, so one record of answers covers every run.
\<close>

section \<open>Addresses that mean zero\<close>

text \<open>The regular expressions of \<open>addresses.ts\<close>, as predicates.\<close>

definition all_zeros :: "string \<Rightarrow> bool" where
  "all_zeros s = list_all (\<lambda>c. c = CHR ''0'') s"

definition isZeroishAddressEvm :: "string \<Rightarrow> bool" where
  "isZeroishAddressEvm a \<longleftrightarrow> all_zeros a \<or> startsWith a ''0x'' \<and> all_zeros (drop 2 a)"

definition sealevelZeroish :: "string \<Rightarrow> bool" where
  "sealevelZeroish a \<longleftrightarrow> a \<noteq> [] \<and> list_all (\<lambda>c. c = CHR ''1'') a"

definition lowercase :: "char \<Rightarrow> bool" where
  "lowercase c \<longleftrightarrow> 97 \<le> (of_char c :: nat) \<and> (of_char c :: nat) \<le> 122"

definition digit :: "char \<Rightarrow> bool" where
  "digit c \<longleftrightarrow> 48 \<le> (of_char c :: nat) \<and> (of_char c :: nat) \<le> 57"

definition cosmosZeroish :: "string \<Rightarrow> bool" where
  "cosmosZeroish a =
     (let p = takeWhile lowercase a; r = drop (length p) a
      in p \<noteq> [] \<and> length p \<le> 10 \<and> startsWith r ''1'' \<and> drop 1 r \<noteq> [] \<and> all_zeros (drop 1 r))"

definition ALEO_ZERO_ADDRESS :: string where
  "ALEO_ZERO_ADDRESS = ''aleo1'' @ replicate 52 (CHR ''q'') @ ''3ljyzc''"

definition aleoZeroish :: "string \<Rightarrow> bool" where
  "aleoZeroish a =
     (a = ALEO_ZERO_ADDRESS
      \<or> (let suffix = ''.aleo/'' @ ALEO_ZERO_ADDRESS; n = length a - length suffix
         in 0 < n \<and> drop n a = suffix
           \<and> list_all (\<lambda>c. lowercase c \<or> digit c \<or> c = CHR ''_'') (take n a)))"

definition isZeroishAddress :: "string \<Rightarrow> bool" where
  "isZeroishAddress a \<longleftrightarrow> isZeroishAddressEvm a \<or> sealevelZeroish a \<or> cosmosZeroish a \<or> aleoZeroish a
     \<or> a = ''T9yD14Nj9j7xAB4dbGeiX9h8unkKHxuWwb''"

section \<open>Transfer costs\<close>

record Quote =
  q_addressOrDenom :: "string option"
  q_amount :: int

record InterchainGasQuote =
  igpQuote :: Quote
  tokenFeeQuote :: "Quote option"

record TransferCostEstimate =
  igpCost :: int
  gasCost :: int
  tokenFeeCost :: int
  totalCost :: int
  maxTransferable :: int
  minViableTransfer :: int
  gasQuote :: InterchainGasQuote

record FeeData =
  maxFeePerGas :: "int option"
  gasPrice :: "int option"

record 'tx gas_env =
  getDomainId :: "chain \<Rightarrow> domain result"
  getProtocol :: "chain \<Rightarrow> string result"
  quoteTransferRemoteGas :: "Token \<Rightarrow> domain \<Rightarrow> address \<Rightarrow> address \<Rightarrow> int \<Rightarrow> InterchainGasQuote result"
  populateTransferRemoteTx :: "Token \<Rightarrow> domain \<Rightarrow> address \<Rightarrow> int \<Rightarrow> InterchainGasQuote \<Rightarrow> 'tx result"
  providerEstimateGas :: "chain \<Rightarrow> 'tx \<Rightarrow> address \<Rightarrow> int result"
  getFeeData :: "chain \<Rightarrow> FeeData result"

definition FALLBACK_TRANSFER_REMOTE_GAS_LIMIT :: int where
  "FALLBACK_TRANSFER_REMOTE_GAS_LIMIT = 300000"

definition MIN_VIABLE_COST_MULTIPLIER :: int where
  "MIN_VIABLE_COST_MULTIPLIER = 2"

definition DEFAULT_GAS_LIMIT_BUFFER_PERCENT :: int where
  "DEFAULT_GAS_LIMIT_BUFFER_PERCENT = 10"

text \<open>\<open>BigNumber\<close> of ethers divides like a \<open>bigint\<close>.\<close>

definition addBufferToGasLimit :: "int \<Rightarrow> int \<Rightarrow> int" where
  "addBufferToGasLimit estimatedGas bufferPercent = estimatedGas * (100 + bufferPercent) sdiv 100"

definition estimateTransferRemoteGas ::
    "('tx, 'm) gas_env_scheme \<Rightarrow> (chain \<Rightarrow> Token option) \<Rightarrow> chain \<Rightarrow> chain \<Rightarrow> int \<Rightarrow> address \<Rightarrow> InterchainGasQuote option \<Rightarrow> int" where
  "estimateTransferRemoteGas G getTokenForChain originChain destinationChain amt inventorySigner providedGasQuote =
     (case getTokenForChain originChain of
        None \<Rightarrow> FALLBACK_TRANSFER_REMOTE_GAS_LIMIT
      | Some originToken \<Rightarrow>
          (case rbind (getDomainId G destinationChain) (\<lambda>destinationDomain.
              rbind (case providedGasQuote of
                  Some q \<Rightarrow> ret q
                | None \<Rightarrow> quoteTransferRemoteGas G originToken destinationDomain inventorySigner inventorySigner amt) (\<lambda>quote.
              rbind (populateTransferRemoteTx G originToken destinationDomain inventorySigner 1 quote) (\<lambda>populatedTx.
                providerEstimateGas G originChain populatedTx inventorySigner))) of
             Inl _ \<Rightarrow> FALLBACK_TRANSFER_REMOTE_GAS_LIMIT
           | Inr estimatedGas \<Rightarrow> estimatedGas))"

definition nativeTokenFee :: "InterchainGasQuote \<Rightarrow> int" where
  "nativeTokenFee q =
     (case tokenFeeQuote q of
        None \<Rightarrow> 0
      | Some fee \<Rightarrow> (case q_addressOrDenom fee of
            None \<Rightarrow> q_amount fee
          | Some a \<Rightarrow> if a = [] \<or> isZeroishAddress a then q_amount fee else 0))"

definition afterReservation :: "int \<Rightarrow> int \<Rightarrow> int \<Rightarrow> int" where
  "afterReservation availableInventory requestedAmount cost =
     (if availableInventory \<le> cost then 0
      else let maxAfterReservation = availableInventory - cost
           in if maxAfterReservation < requestedAmount then maxAfterReservation else requestedAmount)"

definition calculateTransferCosts ::
    "('tx, 'm) gas_env_scheme \<Rightarrow> (chain \<Rightarrow> Token option) \<Rightarrow> chain \<Rightarrow> chain \<Rightarrow> int \<Rightarrow> int \<Rightarrow> address
      \<Rightarrow> TransferCostEstimate result" where
  "calculateTransferCosts G getTokenForChain originChain destinationChain availableInventory requestedAmount inventorySigner =
     (case getTokenForChain originChain of
        None \<Rightarrow> throw (Thrown ''No token found for origin chain'' originChain)
      | Some originToken \<Rightarrow>
        rbind (getDomainId G destinationChain) (\<lambda>destinationDomain.
        rbind (quoteTransferRemoteGas G originToken destinationDomain inventorySigner inventorySigner requestedAmount) (\<lambda>quote.
        if \<not> isNativeTokenStandard (standard originToken) then
          ret \<lparr>igpCost = 0, gasCost = 0, tokenFeeCost = 0, totalCost = 0,
            maxTransferable = (if availableInventory < requestedAmount then availableInventory else requestedAmount),
            minViableTransfer = 0, gasQuote = quote\<rparr>
        else
          let igp = q_amount (igpQuote quote); fee = nativeTokenFee quote in
          rbind (getProtocol G originChain) (\<lambda>originProtocol.
          if \<not> isEVMLike originProtocol then
            let cost = igp + fee in
            ret \<lparr>igpCost = igp, gasCost = 0, tokenFeeCost = fee, totalCost = cost,
              maxTransferable = afterReservation availableInventory requestedAmount cost,
              minViableTransfer = cost * MIN_VIABLE_COST_MULTIPLIER, gasQuote = quote\<rparr>
          else
            let estimatedGasLimit = estimateTransferRemoteGas G getTokenForChain originChain destinationChain requestedAmount
                  inventorySigner (Some quote);
                bufferedGasLimit = addBufferToGasLimit estimatedGasLimit DEFAULT_GAS_LIMIT_BUFFER_PERCENT
            in rbind (getFeeData G originChain) (\<lambda>feeData.
               let price = (case maxFeePerGas feeData of Some p \<Rightarrow> p | None \<Rightarrow>
                      (case gasPrice feeData of Some p \<Rightarrow> p | None \<Rightarrow> 0));
                   gas = bufferedGasLimit * price;
                   cost = igp + gas + fee
               in ret \<lparr>igpCost = igp, gasCost = gas, tokenFeeCost = fee, totalCost = cost,
                 maxTransferable = afterReservation availableInventory requestedAmount cost,
                 minViableTransfer = cost * MIN_VIABLE_COST_MULTIPLIER, gasQuote = quote\<rparr>)))))"

section \<open>Bounds\<close>

text \<open>Amounts, gas and prices that the chains report are not negative.\<close>

definition gas_env_nonneg :: "('tx, 'm) gas_env_scheme \<Rightarrow> bool" where
  "gas_env_nonneg G \<longleftrightarrow>
     (\<forall>t d s r n q. quoteTransferRemoteGas G t d s r n = ret q \<longrightarrow>
        0 \<le> q_amount (igpQuote q) \<and> (\<forall>f. tokenFeeQuote q = Some f \<longrightarrow> 0 \<le> q_amount f))
   \<and> (\<forall>c tx a g. providerEstimateGas G c tx a = ret g \<longrightarrow> 0 \<le> g)
   \<and> (\<forall>c f p. getFeeData G c = ret f \<longrightarrow> (maxFeePerGas f = Some p \<or> gasPrice f = Some p) \<longrightarrow> 0 \<le> p)"

lemma estimateTransferRemoteGas_nonneg:
  assumes "gas_env_nonneg G"
  shows "0 \<le> estimateTransferRemoteGas G tok c d n a q"
proof -
  have g: "0 \<le> g" if "providerEstimateGas G c' tx a' = ret g" for c' tx a' g
    using assms that unfolding gas_env_nonneg_def by blast
  have "0 \<le> (case r of Inl _ \<Rightarrow> FALLBACK_TRANSFER_REMOTE_GAS_LIMIT | Inr g \<Rightarrow> g)" if "\<forall>g. r = ret g \<longrightarrow> 0 \<le> g" for r :: "int result"
    using that by (cases r) (simp_all add: FALLBACK_TRANSFER_REMOTE_GAS_LIMIT_def)
  note case_nonneg = this
  show ?thesis
  proof (cases "tok c")
    case (Some t)
    show ?thesis unfolding estimateTransferRemoteGas_def Some option.case
      by (rule case_nonneg) (use g in \<open>auto simp: rbind_eq_Inr_iff\<close>)
  qed (simp add: estimateTransferRemoteGas_def FALLBACK_TRANSFER_REMOTE_GAS_LIMIT_def)
qed

lemma addBufferToGasLimit_ge: "0 \<le> g \<Longrightarrow> g \<le> addBufferToGasLimit g DEFAULT_GAS_LIMIT_BUFFER_PERCENT"
  by (simp add: addBufferToGasLimit_def DEFAULT_GAS_LIMIT_BUFFER_PERCENT_def sdiv_nonneg)

lemma afterReservation_bounds:
  assumes "0 \<le> r"
  shows "0 \<le> afterReservation a r t" "afterReservation a r t \<le> r"
    "0 < afterReservation a r t \<Longrightarrow> afterReservation a r t + t \<le> a"
    "a < r + t \<Longrightarrow> t < a \<Longrightarrow> afterReservation a r t = a - t"
    "r + t \<le> a \<Longrightarrow> 0 \<le> t \<Longrightarrow> afterReservation a r t = r"
  using assms by (auto simp: afterReservation_def Let_def)

lemma nativeTokenFee_nonneg:
  assumes "gas_env_nonneg G" "quoteTransferRemoteGas G t d s r n = ret q"
  shows "0 \<le> nativeTokenFee q" "0 \<le> q_amount (igpQuote q)"
  using assms unfolding gas_env_nonneg_def nativeTokenFee_def by (auto split: option.split)

text \<open>The estimate is the reservation of three costs that are not negative; a token that is not native has none.\<close>

definition reserves :: "TransferCostEstimate \<Rightarrow> int \<Rightarrow> int \<Rightarrow> bool" where
  "reserves x available requested \<longleftrightarrow> 0 \<le> igpCost x \<and> 0 \<le> gasCost x \<and> 0 \<le> tokenFeeCost x
     \<and> totalCost x = igpCost x + gasCost x + tokenFeeCost x \<and> minViableTransfer x = 2 * totalCost x
     \<and> (maxTransferable x = afterReservation available requested (totalCost x)
        \<or> totalCost x = 0 \<and> maxTransferable x = min available requested)"

lemma costs_shape:
  assumes nn: "gas_env_nonneg G" and run: "calculateTransferCosts G tok c d available requested signer = ret x"
  shows "reserves x available requested"
proof -
  obtain t dom q where t: "tok c = Some t" and q: "quoteTransferRemoteGas G t dom signer signer requested = ret q"
    using run unfolding calculateTransferCosts_def by (auto simp: rbind_eq_Inr_iff split: option.splits)
  have fee: "0 \<le> price \<longrightarrow> 0 \<le> addBufferToGasLimit (estimateTransferRemoteGas G tok c d requested signer (Some q))
      DEFAULT_GAS_LIMIT_BUFFER_PERCENT * price" for price q
    using addBufferToGasLimit_ge estimateTransferRemoteGas_nonneg [OF nn] by (meson mult_nonneg_nonneg order_trans)
  have price: "0 \<le> (case maxFeePerGas f of Some p \<Rightarrow> p | None \<Rightarrow> (case gasPrice f of Some p \<Rightarrow> p | None \<Rightarrow> 0))"
    if "getFeeData G c = ret f" for f
    using nn that unfolding gas_env_nonneg_def by (auto split: option.split)
  show ?thesis
    using run t nativeTokenFee_nonneg [OF nn] fee price
    unfolding calculateTransferCosts_def reserves_def
    by (auto simp: rbind_eq_Inr_iff Let_def MIN_VIABLE_COST_MULTIPLIER_def split: if_splits)
qed

lemma reserved_bounds:
  assumes "reserves x available requested" "0 \<le> available" "0 \<le> requested"
  shows "0 \<le> igpCost x \<and> 0 \<le> gasCost x \<and> 0 \<le> tokenFeeCost x
    \<and> totalCost x = igpCost x + gasCost x + tokenFeeCost x \<and> minViableTransfer x = 2 * totalCost x
    \<and> 0 \<le> maxTransferable x \<and> maxTransferable x \<le> requested
    \<and> (0 < maxTransferable x \<longrightarrow> maxTransferable x + totalCost x \<le> available)
    \<and> (maxTransferable x < requested \<longrightarrow> available < requested + totalCost x)
    \<and> (maxTransferable x = 0 \<longrightarrow> requested = 0 \<or> available \<le> totalCost x)"
  using assms by (auto simp: reserves_def afterReservation_def Let_def split: if_splits)


definition ex_gas_env :: "int gas_env" where
  "ex_gas_env = \<lparr>getDomainId = (\<lambda>_. ret 1), getProtocol = (\<lambda>_. ret ''ethereum''),
     quoteTransferRemoteGas = (\<lambda>_ _ _ _ _. ret \<lparr>igpQuote = \<lparr>q_addressOrDenom = None, q_amount = 7\<rparr>,
       tokenFeeQuote = Some \<lparr>q_addressOrDenom = Some ''0x00'', q_amount = 3\<rparr>\<rparr>),
     populateTransferRemoteTx = (\<lambda>_ _ _ n _. ret n), providerEstimateGas = (\<lambda>_ _ _. ret 100),
     getFeeData = (\<lambda>_. ret \<lparr>maxFeePerGas = None, gasPrice = Some 2\<rparr>)\<rparr>"

lemma ex_gas_env_nonneg: "gas_env_nonneg ex_gas_env"
  by (auto simp: gas_env_nonneg_def ex_gas_env_def)


end
