(* ===== verification/Probe_Errors.thy ===== *)
theory Probe_Errors
  imports Hex_Messages
begin

text \<open>
  \<open>isRecoverableMaxTransferProbeError\<close> of \<open>typescript/rebalancer/src/core/InventoryRebalancer.ts\<close>: whether a
  thrown value, or one it was caused by, says that a balance was too small. A thrown value may
  be anything, and the \<open>cause\<close> and \<open>error\<close> properties of objects may form a cycle, so values refer to
  objects of a heap. An object without an entry in the heap has none of the four properties.
  Strings are strings of ASCII letters for the change of case.
\<close>

datatype js_value = JUndefined | JPrimitive | JString string | JObject nat

record js_object =
  o_code :: js_value
  o_message :: js_value
  o_cause :: js_value
  o_error :: js_value

type_synonym js_heap = "(nat, js_object) dict"

section \<open>The search\<close>

definition toUpperCase :: "string \<Rightarrow> string" where
  "toUpperCase s = map (\<lambda>ch. if 97 \<le> (of_char ch :: nat) \<and> (of_char ch :: nat) \<le> 122
     then char_of ((of_char ch :: nat) - 32) else ch) s"

definition js_includes :: "string \<Rightarrow> string \<Rightarrow> bool" where
  "js_includes s pattern = list_ex (\<lambda>i. startsWith (drop i s) pattern) [0..<Suc (length s)]"

definition RECOVERABLE_MAX_TRANSFER_ERROR_MESSAGES :: "string list" where
  "RECOVERABLE_MAX_TRANSFER_ERROR_MESSAGES =
     [''balance may be insufficient'', ''transfer amount exceeds balance'', ''insufficient balance'']"

definition hasRecoverableMaxTransferErrorMessage :: "string \<Rightarrow> bool" where
  "hasRecoverableMaxTransferErrorMessage message =
     (let normalized = toLowerHex message
      in js_includes normalized ''unpredictable_gas_limit''
        \<or> list_ex (js_includes normalized) RECOVERABLE_MAX_TRANSFER_ERROR_MESSAGES)"

definition candidateMatches :: "js_object \<Rightarrow> bool" where
  "candidateMatches candidate \<longleftrightarrow>
     (case o_code candidate of JString code \<Rightarrow> toUpperCase code = ''UNPREDICTABLE_GAS_LIMIT'' | _ \<Rightarrow> False)
   \<or> (case o_message candidate of JString m \<Rightarrow> hasRecoverableMaxTransferErrorMessage m | _ \<Rightarrow> False)"

text \<open>The head of \<open>stack\<close> is its top: \<open>push(cause, error)\<close> leaves \<open>error\<close> on top.\<close>

function probeLoop :: "js_heap \<Rightarrow> nat list \<Rightarrow> js_value list \<Rightarrow> bool" where
  "probeLoop h seen [] = False"
| "probeLoop h seen (JUndefined # stack) = probeLoop h seen stack"
| "probeLoop h seen (JPrimitive # stack) = probeLoop h seen stack"
| "probeLoop h seen (JString s # stack) = (hasRecoverableMaxTransferErrorMessage s \<or> probeLoop h seen stack)"
| "probeLoop h seen (JObject a # stack) =
     (if List.member seen a then probeLoop h seen stack
      else case map_of h a of
        None \<Rightarrow> probeLoop h seen stack
      | Some candidate \<Rightarrow>
          candidateMatches candidate \<or> probeLoop h (a # seen) (o_error candidate # o_cause candidate # stack))"
  by pat_completeness auto

text \<open>Each pass takes a value from the stack or marks one more object of the heap as seen.\<close>

lemma unseen_decreases:
  assumes "map_of h a = Some candidate" "a \<notin> set seen"
  shows "card (set (dict_keys h) - set (a # seen)) < card (set (dict_keys h) - set seen)"
proof (rule psubset_card_mono)
  have "a \<in> set (dict_keys h)" using assms(1) by (force dest: map_of_SomeD)
  then show "set (dict_keys h) - set (a # seen) \<subset> set (dict_keys h) - set seen" using assms(2) by auto
qed simp

termination probeLoop
  by (relation "measures [\<lambda>(h, seen, stack). card (set (dict_keys h) - set seen), \<lambda>(h, seen, stack). length stack]")
    (use unseen_decreases in \<open>auto simp: List.member_iff simp del: set_map\<close>)

definition isRecoverableMaxTransferProbeError :: "js_heap \<Rightarrow> js_value \<Rightarrow> bool" where
  "isRecoverableMaxTransferProbeError h error = probeLoop h [] [error]"

section \<open>The search finds what is reachable\<close>

fun recoverable :: "js_heap \<Rightarrow> js_value \<Rightarrow> bool" where
  "recoverable h (JString s) = hasRecoverableMaxTransferErrorMessage s"
| "recoverable h (JObject a) = (case map_of h a of None \<Rightarrow> False | Some candidate \<Rightarrow> candidateMatches candidate)"
| "recoverable h _ = False"

inductive caused_by :: "js_heap \<Rightarrow> js_value \<Rightarrow> js_value \<Rightarrow> bool" for h where
  cause: "map_of h a = Some candidate \<Longrightarrow> caused_by h (JObject a) (o_cause candidate)"
| error: "map_of h a = Some candidate \<Longrightarrow> caused_by h (JObject a) (o_error candidate)"

inductive_simps caused_by_simps:
  "caused_by h (JObject a) w" "caused_by h JUndefined w" "caused_by h JPrimitive w" "caused_by h (JString s) w"

lemma probeLoop_sound:
  "probeLoop h seen stack \<Longrightarrow> \<exists>v \<in> set stack. \<exists>w. (caused_by h)\<^sup>*\<^sup>* v w \<and> recoverable h w"
proof (induction h seen stack rule: probeLoop.induct)
  case (4 h seen s stack)
  then show ?case by (auto intro: exI [of _ "JString s"])
next
  case (5 h seen a stack)
  show ?case
  proof (cases "List.member seen a \<or> map_of h a = None")
    case True
    then have "probeLoop h seen stack" using "5.prems" by (auto split: if_splits)
    then show ?thesis using "5.IH"(1,2) True by (cases "List.member seen a") auto
  next
    case False
    then obtain c where c: "\<not> List.member seen a" "map_of h a = Some c" by auto
    show ?thesis
    proof (cases "candidateMatches c")
      case True
      then show ?thesis using c(2) by (auto intro!: bexI [of _ "JObject a"] exI [of _ "JObject a"])
    next
      case False
      then have "probeLoop h (a # seen) (o_error c # o_cause c # stack)" using "5.prems" c by simp
      then obtain v w where v: "v \<in> set (o_error c # o_cause c # stack)" "(caused_by h)\<^sup>*\<^sup>* v w" "recoverable h w"
        using "5.IH"(3) [OF c] by blast
      show ?thesis
      proof (cases "v \<in> set stack")
        case False
        then have "caused_by h (JObject a) v" using v(1) c(2) by (auto simp: caused_by_simps)
        then show ?thesis using v(2,3) by (auto intro: converse_rtranclp_into_rtranclp)
      qed (use v in auto)
    qed
  qed
qed auto

text \<open>When the loop finds nothing, the values it has visited are closed under causes, up to the objects seen before.\<close>

definition explored :: "js_heap \<Rightarrow> nat list \<Rightarrow> js_value set \<Rightarrow> bool" where
  "explored h seen D \<longleftrightarrow> (\<forall>w \<in> D. w \<in> JObject ` set seen \<or> \<not> recoverable h w \<and> (\<forall>u. caused_by h w u \<longrightarrow> u \<in> D))"

lemma explored_insert: "explored h seen D \<Longrightarrow> \<not> recoverable h v \<Longrightarrow> (\<forall>u. \<not> caused_by h v u) \<Longrightarrow> explored h seen (insert v D)"
  by (auto simp: explored_def)

lemma probeLoop_complete:
  "\<not> probeLoop h seen stack \<Longrightarrow> \<exists>D. set stack \<subseteq> D \<and> explored h seen D"
proof (induction h seen stack rule: probeLoop.induct)
  case (1 h seen)
  then show ?case by (auto simp: explored_def)
next
  case (2 h seen stack)
  then obtain D where "set stack \<subseteq> D" "explored h seen D" by auto
  then show ?case by (intro exI [of _ "insert JUndefined D"]) (auto intro: explored_insert simp: caused_by_simps)
next
  case (3 h seen stack)
  then obtain D where "set stack \<subseteq> D" "explored h seen D" by auto
  then show ?case by (intro exI [of _ "insert JPrimitive D"]) (auto intro: explored_insert simp: caused_by_simps)
next
  case (4 h seen s stack)
  then obtain D where "set stack \<subseteq> D" "explored h seen D" by auto
  then show ?case using 4
    by (intro exI [of _ "insert (JString s) D"]) (auto intro: explored_insert simp: caused_by_simps)
next
  case (5 h seen a stack)
  consider "a \<in> set seen" | "a \<notin> set seen" "map_of h a = None" | c where "a \<notin> set seen" "map_of h a = Some c" by fastforce
  then show ?case
  proof cases
    case 1
    then obtain D where D: "set stack \<subseteq> D" "explored h seen D" using 5 by (auto simp: List.member_iff)
    then have "explored h seen (insert (JObject a) D)" using 1 by (auto simp: explored_def)
    then show ?thesis using D(1) by (metis insert_mono list.simps(15))
  next
    case 2
    then obtain D where D: "set stack \<subseteq> D" "explored h seen D" using 5 by (auto simp: List.member_iff)
    then have "explored h seen (insert (JObject a) D)" using 2 by (intro explored_insert) (auto simp: caused_by_simps)
    then show ?thesis using D(1) by (metis insert_mono list.simps(15))
  next
    case (3 c)
    then have c: "\<not> candidateMatches c" "\<not> probeLoop h (a # seen) (o_error c # o_cause c # stack)"
      using 5(4) by (auto simp: List.member_iff)
    then obtain D where D: "set (o_error c # o_cause c # stack) \<subseteq> D" "explored h (a # seen) D"
      using 5(3) 3 by (auto simp: List.member_iff)
    have "explored h seen (insert (JObject a) D)"
      using D 3(2) c(1) unfolding explored_def by (auto simp: caused_by_simps)
    then show ?thesis using D(1) by auto
  qed
qed

text \<open>
  C30. The search for a recoverable error ends on every heap, cycles included, and it is exact: it
  answers true if and only if a value reachable from the thrown one through \<open>cause\<close> and \<open>error\<close> is
  a string or an object that names an insufficient balance or an unpredictable gas limit.
\<close>

theorem isRecoverableMaxTransferProbeError_iff:
  "isRecoverableMaxTransferProbeError h v \<longleftrightarrow> (\<exists>w. (caused_by h)\<^sup>*\<^sup>* v w \<and> recoverable h w)"
proof
  show "isRecoverableMaxTransferProbeError h v \<Longrightarrow> \<exists>w. (caused_by h)\<^sup>*\<^sup>* v w \<and> recoverable h w"
    using probeLoop_sound [of h "[]" "[v]"] by (simp add: isRecoverableMaxTransferProbeError_def)
next
  assume "\<exists>w. (caused_by h)\<^sup>*\<^sup>* v w \<and> recoverable h w"
  then obtain w where w: "(caused_by h)\<^sup>*\<^sup>* v w" "recoverable h w" by blast
  show "isRecoverableMaxTransferProbeError h v"
  proof (rule ccontr)
    assume "\<not> isRecoverableMaxTransferProbeError h v"
    then obtain D where D: "v \<in> D" "explored h [] D"
      using probeLoop_complete [of h "[]" "[v]"] by (auto simp: isRecoverableMaxTransferProbeError_def)
    from w(1) D(1) have "w \<in> D"
      by (induction rule: rtranclp_induct) (use D(2) in \<open>auto simp: explored_def\<close>)
    then show False using D(2) w(2) by (simp add: explored_def)
  qed
qed

end
