(* ===== verification/Inventory_Rebalancer.thy ===== *)
theory Inventory_Rebalancer
  imports Gas_Estimation Probe_Errors
begin

text \<open>
  \<open>typescript/rebalancer/src/core/InventoryRebalancer.ts\<close>: rebalancing with the rebalancer's own inventory.
  A route from a surplus chain to a deficit chain is executed as a \<open>transferRemote\<close> from the
  deficit chain, paid from the inventory there; when that inventory is short, an external bridge
  first moves inventory to the deficit chain.

  What the chains, the token contracts and the bridge answer is the record \<open>inventory_env\<close>. Answers
  change over time, so the definitions take a \<open>world\<close>, which has one such record for every call that is made,
  and the state counts the calls. The movements a plan starts in parallel run here in the order of the
  plan: each one writes an action of its own and the consumption of its own source chain, and the
  answers it gets are arbitrary in any order.

  The text of an error is the value of \<open>inventory_failure\<close> or \<open>movement_failure\<close> it is built from.
  Log calls, and the amounts that are only formatted for them, are left out.
\<close>

section \<open>Data\<close>

record BridgeCapacity =
  maxSourceInput :: int
  maxTargetOutput :: int

datatype BridgeQuoteMode = forward | reverse

datatype movement_failure =
    NoSourceToken chain
  | NoTargetToken chain
  | InputExceeded int int
  | MovementError js_error

record movement_success =
  mv_txHash :: string
  inputRequired :: int
  quotedOutput :: int
  quotedOutputMin :: int
  quoteModeUsed :: BridgeQuoteMode

type_synonym InventoryMovementExecutionResult = "movement_failure + movement_success"

record InventorySignerConfig =
  is_address :: string
  is_key :: "string option"

record InventoryRebalancerConfig =
  inventorySigners :: "(string, InventorySignerConfig) dict"
  inventoryChains :: "chain list"

record BridgeQuoteParams =
  fromChain :: int
  toChain :: int
  fromToken :: string
  toToken :: string
  bp_fromAmount :: "int option"
  bp_toAmount :: "int option"
  fromAddress :: address
  toAddress :: address

text \<open>The fields of a quote that the rebalancer reads; \<open>bq_route\<close> is what the bridge executes.\<close>

record 'q BridgeQuote =
  bq_fromAmount :: int
  bq_toAmount :: int
  bq_toAmountMin :: int
  bq_gasCosts :: int
  bq_route :: 'q

record IExternalBridge =
  externalBridgeId :: string
  bridgeNativeToken :: "string option"

datatype inventory_failure =
    NoInventoryAvailable
  | NoViableSources
  | AllMovementsFailed "(chain \<times> movement_failure) list"
  | RouteError js_error

record InventoryExecutionResult =
  ix_route :: StrategyRoute
  ix_success :: bool
  ix_error :: "inventory_failure option"
  ix_reason :: "string option"
  ix_amountSent :: "int option"

record 'tx WarpTypedTransaction =
  wt_type :: string
  wt_category :: string
  wt_transaction :: 'tx

datatype SignerAccount = PrivateKeyAccount string string | SealevelAccount "byte list"

text \<open>A receipt, as what is read from it: the messages it dispatched, or the messages its logs dispatched.\<close>

datatype receipt = EthersReceipt "string list result" | SolanaReceipt "string list result option"

text \<open>What the rebalancer is constructed with and what its chain metadata say.\<close>

record inventory_deps =
  iv_config :: InventoryRebalancerConfig
  warpTokens :: "Token list"
  externalBridgeRegistry :: "ExternalBridgeType \<Rightarrow> IExternalBridge option"
  chainDomainId :: "chain \<Rightarrow> domain result"
  chainIdNumber :: "chain \<Rightarrow> int result"
  blocksConfirmations :: "chain \<Rightarrow> int option"
  parseSolanaPrivateKey :: "string \<Rightarrow> byte list result"

record ('tx, 'q) inventory_env = "'tx gas_env" +
  getMaxTransferAmount :: "Token \<Rightarrow> int \<Rightarrow> chain \<Rightarrow> address \<Rightarrow> address \<Rightarrow> (js_heap \<times> js_value) + int"
  getTransferRemoteTxs :: "Token \<Rightarrow> int \<Rightarrow> chain \<Rightarrow> address \<Rightarrow> address \<Rightarrow> 'tx WarpTypedTransaction list result"
  getSignerForChain :: "chain \<Rightarrow> SignerAccount \<Rightarrow> unit result"
  sendAndConfirmTransaction :: "chain \<Rightarrow> SignerAccount \<Rightarrow> 'tx WarpTypedTransaction \<Rightarrow> int \<Rightarrow> string result"
  ethersReceipt :: "chain \<Rightarrow> string \<Rightarrow> string list result option result"
  solanaReceipt :: "chain \<Rightarrow> string \<Rightarrow> string list result option option result"
  bridgeQuote :: "ExternalBridgeType \<Rightarrow> BridgeQuoteParams \<Rightarrow> 'q BridgeQuote result"
  bridgeExecute :: "ExternalBridgeType \<Rightarrow> 'q BridgeQuote \<Rightarrow> (string, string) dict \<Rightarrow> string result"

type_synonym ('tx, 'q) world = "nat \<Rightarrow> ('tx, 'q) inventory_env"

record inventory_state =
  actionTracker :: tracker
  inventoryBalances :: "(chain, int) dict"
  consumedInventory :: "(chain, int) dict"
  calls :: nat

type_synonym 'a inventory_op = "(inventory_state, 'a) op"

definition onTracker :: "'a tracker_op \<Rightarrow> 'a inventory_op" where
  "onTracker m = (\<lambda>s. case m (actionTracker s) of (r, t) \<Rightarrow> (r, s\<lparr>actionTracker := t\<rparr>))"

definition ask :: "('tx, 'q) world \<Rightarrow> (('tx, 'q) inventory_env \<Rightarrow> 'a result) \<Rightarrow> 'a inventory_op" where
  "ask W f = (\<lambda>s. (f (W (calls s)), s\<lparr>calls := Suc (calls s)\<rparr>))"

definition BRIDGE_BUFFER_PERCENT :: int where "BRIDGE_BUFFER_PERCENT = 5"
definition GAS_COST_MULTIPLIER :: int where "GAS_COST_MULTIPLIER = 20"
definition MAX_GAS_PERCENT_THRESHOLD :: int where "MAX_GAS_PERCENT_THRESHOLD = 10"

section \<open>Configuration\<close>

definition getExternalBridge :: "inventory_deps \<Rightarrow> ExternalBridgeType option \<Rightarrow> IExternalBridge result" where
  "getExternalBridge D type =
     (case Option.bind type (externalBridgeRegistry D) of
        None \<Rightarrow> throw (Thrown ''Bridge type not found in registry'' [])
      | Some b \<Rightarrow> ret b)"

definition getNativeTokenAddress :: "inventory_deps \<Rightarrow> ExternalBridgeType option \<Rightarrow> string result" where
  "getNativeTokenAddress D bridgeType =
     rbind (getExternalBridge D bridgeType) (\<lambda>b.
       case bridgeNativeToken b of
         Some addr \<Rightarrow> if addr = [] then throw (Thrown ''Bridge does not support getNativeTokenAddress()'' (externalBridgeId b)) else ret addr
       | None \<Rightarrow> throw (Thrown ''Bridge does not support getNativeTokenAddress()'' (externalBridgeId b)))"

definition validateCollateralBackedTokens :: "inventory_deps \<Rightarrow> unit result" where
  "validateCollateralBackedTokens D =
     rfold (\<lambda>_ t.
       if \<not> List.member (inventoryChains (iv_config D)) (chainName t) then ret ()
       else if \<not> List.member TOKEN_COLLATERALIZED_STANDARDS (standard t)
       then throw (Thrown ''InventoryRebalancer cannot be used with synthetic token on chain'' (chainName t))
       else ret ()) () (warpTokens D)"

definition getTokenForChain :: "inventory_deps \<Rightarrow> chain \<Rightarrow> Token option" where
  "getTokenForChain D c = List.find (\<lambda>t. chainName t = c) (warpTokens D)"

definition getProtocolForChain :: "tracker_env \<Rightarrow> chain \<Rightarrow> string result" where
  "getProtocolForChain E c =
     rbind (getChainMetadata E c) (\<lambda>metadata.
     rbind (rassert (cm_protocol metadata \<noteq> []) ''No protocol type in metadata'') (\<lambda>_. ret (cm_protocol metadata)))"

definition getInventorySignerAddress :: "tracker_env \<Rightarrow> inventory_deps \<Rightarrow> chain \<Rightarrow> address result" where
  "getInventorySignerAddress E D c =
     rbind (getProtocolForChain E c) (\<lambda>protocol.
       case map_of (inventorySigners (iv_config D)) protocol of
         Some cfg \<Rightarrow> rbind (rassert (is_address cfg \<noteq> []) ''Missing inventory signer address'') (\<lambda>_. ret (is_address cfg))
       | None \<Rightarrow> throw (AssertionError ''Missing inventory signer address''))"

section \<open>Inventory\<close>

definition setInventoryBalances :: "(chain, int) dict \<Rightarrow> unit inventory_op" where
  "setInventoryBalances balances = op_modify (\<lambda>s. s\<lparr>inventoryBalances := balances\<rparr>)"

definition dict_or_zero :: "(chain, int) dict \<Rightarrow> chain \<Rightarrow> int" where
  "dict_or_zero m c = (case map_of m c of Some v \<Rightarrow> v | None \<Rightarrow> 0)"

definition getAvailableInventory :: "inventory_state \<Rightarrow> chain \<Rightarrow> int" where
  "getAvailableInventory s c = dict_or_zero (inventoryBalances s) c"

definition getEffectiveAvailableInventory :: "inventory_state \<Rightarrow> chain \<Rightarrow> int" where
  "getEffectiveAvailableInventory s c =
     (let cached = getAvailableInventory s c; consumed = dict_or_zero (consumedInventory s) c
      in if cached > consumed then cached - consumed else 0)"

definition selectAllSourceChains :: "inventory_state \<Rightarrow> chain \<Rightarrow> (chain \<times> int) list" where
  "selectAllSourceChains s targetChain =
     js_sort (\<lambda>a b. if snd a > snd b then -1 else 1)
       (List.map_filter (\<lambda>(c, balance).
          if c = targetChain then None
          else let consumed = dict_or_zero (consumedInventory s) c;
                   effectiveAvailable = (if balance > consumed then balance - consumed else 0)
               in if effectiveAvailable > 0 then Some (c, effectiveAvailable) else None)
        (inventoryBalances s))"

definition consume :: "chain \<Rightarrow> int \<Rightarrow> unit inventory_op" where
  "consume c amt = op_modify (\<lambda>s. s\<lparr>consumedInventory :=
     AList.update c (dict_or_zero (consumedInventory s) c + amt) (consumedInventory s)\<rparr>)"

section \<open>Bridge capacity and plans\<close>

definition bridgeParams ::
    "tracker_env \<Rightarrow> inventory_deps \<Rightarrow> int \<Rightarrow> int \<Rightarrow> string \<Rightarrow> string \<Rightarrow> chain \<Rightarrow> chain \<Rightarrow> int option \<Rightarrow> int option \<Rightarrow> BridgeQuoteParams result" where
  "bridgeParams E D sourceChainId targetChainId fromTok toTok sourceChain targetChain fromAmt toAmt =
     rbind (getInventorySignerAddress E D sourceChain) (\<lambda>sender.
     rbind (getInventorySignerAddress E D targetChain) (\<lambda>recipient.
       ret \<lparr>fromChain = sourceChainId, toChain = targetChainId, fromToken = fromTok, toToken = toTok,
         bp_fromAmount = fromAmt, bp_toAmount = toAmt, fromAddress = sender, toAddress = recipient\<rparr>))"

text \<open>A bridge found in the registry is asked for a quote by its type.\<close>

definition quoteBridge ::
    "('tx, 'q) world \<Rightarrow> ExternalBridgeType option \<Rightarrow> BridgeQuoteParams \<Rightarrow> 'q BridgeQuote inventory_op" where
  "quoteBridge W type params =
     (case type of None \<Rightarrow> op_throw TypeError | Some b \<Rightarrow> ask W (\<lambda>V. bridgeQuote V b params))"

definition no_capacity :: BridgeCapacity where
  "no_capacity = \<lparr>maxSourceInput = 0, maxTargetOutput = 0\<rparr>"

definition calculateBridgeCapacity ::
    "tracker_env \<Rightarrow> inventory_deps \<Rightarrow> ('tx, 'q) world \<Rightarrow> chain \<Rightarrow> chain \<Rightarrow> int \<Rightarrow> ExternalBridgeType option
      \<Rightarrow> BridgeCapacity inventory_op" where
  "calculateBridgeCapacity E D W sourceChain targetChain rawInventory externalBridgeType =
     (case (getTokenForChain D sourceChain, getTokenForChain D targetChain) of
        (None, _) \<Rightarrow> op_throw (AssertionError ''No token found for source chain'')
      | (_, None) \<Rightarrow> op_throw (AssertionError ''No token found for target chain'')
      | (Some sourceToken, Some targetToken) \<Rightarrow>
        op_bind (op_lift (getExternalBridgeTokenAddress sourceToken externalBridgeType (getNativeTokenAddress D))) (\<lambda>fromTok.
        op_bind (op_lift (getExternalBridgeTokenAddress targetToken externalBridgeType (getNativeTokenAddress D))) (\<lambda>toTok.
        op_bind (op_lift (chainIdNumber D sourceChain)) (\<lambda>sourceChainId.
        op_bind (op_lift (chainIdNumber D targetChain)) (\<lambda>targetChainId.
        op_try
          (op_bind (op_lift (getExternalBridge D externalBridgeType)) (\<lambda>_.
           op_bind (op_lift (bridgeParams E D sourceChainId targetChainId fromTok toTok sourceChain targetChain
               (Some rawInventory) None)) (\<lambda>params.
           op_bind (quoteBridge W externalBridgeType params) (\<lambda>initialQuote.
           if isNativeTokenStandard (standard sourceToken) then
             let estimatedGas = bq_gasCosts initialQuote * GAS_COST_MULTIPLIER;
                 maxGasThreshold = rawInventory sdiv MAX_GAS_PERCENT_THRESHOLD
             in if estimatedGas > maxGasThreshold then op_ret no_capacity
                else let input = rawInventory - estimatedGas in
                  if input \<le> 0 then op_ret no_capacity
                  else op_bind (op_lift (bridgeParams E D sourceChainId targetChainId fromTok toTok sourceChain targetChain
                      (Some input) None)) (\<lambda>params2.
                    op_bind (quoteBridge W externalBridgeType params2) (\<lambda>outputQuote.
                    op_ret \<lparr>maxSourceInput = input, maxTargetOutput = bq_toAmountMin outputQuote\<rparr>))
           else op_ret \<lparr>maxSourceInput = rawInventory, maxTargetOutput = bq_toAmountMin initialQuote\<rparr>))))
          (op_ret no_capacity))))))"

definition viableSources ::
    "tracker_env \<Rightarrow> inventory_deps \<Rightarrow> ('tx, 'q) world \<Rightarrow> chain \<Rightarrow> ExternalBridgeType option \<Rightarrow> (chain \<times> int) list
      \<Rightarrow> (chain \<times> BridgeCapacity) list inventory_op" where
  "viableSources E D W targetChain externalBridgeType allSources =
     op_bind (op_fold (\<lambda>acc (sourceChain, availableAmount).
         op_bind (calculateBridgeCapacity E D W sourceChain targetChain availableAmount externalBridgeType) (\<lambda>capacity.
           op_ret (if maxTargetOutput capacity > 0 then acc @ [(sourceChain, capacity)] else acc))) [] allSources)
       (\<lambda>sources. op_ret (js_sort (\<lambda>a b. if maxTargetOutput (snd a) > maxTargetOutput (snd b) then -1 else 1) sources))"

record BridgePlan =
  bp_chain :: chain
  bp_maxSourceInput :: int
  targetOutput :: int
  quoteMode :: BridgeQuoteMode

fun planBridges :: "int \<Rightarrow> int \<Rightarrow> (chain \<times> BridgeCapacity) list \<Rightarrow> BridgePlan list" where
  "planBridges targetWithBuffer totalPlanned [] = []"
| "planBridges targetWithBuffer totalPlanned ((c, capacity) # sources) =
     (if totalPlanned \<ge> targetWithBuffer then []
      else let rest = targetWithBuffer - totalPlanned;
               output = (if maxTargetOutput capacity \<ge> rest then rest else maxTargetOutput capacity);
               mode = (if maxTargetOutput capacity > rest then reverse else forward)
           in \<lparr>bp_chain = c, bp_maxSourceInput = maxSourceInput capacity, targetOutput = output, quoteMode = mode\<rparr>
              # planBridges targetWithBuffer (totalPlanned + output) sources)"

section \<open>Movements\<close>

definition privateKeys :: "inventory_deps \<Rightarrow> (string, string) dict" where
  "privateKeys D = List.map_filter (\<lambda>(protocol, cfg).
     case is_key cfg of Some k \<Rightarrow> if k = [] then None else Some (protocol, k) | None \<Rightarrow> None)
     (inventorySigners (iv_config D))"

definition executeInventoryMovement ::
    "tracker_env \<Rightarrow> inventory_deps \<Rightarrow> ('tx, 'q) world \<Rightarrow> chain \<Rightarrow> chain \<Rightarrow> int \<Rightarrow> int \<Rightarrow> BridgeQuoteMode \<Rightarrow> RebalanceIntent
      \<Rightarrow> ExternalBridgeType option \<Rightarrow> InventoryMovementExecutionResult inventory_op" where
  "executeInventoryMovement E D W sourceChain targetChain targetOutputAmount sourceCap mode intent externalBridgeType =
     (case (getTokenForChain D sourceChain, getTokenForChain D targetChain) of
        (None, _) \<Rightarrow> op_ret (Inl (NoSourceToken sourceChain))
      | (_, None) \<Rightarrow> op_ret (Inl (NoTargetToken targetChain))
      | (Some sourceToken, Some targetToken) \<Rightarrow>
        op_bind (op_lift (chainIdNumber D sourceChain)) (\<lambda>sourceChainId.
        op_bind (op_lift (chainIdNumber D targetChain)) (\<lambda>targetChainId.
        op_bind (op_lift (getExternalBridgeTokenAddress sourceToken externalBridgeType (getNativeTokenAddress D))) (\<lambda>fromTok.
        op_bind (op_lift (getExternalBridgeTokenAddress targetToken externalBridgeType (getNativeTokenAddress D))) (\<lambda>toTok.
        op_bind (op_settle
          (op_bind (op_lift (getExternalBridge D externalBridgeType)) (\<lambda>_.
           let quoteWithMode = (\<lambda>m. op_bind (op_lift (bridgeParams E D sourceChainId targetChainId fromTok toTok sourceChain targetChain
                 (if m = forward then Some sourceCap else None) (if m = forward then None else Some targetOutputAmount)))
                 (quoteBridge W externalBridgeType))
           in op_bind (quoteWithMode mode) (\<lambda>quote1.
              op_bind (if mode = reverse \<and> bq_fromAmount quote1 > sourceCap
                 then op_bind (quoteWithMode forward) (\<lambda>q. op_ret (forward, q))
                 else op_ret (mode, quote1)) (\<lambda>(modeUsed, quote).
              let input = bq_fromAmount quote in
              if input > sourceCap then op_ret (Inl (InputExceeded input sourceCap))
              else op_bind (op_lift (getProtocolForChain E sourceChain)) (\<lambda>sourceProtocol.
                op_bind (op_lift (rassert (map_of (privateKeys D) sourceProtocol \<noteq> None) ''Missing inventory signer key'')) (\<lambda>_.
                op_bind (case externalBridgeType of None \<Rightarrow> op_throw TypeError
                   | Some b \<Rightarrow> ask W (\<lambda>V. bridgeExecute V b quote (privateKeys D))) (\<lambda>txHash.
                op_bind (op_lift (chainDomainId D sourceChain)) (\<lambda>sourceDomain.
                op_bind (op_lift (chainDomainId D targetChain)) (\<lambda>targetDomain.
                op_bind (onTracker (createRebalanceAction E \<lparr>ca_intentId = te_id intent, ca_origin = sourceDomain,
                  ca_destination = targetDomain, ca_amount = input, ca_type = inventory_movement, ca_messageId = None,
                  ca_txHash = Some txHash, ca_externalBridgeTransferId = None, ca_externalBridgeId = externalBridgeType\<rparr>)) (\<lambda>_.
                op_seq (consume sourceChain input)
                  (op_ret (Inr \<lparr>mv_txHash = txHash, inputRequired = input, quotedOutput = bq_toAmount quote,
                     quotedOutputMin = bq_toAmountMin quote, quoteModeUsed = modeUsed\<rparr>)))))))))))))
          (\<lambda>r. op_ret (case r of Inl e \<Rightarrow> Inl (MovementError e) | Inr res \<Rightarrow> res)))))))"

section \<open>Deposits\<close>

definition PROTOCOL_TO_DEFAULT_PROVIDER_TYPE :: "(string, string) dict" where
  "PROTOCOL_TO_DEFAULT_PROVIDER_TYPE =
     [(''ethereum'', ''ethers-v5''), (''sealevel'', ''solana-web3''), (''cosmos'', ''cosmjs-wasm''),
      (''cosmosnative'', ''cosmjs-native''), (''starknet'', ''starknet''), (''radix'', ''radix''), (''aleo'', ''aleo''),
      (''tron'', ''tron'')]"

definition toProtocolTransaction :: "'tx WarpTypedTransaction \<Rightarrow> string \<Rightarrow> 'tx WarpTypedTransaction result" where
  "toProtocolTransaction tx expectedProtocol =
     rbind (rassert (map_of PROTOCOL_TO_DEFAULT_PROVIDER_TYPE expectedProtocol = Some (wt_type tx))
       ''Transaction type does not match expected protocol'') (\<lambda>_. ret tx)"

definition buildSignerAccountConfig :: "inventory_deps \<Rightarrow> string \<Rightarrow> string \<Rightarrow> SignerAccount result" where
  "buildSignerAccountConfig D protocol key =
     (if protocol = ''tron'' \<or> protocol = ''ethereum'' then ret (PrivateKeyAccount protocol (ensure0x key))
      else if protocol = ''sealevel'' then rbind (parseSolanaPrivateKey D key) (\<lambda>k. ret (SealevelAccount k))
      else throw (Thrown ''Unsupported protocol for inventory signer'' protocol))"

definition sendAndConfirmInventoryTx ::
    "tracker_env \<Rightarrow> inventory_deps \<Rightarrow> ('tx, 'q) world \<Rightarrow> chain \<Rightarrow> 'tx WarpTypedTransaction \<Rightarrow> string inventory_op" where
  "sendAndConfirmInventoryTx E D W c typedTx =
     op_bind (op_lift (getProtocolForChain E c)) (\<lambda>protocol.
     case Option.bind (map_of (inventorySigners (iv_config D)) protocol) is_key of
       None \<Rightarrow> op_throw (AssertionError ''Missing signer key'')
     | Some key \<Rightarrow>
       op_bind (op_lift (rassert (key \<noteq> []) ''Missing signer key'')) (\<lambda>_.
       op_bind (op_lift (buildSignerAccountConfig D protocol key)) (\<lambda>account.
       op_bind (ask W (\<lambda>V. getSignerForChain V c account)) (\<lambda>_.
       op_bind (op_lift (getChainMetadata E c)) (\<lambda>metadata.
       let waitConfirmations = (case cm_reorgPeriod metadata of
             Some (Inl n) \<Rightarrow> n
           | Some (Inr _) \<Rightarrow> 1
           | None \<Rightarrow> (case blocksConfirmations D c of Some n \<Rightarrow> n | None \<Rightarrow> 1))
       in op_bind (op_lift (toProtocolTransaction typedTx protocol)) (\<lambda>tx.
          ask W (\<lambda>V. sendAndConfirmTransaction V c account tx waitConfirmations)))))))"

definition getTransactionReceipt ::
    "tracker_env \<Rightarrow> ('tx, 'q) world \<Rightarrow> chain \<Rightarrow> string \<Rightarrow> receipt option inventory_op" where
  "getTransactionReceipt E W org txHash =
     op_try
       (op_bind (op_lift (getProtocolForChain E org)) (\<lambda>protocol.
        if isEVMLike protocol then
          op_bind (ask W (\<lambda>V. ethersReceipt V org txHash)) (\<lambda>r. op_ret (map_option EthersReceipt r))
        else if protocol = ''sealevel'' then
          op_bind (ask W (\<lambda>V. solanaReceipt V org txHash)) (\<lambda>r. op_ret (map_option SolanaReceipt r))
        else op_ret None))
       (op_ret None)"

definition extractDispatchedMessageId ::
    "tracker_env \<Rightarrow> ('tx, 'q) world \<Rightarrow> chain \<Rightarrow> string \<Rightarrow> string option inventory_op" where
  "extractDispatchedMessageId E W org txHash =
     op_bind (getTransactionReceipt E W org txHash) (\<lambda>receipt.
       case receipt of
         None \<Rightarrow> op_ret None
       | Some (EthersReceipt messages) \<Rightarrow>
           op_bind (op_lift messages) (\<lambda>ids. op_ret (case ids of [] \<Rightarrow> None | i # _ \<Rightarrow> Some i))
       | Some (SolanaReceipt None) \<Rightarrow> op_ret None
       | Some (SolanaReceipt (Some parsed)) \<Rightarrow>
           op_bind (op_lift parsed) (\<lambda>ids. op_ret (case ids of [] \<Rightarrow> None | i # _ \<Rightarrow> if i = [] then None else Some (ensure0x i))))"

definition sendTransferTxs ::
    "tracker_env \<Rightarrow> inventory_deps \<Rightarrow> ('tx, 'q) world \<Rightarrow> chain \<Rightarrow> 'tx WarpTypedTransaction list \<Rightarrow> string option inventory_op" where
  "sendTransferTxs E D W org txs =
     op_fold (\<lambda>hash tx. op_bind (sendAndConfirmInventoryTx E D W org tx) (\<lambda>txHash.
       op_ret (if wt_category tx = ''transfer'' then Some txHash else hash))) None txs"

definition executeTransferRemote ::
    "tracker_env \<Rightarrow> inventory_deps \<Rightarrow> ('tx, 'q) world \<Rightarrow> StrategyRoute \<Rightarrow> RebalanceIntent \<Rightarrow> int \<Rightarrow> InventoryExecutionResult inventory_op" where
  "executeTransferRemote E D W route intent fulfilledCanonicalAmount =
     (let org = sr_origin route; dest = sr_destination route; amt = sr_amount route in
      case getTokenForChain D org of
        None \<Rightarrow> op_throw (Thrown ''No token found for origin chain'' org)
      | Some originToken \<Rightarrow>
        op_bind (op_lift (chainDomainId D dest)) (\<lambda>destinationDomain.
        op_bind (op_lift (getInventorySignerAddress E D org)) (\<lambda>sender.
        op_bind (op_lift (getInventorySignerAddress E D dest)) (\<lambda>recipient.
        op_bind (ask W (\<lambda>V. getTransferRemoteTxs V originToken amt dest sender recipient)) (\<lambda>transferTxs.
        op_bind (op_lift (rassert (transferTxs \<noteq> []) ''Expected at least one transaction from WarpCore'')) (\<lambda>_.
        op_bind (sendTransferTxs E D W org transferTxs) (\<lambda>transferTxHash.
        op_bind (case transferTxHash of
            Some h \<Rightarrow> if h = [] then op_ret None else extractDispatchedMessageId E W org h
          | None \<Rightarrow> op_ret None) (\<lambda>messageId.
        op_bind (op_lift (rassert (transferTxHash \<noteq> None \<and> transferTxHash \<noteq> Some []) ''No transfer transaction hash found'')) (\<lambda>_.
        op_bind (op_lift (chainDomainId D org)) (\<lambda>originDomain.
        op_bind (onTracker (createRebalanceAction E \<lparr>ca_intentId = te_id intent, ca_origin = originDomain,
          ca_destination = destinationDomain, ca_amount = fulfilledCanonicalAmount, ca_type = inventory_deposit,
          ca_messageId = messageId, ca_txHash = transferTxHash, ca_externalBridgeTransferId = None,
          ca_externalBridgeId = None\<rparr>)) (\<lambda>_.
        op_ret \<lparr>ix_route = route, ix_success = True, ix_error = None, ix_reason = None, ix_amountSent = Some amt\<rparr>)))))))))))"

section \<open>Routes\<close>

fun routeExternalBridge :: "StrategyRoute \<Rightarrow> ExternalBridgeType option" where
  "routeExternalBridge (InventoryRoute _ _ _ b) = b"
| "routeExternalBridge (MovableCollateralRoute _ _ _ _) = None"

text \<open>The error that is thrown on carries the message of the object it is.\<close>

definition rethrown :: "js_heap \<Rightarrow> js_value \<Rightarrow> js_error" where
  "rethrown h v =
     (case v of
        JObject a \<Rightarrow> (case map_option o_message (map_of h a) of Some (JString m) \<Rightarrow> Thrown m [] | _ \<Rightarrow> Thrown [] [])
      | _ \<Rightarrow> Thrown [] [])"

definition feeAwareMaxTransferable ::
    "('tx, 'q) world \<Rightarrow> Token \<Rightarrow> chain \<Rightarrow> address \<Rightarrow> address \<Rightarrow> int \<Rightarrow> int \<Rightarrow> int \<Rightarrow> int inventory_op" where
  "feeAwareMaxTransferable W sourceToken org sender recipient availableInventory requestedLocalAmount fromCosts =
     (if isNativeTokenStandard (standard sourceToken) then op_ret fromCosts
      else if availableInventory = 0 then op_ret 0
      else op_bind (ask W (\<lambda>V. ret (getMaxTransferAmount V sourceToken availableInventory org sender recipient))) (\<lambda>probe.
        case probe of
          Inr m \<Rightarrow> op_ret (if m < requestedLocalAmount then m else requestedLocalAmount)
        | Inl (h, error) \<Rightarrow> if isRecoverableMaxTransferProbeError h error then op_ret 0 else op_throw (rethrown h error)))"

definition failedRoute :: "StrategyRoute \<Rightarrow> inventory_failure \<Rightarrow> InventoryExecutionResult" where
  "failedRoute route e = \<lparr>ix_route = route, ix_success = False, ix_error = Some e, ix_reason = None, ix_amountSent = None\<rparr>"

text \<open>The failures whose text is joined into the error of a route without a successful movement.\<close>

definition failedMovements ::
    "BridgePlan list \<Rightarrow> InventoryMovementExecutionResult result list \<Rightarrow> (chain \<times> movement_failure) list" where
  "failedMovements plans results = List.map_filter (\<lambda>(plan, r).
     case r of
       Inr (Inr _) \<Rightarrow> None
     | Inr (Inl e) \<Rightarrow> Some (bp_chain plan, e)
     | Inl e \<Rightarrow> Some (bp_chain plan, MovementError e)) (zip plans results)"

definition movementSucceeded :: "InventoryMovementExecutionResult result \<Rightarrow> bool" where
  "movementSucceeded r = (case r of Inr (Inr _) \<Rightarrow> True | _ \<Rightarrow> False)"

definition bridgeTarget :: "int \<Rightarrow> int \<Rightarrow> int \<Rightarrow> int" where
  "bridgeTarget requestedLocalAmount availableInventory cost =
     (let shortfall = (if requestedLocalAmount > availableInventory then requestedLocalAmount - availableInventory else 0)
      in (shortfall + cost) * (100 + BRIDGE_BUFFER_PERCENT) sdiv 100)"

definition executeMovements ::
    "tracker_env \<Rightarrow> inventory_deps \<Rightarrow> ('tx, 'q) world \<Rightarrow> StrategyRoute \<Rightarrow> RebalanceIntent \<Rightarrow> BridgePlan list
      \<Rightarrow> InventoryMovementExecutionResult result list inventory_op" where
  "executeMovements E D W route intent plans =
     op_map (\<lambda>plan. op_settle (executeInventoryMovement E D W (bp_chain plan) (sr_destination route) (targetOutput plan)
       (bp_maxSourceInput plan) (quoteMode plan) intent (routeExternalBridge route))) plans"

definition bridgeInventory ::
    "tracker_env \<Rightarrow> inventory_deps \<Rightarrow> ('tx, 'q) world \<Rightarrow> StrategyRoute \<Rightarrow> RebalanceIntent \<Rightarrow> int \<Rightarrow> int \<Rightarrow> int
      \<Rightarrow> InventoryExecutionResult inventory_op" where
  "bridgeInventory E D W route intent requestedLocalAmount availableInventory cost =
     op_bind (op_gets (\<lambda>s. selectAllSourceChains s (sr_destination route))) (\<lambda>allSources.
     if allSources = [] then op_ret (failedRoute route NoInventoryAvailable)
     else op_bind (viableSources E D W (sr_destination route) (routeExternalBridge route) allSources) (\<lambda>viable.
       if viable = [] then op_ret (failedRoute route NoViableSources)
       else let plans = planBridges (bridgeTarget requestedLocalAmount availableInventory cost) 0 viable
            in op_bind (executeMovements E D W route intent plans) (\<lambda>results.
               if list_ex movementSucceeded results
               then op_ret \<lparr>ix_route = route, ix_success = True, ix_error = None, ix_reason = None, ix_amountSent = None\<rparr>
               else op_ret (failedRoute route (AllMovementsFailed (failedMovements plans results))))))"

definition swappedRoute :: "StrategyRoute \<Rightarrow> int \<Rightarrow> StrategyRoute" where
  "swappedRoute route amt = InventoryRoute (sr_destination route) (sr_origin route) amt (routeExternalBridge route)"

definition depositOrBridge ::
    "tracker_env \<Rightarrow> inventory_deps \<Rightarrow> ('tx, 'q) world \<Rightarrow> StrategyRoute \<Rightarrow> RebalanceIntent \<Rightarrow> Token \<Rightarrow> int \<Rightarrow> int \<Rightarrow> int \<Rightarrow> int \<Rightarrow> int
      \<Rightarrow> InventoryExecutionResult inventory_op" where
  "depositOrBridge E D W route intent sourceToken requestedLocalAmount availableInventory maxTransfer minViable cost =
     (let bridgeMore = bridgeInventory E D W route intent requestedLocalAmount availableInventory cost;
          deposit = (\<lambda>localAmt canonical.
            op_bind (executeTransferRemote E D W (swappedRoute route localAmt) intent canonical) (\<lambda>result.
              op_ret (result\<lparr>ix_route := route\<rparr>)))
      in if maxTransfer \<ge> requestedLocalAmount then
           op_bind (op_lift (normalizeToCanonical requestedLocalAmount (token_scale sourceToken))) (deposit requestedLocalAmount)
         else if maxTransfer > 0 \<and> maxTransfer \<ge> minViable then
           op_bind (op_lift (alignLocalToCanonical maxTransfer (token_scale sourceToken))) (\<lambda>aligned.
             if messageAmount aligned = 0 then bridgeMore
             else deposit (localAmount aligned) (messageAmount aligned))
         else bridgeMore)"

definition executeRoute ::
    "tracker_env \<Rightarrow> inventory_deps \<Rightarrow> ('tx, 'q) world \<Rightarrow> StrategyRoute \<Rightarrow> RebalanceIntent \<Rightarrow> InventoryExecutionResult inventory_op" where
  "executeRoute E D W route intent =
     (let org = sr_origin route; dest = sr_destination route in
      case getTokenForChain D dest of
        None \<Rightarrow> op_throw (AssertionError ''No token found for source chain'')
      | Some sourceToken \<Rightarrow>
        op_bind (op_lift (denormalizeToLocal (sr_amount route) (token_scale sourceToken))) (\<lambda>requestedLocalAmount.
        op_bind (op_lift (getInventorySignerAddress E D dest)) (\<lambda>executionSender.
        op_bind (op_lift (getInventorySignerAddress E D org)) (\<lambda>executionRecipient.
        op_bind (op_gets (\<lambda>s. getEffectiveAvailableInventory s dest)) (\<lambda>availableInventory.
        op_bind (ask W (\<lambda>V. calculateTransferCosts (V\<lparr>getDomainId := chainDomainId D\<rparr>) (getTokenForChain D) dest org
            availableInventory requestedLocalAmount executionSender)) (\<lambda>costs.
        op_bind (feeAwareMaxTransferable W sourceToken org executionSender executionRecipient availableInventory
            requestedLocalAmount (maxTransferable costs)) (\<lambda>maxTransfer.
        if requestedLocalAmount < minViableTransfer costs then
          op_seq (onTracker (completeRebalanceIntent E (te_id intent)))
            (op_ret \<lparr>ix_route = route, ix_success = True, ix_error = None,
               ix_reason = Some ''completed_with_acceptable_loss'', ix_amountSent = None\<rparr>)
        else depositOrBridge E D W route intent sourceToken requestedLocalAmount availableInventory maxTransfer
          (minViableTransfer costs) (totalCost costs))))))))"

section \<open>Rebalancing\<close>

definition getActiveInventoryIntent :: "tracker_env \<Rightarrow> PartialInventoryIntent option inventory_op" where
  "getActiveInventoryIntent E =
     op_bind (onTracker (getPartiallyFulfilledInventoryIntents E)) (\<lambda>partialIntents.
       op_ret (case partialIntents of [] \<Rightarrow> None | p # _ \<Rightarrow> Some p))"

text \<open>Execute a route and record what it consumed on its destination; a throw becomes a failed result.\<close>

definition executeAndConsume ::
    "tracker_env \<Rightarrow> inventory_deps \<Rightarrow> ('tx, 'q) world \<Rightarrow> StrategyRoute \<Rightarrow> RebalanceIntent \<Rightarrow> InventoryExecutionResult list inventory_op" where
  "executeAndConsume E D W route intent =
     op_bind (op_settle
       (op_bind (executeRoute E D W route intent) (\<lambda>result.
          op_seq (case ix_amountSent result of
              Some sent \<Rightarrow> op_when (ix_success result \<and> sent \<noteq> 0) (consume (sr_destination route) sent)
            | None \<Rightarrow> op_ret ())
            (op_ret [result]))))
       (\<lambda>r. op_ret (case r of Inr results \<Rightarrow> results | Inl e \<Rightarrow> [failedRoute route (RouteError e)]))"

definition continueIntent ::
    "tracker_env \<Rightarrow> inventory_deps \<Rightarrow> ('tx, 'q) world \<Rightarrow> PartialInventoryIntent \<Rightarrow> InventoryExecutionResult list inventory_op" where
  "continueIntent E D W partial =
     op_bind (op_lift (getChainName E (te_origin (pi_intent partial)))) (\<lambda>org.
     op_bind (op_lift (getChainName E (te_destination (pi_intent partial)))) (\<lambda>dest.
       executeAndConsume E D W (InventoryRoute org dest (remaining partial) (ri_externalBridge (pi_intent partial)))
         (pi_intent partial)))"

definition rebalanceInventory ::
    "tracker_env \<Rightarrow> inventory_deps \<Rightarrow> ('tx, 'q) world \<Rightarrow> StrategyRoute list \<Rightarrow> InventoryExecutionResult list inventory_op" where
  "rebalanceInventory E D W routes =
     op_seq (op_modify (\<lambda>s. s\<lparr>consumedInventory := []\<rparr>))
     (op_bind (getActiveInventoryIntent E) (\<lambda>activeIntent.
       case activeIntent of
         Some partial \<Rightarrow> if hasInflightDeposit partial then op_ret [] else continueIntent E D W partial
       | None \<Rightarrow> (case routes of
           [] \<Rightarrow> op_ret []
         | route # _ \<Rightarrow>
             op_bind (op_lift (chainDomainId D (sr_origin route))) (\<lambda>org.
             op_bind (op_lift (chainDomainId D (sr_destination route))) (\<lambda>dest.
             op_bind (onTracker (createRebalanceIntent E \<lparr>cp_origin = org, cp_destination = dest, cp_amount = sr_amount route,
               cp_bridge = None, cp_priority = None, cp_strategyType = None, cp_executionMethod = Some inventory,
               cp_externalBridge = routeExternalBridge route\<rparr>)) (\<lambda>intent.
             executeAndConsume E D W route intent))))))"

end
