(* ===== verification/Inventory_Examples.thy ===== *)
theory Inventory_Examples
  imports Inventory_Rebalancer Tracker_Examples
begin

text \<open>
  A concrete inventory rebalancer: two chains with collateral tokens, a signer for both, an
  inventory of 100 and 80, a bridge that takes a fee of one, and a route of 50 to the second chain.
\<close>

definition ex_inventory_token :: "chain \<Rightarrow> Token" where
  "ex_inventory_token c = \<lparr>chainName = c, standard = ''EvmHypCollateral'', addressOrDenom = c,
     collateralAddressOrDenom = Some (c @ ''-token''), token_decimals = 6, token_scale = None\<rparr>"

definition ex_deps :: inventory_deps where
  "ex_deps = \<lparr>iv_config = \<lparr>inventorySigners = [(''ethereum'', \<lparr>is_address = ''me'', is_key = Some ''0x1''\<rparr>)],
       inventoryChains = [''alpha'', ''beta'']\<rparr>,
     warpTokens = [ex_inventory_token ''alpha'', ex_inventory_token ''beta''],
     externalBridgeRegistry = (\<lambda>_. Some \<lparr>externalBridgeId = ''lifi'', bridgeNativeToken = Some ''native''\<rparr>),
     chainDomainId = (\<lambda>c. ret (if c = ''alpha'' then 1 else 2)), chainIdNumber = (\<lambda>c. ret (if c = ''alpha'' then 1 else 2)),
     blocksConfirmations = (\<lambda>_. None), parseSolanaPrivateKey = (\<lambda>_. throw SyntaxError)\<rparr>"

definition ex_world :: "(unit, unit) world" where
  "ex_world n = \<lparr>getDomainId = (\<lambda>_. ret 1), getProtocol = (\<lambda>_. ret ''ethereum''),
     quoteTransferRemoteGas = (\<lambda>_ _ _ _ _. ret \<lparr>igpQuote = \<lparr>q_addressOrDenom = None, q_amount = 0\<rparr>, tokenFeeQuote = None\<rparr>),
     populateTransferRemoteTx = (\<lambda>_ _ _ _ _. ret ()), providerEstimateGas = (\<lambda>_ _ _. ret 100),
     getFeeData = (\<lambda>_. ret \<lparr>maxFeePerGas = None, gasPrice = Some 2\<rparr>),
     getMaxTransferAmount = (\<lambda>_ a _ _ _. Inr a),
     getTransferRemoteTxs = (\<lambda>_ _ _ _ _. ret [\<lparr>wt_type = ''ethers-v5'', wt_category = ''transfer'', wt_transaction = ()\<rparr>]),
     getSignerForChain = (\<lambda>_ _. ret ()), sendAndConfirmTransaction = (\<lambda>_ _ _ _. ret ''0xhash''),
     ethersReceipt = (\<lambda>_ _. ret (Some (ret [''0xmsg'']))), solanaReceipt = (\<lambda>_ _. ret None),
     bridgeQuote = (\<lambda>_ p. ret (case bp_fromAmount p of
         Some a \<Rightarrow> \<lparr>bq_fromAmount = a, bq_toAmount = a - 1, bq_toAmountMin = a - 1, bq_gasCosts = 0, bq_route = ()\<rparr>
       | None \<Rightarrow> (let a = the (bp_toAmount p) in
           \<lparr>bq_fromAmount = a + 1, bq_toAmount = a, bq_toAmountMin = a, bq_gasCosts = 0, bq_route = ()\<rparr>))),
     bridgeExecute = (\<lambda>_ _ _. ret ''0xbridge'')\<rparr>"

definition ex_tracker :: tracker where
  "ex_tracker = \<lparr>transferStore = [], rebalanceIntentStore = [], rebalanceActionStore = [], ticks = 0, uuids = 0\<rparr>"

definition ex_inventory :: inventory_state where
  "ex_inventory = \<lparr>actionTracker = ex_tracker, inventoryBalances = [(''alpha'', 100), (''beta'', 80)],
     consumedInventory = [(''beta'', 7)], calls = 0\<rparr>"

definition ex_inventory_routes :: "StrategyRoute list" where
  "ex_inventory_routes = [InventoryRoute ''alpha'' ''beta'' 50 (Some LiFi)]"

lemma ex_active: "getPartiallyFulfilledInventoryIntents ex_env ex_tracker = (ret [], ex_tracker)"
  by (simp add: getPartiallyFulfilledInventoryIntents_def op_simps store_getByStatus_def ex_tracker_def)

lemma ex_config:
  "getTokenForChain ex_deps ''alpha'' = Some (ex_inventory_token ''alpha'')"
  "getTokenForChain ex_deps ''beta'' = Some (ex_inventory_token ''beta'')"
  "getProtocolForChain ex_env c = ret ''ethereum''" "getInventorySignerAddress ex_env ex_deps c = ret ''me''"
  by (simp_all add: getTokenForChain_def ex_deps_def ex_inventory_token_def getProtocolForChain_def ex_env_def getInventorySignerAddress_def)

lemma ex_answers:
  "getMaxTransferAmount (ex_world n) t a c sn rc = Inr a"
  "getTransferRemoteTxs (ex_world n) t a c sn rc = ret [\<lparr>wt_type = ''ethers-v5'', wt_category = ''transfer'', wt_transaction = ()\<rparr>]"
  "getSignerForChain (ex_world n) c acc = ret ()" "sendAndConfirmTransaction (ex_world n) c acc tx k = ret ''0xhash''"
  "ethersReceipt (ex_world n) c h = ret (Some (ret [''0xmsg'']))"
  "chainDomainId ex_deps c = ret (if c = ''alpha'' then 1 else 2)"
  "Option.bind (map_of (inventorySigners (iv_config ex_deps)) ''ethereum'') is_key = Some ''0x1''"
  "getChainMetadata ex_env c = ret \<lparr>cm_protocol = ''ethereum'', cm_reorgPeriod = Some (Inl 2)\<rparr>"
  by (simp_all add: ex_world_def ex_deps_def ex_env_def)

lemma ex_costs:
  "\<exists>x. calculateTransferCosts ((ex_world n)\<lparr>getDomainId := chainDomainId ex_deps\<rparr>) (getTokenForChain ex_deps) ''beta'' ''alpha'' 80 50 sn = ret x
     \<and> minViableTransfer x = 0"
  by (simp add: calculateTransferCosts_def ex_config ex_answers) (simp add: ex_world_def ex_inventory_token_def isNativeTokenStandard_def
      REBALANCER_NATIVE_STANDARDS_def)

lemma ex_send: "sendAndConfirmInventoryTx ex_env ex_deps ex_world c \<lparr>wt_type = ''ethers-v5'', wt_category = ''transfer'', wt_transaction = ()\<rparr> s
    = (ret ''0xhash'', s\<lparr>calls := Suc (Suc (calls s))\<rparr>)"
  by (simp add: sendAndConfirmInventoryTx_def op_simps ex_config ask_def ex_answers buildSignerAccountConfig_def ensure0x_def
      startsWith_def toProtocolTransaction_def PROTOCOL_TO_DEFAULT_PROVIDER_TYPE_def)

lemma ex_message: "extractDispatchedMessageId ex_env ex_world c h s = (ret (Some ''0xmsg''), s\<lparr>calls := Suc (calls s)\<rparr>)"
  by (simp add: extractDispatchedMessageId_def getTransactionReceipt_def op_simps ex_config ask_def ex_answers isEVMLike_def)

lemma ex_deposit:
  assumes "createRebalanceAction ex_env \<lparr>ca_intentId = te_id i, ca_origin = 2, ca_destination = 1, ca_amount = n,
      ca_type = inventory_deposit, ca_messageId = Some ''0xmsg'', ca_txHash = Some ''0xhash'', ca_externalBridgeTransferId = None,
      ca_externalBridgeId = None\<rparr> (actionTracker s) = (ret a, t)"
  shows "\<exists>k. executeTransferRemote ex_env ex_deps ex_world (InventoryRoute ''beta'' ''alpha'' amt b) i n s
    = (ret \<lparr>ix_route = InventoryRoute ''beta'' ''alpha'' amt b, ix_success = True, ix_error = None, ix_reason = None,
        ix_amountSent = Some amt\<rparr>, s\<lparr>actionTracker := t, calls := k\<rparr>)"
  using assms by (simp add: executeTransferRemote_def sendTransferTxs_def Let_def op_simps ex_config ex_answers ask_def ex_send ex_message onTracker_def)
    (rule exI [of _ "Suc (Suc (Suc (Suc (calls s))))"], rule inventory_state.equality, simp_all)

lemma ex_route:
  assumes "createRebalanceAction ex_env \<lparr>ca_intentId = te_id i, ca_origin = 2, ca_destination = 1, ca_amount = 50,
      ca_type = inventory_deposit, ca_messageId = Some ''0xmsg'', ca_txHash = Some ''0xhash'', ca_externalBridgeTransferId = None,
      ca_externalBridgeId = None\<rparr> (actionTracker s) = (ret a, t)"
    and e: "getEffectiveAvailableInventory s ''beta'' = 80"
  shows "\<exists>k. executeRoute ex_env ex_deps ex_world (InventoryRoute ''alpha'' ''beta'' 50 (Some LiFi)) i s
    = (ret \<lparr>ix_route = InventoryRoute ''alpha'' ''beta'' 50 (Some LiFi), ix_success = True, ix_error = None, ix_reason = None,
        ix_amountSent = Some 50\<rparr>, s\<lparr>actionTracker := t, calls := k\<rparr>)"
proof -
  let ?s = "s\<lparr>calls := Suc (Suc (calls s))\<rparr>"
  obtain x where x: "calculateTransferCosts ((ex_world (calls s))\<lparr>getDomainId := chainDomainId ex_deps\<rparr>) (getTokenForChain ex_deps)
      ''beta'' ''alpha'' 80 50 ''me'' = ret x" "minViableTransfer x = 0" using ex_costs by blast
  obtain k where k: "executeTransferRemote ex_env ex_deps ex_world (InventoryRoute ''beta'' ''alpha'' 50 (Some LiFi)) i 50 ?s
    = (ret \<lparr>ix_route = InventoryRoute ''beta'' ''alpha'' 50 (Some LiFi), ix_success = True, ix_error = None, ix_reason = None,
        ix_amountSent = Some 50\<rparr>, ?s\<lparr>actionTracker := t, calls := k\<rparr>)"
    using ex_deposit [of i 50 ?s a t 50 "Some LiFi"] assms(1) by auto
  have sc: "denormalizeToLocal 50 (token_scale (ex_inventory_token c)) = ret 50"
      "normalizeToCanonical 50 (token_scale (ex_inventory_token c)) = ret 50"
      "isNativeTokenStandard (standard (ex_inventory_token c)) = False" for c
    by (simp_all add: ex_inventory_token_def denormalizeToLocal_def normalizeToCanonical_def minLocalAmountForMessage_eq
        messageAmountFromLocal_eq validScale_def DEFAULT_SCALE_def isNativeTokenStandard_def REBALANCER_NATIVE_STANDARDS_def)
  show ?thesis using x k e
    by (simp add: executeRoute_def depositOrBridge_def Let_def feeAwareMaxTransferable_def swappedRoute_def op_simps ex_config sc ask_def ex_answers) blast
qed

lemma ex_inventory_run:
  "\<exists>s'. rebalanceInventory ex_env ex_deps ex_world ex_inventory_routes ex_inventory
      = (ret [\<lparr>ix_route = InventoryRoute ''alpha'' ''beta'' 50 (Some LiFi), ix_success = True, ix_error = None, ix_reason = None,
          ix_amountSent = Some 50\<rparr>], s') \<and> consumedInventory s' = [(''beta'', 50)]"
proof -
  let ?p = "\<lparr>cp_origin = 1, cp_destination = 2, cp_amount = 50, cp_bridge = None, cp_priority = None, cp_strategyType = None,
     cp_executionMethod = Some inventory, cp_externalBridge = Some LiFi\<rparr>"
  let ?a = "\<lambda>i. \<lparr>ca_intentId = te_id i, ca_origin = 2, ca_destination = 1, ca_amount = 50, ca_type = inventory_deposit,
     ca_messageId = Some ''0xmsg'', ca_txHash = Some ''0xhash'', ca_externalBridgeTransferId = None, ca_externalBridgeId = None\<rparr>"
  obtain i t a t2 where t: "createRebalanceIntent ex_env ?p ex_tracker = (ret i, t)" "createRebalanceAction ex_env (?a i) t = (ret a, t2)"
    by (simp add: createRebalanceIntent_def createRebalanceAction_def op_simps newUuid_def dateNow_def saveIntent_def saveAction_def
        startIntent_def updateIntent_def store_update_def store_save_def getRebalanceIntent_def store_get_def ex_tracker_def Let_def)
  let ?s = "ex_inventory\<lparr>consumedInventory := [], actionTracker := t\<rparr>"
  have "getEffectiveAvailableInventory ?s ''beta'' = 80"
    by (simp add: getEffectiveAvailableInventory_def getAvailableInventory_def dict_or_zero_def ex_inventory_def)
  then obtain k where k: "executeRoute ex_env ex_deps ex_world (InventoryRoute ''alpha'' ''beta'' 50 (Some LiFi)) i ?s
    = (ret \<lparr>ix_route = InventoryRoute ''alpha'' ''beta'' 50 (Some LiFi), ix_success = True, ix_error = None, ix_reason = None,
        ix_amountSent = Some 50\<rparr>, ?s\<lparr>actionTracker := t2, calls := k\<rparr>)"
    using ex_route [of i ?s a t2] t(2) by auto
  have "executeAndConsume ex_env ex_deps ex_world (InventoryRoute ''alpha'' ''beta'' 50 (Some LiFi)) i ?s
      = (ret [\<lparr>ix_route = InventoryRoute ''alpha'' ''beta'' 50 (Some LiFi), ix_success = True, ix_error = None, ix_reason = None,
          ix_amountSent = Some 50\<rparr>], ?s\<lparr>actionTracker := t2, calls := k, consumedInventory := [(''beta'', 50)]\<rparr>)"
    using k by (simp add: executeAndConsume_def op_settle_def op_simps consume_def dict_or_zero_def)
  then show ?thesis using t(1)
    by (simp add: rebalanceInventory_def getActiveInventoryIntent_def onTracker_def op_simps ex_inventory_def ex_active
        ex_inventory_routes_def ex_answers)
qed

end
