(* ===== verification/Inventory_Spending.thy ===== *)
theory Inventory_Spending
  imports Inventory_Examples
begin

text \<open>
  What the inventory rebalancer spends: the bridge plan is a greedy prefix of the sources that
  reaches the target when the sources can, and no run consumes more of a chain's inventory than the
  chain has, whatever the bridges, the contracts and the chains answer from call to call.
\<close>

section \<open>The bridge plan\<close>

text \<open>A plan \<open>p\<close> for the source \<open>(c, k)\<close>.\<close>

definition plan_for :: "chain \<times> BridgeCapacity \<Rightarrow> BridgePlan \<Rightarrow> bool" where
  "plan_for ck p \<longleftrightarrow> bp_chain p = fst ck \<and> bp_maxSourceInput p = maxSourceInput (snd ck)
     \<and> 0 < targetOutput p \<and> targetOutput p \<le> maxTargetOutput (snd ck)
     \<and> (quoteMode p = forward \<longleftrightarrow> targetOutput p = maxTargetOutput (snd ck))"

lemma planBridges_prefix:
  assumes "\<forall>ck \<in> set sources. 0 < maxTargetOutput (snd ck)"
  shows "list_all2 plan_for (take (length (planBridges T P sources)) sources) (planBridges T P sources)"
  using assms by (induction T P sources rule: planBridges.induct) (auto simp: plan_for_def Let_def)

lemma planBridges_total:
  assumes "\<forall>ck \<in> set sources. 0 < maxTargetOutput (snd ck)"
  shows "sum_list (map targetOutput (planBridges T P sources))
    = min (max 0 (T - P)) (sum_list (map (\<lambda>ck. maxTargetOutput (snd ck)) sources))"
  using assms
proof (induction T P sources rule: planBridges.induct)
  case (2 T P c k sources)
  have nn: "0 \<le> sum_list (map (\<lambda>ck. maxTargetOutput (snd ck)) sources)"
    by (rule sum_list_nonneg_int) (use "2.prems" in \<open>auto simp: less_imp_le\<close>)
  have k: "0 < maxTargetOutput k" using "2.prems" by simp
  show ?case
  proof (cases "T \<le> P")
    case False
    then show ?thesis using "2.IH" [OF _ refl refl refl] "2.prems" nn k by (auto simp: Let_def min_def max_def)
  qed (use nn k in simp)
qed simp

lemma planBridges_modes:
  assumes "planBridges T P sources = ps @ p # qs" "quoteMode p = reverse"
    "\<forall>ck \<in> set sources. 0 < maxTargetOutput (snd ck)"
  shows "qs = []"
  using assms
proof (induction T P sources arbitrary: ps rule: planBridges.induct)
  case (2 T P c k sources)
  let ?o = "if T - P \<le> maxTargetOutput k then T - P else maxTargetOutput k"
  show ?case
  proof (cases ps)
    case Nil
    then have "\<not> T \<le> P" and lt: "T - P < maxTargetOutput k"
      using "2.prems"(1,2) by (auto simp: Let_def split: if_splits)
    then have "qs = planBridges T T sources" using "2.prems"(1) Nil by (auto simp: Let_def split: if_splits)
    then show ?thesis by (cases sources) auto
  next
    case (Cons q ps')
    have "\<not> T \<le> P" using "2.prems"(1) by auto
    moreover from this have "planBridges T (P + ?o) sources = ps' @ p # qs"
      using "2.prems"(1) Cons by (simp only: planBridges.simps if_False Let_def append_Cons list.inject)
    ultimately show ?thesis using "2.IH" [OF _ refl refl refl] "2.prems"(2,3) by (auto simp: Let_def)
  qed
qed simp

text \<open>
  The bridge plan takes the sources in order, each at most up to its capacity, and stops as soon as
  the target is reached: its outputs add up to the target, or to all the capacities when these do not
  suffice. A source that is used fully is quoted forward, one with headroom in reverse, and
  only the last one of a plan can have headroom.
\<close>

theorem planBridges_greedy:
  assumes "\<forall>ck \<in> set sources. 0 < maxTargetOutput (snd ck)"
  shows "sum_list (map targetOutput (planBridges T 0 sources))
      = min (max 0 T) (sum_list (map (\<lambda>ck. maxTargetOutput (snd ck)) sources))
    \<and> list_all2 plan_for (take (length (planBridges T 0 sources)) sources) (planBridges T 0 sources)
    \<and> (\<forall>ps p qs. planBridges T 0 sources = ps @ p # qs \<longrightarrow> quoteMode p = reverse \<longrightarrow> qs = [])"
  using planBridges_total [OF assms, of T 0] planBridges_prefix [OF assms] planBridges_modes [OF _ _ assms] by simp

theorem planBridges_greedy_witness:
  "sum_list (map targetOutput (planBridges 50 0 [(''a'', \<lparr>maxSourceInput = 40, maxTargetOutput = 30\<rparr>),
     (''b'', \<lparr>maxSourceInput = 70, maxTargetOutput = 60\<rparr>)])) = 50"
  using planBridges_greedy [of "[(''a'', \<lparr>maxSourceInput = 40, maxTargetOutput = 30\<rparr>),
     (''b'', \<lparr>maxSourceInput = 70, maxTargetOutput = 60\<rparr>)]" 50] by simp

section \<open>Frames\<close>

text \<open>Everything but \<open>consume\<close> leaves the inventory as it is.\<close>

definition inventory_is :: "(chain, int) dict \<Rightarrow> (chain, int) dict \<Rightarrow> inventory_state \<Rightarrow> bool" where
  "inventory_is B C s \<longleftrightarrow> inventoryBalances s = B \<and> consumedInventory s = C"

lemma keeps_ask [keeps]: "keeps (inventory_is B C) (ask W f)"
  by (simp add: keeps_def ask_def inventory_is_def)

lemma keeps_onTracker [keeps]: "keeps (inventory_is B C) (onTracker m)"
  by (simp add: keeps_def onTracker_def inventory_is_def split: prod.split)

lemma keeps_Let [keeps]: "keeps P (f x) \<Longrightarrow> keeps P (let y = x in f y)"
  by simp

lemma keeps_prod [keeps]: "(\<And>x y. keeps P (f x y)) \<Longrightarrow> keeps P (case p of (x, y) \<Rightarrow> f x y)"
  by (cases p) simp

lemma keeps_quoteBridge [keeps]: "keeps (inventory_is B C) (quoteBridge W b params)"
  unfolding quoteBridge_def by (intro keeps)

lemma keeps_send [keeps]: "keeps (inventory_is B C) (sendAndConfirmInventoryTx E D W c tx)"
  unfolding sendAndConfirmInventoryTx_def by (intro keeps)

lemma keeps_receipt [keeps]: "keeps (inventory_is B C) (extractDispatchedMessageId E W c h)"
  unfolding extractDispatchedMessageId_def getTransactionReceipt_def
  by (intro keeps_bind keeps_try keeps_if keeps) (auto split: option.split receipt.split intro!: keeps)

lemma keeps_transferRemote [keeps]: "keeps (inventory_is B C) (executeTransferRemote E D W r i n)"
  unfolding executeTransferRemote_def sendTransferTxs_def Let_def by (intro keeps)

section \<open>Sources\<close>

text \<open>A quote's gas costs are not negative.\<close>

definition quotes_ok :: "('tx, 'q) world \<Rightarrow> bool" where
  "quotes_ok W \<longleftrightarrow> (\<forall>n b params q. bridgeQuote (W n) b params = ret q \<longrightarrow> 0 \<le> bq_gasCosts q)"

lemma wp_ask: "(\<And>n x. f (W n) = ret x \<Longrightarrow> Q x (s\<lparr>calls := Suc (calls s)\<rparr>)) \<Longrightarrow> X (s\<lparr>calls := Suc (calls s)\<rparr>) \<Longrightarrow> wp (ask W f) Q X s"
  by (auto simp: wp_def ask_def split: sum.split)

lemma wp_quoteBridge:
  assumes "quotes_ok W" "\<And>q s'. 0 \<le> bq_gasCosts q \<Longrightarrow> Q q s'" "\<And>s'. X s'"
  shows "wp (quoteBridge W b params) Q X s"
  using assms unfolding quoteBridge_def quotes_ok_def by (auto simp: wp_simps split: option.split intro!: wp_ask)

lemma capacity_wp:
  assumes "quotes_ok W" "0 \<le> raw"
  shows "wp (calculateBridgeCapacity E D W c d raw b) (\<lambda>k _. maxSourceInput k \<le> raw) (\<lambda>_. True) s"
  using assms unfolding calculateBridgeCapacity_def
  by (auto simp: wp_simps Let_def no_capacity_def GAS_COST_MULTIPLIER_def split: option.split
      intro!: wp_lift wp_quoteBridge [OF assms(1)])

lemma keeps_capacity [keeps]: "keeps (inventory_is B C) (calculateBridgeCapacity E D W c d raw b)"
  unfolding calculateBridgeCapacity_def Let_def by (auto split: option.split intro!: keeps)

definition effective :: "inventory_state \<Rightarrow> chain \<Rightarrow> int" where
  "effective s c = max 0 (dict_or_zero (inventoryBalances s) c - dict_or_zero (consumedInventory s) c)"

lemma effective_eq: "getEffectiveAvailableInventory s c = effective s c"
  by (simp add: getEffectiveAvailableInventory_def effective_def getAvailableInventory_def Let_def)

lemma sources_wf:
  assumes d: "distinct (dict_keys (inventoryBalances s))"
  shows "distinct (map fst (selectAllSourceChains s dest))"
    and "(c, n) \<in> set (selectAllSourceChains s dest) \<Longrightarrow> c \<noteq> dest \<and> 0 < n \<and> n = effective s c"
proof -
  define f where "f = (\<lambda>(c, balance). if c = dest then None
     else let consumed = dict_or_zero (consumedInventory s) c;
              effectiveAvailable = (if balance > consumed then balance - consumed else 0)
          in if effectiveAvailable > 0 then Some (c, effectiveAvailable) else (None :: (chain \<times> int) option))"
  have sel: "selectAllSourceChains s dest = js_sort (\<lambda>a b. if snd a > snd b then -1 else 1) (List.map_filter f (inventoryBalances s))"
    by (simp only: selectAllSourceChains_def f_def)
  have key: "fst y = fst x" if "f x = Some y" for x y
    using that by (auto simp: f_def Let_def split: if_splits prod.splits)
  show "distinct (map fst (selectAllSourceChains s dest))" using map_filter_keys(2) [OF key d] unfolding sel by simp
  show "c \<noteq> dest \<and> 0 < n \<and> n = effective s c" if mem: "(c, n) \<in> set (selectAllSourceChains s dest)"
  proof -
    obtain x where x: "x \<in> set (inventoryBalances s)" "f x = Some (c, n)"
      using mem unfolding sel by (auto simp: List.map_filter_def)
    moreover from key [OF x(2)] obtain b where "x = (c, b)" by (cases x) simp
    ultimately have "(c, b) \<in> set (inventoryBalances s)" "f (c, b) = Some (c, n)" by simp_all
    then show ?thesis using map_of_is_SomeI [OF d] by (auto simp: f_def Let_def effective_def dict_or_zero_def split: if_splits)
  qed
qed

text \<open>The viable sources are sources, with a capacity within what is available there.\<close>

definition within_sources :: "(chain \<times> int) list \<Rightarrow> (chain \<times> BridgeCapacity) list \<Rightarrow> bool" where
  "within_sources sources viable \<longleftrightarrow> distinct (map fst viable) \<and> fst ` set viable \<subseteq> fst ` set sources
     \<and> (\<forall>(c, k) \<in> set viable. 0 < maxTargetOutput k \<and> (\<exists>n. (c, n) \<in> set sources \<and> maxSourceInput k \<le> n))"

lemma within_sources_sort: "within_sources sources viable \<Longrightarrow> within_sources sources (js_sort cmp viable)"
  by (simp add: within_sources_def)

lemma viable_wp:
  assumes q: "quotes_ok W" and d: "distinct (map fst sources)" and nn: "\<forall>(c, n) \<in> set sources. 0 < n" and s: "inventory_is B C s"
  shows "wp (viableSources E D W dest b sources) (\<lambda>viable s'. within_sources sources viable \<and> inventory_is B C s') (inventory_is B C) s"
proof -
  let ?f = "\<lambda>acc (sourceChain, availableAmount).
      op_bind (calculateBridgeCapacity E D W sourceChain dest availableAmount b) (\<lambda>capacity.
        op_ret (if maxTargetOutput capacity > 0 then acc @ [(sourceChain, capacity)] else acc))"
  have "wp (op_fold ?f [] sources) (\<lambda>viable s'. within_sources sources viable \<and> inventory_is B C s') (inventory_is B C) s"
  proof (rule wp_fold [where I = "\<lambda>ys viable s'. within_sources ys viable \<and> inventory_is B C s'"])
    show "within_sources [] [] \<and> inventory_is B C s" using s by (simp add: within_sources_def)
    fix ys x zs acc s assume xs: "sources = ys @ x # zs" and inv: "within_sources ys acc \<and> inventory_is B C s"
    obtain c n where x: "x = (c, n)" by fastforce
    have n: "0 \<le> n" and new: "c \<notin> fst ` set ys" using nn d unfolding xs x by auto
    have step: "within_sources (ys @ [(c, n)]) (if maxTargetOutput k > 0 then acc @ [(c, k)] else acc)" if "maxSourceInput k \<le> n" for k
    proof -
      have d: "distinct (map fst acc)" and sub: "fst ` set acc \<subseteq> fst ` set ys"
        and caps: "\<forall>(c, k) \<in> set acc. 0 < maxTargetOutput k \<and> (\<exists>n. (c, n) \<in> set ys \<and> maxSourceInput k \<le> n)"
        using inv unfolding within_sources_def by blast+
      have "c \<notin> fst ` set acc" using sub new by blast
      then have "distinct (map fst (acc @ [(c, k)]))" using d by simp
      moreover have "fst ` set (acc @ [(c, k)]) \<subseteq> fst ` set (ys @ [(c, n)])" "fst ` set acc \<subseteq> fst ` set (ys @ [(c, n)])"
        using sub by auto
      moreover have "\<forall>(c, k) \<in> set acc. 0 < maxTargetOutput k \<and> (\<exists>n'. (c, n') \<in> set (ys @ [(c0, n)]) \<and> maxSourceInput k \<le> n')" for c0
        using caps by fastforce
      ultimately show ?thesis using that d by (auto simp: within_sources_def)
    qed
    show "wp (?f acc x) (\<lambda>v s'. within_sources (ys @ [x]) v \<and> inventory_is B C s') (inventory_is B C) s"
      unfolding x prod.case wp_bind
      by (rule wp_mono [OF wp_and_keeps [OF capacity_wp [OF q n] keeps_capacity]]) (use inv step in \<open>auto simp: wp_simps\<close>)
  qed
  then show ?thesis unfolding viableSources_def wp_bind
    by (rule wp_mono) (auto simp: wp_simps within_sources_sort)
qed

section \<open>Movements\<close>

lemma wp_step:
  assumes "keeps P m" "P s" "\<And>x s'. P s' \<Longrightarrow> wp (f x) Q X s'" "\<And>s'. P s' \<Longrightarrow> X s'"
  shows "wp (op_bind m f) Q X s"
  unfolding wp_bind using assms by (rule wp_keeps)

lemma wp_if: "(b \<Longrightarrow> wp m Q X s) \<Longrightarrow> (\<not> b \<Longrightarrow> wp n Q X s) \<Longrightarrow> wp (if b then m else n) Q X s"
  by simp

lemma wp_prod: "(\<And>x y. p = (x, y) \<Longrightarrow> wp (f x y) Q X s) \<Longrightarrow> wp (case p of (x, y) \<Rightarrow> f x y) Q X s"
  by (cases p) simp

lemma wp_settle_ret: "wp m (\<lambda>_. P) P s \<Longrightarrow> wp (op_bind (op_settle m) (\<lambda>r. op_ret (g r))) (\<lambda>_. P) P s"
  by (auto simp: wp_def op_settle_def op_simps split: prod.splits sum.splits)

lemma wp_settle_total: "wp m (\<lambda>_. P) P s \<Longrightarrow> wp (op_settle m) (\<lambda>_. P) X s"
  by (auto simp: wp_def op_settle_def split: prod.splits sum.splits)

text \<open>A movement consumes at most \<open>cap\<close> on its source chain and nothing elsewhere.\<close>

definition moved :: "(chain, int) dict \<Rightarrow> (chain, int) dict \<Rightarrow> chain \<Rightarrow> int \<Rightarrow> inventory_state \<Rightarrow> bool" where
  "moved B C c cap s \<longleftrightarrow> inventoryBalances s = B
     \<and> (consumedInventory s = C \<or> (\<exists>x \<le> cap. consumedInventory s = AList.update c (dict_or_zero C c + x) C))"

lemma moved_refl: "inventory_is B C s \<Longrightarrow> moved B C c cap s"
  by (simp add: inventory_is_def moved_def)

lemma wp_consume:
  "inventory_is B C s \<Longrightarrow> x \<le> cap \<Longrightarrow> wp (op_seq (consume c x) (op_ret r)) (\<lambda>_. moved B C c cap) (moved B C c cap) s"
  by (auto simp: consume_def wp_simps moved_def inventory_is_def)

lemma movement_wp:
  assumes s: "inventory_is B C s"
  shows "wp (executeInventoryMovement E D W c d out cap mode i b) (\<lambda>_. moved B C c cap) (moved B C c cap) s"
proof (cases "getTokenForChain D c = None \<or> getTokenForChain D d = None")
  case True
  then show ?thesis using s unfolding executeInventoryMovement_def
    by (auto simp: wp_simps moved_refl split: option.split)
next
  case False
  then obtain t1 t2 where t: "getTokenForChain D c = Some t1" "getTokenForChain D d = Some t2" by auto
  show ?thesis unfolding executeInventoryMovement_def t prod.case option.case Let_def
    using s by (intro wp_settle_ret wp_if wp_prod wp_consume wp_step [where P = "inventory_is B C"] keeps)
      (auto simp: wp_simps moved_refl)
qed

text \<open>What a list of movements may leave consumed.\<close>

definition budget :: "(chain, int) dict \<Rightarrow> (chain, int) dict \<Rightarrow> BridgePlan list \<Rightarrow> inventory_state \<Rightarrow> bool" where
  "budget B C ps s \<longleftrightarrow> inventoryBalances s = B
     \<and> (\<forall>p \<in> set ps. dict_or_zero (consumedInventory s) (bp_chain p) \<le> dict_or_zero C (bp_chain p) + max 0 (bp_maxSourceInput p))
     \<and> (\<forall>c. c \<notin> bp_chain ` set ps \<longrightarrow> dict_or_zero (consumedInventory s) c = dict_or_zero C c)"

lemma dict_or_zero_update [simp]: "dict_or_zero (AList.update k v m) c = (if c = k then v else dict_or_zero m c)"
  by (simp add: dict_or_zero_def)

lemma dict_or_zero_simps [simp]:
  "dict_or_zero [] c = 0" "dict_or_zero ((k, v) # m) c = (if c = k then v else dict_or_zero m c)"
  by (simp_all add: dict_or_zero_def)

lemma moved_spent:
  assumes "moved B C c cap s"
  shows "inventory_is B (consumedInventory s) s" "c' \<noteq> c \<Longrightarrow> dict_or_zero (consumedInventory s) c' = dict_or_zero C c'"
    "dict_or_zero (consumedInventory s) c \<le> dict_or_zero C c + max 0 cap"
  using assms by (auto simp: moved_def inventory_is_def)

lemma budget_Cons:
  assumes "moved B C (bp_chain p) (bp_maxSourceInput p) s" "budget B (consumedInventory s) ps s'" "bp_chain p \<notin> bp_chain ` set ps"
  shows "budget B C (p # ps) s'"
  unfolding budget_def
proof (intro conjI ballI allI impI)
  show "inventoryBalances s' = B" using assms(2) by (simp add: budget_def)
  fix q assume q: "q \<in> set (p # ps)"
  show "dict_or_zero (consumedInventory s') (bp_chain q) \<le> dict_or_zero C (bp_chain q) + max 0 (bp_maxSourceInput q)"
  proof (cases "q \<in> set ps")
    case True
    then have "bp_chain q \<noteq> bp_chain p" using assms(3) by (metis image_eqI)
    then show ?thesis using True assms(2) moved_spent(2) [OF assms(1), of "bp_chain q"] by (fastforce simp: budget_def)
  next
    case False
    then show ?thesis using q assms(2,3) moved_spent(3) [OF assms(1)] by (auto simp: budget_def)
  qed
next
  fix c assume "c \<notin> bp_chain ` set (p # ps)"
  then show "dict_or_zero (consumedInventory s') c = dict_or_zero C c"
    using assms(2) moved_spent(2) [OF assms(1)] by (auto simp: budget_def)
qed

lemma movements_wp:
  assumes "distinct (map bp_chain ps)" "inventory_is B C s"
  shows "wp (executeMovements E D W r i ps) (\<lambda>_. budget B C ps) (budget B C ps) s"
  using assms unfolding executeMovements_def
proof (induction ps arbitrary: s C)
  case Nil
  then show ?case by (simp add: wp_simps budget_def inventory_is_def)
next
  case (Cons p ps)
  have "wp (op_settle (executeInventoryMovement E D W (bp_chain p) (sr_destination r) (targetOutput p) (bp_maxSourceInput p)
      (quoteMode p) i (routeExternalBridge r))) (\<lambda>_. moved B C (bp_chain p) (bp_maxSourceInput p)) (\<lambda>_. False) s"
    by (rule wp_settle_total [OF movement_wp [OF Cons.prems(2)]])
  then show ?case unfolding op_map.simps wp_bind
  proof (rule wp_mono)
    fix x s' assume m: "moved B C (bp_chain p) (bp_maxSourceInput p) s'"
    have "wp (op_map (\<lambda>plan. op_settle (executeInventoryMovement E D W (bp_chain plan) (sr_destination r) (targetOutput plan)
        (bp_maxSourceInput plan) (quoteMode plan) i (routeExternalBridge r))) ps)
        (\<lambda>_. budget B (consumedInventory s') ps) (budget B (consumedInventory s') ps) s'"
      using Cons.IH [OF _ moved_spent(1) [OF m]] Cons.prems(1) by simp
    then show "wp (op_map (\<lambda>plan. op_settle (executeInventoryMovement E D W (bp_chain plan) (sr_destination r) (targetOutput plan)
        (bp_maxSourceInput plan) (quoteMode plan) i (routeExternalBridge r))) ps)
        (\<lambda>y. wp (op_ret (x # y)) (\<lambda>_. budget B C (p # ps)) (budget B C (p # ps))) (budget B C (p # ps)) s'"
      by (rule wp_mono) (use budget_Cons [OF m] Cons.prems(1) in \<open>auto simp: wp_simps\<close>)
  qed simp
qed

section \<open>Routes\<close>

text \<open>
  What a world must answer for the bounds: no negative amount, gas or price, and a fee-aware maximum
  within the balance it is asked for.
\<close>

definition world_ok :: "('tx, 'q) world \<Rightarrow> bool" where
  "world_ok W \<longleftrightarrow> quotes_ok W \<and> (\<forall>n. gas_env_nonneg (W n))
     \<and> (\<forall>n t a c sender recipient m. getMaxTransferAmount (W n) t a c sender recipient = Inr m \<longrightarrow> m \<le> a)"

definition room :: "(chain, int) dict \<Rightarrow> (chain, int) dict \<Rightarrow> chain \<Rightarrow> int" where
  "room B C c = max 0 (dict_or_zero B c - dict_or_zero C c)"

definition bridged :: "(chain, int) dict \<Rightarrow> (chain, int) dict \<Rightarrow> chain \<Rightarrow> inventory_state \<Rightarrow> bool" where
  "bridged B C dest s \<longleftrightarrow> inventoryBalances s = B \<and> dict_or_zero (consumedInventory s) dest = dict_or_zero C dest
     \<and> (\<forall>c. dict_or_zero (consumedInventory s) c \<le> dict_or_zero C c + room B C c)"

lemma bridged_refl: "inventory_is B C s \<Longrightarrow> bridged B C dest s"
  by (simp add: bridged_def inventory_is_def room_def)

lemma plans_bridged:
  assumes b: "budget B C (planBridges T 0 viable) s'" and w: "within_sources (selectAllSourceChains s dest) viable"
    and d: "distinct (dict_keys B)" and s: "inventory_is B C s"
  shows "bridged B C dest s'"
proof -
  let ?ps = "planBridges T 0 viable"
  have s': "inventoryBalances s = B" "consumedInventory s = C" using s by (simp_all add: inventory_is_def)
  have "\<forall>ck \<in> set viable. 0 < maxTargetOutput (snd ck)" using w by (fastforce simp: within_sources_def)
  then have pref: "list_all2 plan_for (take (length ?ps) viable) ?ps" by (rule planBridges_prefix)
  have plan: "bp_chain p \<noteq> dest \<and> bp_maxSourceInput p \<le> room B C (bp_chain p)" if p: "p \<in> set ?ps" for p
  proof -
    obtain c k where ck: "(c, k) \<in> set viable" "plan_for (c, k) p"
    proof -
      obtain ck where "ck \<in> set (take (length ?ps) viable)" "plan_for ck p"
        using pref p by (metis in_set_conv_nth list_all2_conv_all_nth)
      then have "(fst ck, snd ck) \<in> set viable" "plan_for (fst ck, snd ck) p" by (auto dest: in_set_takeD)
      then show thesis by (rule that)
    qed
    obtain n where n: "(c, n) \<in> set (selectAllSourceChains s dest)" "maxSourceInput k \<le> n"
      using w ck(1) by (fastforce simp: within_sources_def)
    then show ?thesis using sources_wf(2) [of s c n dest] d s' ck(2) by (simp add: plan_for_def effective_def room_def)
  qed
  have "dict_or_zero (consumedInventory s') c \<le> dict_or_zero C c + room B C c" for c
  proof (cases "c \<in> bp_chain ` set ?ps")
    case True
    then obtain p where p: "p \<in> set ?ps" "c = bp_chain p" by auto
    have "max 0 (bp_maxSourceInput p) \<le> room B C c" using plan [OF p(1)] p(2) by (simp add: room_def)
    then show ?thesis using b p by (fastforce simp: budget_def)
  qed (use b in \<open>simp add: budget_def room_def\<close>)
  moreover have "dest \<notin> bp_chain ` set ?ps" using plan by auto
  ultimately show ?thesis using b by (simp add: bridged_def budget_def)
qed

lemma plan_chains:
  assumes "\<forall>ck \<in> set viable. 0 < maxTargetOutput (snd ck)" "distinct (map fst viable)"
  shows "distinct (map bp_chain (planBridges T 0 viable))"
proof -
  let ?ps = "planBridges T 0 viable"
  have "list_all2 plan_for (take (length ?ps) viable) ?ps" by (rule planBridges_prefix [OF assms(1)])
  then have "map bp_chain ?ps = map fst (take (length ?ps) viable)"
    by (induction rule: list_all2_induct) (auto simp: plan_for_def)
  then show ?thesis using assms(2) by (simp add: take_map [symmetric])
qed

lemma bridge_wp:
  assumes w: "quotes_ok W" and d: "distinct (dict_keys B)" and s: "inventory_is B C s"
  shows "wp (bridgeInventory E D W r i q a cost) (\<lambda>res s'. ix_amountSent res = None \<and> bridged B C (sr_destination r) s')
     (bridged B C (sr_destination r)) s"
proof -
  let ?dest = "sr_destination r"
  let ?src = "selectAllSourceChains s ?dest"
  have B: "distinct (dict_keys (inventoryBalances s))" using d s by (simp add: inventory_is_def)
  have nn: "\<forall>(c, n) \<in> set ?src. 0 < n" using sources_wf(2) [OF B] by blast
  note viable = viable_wp [OF w sources_wf(1) [OF B] nn s]
  show ?thesis
    unfolding bridgeInventory_def wp_bind wp_basic
  proof (rule wp_if)
    assume "?src = []"
    then show "wp (op_ret (failedRoute r NoInventoryAvailable)) (\<lambda>res s'. ix_amountSent res = None \<and> bridged B C ?dest s')
       (bridged B C ?dest) s"
      using s by (simp add: wp_simps bridged_refl failedRoute_def)
  next
    show "wp (op_bind (viableSources E D W ?dest (routeExternalBridge r) ?src) (\<lambda>viable.
       if viable = [] then op_ret (failedRoute r NoViableSources)
       else let plans = planBridges (bridgeTarget q a cost) 0 viable
            in op_bind (executeMovements E D W r i plans) (\<lambda>results.
               if list_ex movementSucceeded results
               then op_ret \<lparr>ix_route = r, ix_success = True, ix_error = None, ix_reason = None, ix_amountSent = None\<rparr>
               else op_ret (failedRoute r (AllMovementsFailed (failedMovements plans results))))))
       (\<lambda>res s'. ix_amountSent res = None \<and> bridged B C ?dest s') (bridged B C ?dest) s"
      unfolding wp_bind Let_def
    proof (rule wp_mono [OF viable], goal_cases)
      case (1 viable s')
      have ch: "distinct (map bp_chain (planBridges T 0 viable))" for T
        by (rule plan_chains) (use 1 in \<open>auto simp: within_sources_def\<close>)
      show ?case
      proof (rule wp_if, goal_cases)
        case 2
        show ?case unfolding wp_bind
          by (rule wp_mono [OF movements_wp [OF ch]])
            (use 1 plans_bridged [OF _ _ d s] in \<open>auto simp: wp_simps failedRoute_def\<close>)
      qed (use 1 in \<open>simp add: wp_simps bridged_refl failedRoute_def\<close>)
    qed (simp add: bridged_refl)
  qed
qed

text \<open>A deposit reports the amount of its route and leaves the inventory to its caller.\<close>

lemma deposit_wp:
  assumes "inventory_is B C s"
  shows "wp (executeTransferRemote E D W r i n) (\<lambda>res s'. ix_amountSent res = Some (sr_amount r) \<and> inventory_is B C s') (inventory_is B C) s"
proof (cases "getTokenForChain D (sr_origin r)")
  case (Some t)
  show ?thesis using assms unfolding executeTransferRemote_def sendTransferTxs_def Some option.case Let_def
    by (intro wp_step [where P = "inventory_is B C"] keeps) (auto simp: wp_simps)
qed (use assms in \<open>simp add: executeTransferRemote_def wp_simps\<close>)

definition routed :: "(chain, int) dict \<Rightarrow> (chain, int) dict \<Rightarrow> chain \<Rightarrow> InventoryExecutionResult \<Rightarrow> inventory_state \<Rightarrow> bool" where
  "routed B C dest res s \<longleftrightarrow> (case ix_amountSent res of
     None \<Rightarrow> bridged B C dest s
   | Some sent \<Rightarrow> inventory_is B C s \<and> sent \<le> room B C dest)"

lemma deposit_routed:
  assumes s: "inventory_is B C s" and n: "n \<le> room B C dest"
  shows "wp (op_bind (executeTransferRemote E D W (swappedRoute r n) i m) (\<lambda>result. op_ret (result\<lparr>ix_route := r\<rparr>)))
    (routed B C dest) (bridged B C dest) s"
  unfolding wp_bind
  by (rule wp_mono [OF deposit_wp [OF s]]) (use n in \<open>auto simp: wp_simps routed_def swappedRoute_def bridged_refl\<close>)

lemma align_le: "alignLocalToCanonical l sc = ret a \<Longrightarrow> localAmount a \<le> l"
  using minLocal_galois align_cases unfolding alignLocalToCanonical_def by blast

lemma depositOrBridge_wp:
  assumes w: "quotes_ok W" and d: "distinct (dict_keys B)" and s: "inventory_is B C s" and m: "mx \<le> room B C (sr_destination r)"
  shows "wp (depositOrBridge E D W r i t q a mx mn cost) (routed B C (sr_destination r)) (bridged B C (sr_destination r)) s"
proof -
  let ?dest = "sr_destination r"
  have bridge: "wp (bridgeInventory E D W r i q a cost) (routed B C ?dest) (bridged B C ?dest) s"
    by (rule wp_mono [OF bridge_wp [OF w d s]]) (auto simp: routed_def)
  show ?thesis unfolding depositOrBridge_def Let_def
  proof (intro wp_if wp_bind_lift)
    fix x assume "q \<le> mx"
    then show "wp (op_bind (executeTransferRemote E D W (swappedRoute r q) i x) (\<lambda>result. op_ret (result\<lparr>ix_route := r\<rparr>)))
      (routed B C ?dest) (bridged B C ?dest) s" using m by (intro deposit_routed [OF s]) simp
  next
    fix x assume "alignLocalToCanonical mx (token_scale t) = ret x"
    then show "wp (op_bind (executeTransferRemote E D W (swappedRoute r (localAmount x)) i (messageAmount x))
        (\<lambda>result. op_ret (result\<lparr>ix_route := r\<rparr>))) (routed B C ?dest) (bridged B C ?dest) s"
      using m align_le by (intro deposit_routed [OF s]) force
  qed (use bridge s in \<open>simp_all add: bridged_refl\<close>)
qed

lemma feeAware_wp:
  assumes w: "world_ok W" and s: "inventory_is B C s" and a: "a = room B C dest" and f: "fromCosts \<le> room B C dest"
  shows "wp (feeAwareMaxTransferable W t org sn rc a q fromCosts) (\<lambda>m s'. m \<le> room B C dest \<and> inventory_is B C s') (bridged B C dest) s"
proof -
  have "m \<le> room B C dest" if "getMaxTransferAmount (W n) t a org sn rc = Inr m" for n m
    using w that a by (auto simp: world_ok_def)
  note probe = this
  have s1: "inventory_is B C (s\<lparr>calls := Suc (calls s)\<rparr>)" using s by (simp add: inventory_is_def)
  have r: "0 \<le> room B C dest" by (simp add: room_def)
  show ?thesis unfolding feeAwareMaxTransferable_def
  proof (intro wp_if)
    show "wp (op_bind (ask W (\<lambda>V. ret (getMaxTransferAmount V t a org sn rc))) (\<lambda>probe.
        case probe of Inr m \<Rightarrow> op_ret (if m < q then m else q)
        | Inl (h, error) \<Rightarrow> if isRecoverableMaxTransferProbeError h error then op_ret 0 else op_throw (rethrown h error)))
       (\<lambda>m s'. m \<le> room B C dest \<and> inventory_is B C s') (bridged B C dest) s"
      unfolding wp_bind
      by (rule wp_ask) (use probe s1 r in \<open>auto simp: wp_simps bridged_refl split: sum.split intro!: wp_if dest!: probe\<close>)
  qed (use s f r in \<open>auto simp: wp_simps\<close>)
qed

lemma costs_within:
  assumes "gas_env_nonneg G" "0 \<le> a" "0 \<le> q" "calculateTransferCosts (G\<lparr>getDomainId := dm\<rparr>) tok c d a q sn = ret x"
  shows "maxTransferable x \<le> a"
proof -
  have nn: "gas_env_nonneg (G\<lparr>getDomainId := dm\<rparr>)" using assms(1) by (simp add: gas_env_nonneg_def)
  show ?thesis using reserved_bounds [OF costs_shape [OF nn assms(4)] assms(2,3)] assms(2) by linarith
qed

lemma executeRoute_wp:
  assumes w: "world_ok W" and d: "distinct (dict_keys B)" and s: "inventory_is B C s"
  shows "wp (executeRoute E D W r i) (routed B C (sr_destination r)) (bridged B C (sr_destination r)) s"
proof (cases "getTokenForChain D (sr_destination r)")
  case (Some t)
  let ?dest = "sr_destination r"
  have ef: "getEffectiveAvailableInventory s ?dest = room B C ?dest"
    using s by (simp add: effective_eq effective_def room_def inventory_is_def)
  have s1: "inventory_is B C (s\<lparr>calls := Suc (calls s)\<rparr>)" using s by (simp add: inventory_is_def)
  have qk: "quotes_ok W" using w by (simp add: world_ok_def)
  have fin: "bridged B C ?dest s'" if "inventory_is B C s'" for s' using that by (rule bridged_refl)
  show ?thesis unfolding executeRoute_def Some option.case Let_def
  proof (intro wp_bind_lift, unfold wp_bind wp_basic ef, goal_cases)
    case (1 q sn rc)
    have q: "0 \<le> q" using 1(1) minLocalAmountForMessage_nonneg unfolding denormalizeToLocal_def
      by (auto simp: minLocalAmountForMessage_eq split: if_splits)
    show ?case
    proof (rule wp_ask)
      fix n x assume "calculateTransferCosts ((W n)\<lparr>getDomainId := chainDomainId D\<rparr>) (getTokenForChain D) ?dest (sr_origin r)
          (room B C ?dest) q sn = ret x"
      then have mx: "maxTransferable x \<le> room B C ?dest"
        using w q by (intro costs_within [where G = "W n"]) (auto simp: world_ok_def room_def)
      show "wp (feeAwareMaxTransferable W t (sr_origin r) sn rc (room B C ?dest) q (maxTransferable x))
          (\<lambda>mx. wp (if q < minViableTransfer x then op_seq (onTracker (completeRebalanceIntent E (te_id i)))
              (op_ret \<lparr>ix_route = r, ix_success = True, ix_error = None, ix_reason = Some ''completed_with_acceptable_loss'', ix_amountSent = None\<rparr>)
            else depositOrBridge E D W r i t q (room B C ?dest) mx (minViableTransfer x) (totalCost x))
            (routed B C ?dest) (bridged B C ?dest)) (bridged B C ?dest) (s\<lparr>calls := Suc (calls s)\<rparr>)"
      proof (rule wp_mono [OF feeAware_wp [OF w s1 refl mx]], goal_cases)
        case (1 m s')
        then have "wp (depositOrBridge E D W r i t q (room B C ?dest) m (minViableTransfer x) (totalCost x))
            (routed B C ?dest) (bridged B C ?dest) s'" by (intro depositOrBridge_wp [OF qk d]) simp_all
        moreover have "wp (op_seq (onTracker (completeRebalanceIntent E (te_id i)))
              (op_ret \<lparr>ix_route = r, ix_success = True, ix_error = None, ix_reason = Some ''completed_with_acceptable_loss'', ix_amountSent = None\<rparr>))
            (routed B C ?dest) (bridged B C ?dest) s'"
          unfolding wp_seq by (rule wp_keeps [OF keeps_onTracker]) (use 1 in \<open>auto simp: wp_simps routed_def bridged_refl\<close>)
        ultimately show ?case by simp
      qed
    qed (rule fin [OF s1])
  qed (simp_all add: fin s)
qed (use s in \<open>simp add: executeRoute_def wp_simps bridged_refl\<close>)

section \<open>Runs\<close>

definition covered :: "(chain, int) dict \<Rightarrow> inventory_state \<Rightarrow> bool" where
  "covered B s \<longleftrightarrow> inventoryBalances s = B \<and> (\<forall>c. dict_or_zero (consumedInventory s) c \<le> max 0 (dict_or_zero B c))"

lemma covered_start: "inventory_is B [] s \<Longrightarrow> covered B s"
  by (simp add: covered_def inventory_is_def)

lemma bridged_covered: "bridged B [] dest s \<Longrightarrow> covered B s"
  by (simp add: covered_def bridged_def room_def)

lemma executeAndConsume_wp:
  assumes w: "world_ok W" and d: "distinct (dict_keys B)" and s: "inventory_is B [] s"
  shows "wp (executeAndConsume E D W r i) (\<lambda>_. covered B) (covered B) s"
  unfolding executeAndConsume_def
proof (rule wp_settle_ret, unfold wp_bind, rule wp_mono [OF executeRoute_wp [OF w d s]])
  fix res s' assume rt: "routed B [] (sr_destination r) res s'"
  show "wp (op_seq (case ix_amountSent res of
        Some sent \<Rightarrow> op_when (ix_success res \<and> sent \<noteq> 0) (consume (sr_destination r) sent) | None \<Rightarrow> op_ret ())
      (op_ret [res])) (\<lambda>_. covered B) (covered B) s'"
  proof (cases "ix_amountSent res")
    case None
    then show ?thesis using rt by (simp add: routed_def wp_simps bridged_covered)
  next
    case (Some sent)
    then show ?thesis using rt
      by (auto simp: routed_def wp_simps op_when_def consume_def inventory_is_def covered_def room_def)
  qed
qed (rule bridged_covered)

lemma rebalance_covered:
  assumes w: "world_ok W" and d: "distinct (dict_keys (inventoryBalances s))"
  shows "wp (rebalanceInventory E D W routes) (\<lambda>_. covered (inventoryBalances s)) (covered (inventoryBalances s)) s"
proof -
  let ?B = "inventoryBalances s"
  note exec = executeAndConsume_wp [OF w d]
  have cont: "wp (continueIntent E D W p) (\<lambda>_. covered ?B) (covered ?B) s'" if "inventory_is ?B [] s'" for p s'
    unfolding continueIntent_def by (intro wp_bind_lift exec) (use that in \<open>auto simp: covered_start\<close>)
  have new: "wp (op_bind (op_lift d1) (\<lambda>org. op_bind (op_lift d2) (\<lambda>dest. op_bind (onTracker (f org dest)) (\<lambda>i. executeAndConsume E D W r i))))
      (\<lambda>_. covered ?B) (covered ?B) s'" if s': "inventory_is ?B [] s'" for d1 d2 f r s'
    by (intro wp_bind_lift wp_step [OF keeps_onTracker s'] exec) (use s' in \<open>auto simp: covered_start\<close>)
  have "inventory_is ?B [] (s\<lparr>consumedInventory := []\<rparr>)" by (simp add: inventory_is_def)
  then show ?thesis
    unfolding rebalanceInventory_def getActiveInventoryIntent_def wp_seq wp_basic wp_bind [of "op_bind _ _"]
    by (intro wp_step [OF keeps_onTracker])
      (auto simp: wp_simps(1) covered_start split: option.split list.split intro: cont new)
qed

text \<open>
  C1. No overspending. However the bridges, contracts and chains answer, from call to call, within
  \<open>world_ok\<close>: a run of the inventory rebalancer, on whatever path it takes and also when it throws, keeps the inventory
  balances and never consumes more of a chain's inventory than the chain's balance. Since every movement and deposit that is
  tracked is added to what is consumed, no two of them spend the same funds.
\<close>

theorem rebalanceInventory_within_balance:
  assumes "world_ok W" and "distinct (dict_keys (inventoryBalances s))"
    and "rebalanceInventory E D W routes s = (r, s')"
  shows "inventoryBalances s' = inventoryBalances s
    \<and> (\<forall>c. dict_or_zero (consumedInventory s') c \<le> max 0 (getAvailableInventory s c))"
  using rebalance_covered [OF assms(1,2), of E D routes] assms(3)
  by (auto simp: wp_both covered_def getAvailableInventory_def)

text \<open>The run of the example consumes 50 of the 80 on its destination.\<close>

theorem rebalanceInventory_within_balance_witness:
  "\<exists>s'. rebalanceInventory ex_env ex_deps ex_world ex_inventory_routes ex_inventory
      = (ret [\<lparr>ix_route = InventoryRoute ''alpha'' ''beta'' 50 (Some LiFi), ix_success = True, ix_error = None, ix_reason = None,
          ix_amountSent = Some 50\<rparr>], s')
    \<and> dict_or_zero (consumedInventory s') ''beta'' = 50 \<and> dict_or_zero (consumedInventory s') ''alpha'' \<le> 100"
proof -
  have w: "world_ok ex_world"
    by (auto simp: world_ok_def quotes_ok_def ex_world_def gas_env_nonneg_def Let_def split: option.split)
  have d: "distinct (dict_keys (inventoryBalances ex_inventory))" by (simp add: ex_inventory_def)
  obtain s' where run: "rebalanceInventory ex_env ex_deps ex_world ex_inventory_routes ex_inventory
      = (ret [\<lparr>ix_route = InventoryRoute ''alpha'' ''beta'' 50 (Some LiFi), ix_success = True, ix_error = None, ix_reason = None,
          ix_amountSent = Some 50\<rparr>], s')" and c: "consumedInventory s' = [(''beta'', 50)]"
    using ex_inventory_run by blast
  show ?thesis using rebalanceInventory_within_balance [OF w d run] run c
    by (auto simp: getAvailableInventory_def ex_inventory_def)
qed

end
