(* ===== verification/Tracker_Inventory.thy ===== *)
theory Tracker_Inventory
  imports Tracker_Actions
begin

text \<open>
  The tracker's view of inventory intents: which of them
  \<open>getPartiallyFulfilledInventoryIntents\<close> returns and with what amounts, and which movements it gives up.
\<close>

section \<open>Movements and deposits of an intent\<close>

definition inProgressMovement :: "RebalanceAction \<Rightarrow> bool" where
  "inProgressMovement a \<longleftrightarrow> te_status a = ActionInProgress \<and> ra_type a = inventory_movement"

definition no_movement :: "tracker \<Rightarrow> string \<Rightarrow> bool" where
  "no_movement s i \<longleftrightarrow> (\<forall>a \<in> set (getActionsForIntent s i). \<not> inProgressMovement a)"

text \<open>\<open>t\<close> is \<open>s\<close> with the actions \<open>ids\<close> failed.\<close>

definition failed_from :: "tracker \<Rightarrow> string set \<Rightarrow> tracker \<Rightarrow> bool" where
  "failed_from s ids t \<longleftrightarrow> tracker_wf t \<and> transferStore t = transferStore s \<and> rebalanceIntentStore t = rebalanceIntentStore s
     \<and> uuids t = uuids s \<and> map_store core (rebalanceActionStore t) = map_store (\<lambda>a. core (failActions ids a)) (rebalanceActionStore s)"

lemma actions_core: "map core (getActionsForIntent t i) = filter (\<lambda>a. ra_intentId a = i) (map core (dict_values (rebalanceActionStore t)))"
  unfolding getActionsForIntent_def store_getAll_def filter_map by (simp add: comp_def)

lemma failActions_intent [simp]: "ra_intentId (failActions ids a) = ra_intentId a" "ra_type (failActions ids a) = ra_type a"
  by (simp_all add: failActions_def)

lemma failed_actions:
  assumes "failed_from s ids t"
  shows "map core (getActionsForIntent t i) = map (\<lambda>a. core (failActions ids a)) (getActionsForIntent s i)"
proof -
  have "map_store core (rebalanceActionStore t) = map_store (\<lambda>a. core (failActions ids a)) (rebalanceActionStore s)"
    using assms by (simp add: failed_from_def)
  then have "map core (dict_values (rebalanceActionStore t)) = map (\<lambda>a. core (failActions ids a)) (dict_values (rebalanceActionStore s))"
    by (simp only: values_map_store [symmetric])
  then have "map core (getActionsForIntent t i)
      = filter (\<lambda>a. ra_intentId a = i) (map (\<lambda>a. core (failActions ids a)) (dict_values (rebalanceActionStore s)))"
    by (simp only: actions_core)
  also have "filter (\<lambda>a. ra_intentId a = i) (map (\<lambda>a. core (failActions ids a)) xs)
      = map (\<lambda>a. core (failActions ids a)) (filter (\<lambda>a. ra_intentId a = i) xs)" for xs
    by (induction xs) simp_all
  finally show ?thesis by (simp only: getActionsForIntent_def store_getAll_def)
qed

lemma inProgressMovement_core [simp]: "inProgressMovement (core a) = inProgressMovement a"
  by (simp add: inProgressMovement_def)

lemma inProgressMovement_fail: "inProgressMovement (failActions ids a) \<longleftrightarrow> inProgressMovement a \<and> te_id a \<notin> ids"
  by (simp add: inProgressMovement_def failActions_def)

lemma core_list_eqD: "map core xs = map g ys \<Longrightarrow> x \<in> set xs \<Longrightarrow> \<exists>y \<in> set ys. core x = g y"
  by (metis image_iff list.set_map)

lemma no_movement_failed:
  assumes "failed_from s ids t"
  shows "no_movement t i \<longleftrightarrow> (\<forall>a \<in> set (getActionsForIntent s i). inProgressMovement a \<longrightarrow> te_id a \<in> ids)"
proof -
  have "inProgressMovement ` set (getActionsForIntent t i) = inProgressMovement ` set (map core (getActionsForIntent t i))"
    by (simp add: image_image)
  also have "\<dots> = (\<lambda>a. inProgressMovement (failActions ids a)) ` set (getActionsForIntent s i)"
    unfolding failed_actions [OF assms] by (simp add: image_image)
  finally have "(\<forall>a \<in> set (getActionsForIntent t i). \<not> inProgressMovement a)
      \<longleftrightarrow> (\<forall>a \<in> set (getActionsForIntent s i). \<not> inProgressMovement (failActions ids a))"
    by (metis (mono_tags, lifting) image_iff)
  then show ?thesis by (auto simp: no_movement_def inProgressMovement_fail)
qed

lemma depositAmount_core: "depositAmount st (map core xs) = depositAmount st xs"
  by (induction xs) (simp_all add: depositAmount_def)

lemma depositAmount_failed:
  assumes t: "failed_from s ids t"
    and ids: "\<And>a. a \<in> set (getActionsForIntent s i) \<Longrightarrow> te_id a \<in> ids \<Longrightarrow> ra_type a = inventory_movement"
  shows "depositAmount st (getActionsForIntent t i) = depositAmount st (getActionsForIntent s i)"
proof -
  have "depositAmount st (map (\<lambda>a. core (failActions ids a)) xs) = depositAmount st xs"
    if "\<And>a. a \<in> set xs \<Longrightarrow> te_id a \<in> ids \<Longrightarrow> ra_type a = inventory_movement" for xs
    using that by (induction xs) (auto simp: depositAmount_def failActions_def)
  then show ?thesis using ids failed_actions [OF t, of i] depositAmount_core [of st "getActionsForIntent t i"] by metis
qed

section \<open>Partially fulfilled intents\<close>

definition partial_of :: "tracker \<Rightarrow> RebalanceIntent \<Rightarrow> PartialInventoryIntent" where
  "partial_of s x =
     (let actions = getActionsForIntent s (te_id x);
          completed = depositAmount ActionComplete actions;
          inflight = depositAmount ActionInProgress actions
      in \<lparr>pi_intent = x, completedAmount = completed, remaining = te_amount x - completed - inflight,
          hasInflightDeposit = inflight > 0\<rparr>)"

definition unfinished :: "tracker \<Rightarrow> RebalanceIntent \<Rightarrow> bool" where
  "unfinished s x \<longleftrightarrow> ri_executionMethod x = Some inventory
     \<and> (remaining (partial_of s x) > 0 \<or> hasInflightDeposit (partial_of s x))"

text \<open>
  Given-up movements: in progress, of an intent of \<open>xs\<close>, not pending at the bridge, and out of the
  grace period at some reading of the clock.
\<close>

definition outdated :: "tracker_env \<Rightarrow> RebalanceAction \<Rightarrow> bool" where
  "outdated E a \<longleftrightarrow> (\<exists>n. isStaleMovement (clock E n) a)"

lemma outdated_core [simp]: "outdated E (core a) = outdated E a"
  by (simp add: outdated_def isStaleMovement_def core_def split: option.split)

lemma outdated_fail [simp]: "outdated E (failActions ids a) = outdated E a"
  by (simp add: outdated_def isStaleMovement_def failActions_def split: option.split)

definition given_up :: "tracker_env \<Rightarrow> tracker \<Rightarrow> RebalanceIntent list \<Rightarrow> string set \<Rightarrow> bool" where
  "given_up E s xs ids \<longleftrightarrow> (\<forall>a \<in> set (dict_values (rebalanceActionStore s)). te_id a \<in> ids \<longrightarrow>
     inProgressMovement a \<and> outdated E a \<and> ra_intentId a \<in> te_id ` set xs)"

definition partial_inv :: "tracker_env \<Rightarrow> tracker \<Rightarrow> RebalanceIntent list \<Rightarrow> PartialInventoryIntent list \<Rightarrow> tracker \<Rightarrow> bool" where
  "partial_inv E s xs ps t \<longleftrightarrow> (\<exists>ids. failed_from s ids t \<and> given_up E s xs ids)
   \<and> distinct (map (\<lambda>p. te_id (pi_intent p)) ps)
   \<and> (\<forall>p \<in> set ps. \<exists>x \<in> set xs. p = partial_of s x \<and> unfinished s x \<and> no_movement t (te_id x))
   \<and> (\<forall>x \<in> set xs. unfinished s x \<longrightarrow> no_movement s (te_id x) \<longrightarrow> partial_of s x \<in> set ps)"

lemma getActionsForIntent_set:
  "set (getActionsForIntent s i) = {a \<in> set (dict_values (rebalanceActionStore s)). ra_intentId a = i}"
  by (simp add: getActionsForIntent_def store_getAll_def del: set_map)

lemma fail_stale:
  assumes t: "failed_from s ids t" and as: "\<And>a. a \<in> set as \<Longrightarrow> a \<in> set (dict_values (rebalanceActionStore t))"
  shows "\<exists>t'. op_for as (\<lambda>a. failRebalanceAction E (te_id a)) t = (ret (), t') \<and> failed_from s (te_id ` set as \<union> ids) t'"
proof -
  have wf: "tracker_wf t" using t by (simp add: failed_from_def)
  have sel: "transferStore t = transferStore s" "rebalanceIntentStore t = rebalanceIntentStore s" "uuids t = uuids s"
      "map_store core (rebalanceActionStore t) = map_store (\<lambda>a. core (failActions ids a)) (rebalanceActionStore s)"
    using t unfolding failed_from_def by blast+
  have keys: "te_id a \<in> set (dict_keys (rebalanceActionStore t))" if "a \<in> set as" for a
    using as [OF that] store_ids [OF tracker_wf_sel(3) [OF wf]] by (metis image_eqI set_map)
  have body: "(\<lambda>a. failRebalanceAction E (te_id a)) = (\<lambda>a. op_when True (updateAction E (te_id a) (\<lambda>x. x\<lparr>te_status := ActionFailed\<rparr>)))"
    by (simp add: failRebalanceAction_def op_when_def)
  have every: "{a \<in> set as. True} = set as" by simp
  from fail_loop [OF tracker_wf_sel(3) [OF wf] keys, of as "\<lambda>_. True" E, folded body, unfolded every] obtain t' where
    t': "op_for as (\<lambda>a. failRebalanceAction E (te_id a)) t = (ret (), t')"
      "rebalanceIntentStore t' = rebalanceIntentStore t" "transferStore t' = transferStore t" "uuids t' = uuids t"
      "store_wf (rebalanceActionStore t')"
      "map_store core (rebalanceActionStore t') = map_store (\<lambda>a. core (failActions (te_id ` set as) a)) (rebalanceActionStore t)"
    by blast
  have "map_store (\<lambda>a. core (failActions (te_id ` set as) a)) (rebalanceActionStore t)
      = map_store (failActions (te_id ` set as)) (map_store core (rebalanceActionStore t))"
    by (simp add: failActions_core)
  also have "\<dots> = map_store (\<lambda>a. core (failActions (te_id ` set as \<union> ids) a)) (rebalanceActionStore s)"
    unfolding sel(4) by (simp add: failActions_core failActions_un Un_commute)
  finally have acts: "map_store core (rebalanceActionStore t')
      = map_store (\<lambda>a. core (failActions (te_id ` set as \<union> ids) a)) (rebalanceActionStore s)" by (simp only: t'(6))
  have "tracker_wf t'" using t'(2-5) wf by (simp add: tracker_wf_def)
  then have "failed_from s (te_id ` set as \<union> ids) t'" using t'(2-4) sel(1-3) acts unfolding failed_from_def by presburger
  then show ?thesis using t'(1) by blast
qed

lemma failed_corr:
  assumes "failed_from s ids t"
  shows "a \<in> set (getActionsForIntent s i) \<Longrightarrow> \<exists>b \<in> set (getActionsForIntent t i). core b = core (failActions ids a)"
    and "b \<in> set (getActionsForIntent t i) \<Longrightarrow> \<exists>a \<in> set (getActionsForIntent s i). core b = core (failActions ids a)"
proof -
  have "core ` set (getActionsForIntent t i) = (\<lambda>a. core (failActions ids a)) ` set (getActionsForIntent s i)"
    using arg_cong [OF failed_actions [OF assms, of i], of set] by simp
  then show "a \<in> set (getActionsForIntent s i) \<Longrightarrow> \<exists>b \<in> set (getActionsForIntent t i). core b = core (failActions ids a)"
    and "b \<in> set (getActionsForIntent t i) \<Longrightarrow> \<exists>a \<in> set (getActionsForIntent s i). core b = core (failActions ids a)"
    by (metis (no_types, lifting) imageE imageI)+
qed

lemma inProgressMovement_eqD: "core b = core (failActions ids a) \<Longrightarrow> inProgressMovement b \<longleftrightarrow> inProgressMovement a \<and> te_id a \<notin> ids"
  using inProgressMovement_fail inProgressMovement_core by metis

lemma failed_from_tick: "failed_from s ids t \<Longrightarrow> failed_from s ids (t\<lparr>ticks := n\<rparr>)"
  unfolding failed_from_def by (auto simp: tracker_wf_def)

lemma no_movement_tick [simp]: "no_movement (t\<lparr>ticks := n\<rparr>) i = no_movement t i"
  by (simp add: no_movement_def getActionsForIntent_def)

text \<open>Intents that are not returned leave the invariant as it is.\<close>

lemma partial_inv_skip:
  assumes "partial_inv E s ys ps t" "\<not> unfinished s x \<or> \<not> no_movement s (te_id x)"
  shows "partial_inv E s (ys @ [x]) ps (t\<lparr>ticks := n\<rparr>)"
proof -
  obtain ids where "failed_from s ids t" "given_up E s ys ids" using assms(1) by (auto simp: partial_inv_def)
  then have "failed_from s ids (t\<lparr>ticks := n\<rparr>)" "given_up E s (ys @ [x]) ids"
    by (auto simp: given_up_def failed_from_tick)
  then show ?thesis using assms unfolding partial_inv_def no_movement_tick by auto
qed

lemma stale_given_up:
  assumes wf: "tracker_wf s" and t: "failed_from s ids t" and g: "given_up E s ys ids"
    and stale: "set stale \<subseteq> {a \<in> set (getActionsForIntent t (te_id x)). inProgressMovement a \<and> outdated E a}"
  shows "given_up E s (ys @ [x]) (te_id ` set stale \<union> ids)"
  unfolding given_up_def
proof (intro ballI impI)
  fix a assume a: "a \<in> set (dict_values (rebalanceActionStore s))" "te_id a \<in> te_id ` set stale \<union> ids"
  show "inProgressMovement a \<and> outdated E a \<and> ra_intentId a \<in> te_id ` set (ys @ [x])"
  proof (cases "te_id a \<in> ids")
    case True
    then show ?thesis using g a(1) by (auto simp: given_up_def)
  next
    case False
    then obtain b where b: "b \<in> set stale" "te_id b = te_id a" using a(2) by auto
    then obtain a' where a': "a' \<in> set (getActionsForIntent s (te_id x))" "core b = core (failActions ids a')"
      using failed_corr(2) [OF t, of b] stale by blast
    have "te_id a' = te_id a" using arg_cong [OF a'(2), of te_id] b(2) by simp
    then have "a' = a" using store_unique [OF tracker_wf_sel(3) [OF wf], of a' a] a' a(1) by (simp add: getActionsForIntent_set)
    moreover have "outdated E b = outdated E a'" using a'(2) outdated_core outdated_fail by metis
    ultimately show ?thesis
      using inProgressMovement_eqD [OF a'(2)] b(1) stale a'(1) by (auto simp: getActionsForIntent_set)
  qed
qed

lemma partial_inv_take:
  assumes wf: "tracker_wf s" and inv: "partial_inv E s ys ps t" and t: "failed_from s ids t" and new: "te_id x \<notin> te_id ` set ys"
    and t2: "failed_from s (ids2 \<union> ids) t2" and g: "given_up E s (ys @ [x]) (ids2 \<union> ids)"
    and all: "\<And>b. b \<in> set (getActionsForIntent t (te_id x)) \<Longrightarrow> inProgressMovement b \<Longrightarrow> te_id b \<in> ids2"
    and ps': "ps' = (if unfinished s x then ps @ [partial_of s x] else ps)"
  shows "partial_inv E s (ys @ [x]) ps' t2"
proof -
  have gone: "no_movement t2 (te_id x)"
    unfolding no_movement_failed [OF t2]
  proof (intro ballI impI)
    fix a assume a: "a \<in> set (getActionsForIntent s (te_id x))" "inProgressMovement a"
    show "te_id a \<in> ids2 \<union> ids"
    proof (cases "te_id a \<in> ids")
      case False
      obtain b where b: "b \<in> set (getActionsForIntent t (te_id x))" "core b = core (failActions ids a)"
        using failed_corr(1) [OF t a(1)] by blast
      then have "te_id b \<in> ids2" using all inProgressMovement_eqD [OF b(2)] a(2) False by blast
      moreover have "te_id b = te_id a" using arg_cong [OF b(2), of te_id] by simp
      ultimately show ?thesis by simp
    qed simp
  qed
  have mono: "no_movement t2 i" if "no_movement t i" for i
    using that unfolding no_movement_failed [OF t] no_movement_failed [OF t2] by blast
  have "te_id x \<notin> set (map (\<lambda>p. te_id (pi_intent p)) ps)"
    using inv new by (fastforce simp: partial_inv_def partial_of_def Let_def)
  then have "distinct (map (\<lambda>p. te_id (pi_intent p)) ps')" using inv by (auto simp: partial_inv_def ps' partial_of_def Let_def)
  moreover have "\<exists>y \<in> set (ys @ [x]). p = partial_of s y \<and> unfinished s y \<and> no_movement t2 (te_id y)" if p: "p \<in> set ps'" for p
  proof (cases "p \<in> set ps")
    case True
    then obtain y where "y \<in> set ys" "p = partial_of s y" "unfinished s y" "no_movement t (te_id y)"
      using inv by (auto simp: partial_inv_def)
    then show ?thesis using mono by auto
  next
    case False
    then have "p = partial_of s x" "unfinished s x" using p by (auto simp: ps' split: if_splits)
    then show ?thesis using gone by auto
  qed
  moreover have "\<forall>y \<in> set (ys @ [x]). unfinished s y \<longrightarrow> no_movement s (te_id y) \<longrightarrow> partial_of s y \<in> set ps'"
    using inv unfolding partial_inv_def ps' by auto
  ultimately show ?thesis unfolding partial_inv_def using t2 g by blast
qed

lemma partial_step:
  assumes wf: "tracker_wf s" and inv: "partial_inv E s ys ps t" and new: "te_id x \<notin> te_id ` set ys"
  shows "\<exists>ps' t'. partialIntentStep E ps x t = (ret ps', t') \<and> partial_inv E s (ys @ [x]) ps' t'"
proof (cases "ri_executionMethod x = Some inventory")
  case False
  then show ?thesis using partial_inv_skip [OF inv, of x "ticks t"] by (simp add: partialIntentStep_def op_simps unfinished_def)
next
  case True
  obtain ids where t: "failed_from s ids t" and g: "given_up E s ys ids" using inv by (auto simp: partial_inv_def)
  let ?t1 = "t\<lparr>ticks := Suc (ticks t)\<rparr>" and ?now = "clock E (ticks t)"
  let ?acts = "getActionsForIntent t (te_id x)"
  let ?mv = "filter (\<lambda>a. te_status a = ActionInProgress \<and> ra_type a = inventory_movement) ?acts"
  let ?stale = "filter (isStaleMovement ?now) ?mv"
  show ?thesis
  proof (cases "\<exists>a \<in> set ?mv. te_id a \<notin> te_id ` set ?stale")
    case blocked: True
    then have "\<not> no_movement t (te_id x)" by (auto simp: no_movement_def inProgressMovement_def)
    then have "\<not> no_movement s (te_id x)" unfolding no_movement_failed [OF t] by (auto simp: no_movement_def)
    moreover have "partialIntentStep E ps x t = (ret ps, ?t1)"
      using True blocked by (simp add: partialIntentStep_def op_simps dateNow_def Let_def del: set_filter)
    ultimately show ?thesis using partial_inv_skip [OF inv] by blast
  next
    case free: False
    have sub: "set ?stale \<subseteq> {a \<in> set ?acts. inProgressMovement a \<and> outdated E a}"
      by (auto simp: inProgressMovement_def outdated_def)
    obtain t2 where t2: "op_for ?stale (\<lambda>a. failRebalanceAction E (te_id a)) ?t1 = (ret (), t2)"
        "failed_from s (te_id ` set ?stale \<union> ids) t2"
      using fail_stale [OF failed_from_tick [OF t], of ?stale "Suc (ticks t)" E] by (auto simp: getActionsForIntent_set)
    have dep: "depositAmount st ?acts = depositAmount st (getActionsForIntent s (te_id x))" for st
      by (rule depositAmount_failed [OF t]) (use g in \<open>auto simp: given_up_def getActionsForIntent_set inProgressMovement_def\<close>)
    let ?ps = "if unfinished s x then ps @ [partial_of s x] else ps"
    have "partialIntentStep E ps x t = (ret ?ps, t2)"
      using True free t2(1)
      by (simp add: partialIntentStep_def op_simps dateNow_def Let_def dep unfinished_def partial_of_def del: set_filter)
    moreover have "partial_inv E s (ys @ [x]) ?ps t2"
      by (rule partial_inv_take [OF wf inv t new t2(2) stale_given_up [OF wf t g sub] _ refl])
        (use free in \<open>auto simp: inProgressMovement_def\<close>)
    ultimately show ?thesis by blast
  qed
qed

lemma active_distinct:
  assumes "store_wf d"
  shows "distinct (map te_id (store_getByStatus IntentInProgress d @ store_getByStatus IntentNotStarted d))"
proof -
  have d: "distinct (map te_id (dict_values d))" using assms by (simp only: store_ids) (simp add: store_wf_def)
  have f: "distinct (map te_id (filter P (dict_values d)))" for P using d by (rule distinct_map_filter)
  have sep: "te_id x \<noteq> te_id y" if "x \<in> set (dict_values d)" "y \<in> set (dict_values d)" "te_status x \<noteq> te_status y" for x y
    using that d by (metis distinct_map inj_onD)
  have "te_id ` {x \<in> set (dict_values d). te_status x = IntentInProgress}
      \<inter> te_id ` {x \<in> set (dict_values d). te_status x = IntentNotStarted} = {}"
    using sep by (fastforce simp del: set_map)
  then show ?thesis
    unfolding store_getByStatus_def map_append distinct_append set_map [where f = te_id] set_filter using f by blast
qed

lemma partial_run:
  assumes wf: "tracker_wf s"
  defines "active \<equiv> store_getByStatus IntentInProgress (rebalanceIntentStore s) @ store_getByStatus IntentNotStarted (rebalanceIntentStore s)"
  shows "\<exists>ps t. getPartiallyFulfilledInventoryIntents E s = (ret ps, t) \<and> partial_inv E s active ps t"
proof -
  have d: "distinct (map te_id active)" unfolding active_def by (rule active_distinct) (rule tracker_wf_sel(2) [OF wf])
  have "failed_from s {} s" using wf by (simp add: failed_from_def failActions_def)
  then have "partial_inv E s [] [] s" by (auto simp: partial_inv_def given_up_def)
  then have "\<exists>ps t. op_fold (partialIntentStep E) [] active s = (ret ps, t) \<and> partial_inv E s active ps t"
  proof (rule op_fold_returns)
    fix ys x zs b t assume xs: "active = ys @ x # zs" and inv: "partial_inv E s ys b t"
    have "te_id x \<notin> te_id ` set ys" using d unfolding xs by auto
    then show "\<exists>b' t'. partialIntentStep E b x t = (ret b', t') \<and> partial_inv E s (ys @ [x]) b' t'"
      by (rule partial_step [OF wf inv])
  qed
  then show ?thesis by (simp add: getPartiallyFulfilledInventoryIntents_def op_simps active_def)
qed

definition active_intent :: "tracker \<Rightarrow> RebalanceIntent \<Rightarrow> bool" where
  "active_intent s x \<longleftrightarrow> getRebalanceIntent s (te_id x) = Some x \<and> te_status x \<in> {IntentInProgress, IntentNotStarted}"

lemma active_set:
  assumes "tracker_wf s"
  shows "x \<in> set (store_getByStatus IntentInProgress (rebalanceIntentStore s)
      @ store_getByStatus IntentNotStarted (rebalanceIntentStore s)) \<longleftrightarrow> active_intent s x"
  using in_values_iff [OF tracker_wf_sel(2) [OF assms], of x]
  by (auto simp: store_getByStatus_def active_intent_def getRebalanceIntent_def store_get_def simp del: set_map)



end
