(* ===== verification/Movable_Rebalancer.thy ===== *)
theory Movable_Rebalancer
  imports Tracker_Actions
begin

text \<open>
  \<open>typescript/rebalancer/src/core/Rebalancer.ts\<close>: the execution of movable collateral routes. What the
  chains and the token contracts answer is the record \<open>movable_env\<close>; a populated transaction, a gas
  quote and a receipt are opaque values. The answer to a sent transaction may depend on the
  intent it is sent for, so that two equal transactions are told apart. The text of an
  error is the value \<open>failure\<close> it is built from.

  Preparation, gas estimation and sending change no state of the rebalancer, so the promises they
  run in parallel are modelled by their results, in the order the source collects them.
\<close>

section \<open>Data\<close>

record InternalRoute =
  ir_route :: StrategyRoute
  ir_bridge :: address
  ir_intentId :: string

datatype failure =
    MissingBridge
  | PreparationRejected js_error
  | PreparationNull
  | GasEstimationFailed js_error
  | SendFailed js_error
  | NoDispatchEvent

record InternalExecutionResult =
  er_route :: InternalRoute
  er_success :: bool
  er_error :: "failure option"
  er_messageId :: string
  er_txHash :: "string option"
  er_canonicalAmount :: "int option"
  er_localAmount :: "int option"

record MovableCollateralExecutionResult =
  mx_route :: StrategyRoute
  mx_success :: bool
  mx_error :: "failure option"
  mx_messageId :: string
  mx_txHash :: "string option"

record TokenAmount =
  ta_amount :: int
  ta_token :: Token

record 'tx PreparedTransaction =
  pt_populatedTx :: 'tx
  pt_route :: InternalRoute
  pt_originTokenAmount :: TokenAmount

record ('q, 'tx, 'r) movable_env =
  mv_getDomainId :: "chain \<Rightarrow> domain result"
  mv_chainMetadata :: "(chain, domain) dict"
  mv_tokensByChainName :: "(chain, Token) dict"
  isMovableCollateralAdapter :: "Token \<Rightarrow> bool result"
  signerAddress :: "chain \<Rightarrow> address result"
  isRebalancer :: "Token \<Rightarrow> address \<Rightarrow> bool result"
  getAllowedDestination :: "Token \<Rightarrow> domain \<Rightarrow> address result"
  isBridgeAllowed :: "Token \<Rightarrow> domain \<Rightarrow> address \<Rightarrow> bool result"
  eqAddress :: "address \<Rightarrow> address \<Rightarrow> bool result"
  getRebalanceQuotes :: "Token \<Rightarrow> address \<Rightarrow> domain \<Rightarrow> address \<Rightarrow> int \<Rightarrow> 'q result"
  populateRebalanceTx :: "Token \<Rightarrow> domain \<Rightarrow> int \<Rightarrow> address \<Rightarrow> 'q \<Rightarrow> 'tx result"
  estimateGas :: "chain \<Rightarrow> 'tx \<Rightarrow> unit result"
  sendTransaction :: "string \<Rightarrow> chain \<Rightarrow> 'tx \<Rightarrow> int + string \<Rightarrow> 'r result"
  transactionHash :: "'r \<Rightarrow> string"
  dispatchedIds :: "'r \<Rightarrow> string list result"

section \<open>Preparation\<close>

definition validateRoute :: "('q, 'tx, 'r) movable_env \<Rightarrow> InternalRoute \<Rightarrow> bool result" where
  "validateRoute V r =
     (let org = sr_origin (ir_route r); dest = sr_destination (ir_route r) in
      case map_of (mv_tokensByChainName V) org of
        None \<Rightarrow> ret False
      | Some originToken \<Rightarrow>
          rbind (denormalizeToLocal (sr_amount (ir_route r)) (token_scale originToken)) (\<lambda>_.
          case map_of (mv_tokensByChainName V) dest of
            None \<Rightarrow> ret False
          | Some destinationToken \<Rightarrow>
              (case map_of (mv_chainMetadata V) dest of
                 None \<Rightarrow> ret False
               | Some destinationDomain \<Rightarrow>
                   rbind (isMovableCollateralAdapter V originToken) (\<lambda>movable.
                   if \<not> movable then ret False
                   else rbind (signerAddress V org) (\<lambda>signer.
                   rbind (isRebalancer V originToken signer) (\<lambda>allowed.
                   if \<not> allowed then ret False
                   else rbind (getAllowedDestination V originToken destinationDomain) (\<lambda>allowedDestination.
                   rbind (eqAddress V allowedDestination (addressOrDenom destinationToken)) (\<lambda>same.
                   if \<not> same then ret False
                   else isBridgeAllowed V originToken destinationDomain (ir_bridge r)))))))))"

text \<open>The token and metadata that \<open>validateRoute\<close> has found are read again without a check.\<close>

definition prepareTransaction ::
    "('q, 'tx, 'r) movable_env \<Rightarrow> InternalRoute \<Rightarrow> 'tx PreparedTransaction option result" where
  "prepareTransaction V r =
     (let org = sr_origin (ir_route r); dest = sr_destination (ir_route r) in
      rbind (validateRoute V r) (\<lambda>valid.
      if \<not> valid then ret None
      else case (map_of (mv_tokensByChainName V) org, map_of (mv_tokensByChainName V) dest, map_of (mv_chainMetadata V) dest) of
        (Some originToken, Some destinationToken, Some destinationDomain) \<Rightarrow>
          rbind (denormalizeToLocal (sr_amount (ir_route r)) (token_scale originToken)) (\<lambda>localAmount.
          case getRebalanceQuotes V originToken (ir_bridge r) destinationDomain (addressOrDenom destinationToken) localAmount of
            Inl _ \<Rightarrow> ret None
          | Inr quotes \<Rightarrow>
              (case populateRebalanceTx V originToken destinationDomain localAmount (ir_bridge r) quotes of
                 Inl _ \<Rightarrow> ret None
               | Inr populatedTx \<Rightarrow>
                   ret (Some \<lparr>pt_populatedTx = populatedTx, pt_route = r,
                     pt_originTokenAmount = \<lparr>ta_amount = localAmount, ta_token = originToken\<rparr>\<rparr>)))
      | _ \<Rightarrow> throw TypeError))"

definition failureResult :: "failure \<Rightarrow> InternalRoute \<Rightarrow> InternalExecutionResult" where
  "failureResult e r = \<lparr>er_route = r, er_success = False, er_error = Some e, er_messageId = [], er_txHash = None,
     er_canonicalAmount = None, er_localAmount = None\<rparr>"

text \<open>\<open>mapAllSettled\<close>: the values and the errors with the items they belong to, in order.\<close>

definition settled :: "('a \<Rightarrow> 'b result) \<Rightarrow> 'a list \<Rightarrow> ('a \<times> 'b) list \<times> ('a \<times> js_error) list" where
  "settled f xs =
     (List.map_filter (\<lambda>x. case f x of Inr y \<Rightarrow> Some (x, y) | Inl _ \<Rightarrow> None) xs,
      List.map_filter (\<lambda>x. case f x of Inl e \<Rightarrow> Some (x, e) | Inr _ \<Rightarrow> None) xs)"

definition prepareTransactions ::
    "('q, 'tx, 'r) movable_env \<Rightarrow> InternalRoute list \<Rightarrow> 'tx PreparedTransaction list \<times> InternalExecutionResult list" where
  "prepareTransactions V routes =
     (let (fulfilled, rejected) = settled (prepareTransaction V) routes
      in (List.map_filter snd fulfilled,
          map (\<lambda>(r, e). failureResult (PreparationRejected e) r) rejected
          @ map (\<lambda>(r, _). failureResult PreparationNull r) (filter (\<lambda>(_, tx). tx = None) fulfilled)))"

section \<open>Execution\<close>

definition groupByOrigin :: "'tx PreparedTransaction list \<Rightarrow> (chain, 'tx PreparedTransaction list) dict" where
  "groupByOrigin txs = foldl (\<lambda>m tx.
     let org = sr_origin (ir_route (pt_route tx));
         old = (case map_of m org of None \<Rightarrow> [] | Some ts \<Rightarrow> ts)
     in AList.update org (old @ [tx]) m) [] txs"

definition getReorgPeriod :: "tracker_env \<Rightarrow> chain \<Rightarrow> (int + string) result" where
  "getReorgPeriod E c = rbind (getChainMetadata E c) (\<lambda>md.
     ret (case cm_reorgPeriod md of None \<Rightarrow> Inl 32 | Some p \<Rightarrow> p))"

definition sendTransactionsForChain ::
    "tracker_env \<Rightarrow> ('q, 'tx, 'r) movable_env \<Rightarrow> chain \<Rightarrow> 'tx PreparedTransaction list
      \<Rightarrow> ('tx PreparedTransaction \<times> 'r result) list" where
  "sendTransactionsForChain E V org txs = map (\<lambda>tx.
     (tx, rbind (getReorgPeriod E org) (\<lambda>reorgPeriod.
        sendTransaction V (ir_intentId (pt_route tx)) org (pt_populatedTx tx) reorgPeriod))) txs"

definition buildResult ::
    "('q, 'tx, 'r) movable_env \<Rightarrow> 'tx PreparedTransaction \<Rightarrow> 'r \<Rightarrow> InternalExecutionResult result" where
  "buildResult V tx receipt =
     rbind (dispatchedIds V receipt) (\<lambda>ids.
     case ids of
       [] \<Rightarrow> ret ((failureResult NoDispatchEvent (pt_route tx))\<lparr>er_txHash := Some (transactionHash V receipt)\<rparr>)
     | messageId # _ \<Rightarrow>
         rbind (normalizeToCanonical (ta_amount (pt_originTokenAmount tx)) (token_scale (ta_token (pt_originTokenAmount tx))))
           (\<lambda>canonical. ret \<lparr>er_route = pt_route tx, er_success = True, er_error = None, er_messageId = messageId,
              er_txHash = Some (transactionHash V receipt), er_canonicalAmount = Some canonical,
              er_localAmount = Some (ta_amount (pt_originTokenAmount tx))\<rparr>))"

definition executeTransactions ::
    "tracker_env \<Rightarrow> ('q, 'tx, 'r) movable_env \<Rightarrow> 'tx PreparedTransaction list \<Rightarrow> InternalExecutionResult list result" where
  "executeTransactions E V transactions =
     (let (valid, failedGas) = settled (\<lambda>tx. estimateGas V (sr_origin (ir_route (pt_route tx))) (pt_populatedTx tx)) transactions;
          validTransactions = map fst valid;
          gasFailures = map (\<lambda>(tx, e). failureResult (GasEstimationFailed e) (pt_route tx)) failedGas
      in if validTransactions = [] then ret gasFailures
         else let sent = concat (map (\<lambda>(org, txs). sendTransactionsForChain E V org txs) (groupByOrigin validTransactions));
                  sendFailures = List.map_filter (\<lambda>(tx, r). case r of
                    Inl e \<Rightarrow> Some (failureResult (SendFailed e) (pt_route tx)) | Inr _ \<Rightarrow> None) sent;
                  successfulSends = List.map_filter (\<lambda>(tx, r). case r of Inr receipt \<Rightarrow> Some (tx, receipt) | Inl _ \<Rightarrow> None) sent
              in rbind (rmap (\<lambda>(tx, receipt). buildResult V tx receipt) successfulSends) (\<lambda>built.
                   ret (gasFailures @ sendFailures @ built)))"

section \<open>Tracking\<close>

definition createIntents ::
    "tracker_env \<Rightarrow> ('q, 'tx, 'r) movable_env \<Rightarrow> StrategyRoute list \<Rightarrow> RebalanceIntent list tracker_op" where
  "createIntents E V routes = op_map (\<lambda>r.
     op_bind (op_lift (mv_getDomainId V (sr_origin r))) (\<lambda>org.
     op_bind (op_lift (mv_getDomainId V (sr_destination r))) (\<lambda>dest.
       createRebalanceIntent E \<lparr>cp_origin = org, cp_destination = dest, cp_amount = sr_amount r, cp_bridge = sr_bridge r,
         cp_priority = None, cp_strategyType = None, cp_executionMethod = Some movable_collateral,
         cp_externalBridge = None\<rparr>))) routes"

definition processResult ::
    "tracker_env \<Rightarrow> ('q, 'tx, 'r) movable_env \<Rightarrow> InternalExecutionResult \<Rightarrow> unit tracker_op" where
  "processResult E V res =
     (let r = ir_route (er_route res); intentId = ir_intentId (er_route res) in
      if er_success res \<and> er_messageId res \<noteq> [] then
        op_bind (op_lift (mv_getDomainId V (sr_origin r))) (\<lambda>org.
        op_bind (op_lift (mv_getDomainId V (sr_destination r))) (\<lambda>dest.
        op_bind (createRebalanceAction E \<lparr>ca_intentId = intentId, ca_origin = org, ca_destination = dest,
          ca_amount = (case er_canonicalAmount res of Some a \<Rightarrow> a | None \<Rightarrow> sr_amount r), ca_type = rebalance_message,
          ca_messageId = Some (er_messageId res), ca_txHash = er_txHash res, ca_externalBridgeTransferId = None,
          ca_externalBridgeId = None\<rparr>) (\<lambda>_. op_ret ())))
      else failRebalanceIntent E intentId)"

definition processResults ::
    "tracker_env \<Rightarrow> ('q, 'tx, 'r) movable_env \<Rightarrow> InternalExecutionResult list \<Rightarrow> unit tracker_op" where
  "processResults E V results = op_for results (processResult E V)"

definition toPublicResult :: "InternalExecutionResult \<Rightarrow> MovableCollateralExecutionResult" where
  "toPublicResult i = \<lparr>mx_route = ir_route (er_route i), mx_success = er_success i, mx_error = er_error i,
     mx_messageId = er_messageId i, mx_txHash = er_txHash i\<rparr>"

definition missingBridge :: "StrategyRoute \<Rightarrow> bool" where
  "missingBridge r =
     (case r of MovableCollateralRoute _ _ _ b \<Rightarrow> b = None \<or> b = Some [] | InventoryRoute _ _ _ _ \<Rightarrow> True)"

definition executePrepared ::
    "tracker_env \<Rightarrow> ('q, 'tx, 'r) movable_env \<Rightarrow> InternalRoute list \<Rightarrow> InternalExecutionResult list result" where
  "executePrepared E V internalRoutes =
     (let (prepared, failures) = prepareTransactions V internalRoutes in
      if prepared = [] then ret failures
      else rbind (executeTransactions E V prepared) (\<lambda>results. ret (failures @ results)))"

definition rebalance ::
    "tracker_env \<Rightarrow> ('q, 'tx, 'r) movable_env \<Rightarrow> StrategyRoute list \<Rightarrow> MovableCollateralExecutionResult list tracker_op" where
  "rebalance E V routes =
     (if routes = [] then op_ret []
      else if \<exists>r \<in> set routes. missingBridge r then
        op_ret (map (\<lambda>r. \<lparr>mx_route = r, mx_success = False,
          mx_error = (if missingBridge r then Some MissingBridge else None), mx_messageId = [], mx_txHash = None\<rparr>) routes)
      else op_bind (createIntents E V routes) (\<lambda>intents.
        let internalRoutes = map (\<lambda>(r, i). \<lparr>ir_route = r, ir_bridge = the (sr_bridge r), ir_intentId = te_id i\<rparr>) (zip routes intents)
        in op_bind (op_lift (executePrepared E V internalRoutes)) (\<lambda>results.
           op_seq (processResults E V results)
             (op_ret (map toPublicResult results)))))"

end
