(* ===== verification/Movable_Accounting.thy ===== *)
theory Movable_Accounting
  imports Movable_Rebalancer
begin

text \<open>
  What a run of the movable collateral rebalancer accounts for: one result per route, and one
  intent per route that ends with an action worth its amount, or failed.
\<close>

section \<open>One result per route\<close>

lemma settled_Cons:
  "settled f (x # xs) = (case f x of
      Inr y \<Rightarrow> ((x, y) # fst (settled f xs), snd (settled f xs))
    | Inl e \<Rightarrow> (fst (settled f xs), (x, e) # snd (settled f xs)))"
  by (simp add: settled_def map_filter_Cons split: sum.splits)

lemma settled_mset: "mset (map fst (fst (settled f xs))) + mset (map fst (snd (settled f xs))) = mset xs"
proof (induction xs)
  case Nil
  show ?case by (simp add: settled_def map_filter_Nil)
next
  case (Cons x xs)
  then show ?case by (cases "f x") (simp_all add: settled_Cons)
qed

lemma settled_values: "(x, y) \<in> set (fst (settled f xs)) \<Longrightarrow> x \<in> set xs \<and> f x = ret y"
  by (induction xs) (auto simp: settled_Cons settled_def map_filter_Nil map_filter_Cons split: sum.splits)

text \<open>What the later steps rely on of a prepared transaction.\<close>

definition prepared_for :: "'tx PreparedTransaction \<Rightarrow> bool" where
  "prepared_for tx \<longleftrightarrow> denormalizeToLocal (sr_amount (ir_route (pt_route tx)))
     (token_scale (ta_token (pt_originTokenAmount tx))) = ret (ta_amount (pt_originTokenAmount tx))"

lemma catch_Some:
  "(case m of Inl _ \<Rightarrow> ret None | Inr q \<Rightarrow> f q) = ret (Some tx) \<longleftrightarrow> (\<exists>q. m = ret q \<and> f q = ret (Some tx))"
  by (cases m) simp_all

lemma prepareTransaction_Some:
  "prepareTransaction V r = ret (Some tx) \<Longrightarrow> pt_route tx = r \<and> prepared_for tx"
  by (auto simp: prepareTransaction_def prepared_for_def Let_def rbind_eq_Inr_iff catch_Some split: option.splits if_splits)

lemma some_and_none:
  assumes "\<And>x tx. (x, Some tx) \<in> set ps \<Longrightarrow> f tx = x"
  shows "mset (map f (List.map_filter snd ps)) + mset (map fst (filter (\<lambda>(_, tx). tx = None) ps)) = mset (map fst ps)"
  using assms
proof (induction ps)
  case (Cons p ps)
  obtain x tx where p: "p = (x, tx)" by fastforce
  have "mset (map f (List.map_filter snd ps)) + mset (map fst (filter (\<lambda>(_, tx). tx = None) ps)) = mset (map fst ps)"
    by (rule Cons.IH) (use Cons.prems in auto)
  moreover have "f t = x" if "tx = Some t" for t using Cons.prems p that by auto
  ultimately show ?case by (cases tx) (simp_all add: p map_filter_Cons)
qed (simp add: map_filter_Nil)

lemma prepareTransactions_mset:
  assumes "prepareTransactions V routes = (txs, failures)"
  shows "mset (map pt_route txs) + mset (map er_route failures) = mset routes"
    and "\<forall>tx \<in> set txs. prepared_for tx" and "\<forall>f \<in> set failures. \<not> er_success f"
proof -
  obtain ok bad where s: "settled (prepareTransaction V) routes = (ok, bad)" by fastforce
  have txs: "txs = List.map_filter snd ok" and fs: "failures = map (\<lambda>(r, e). failureResult (PreparationRejected e) r) bad
      @ map (\<lambda>(r, _). failureResult PreparationNull r) (filter (\<lambda>(_, tx). tx = None) ok)"
    using assms by (simp_all add: prepareTransactions_def s)
  have ok: "pt_route tx = x \<and> prepared_for tx" if "(x, Some tx) \<in> set ok" for x tx
    using settled_values [of x "Some tx" "prepareTransaction V" routes] that s prepareTransaction_Some by fastforce
  have er: "map er_route failures = map fst bad @ map fst (filter (\<lambda>(_, tx). tx = None) ok)"
    by (simp add: fs failureResult_def case_prod_unfold)
  have "mset (map pt_route txs) + mset (map fst (filter (\<lambda>(_, tx). tx = None) ok)) = mset (map fst ok)"
    unfolding txs by (rule some_and_none) (use ok in blast)
  moreover have "mset (map fst ok) + mset (map fst bad) = mset routes"
    using settled_mset [of "prepareTransaction V" routes] s by simp
  ultimately have "mset (map pt_route txs) + (mset (map fst bad) + mset (map fst (filter (\<lambda>(_, tx). tx = None) ok))) = mset routes"
    by (simp add: ac_simps)
  then show "mset (map pt_route txs) + mset (map er_route failures) = mset routes" unfolding er by simp
  show "\<forall>tx \<in> set txs. prepared_for tx"
    unfolding txs using ok by (auto simp: List.map_filter_def)
  show "\<forall>f \<in> set failures. \<not> er_success f" unfolding fs by (auto simp: failureResult_def)
qed

definition regroup :: "(chain, 'tx PreparedTransaction list) dict \<Rightarrow> 'tx PreparedTransaction \<Rightarrow>
    (chain, 'tx PreparedTransaction list) dict" where
  "regroup m tx = (let org = sr_origin (ir_route (pt_route tx));
       old = (case map_of m org of None \<Rightarrow> [] | Some ts \<Rightarrow> ts)
     in AList.update org (old @ [tx]) m)"

lemma mset_update_values:
  "mset (concat (dict_values (AList.update k ((case map_of m k of None \<Rightarrow> [] | Some ts \<Rightarrow> ts) @ [x]) m)))
    = add_mset x (mset (concat (dict_values m)))"
  by (induction m) (auto split: option.splits)

lemma groupByOrigin_mset: "mset (concat (dict_values (groupByOrigin txs))) = mset txs"
proof -
  have "mset (concat (dict_values (foldl regroup m txs))) = mset (concat (dict_values m)) + mset txs" for m
    by (induction txs arbitrary: m) (simp_all add: regroup_def Let_def mset_update_values)
  from this [of "[]"] show ?thesis by (simp add: groupByOrigin_def regroup_def [abs_def])
qed

text \<open>A result and the route it reports; a success carries the canonical amount sent.\<close>

definition result_ok :: "InternalExecutionResult \<Rightarrow> bool" where
  "result_ok res \<longleftrightarrow> (er_success res \<longrightarrow>
     (\<exists>c. er_canonicalAmount res = Some c \<and> 0 \<le> c \<and> sr_amount (ir_route (er_route res)) \<le> c))"

lemma failureResult_ok [simp]: "result_ok (failureResult e r)" "er_route (failureResult e r) = r"
  by (simp_all add: result_ok_def failureResult_def)

lemma buildResult_ok:
  assumes "buildResult V tx receipt = ret res" "prepared_for tx"
  shows "er_route res = pt_route tx \<and> result_ok res"
proof -
  have "0 \<le> c \<and> sr_amount (ir_route (pt_route tx)) \<le> c"
    if "normalizeToCanonical (ta_amount (pt_originTokenAmount tx)) (token_scale (ta_token (pt_originTokenAmount tx))) = ret c" for c
    using assms(2) that minLocal_galois messageAmountFromLocal_nonneg by (fastforce simp: prepared_for_def denormalizeToLocal_def normalizeToCanonical_def)
  moreover obtain ids where "dispatchedIds V receipt = ret ids" using assms(1) by (auto simp: buildResult_def rbind_eq_Inr_iff)
  ultimately show ?thesis
    using assms(1) by (cases ids) (auto simp: buildResult_def rbind_eq_Inr_iff result_ok_def failureResult_def)
qed

abbreviation failed_sends :: "('tx PreparedTransaction \<times> 'r result) list \<Rightarrow> InternalExecutionResult list" where
  "failed_sends sent \<equiv> List.map_filter (\<lambda>(tx, r). case r of
     Inl e \<Rightarrow> Some (failureResult (SendFailed e) (pt_route tx)) | Inr _ \<Rightarrow> None) sent"

abbreviation good_sends :: "('tx PreparedTransaction \<times> 'r result) list \<Rightarrow> ('tx PreparedTransaction \<times> 'r) list" where
  "good_sends sent \<equiv> List.map_filter (\<lambda>(tx, r). case r of Inr receipt \<Rightarrow> Some (tx, receipt) | Inl _ \<Rightarrow> None) sent"

lemma sent_mset:
  "mset (map er_route (failed_sends sent)) + mset (map (\<lambda>(tx, _). pt_route tx) (good_sends sent))
    = mset (map (\<lambda>(tx, _). pt_route tx) sent)"
  by (induction sent) (auto simp: map_filter_Cons map_filter_Nil split: sum.splits)

lemma failed_sends_ok: "res \<in> set (failed_sends sent) \<Longrightarrow> result_ok res"
  by (induction sent) (auto simp: map_filter_Cons map_filter_Nil split: sum.splits)

lemma good_sends_set: "(tx, v) \<in> set (good_sends sent) \<Longrightarrow> tx \<in> fst ` set sent"
  by (induction sent) (force simp: map_filter_Cons map_filter_Nil split: sum.splits)+

lemma built_results:
  assumes "rmap (\<lambda>(tx, receipt). buildResult V tx receipt) xs = ret built" "\<forall>(tx, _) \<in> set xs. prepared_for tx"
  shows "map er_route built = map (\<lambda>(tx, _). pt_route tx) xs \<and> (\<forall>res \<in> set built. result_ok res)"
  using assms
proof (induction xs arbitrary: built)
  case (Cons x xs)
  obtain tx v where x: "x = (tx, v)" by fastforce
  obtain b bs where b: "buildResult V tx v = ret b" "rmap (\<lambda>(tx, receipt). buildResult V tx receipt) xs = ret bs" "built = b # bs"
    using Cons.prems(1) by (auto simp: x rbind_eq_Inr_iff)
  have "er_route b = pt_route tx \<and> result_ok b" using buildResult_ok [OF b(1)] Cons.prems(2) x by auto
  moreover have "map er_route bs = map (\<lambda>(tx, _). pt_route tx) xs \<and> (\<forall>res \<in> set bs. result_ok res)"
    by (rule Cons.IH [OF b(2)]) (use Cons.prems(2) in auto)
  ultimately show ?case using x b(3) by simp
qed simp

lemma sends_of_groups:
  "map fst (concat (map (\<lambda>(org, txs). sendTransactionsForChain E V org txs) m)) = concat (dict_values m)"
  by (induction m) (auto simp: sendTransactionsForChain_def comp_def)

lemma executeTransactions_mset:
  assumes run: "executeTransactions E V txs = ret results" and ok: "\<forall>tx \<in> set txs. prepared_for tx"
  shows "mset (map er_route results) = mset (map pt_route txs) \<and> (\<forall>res \<in> set results. result_ok res)"
proof -
  let ?est = "\<lambda>tx. estimateGas V (sr_origin (ir_route (pt_route tx))) (pt_populatedTx tx)"
  obtain valid bad where s: "settled ?est txs = (valid, bad)" by fastforce
  let ?gas = "map (\<lambda>(tx, e). failureResult (GasEstimationFailed e) (pt_route tx)) bad"
  let ?sent = "concat (map (\<lambda>(org, txs). sendTransactionsForChain E V org txs) (groupByOrigin (map fst valid)))"
  have parts: "mset (map fst valid) + mset (map fst bad) = mset txs" using settled_mset [of ?est txs] s by simp
  have "image_mset pt_route (mset (map fst valid) + mset (map fst bad)) = mset (map pt_route txs)"
    unfolding parts by simp
  then have routes: "mset (map (\<lambda>tx. pt_route (fst tx)) valid) + mset (map er_route ?gas) = mset (map pt_route txs)"
    by (simp add: comp_def case_prod_unfold image_mset.compositionality)
  have sub: "set (map fst valid) \<subseteq> set txs" using settled_values [of _ _ ?est txs] s by fastforce
  have gas_ok: "\<forall>res \<in> set ?gas. result_ok res" by auto
  show ?thesis
  proof (cases "valid = []")
    case True
    then have "results = ?gas" using run by (simp add: executeTransactions_def s)
    then show ?thesis using routes gas_ok True by simp
  next
    case False
    then obtain built where b: "rmap (\<lambda>(tx, receipt). buildResult V tx receipt) (good_sends ?sent) = ret built"
        and res: "results = ?gas @ failed_sends ?sent @ built"
      using run by (auto simp: executeTransactions_def s Let_def rbind_eq_Inr_iff)
    have fst_sent: "map fst ?sent = concat (dict_values (groupByOrigin (map fst valid)))" by (rule sends_of_groups)
    have "mset (map fst ?sent) = mset (map fst valid)" unfolding fst_sent by (rule groupByOrigin_mset)
    then have sent: "mset (map fst ?sent) = mset (map fst valid)" and sub2: "set (map fst ?sent) = set (map fst valid)"
      by (metis set_mset_mset)+
    have "\<forall>(tx, _) \<in> set (good_sends ?sent). prepared_for tx"
    proof clarify
      fix tx v assume "(tx, v) \<in> set (good_sends ?sent)"
      from good_sends_set [OF this] have "tx \<in> set (map fst ?sent)" by simp
      then show "prepared_for tx" using sub2 sub ok by blast
    qed
    note built = built_results [OF b this]
    have "mset (map (\<lambda>(tx, _). pt_route tx) ?sent) = image_mset pt_route (mset (map fst ?sent))"
      by (simp add: comp_def case_prod_unfold image_mset.compositionality)
    also have "\<dots> = mset (map (\<lambda>tx. pt_route (fst tx)) valid)"
      unfolding sent by (simp add: comp_def image_mset.compositionality)
    finally have "mset (map er_route (failed_sends ?sent)) + mset (map er_route built) = mset (map (\<lambda>tx. pt_route (fst tx)) valid)"
      using sent_mset [of ?sent] built by simp
    then have "mset (map er_route results) = mset (map pt_route txs)"
      unfolding res using routes by (simp add: ac_simps)
    moreover have "\<forall>r \<in> set results. result_ok r" unfolding res using gas_ok failed_sends_ok built by auto
    ultimately show ?thesis by blast
  qed
qed

lemma executePrepared_mset:
  assumes "executePrepared E V routes = ret results"
  shows "mset (map er_route results) = mset routes \<and> (\<forall>res \<in> set results. result_ok res)"
proof -
  obtain txs failures where p: "prepareTransactions V routes = (txs, failures)" by fastforce
  note pr = prepareTransactions_mset [OF p]
  have f: "\<forall>res \<in> set failures. result_ok res" using pr(3) by (simp add: result_ok_def)
  show ?thesis
  proof (cases "txs = []")
    case True
    then show ?thesis using assms p pr(1) f by (simp add: executePrepared_def)
  next
    case False
    then obtain rs where rs: "executeTransactions E V txs = ret rs" "results = failures @ rs"
      using assms p by (auto simp: executePrepared_def rbind_eq_Inr_iff)
    from executeTransactions_mset [OF rs(1) pr(2)] show ?thesis using rs(2) pr(1) f by (auto simp: ac_simps)
  qed
qed


section \<open>The intents of a run\<close>

lemma createRebalanceIntent_run:
  assumes "tracker_wf s"
  obtains x s' where "createRebalanceIntent E p s = (ret x, s')" "tracker_wf s'" "uuids s' = Suc (uuids s)"
    "te_id x = uuidv4 E (uuids s)" "te_status x = IntentNotStarted" "te_amount x = cp_amount p"
    "te_origin x = cp_origin p" "te_destination x = cp_destination p" "ri_bridge x = cp_bridge p"
    "ri_executionMethod x = cp_executionMethod p" "ri_externalBridge x = cp_externalBridge p"
    "transferStore s' = transferStore s" "rebalanceActionStore s' = rebalanceActionStore s"
    "getRebalanceIntent s' = (getRebalanceIntent s)(te_id x \<mapsto> x)"
proof -
  define x where "x = \<lparr>te_id = uuidv4 E (uuids s), te_status = IntentNotStarted, te_origin = cp_origin p,
    te_destination = cp_destination p, te_amount = cp_amount p, te_createdAt = clock E (ticks s),
    te_updatedAt = clock E (Suc (ticks s)), ri_bridge = cp_bridge p, ri_priority = cp_priority p,
    ri_strategyType = cp_strategyType p, ri_executionMethod = cp_executionMethod p, ri_externalBridge = cp_externalBridge p\<rparr>"
  define s1 where "s1 = s\<lparr>uuids := Suc (uuids s), ticks := Suc (Suc (ticks s)),
    rebalanceIntentStore := store_save x (rebalanceIntentStore s)\<rparr>"
  have run: "createRebalanceIntent E p s = (ret x, s1)"
    by (simp add: createRebalanceIntent_def newUuid_def dateNow_def saveIntent_def op_simps Let_def x_def s1_def)
  have "getRebalanceIntent s1 = (getRebalanceIntent s)(te_id x \<mapsto> x)"
    using InMemoryStore.save_lookup [OF tracker_wf_sel(2) [OF assms]] by (auto simp: s1_def getRebalanceIntent_def fun_eq_iff)
  then show ?thesis using that [OF run] keepsD [OF wf_intent_ops(1) assms run] by (simp add: x_def s1_def)
qed

definition intent_for :: "StrategyRoute \<Rightarrow> RebalanceIntent \<Rightarrow> bool" where
  "intent_for r x \<longleftrightarrow> te_status x = IntentNotStarted \<and> te_amount x = sr_amount r \<and> ri_bridge x = sr_bridge r"

lemma createIntents_run:
  assumes "createIntents E V routes s = (ret xs, s')" and "tracker_wf s" and inj: "inj (uuidv4 E)"
  shows "tracker_wf s' \<and> rebalanceActionStore s' = rebalanceActionStore s \<and> transferStore s' = transferStore s
    \<and> uuids s' = uuids s + length routes \<and> list_all2 intent_for routes xs
    \<and> map te_id xs = map (\<lambda>k. uuidv4 E (uuids s + k)) [0..<length routes]
    \<and> (\<forall>x \<in> set xs. getRebalanceIntent s' (te_id x) = Some x)
    \<and> (\<forall>i. i \<notin> te_id ` set xs \<longrightarrow> getRebalanceIntent s' i = getRebalanceIntent s i)"
  using assms(1,2)
proof (induction routes arbitrary: s xs)
  case Nil
  then show ?case by (auto simp: createIntents_def op_simps)
next
  case (Cons r rs)
  let ?p = "\<lambda>org dest. \<lparr>cp_origin = org, cp_destination = dest, cp_amount = sr_amount r, cp_bridge = sr_bridge r,
    cp_priority = None, cp_strategyType = None, cp_executionMethod = Some movable_collateral, cp_externalBridge = None\<rparr>"
  from Cons.prems(1) obtain org dest where d: "mv_getDomainId V (sr_origin r) = ret org" "mv_getDomainId V (sr_destination r) = ret dest"
    by (auto simp: createIntents_def op_simps split: prod.splits sum.splits)
  obtain x s1 where x: "createRebalanceIntent E (?p org dest) s = (ret x, s1)" "tracker_wf s1" "uuids s1 = Suc (uuids s)"
      "te_id x = uuidv4 E (uuids s)" "te_status x = IntentNotStarted" "te_amount x = sr_amount r" "ri_bridge x = sr_bridge r"
      "transferStore s1 = transferStore s" "rebalanceActionStore s1 = rebalanceActionStore s"
      "getRebalanceIntent s1 = (getRebalanceIntent s)(te_id x \<mapsto> x)"
    by (rule createRebalanceIntent_run [OF Cons.prems(2), of E "?p org dest"]) simp
  from Cons.prems(1) obtain ys where ys: "createIntents E V rs s1 = (ret ys, s')" "xs = x # ys"
    by (auto simp: createIntents_def op_simps d x(1) split: prod.splits sum.splits)
  note IH = Cons.IH [OF ys(1) x(2)]
  have new: "te_id x \<notin> te_id ` set ys"
  proof
    assume "te_id x \<in> te_id ` set ys"
    then have "te_id x \<in> set (map te_id ys)" by simp
    then obtain k where "uuidv4 E (uuids s) = uuidv4 E (uuids s1 + k)" using IH x(4) by auto
    then show False using inj x(3) by (auto dest: injD)
  qed
  have ids: "map te_id xs = map (\<lambda>k. uuidv4 E (uuids s + k)) [0..<length (r # rs)]"
    using IH x(3,4) unfolding ys(2) by (simp add: upt_conv_Cons map_Suc_upt [symmetric] del: upt_Suc)
  have look: "getRebalanceIntent s' (te_id z) = Some z" if "z \<in> set xs" for z
    using that IH new x(10) unfolding ys(2) by auto
  have other: "getRebalanceIntent s' i = getRebalanceIntent s i" if "i \<notin> te_id ` set xs" for i
    using that IH x(10) unfolding ys(2) by auto
  show ?case using IH x ids look other unfolding ys(2) by (simp add: intent_for_def)
qed

text \<open>How a run leaves the intent \<open>i\<close> of an amount: failed, or under way with an action worth it.\<close>

definition settled_intent :: "tracker \<Rightarrow> tracker \<Rightarrow> string \<Rightarrow> int \<Rightarrow> bool" where
  "settled_intent s t i amt \<longleftrightarrow> (\<exists>y. getRebalanceIntent t i = Some y \<and> te_amount y = amt
     \<and> (te_status y = IntentFailed \<or> te_status y = IntentInProgress \<and>
        (\<exists>j a. getRebalanceAction s j = None \<and> getRebalanceAction t j = Some a \<and> ra_intentId a = i
           \<and> te_status a = ActionInProgress \<and> ra_type a = rebalance_message \<and> amt \<le> te_amount a
           \<and> (\<exists>m. ra_messageId a = Some m \<and> m \<noteq> []))))"

abbreviation res_id :: "InternalExecutionResult \<Rightarrow> string" where
  "res_id res \<equiv> ir_intentId (er_route res)"

abbreviation res_amount :: "InternalExecutionResult \<Rightarrow> int" where
  "res_amount res \<equiv> sr_amount (ir_route (er_route res))"

definition process_inv :: "tracker_env \<Rightarrow> tracker \<Rightarrow> InternalExecutionResult list \<Rightarrow> tracker \<Rightarrow> bool" where
  "process_inv E s ys t \<longleftrightarrow> tracker_wf t \<and> transferStore t = transferStore s
   \<and> (\<forall>k \<ge> uuids t. getRebalanceAction t (uuidv4 E k) = None)
   \<and> (\<forall>j a. getRebalanceAction s j = Some a \<longrightarrow> getRebalanceAction t j = Some a)
   \<and> (\<forall>j a. getRebalanceAction t j = Some a \<longrightarrow> getRebalanceAction s j = Some a \<or> 0 \<le> te_amount a)
   \<and> (\<forall>i. i \<notin> res_id ` set ys \<longrightarrow> getRebalanceIntent t i = getRebalanceIntent s i)
   \<and> (\<forall>res \<in> set ys. settled_intent s t (res_id res) (res_amount res))"

lemma process_inv_step:
  assumes inv: "process_inv E s ys t" and wf': "tracker_wf t'" and tr: "transferStore t' = transferStore t"
    and fresh: "\<forall>k \<ge> uuids t'. getRebalanceAction t' (uuidv4 E k) = None"
    and acts: "\<And>j a. getRebalanceAction t j = Some a \<Longrightarrow> getRebalanceAction t' j = Some a"
    and nonneg: "\<And>j a. getRebalanceAction t' j = Some a \<Longrightarrow> getRebalanceAction t j = Some a \<or> 0 \<le> te_amount a"
    and ints: "\<And>i. i \<noteq> res_id res \<Longrightarrow> getRebalanceIntent t' i = getRebalanceIntent t i"
    and new: "res_id res \<notin> res_id ` set ys"
    and this': "settled_intent s t' (res_id res) (res_amount res)"
  shows "process_inv E s (ys @ [res]) t'"
proof -
  have keep: "settled_intent s t' (res_id r) (res_amount r)" if "r \<in> set ys" for r
  proof -
    have "settled_intent s t (res_id r) (res_amount r)" using inv that unfolding process_inv_def by blast
    moreover have "getRebalanceIntent t' (res_id r) = getRebalanceIntent t (res_id r)"
      using new imageI [OF that, of res_id] by (intro ints) auto
    ultimately show ?thesis using acts unfolding settled_intent_def by fastforce
  qed
  show ?thesis unfolding process_inv_def
  proof (intro conjI allI impI ballI)
    show "tracker_wf t'" "transferStore t' = transferStore s" using wf' tr inv by (auto simp: process_inv_def)
    show "getRebalanceAction t' (uuidv4 E k) = None" if "uuids t' \<le> k" for k using fresh that by blast
    show "getRebalanceAction t' j = Some a" if "getRebalanceAction s j = Some a" for j a
      using inv that acts unfolding process_inv_def by blast
    show "getRebalanceAction s j = Some a \<or> 0 \<le> te_amount a" if "getRebalanceAction t' j = Some a" for j a
      using inv nonneg [OF that] unfolding process_inv_def by blast
    show "getRebalanceIntent t' i = getRebalanceIntent s i" if "i \<notin> res_id ` set (ys @ [res])" for i
      using inv that ints unfolding process_inv_def by auto
    show "settled_intent s t' (res_id r) (res_amount r)" if "r \<in> set (ys @ [res])" for r
      using that keep this' by auto
  qed
qed

lemma failRebalanceIntent_run:
  assumes "tracker_wf t" "getRebalanceIntent t i = Some x"
  obtains t' where "failRebalanceIntent E i t = (ret (), t')" "tracker_wf t'" "transferStore t' = transferStore t"
    "uuids t' = uuids t" "rebalanceActionStore t' = rebalanceActionStore t"
    "getRebalanceIntent t' = (getRebalanceIntent t)(i \<mapsto> x\<lparr>te_status := IntentFailed, te_updatedAt := clock E (ticks t)\<rparr>)"
proof -
  obtain r t' where u: "failRebalanceIntent E i t = (r, t')" by fastforce
  from updateIntent_status [OF assms(1) u [unfolded failRebalanceIntent_def]] assms(2) that keepsD [OF wf_intent_ops(4) assms(1) u]
  show ?thesis using u by (auto simp: fun_eq_iff)
qed

lemma processResult_step:
  assumes inv: "process_inv E s ys t" and new: "res_id res \<notin> res_id ` set ys" and ok: "result_ok res"
    and x: "getRebalanceIntent s (res_id res) = Some x" "te_status x = IntentNotStarted" "te_amount x = res_amount res"
    and inj: "inj (uuidv4 E)" and run: "processResult E V res t = (ret u, t')"
  shows "process_inv E s (ys @ [res]) t'"
proof -
  have wf: "tracker_wf t" and acts: "\<And>j a. getRebalanceAction s j = Some a \<Longrightarrow> getRebalanceAction t j = Some a"
    and fresh: "\<And>k. uuids t \<le> k \<Longrightarrow> getRebalanceAction t (uuidv4 E k) = None"
    using inv by (auto simp: process_inv_def)
  have xt: "getRebalanceIntent t (res_id res) = Some x" using inv new x(1) by (simp add: process_inv_def)
  have id: "te_id x = res_id res" by (rule getRebalanceIntent_wf [OF wf xt])
  show ?thesis
  proof (cases "er_success res \<and> er_messageId res \<noteq> []")
    case True
    obtain c where c: "er_canonicalAmount res = Some c" "res_amount res \<le> c" "0 \<le> c" using ok True by (auto simp: result_ok_def)
    let ?q = "\<lambda>org dest. \<lparr>ca_intentId = res_id res, ca_origin = org, ca_destination = dest, ca_amount = c,
      ca_type = rebalance_message, ca_messageId = Some (er_messageId res), ca_txHash = er_txHash res,
      ca_externalBridgeTransferId = None, ca_externalBridgeId = None\<rparr>"
    from run True obtain org dest where d: "mv_getDomainId V (sr_origin (ir_route (er_route res))) = ret org"
        "mv_getDomainId V (sr_destination (ir_route (er_route res))) = ret dest"
      by (auto simp: processResult_def Let_def op_simps split: prod.splits sum.splits)
    obtain a t1 where a: "createRebalanceAction E (?q org dest) t = (ret a, t1)" "tracker_wf t1" "uuids t1 = Suc (uuids t)"
        "te_id a = uuidv4 E (uuids t)" "te_status a = ActionInProgress" "ra_intentId a = res_id res" "te_amount a = c"
        "ra_type a = rebalance_message" "ra_messageId a = Some (er_messageId res)" "transferStore t1 = transferStore t"
        "getRebalanceAction t1 = (getRebalanceAction t)(te_id a \<mapsto> a)"
        "getRebalanceIntent t1 = (\<lambda>i. map_option (started (res_id res) (clock E (Suc (Suc (ticks t))))) (getRebalanceIntent t i))"
      by (rule createRebalanceAction_run [OF wf, of E "?q org dest"]) simp
    have t': "t' = t1" using run True c(1) d a(1) by (simp add: processResult_def Let_def op_simps)
    have none: "getRebalanceAction t (te_id a) = None" using fresh a(4) by simp
    show ?thesis unfolding t'
    proof (rule process_inv_step [OF inv a(2) a(10) _ _ _ _ new])
      show "\<forall>k \<ge> uuids t1. getRebalanceAction t1 (uuidv4 E k) = None"
        using fresh inj a(3,4,11) by (auto dest: injD)
      show "getRebalanceAction t1 j = Some b" if "getRebalanceAction t j = Some b" for j b
        using that none a(11) by auto
      show "getRebalanceAction t j = Some b \<or> 0 \<le> te_amount b" if "getRebalanceAction t1 j = Some b" for j b
        using that a(7,11) c(3) by (auto split: if_splits)
      show "getRebalanceIntent t1 i = getRebalanceIntent t i" if "i \<noteq> res_id res" for i
        using that getRebalanceIntent_wf [OF wf, of i] a(12) by (cases "getRebalanceIntent t i") (auto simp: started_def)
      have "getRebalanceAction s (te_id a) = None" using acts none by (metis not_None_eq)
      moreover have "getRebalanceAction t1 (te_id a) = Some a" using a(11) by simp
      moreover have "getRebalanceIntent t1 (res_id res) = Some (started (res_id res) (clock E (Suc (Suc (ticks t)))) x)"
        using a(12) xt by simp
      ultimately show "settled_intent s t1 (res_id res) (res_amount res)"
        using a(5-9) c(2) x(2,3) id True unfolding settled_intent_def started_def by force
    qed
  next
    case False
    obtain t1 where t1: "failRebalanceIntent E (res_id res) t = (ret (), t1)" "tracker_wf t1" "transferStore t1 = transferStore t"
        "uuids t1 = uuids t" "rebalanceActionStore t1 = rebalanceActionStore t"
        "getRebalanceIntent t1 = (getRebalanceIntent t)(res_id res \<mapsto>
          x\<lparr>te_status := IntentFailed, te_updatedAt := clock E (ticks t)\<rparr>)"
      by (rule failRebalanceIntent_run [OF wf xt])
    have t': "t' = t1" using run False t1(1) by (auto simp: processResult_def Let_def)
    have same: "getRebalanceAction t1 = getRebalanceAction t" using t1(5) by (simp add: getRebalanceAction_def fun_eq_iff)
    show ?thesis unfolding t'
      by (rule process_inv_step [OF inv t1(2,3) _ _ _ _ new]) (use t1(4,6) same fresh x(3) in \<open>auto simp: settled_intent_def\<close>)
  qed
qed

definition internal_routes :: "StrategyRoute list \<Rightarrow> RebalanceIntent list \<Rightarrow> InternalRoute list" where
  "internal_routes routes xs = map (\<lambda>(r, i). \<lparr>ir_route = r, ir_bridge = the (sr_bridge r), ir_intentId = te_id i\<rparr>) (zip routes xs)"

lemma internal_routes_simps:
  assumes "length xs = length routes"
  shows "map ir_route (internal_routes routes xs) = routes" "map ir_intentId (internal_routes routes xs) = map te_id xs"
  using assms by (auto simp: internal_routes_def case_prod_unfold comp_def intro: nth_equalityI)

lemma rebalance_ret:
  assumes "rebalance E V routes s = (ret results, s')" "\<forall>r \<in> set routes. \<not> missingBridge r" "routes \<noteq> []"
  obtains xs s1 rs where "createIntents E V routes s = (ret xs, s1)"
    "executePrepared E V (internal_routes routes xs) = ret rs" "op_for rs (processResult E V) s1 = (ret (), s')"
    "results = map toPublicResult rs"
  using assms by (auto simp: rebalance_def internal_routes_def [symmetric] Let_def op_simps processResults_def split: prod.splits sum.splits)

lemma processed_intents:
  assumes wf: "tracker_wf s1" and inj: "inj (uuidv4 E)"
    and fresh: "\<forall>k \<ge> uuids s1. getRebalanceAction s1 (uuidv4 E k) = None"
    and xs: "list_all2 intent_for routes xs" "\<forall>x \<in> set xs. getRebalanceIntent s1 (te_id x) = Some x" "distinct (map te_id xs)"
    and rs: "executePrepared E V (internal_routes routes xs) = ret rs"
    and run: "op_for rs (processResult E V) s1 = (ret u, s')"
  shows "process_inv E s1 rs s'"
proof -
  have len: "length xs = length routes" using xs(1) by (simp add: list_all2_lengthD)
  note acc = executePrepared_mset [OF rs]
  have "image_mset ir_intentId (mset (map er_route rs)) = mset (map te_id xs)"
    using acc internal_routes_simps(2) [OF len] by (metis mset_map)
  then have "mset (map res_id rs) = mset (map te_id xs)" by (simp add: image_mset.compositionality comp_def)
  then have dist: "distinct (map res_id rs)" using xs(3) by (metis mset_eq_imp_distinct_iff)
  show ?thesis using run
  proof (rule op_for_invariant)
    show "process_inv E s1 [] s1" using wf fresh by (simp add: process_inv_def)
    fix ys res zs t t'
    assume split: "rs = ys @ res # zs" and inv: "process_inv E s1 ys t" and step: "processResult E V res t = (ret (), t')"
    have mem: "res \<in> set rs" using split by simp
    then have "er_route res \<in># mset (map er_route rs)" by simp
    then have "er_route res \<in> set (internal_routes routes xs)" using acc by (metis set_mset_mset)
    then obtain r x where x: "(r, x) \<in> set (zip routes xs)" "ir_route (er_route res) = r" "res_id res = te_id x"
      by (auto simp: internal_routes_def)
    have ix: "intent_for r x" using xs(1) x(1) by (auto simp: list_all2_iff)
    have look: "getRebalanceIntent s1 (res_id res) = Some x" using x(1,3) xs(2) by (auto dest: set_zip_rightD)
    show "process_inv E s1 (ys @ [res]) t'"
      by (rule processResult_step [OF inv _ _ look _ _ inj step])
        (use dist split acc mem ix x(2) in \<open>auto simp: intent_for_def\<close>)
  qed
qed

lemma settled_intent_from:
  assumes "settled_intent s1 t i amt" "rebalanceActionStore s1 = rebalanceActionStore s"
  shows "settled_intent s t i amt"
  using assms by (simp add: settled_intent_def getRebalanceAction_def)

lemma rebalance_settles:
  assumes wf: "tracker_wf s" and fresh: "uuids_fresh (uuidv4 E) s"
    and afresh: "\<forall>k \<ge> uuids s. getRebalanceAction s (uuidv4 E k) = None"
    and run: "rebalance E V routes s = (ret results, s')" and b: "\<forall>r \<in> set routes. \<not> missingBridge r" "routes \<noteq> []"
  shows "tracker_wf s' \<and> mset (map mx_route results) = mset routes
    \<and> (\<forall>i x. getRebalanceIntent s i = Some x \<longrightarrow> getRebalanceIntent s' i = Some x)
    \<and> (\<forall>j a. getRebalanceAction s j = Some a \<longrightarrow> getRebalanceAction s' j = Some a)
    \<and> (\<forall>j a. getRebalanceAction s' j = Some a \<longrightarrow> getRebalanceAction s j = Some a \<or> 0 \<le> te_amount a)
    \<and> (\<forall>k < length routes. settled_intent s s' (uuidv4 E (uuids s + k)) (sr_amount (routes ! k)))"
proof -
  have inj: "inj (uuidv4 E)" using fresh by (simp add: uuids_fresh_def)
  obtain xs s1 rs where c: "createIntents E V routes s = (ret xs, s1)"
      and rs: "executePrepared E V (internal_routes routes xs) = ret rs" and p: "op_for rs (processResult E V) s1 = (ret (), s')"
      and res: "results = map toPublicResult rs"
    by (rule rebalance_ret [OF run b])
  note ci = createIntents_run [OF c wf inj]
  have len: "length xs = length routes" using ci list_all2_lengthD [of intent_for routes xs] by simp
  have ids: "map te_id xs = map (\<lambda>k. uuidv4 E (uuids s + k)) [0..<length routes]" using ci by blast
  have dist: "distinct (map te_id xs)" unfolding ids 
    by (auto simp: distinct_map intro!: inj_onI dest: injD [OF inj])
  have acts: "getRebalanceAction s1 = getRebalanceAction s" using ci by (simp add: getRebalanceAction_def fun_eq_iff)
  have afresh1: "\<forall>k \<ge> uuids s1. getRebalanceAction s1 (uuidv4 E k) = None" using afresh ci acts by auto
  have ci': "tracker_wf s1" "list_all2 intent_for routes xs" "\<forall>x \<in> set xs. getRebalanceIntent s1 (te_id x) = Some x"
    using ci by auto
  have inv: "process_inv E s1 rs s'" by (rule processed_intents [OF ci'(1) inj afresh1 ci'(2,3) dist rs p])
  note acc = executePrepared_mset [OF rs]
  have "mset (map mx_route results) = image_mset ir_route (mset (map er_route rs))"
    by (simp add: res toPublicResult_def comp_def image_mset.compositionality)
  also have "\<dots> = mset routes" using acc internal_routes_simps(1) [OF len] by (metis mset_map)
  finally have one: "mset (map mx_route results) = mset routes" .
  have rid: "res_id ` set rs = te_id ` set xs"
  proof -
    have "set (map er_route rs) = set (internal_routes routes xs)" using acc by (metis set_mset_mset)
    then have "ir_intentId ` set (map er_route rs) = set (map te_id xs)" using internal_routes_simps(2) [OF len] by (metis set_map)
    then show ?thesis by (simp add: image_image)
  qed
  have old: "getRebalanceIntent s' i = Some x" if "getRebalanceIntent s i = Some x" for i x
  proof -
    have "i \<notin> te_id ` set xs"
    proof
      assume "i \<in> te_id ` set xs"
      then have "i \<in> set (map te_id xs)" by simp
      then obtain k where "i = uuidv4 E (uuids s + k)" unfolding ids by auto
      then show False using fresh that by (simp add: uuids_fresh_def)
    qed
    then show ?thesis using inv ci rid that by (simp add: process_inv_def)
  qed
  have "settled_intent s s' (uuidv4 E (uuids s + k)) (sr_amount (routes ! k))" if k: "k < length routes" for k
  proof -
    have idk: "te_id (xs ! k) = uuidv4 E (uuids s + k)" using arg_cong [OF ids, of "\<lambda>l. l ! k"] k len by simp
    let ?r = "\<lparr>ir_route = routes ! k, ir_bridge = the (sr_bridge (routes ! k)), ir_intentId = te_id (xs ! k)\<rparr>"
    have "?r \<in> set (internal_routes routes xs)" using k len by (force simp: internal_routes_def set_zip)
    then have "?r \<in> set (map er_route rs)" using acc by (metis set_mset_mset)
    then obtain res where "res \<in> set rs" "er_route res = ?r" by auto
    then have "settled_intent s1 s' (res_id res) (res_amount res)" using inv unfolding process_inv_def by blast
    then show ?thesis using settled_intent_from ci \<open>er_route res = ?r\<close> idk by auto
  qed
  then show ?thesis using one old inv acts by (auto simp: process_inv_def)
qed


section \<open>Delivery\<close>

lemma completed_nonneg:
  assumes wf: "tracker_wf s" and nn: "\<forall>j a. getRebalanceAction s j = Some a \<longrightarrow> 0 \<le> te_amount a"
  shows "0 \<le> getCompletedAmountForIntent s i"
proof -
  have "0 \<le> te_amount a" if "a \<in> set (dict_values (rebalanceActionStore s))" for a
    using store_get_member [OF tracker_wf_sel(3) [OF wf], THEN iffD1, OF that] nn by (simp add: getRebalanceAction_def)
  then have "\<forall>a \<in> set (dict_values (rebalanceActionStore s)). 0 \<le> te_amount a" by blast
  moreover have "\<forall>a \<in> set xs. 0 \<le> te_amount a \<Longrightarrow> 0 \<le> sum_list (map (\<lambda>a. if counts_for i a then te_amount a else 0) xs)" for xs
    by (rule sum_list_nonneg) auto
  ultimately show ?thesis unfolding getCompletedAmount_eq by blast
qed

lemma delivery_completes:
  assumes wf: "tracker_wf s" and nn: "\<forall>j a. getRebalanceAction s j = Some a \<longrightarrow> 0 \<le> te_amount a"
    and a: "getRebalanceAction s j = Some a" "te_status a = ActionInProgress" "ra_type a \<noteq> inventory_movement"
    and y: "getRebalanceIntent s (ra_intentId a) = Some y" "te_amount y \<le> te_amount a"
  shows "\<exists>s' z. completeRebalanceAction E j s = (ret (), s')
    \<and> getRebalanceIntent s' (ra_intentId a) = Some z \<and> te_status z = IntentComplete"
proof -
  from completeRebalanceAction_run [OF wf a(1), of E] obtain s' where
    s': "completeRebalanceAction E j s = (ret (), s')"
      "getCompletedAmountForIntent s' (ra_intentId a) = getCompletedAmountForIntent s (ra_intentId a)
        + (if ra_type a \<noteq> inventory_movement \<and> te_status a \<noteq> ActionComplete then te_amount a else 0)"
      "map_store core (rebalanceIntentStore s') = map_store (\<lambda>x. core (if te_id x = ra_intentId a
         \<and> te_amount x \<le> getCompletedAmountForIntent s' (ra_intentId a)
       then x\<lparr>te_status := IntentComplete\<rparr> else x)) (rebalanceIntentStore s)" by blast
  have "te_amount y \<le> getCompletedAmountForIntent s' (ra_intentId a)"
    using s'(2) completed_nonneg [OF wf nn, where i = "ra_intentId a"] a(2,3) y(2) by simp
  moreover have "te_id y = ra_intentId a" by (rule getRebalanceIntent_wf [OF wf y(1)])
  ultimately have "map_option core (getRebalanceIntent s' (ra_intentId a)) = Some (core (y\<lparr>te_status := IntentComplete\<rparr>))"
    using arg_cong [OF s'(3), of "\<lambda>st. store_get st (ra_intentId a)"] y(1) by (simp add: getRebalanceIntent_def)
  then obtain z where z: "getRebalanceIntent s' (ra_intentId a) = Some z" "core z = core (y\<lparr>te_status := IntentComplete\<rparr>)" by auto
  have "te_status z = IntentComplete" using arg_cong [OF z(2), of te_status] by simp
  then show ?thesis using s'(1) z(1) by blast
qed


section \<open>An example\<close>

text \<open>Two routes: the first one's token gives 3 local units per canonical one, and it is sent; the
  other one fails its gas estimation.\<close>

definition ex_token :: "chain \<Rightarrow> Token" where
  "ex_token c = \<lparr>chainName = c, standard = ''EvmHypCollateral'', addressOrDenom = c, collateralAddressOrDenom = None,
     token_decimals = 6, token_scale = Some (ScaleFraction 1 3)\<rparr>"

definition ex_movable_env :: "(unit, int, string list) movable_env" where
  "ex_movable_env = \<lparr>mv_getDomainId = (\<lambda>c. ret (if c = ''alpha'' then 1 else 2)),
     mv_chainMetadata = [(''alpha'', 1), (''beta'', 2)],
     mv_tokensByChainName = [(''alpha'', ex_token ''alpha''), (''beta'', ex_token ''beta'')],
     isMovableCollateralAdapter = (\<lambda>_. ret True), signerAddress = (\<lambda>_. ret ''me''), isRebalancer = (\<lambda>_ _. ret True),
     getAllowedDestination = (\<lambda>_ d. ret (if d = 1 then ''alpha'' else ''beta'')), isBridgeAllowed = (\<lambda>_ _ _. ret True),
     eqAddress = (\<lambda>a b. ret (a = b)), getRebalanceQuotes = (\<lambda>_ _ _ _ _. ret ()),
     populateRebalanceTx = (\<lambda>_ _ amt _ _. ret amt), estimateGas = (\<lambda>_ amt. if amt = 30 then ret () else throw RangeError),
     sendTransaction = (\<lambda>_ _ _ _. ret [''m'']), transactionHash = concat, dispatchedIds = ret\<rparr>"

definition ex_movable_routes :: "StrategyRoute list" where
  "ex_movable_routes = [MovableCollateralRoute ''alpha'' ''beta'' 10 (Some ''b''), MovableCollateralRoute ''beta'' ''alpha'' 5 (Some ''b'')]"

definition ex_internal :: "string \<Rightarrow> string \<Rightarrow> InternalRoute list" where
  "ex_internal i j =
     [\<lparr>ir_route = MovableCollateralRoute ''alpha'' ''beta'' 10 (Some ''b''), ir_bridge = ''b'', ir_intentId = i\<rparr>,
      \<lparr>ir_route = MovableCollateralRoute ''beta'' ''alpha'' 5 (Some ''b''), ir_bridge = ''b'', ir_intentId = j\<rparr>]"

lemma ex_prepared:
  "prepareTransactions ex_movable_env (ex_internal i j) = (map (\<lambda>(r, amt, c). \<lparr>pt_populatedTx = amt, pt_route = r,
     pt_originTokenAmount = \<lparr>ta_amount = amt, ta_token = ex_token c\<rparr>\<rparr>)
     [(ex_internal i j ! 0, 30, ''alpha''), (ex_internal i j ! 1, 15, ''beta'')], [])"
  by (simp add: prepareTransactions_def settled_def map_filter_Cons map_filter_Nil prepareTransaction_def validateRoute_def
      ex_internal_def ex_movable_env_def ex_token_def denormalizeToLocal_def minLocalAmountForMessage_eq validScale_def)

lemma ex_executed:
  "executePrepared ex_env ex_movable_env (ex_internal i j) = ret
     [failureResult (GasEstimationFailed RangeError) (ex_internal i j ! 1),
      \<lparr>er_route = ex_internal i j ! 0, er_success = True, er_error = None, er_messageId = ''m'', er_txHash = Some ''m'',
       er_canonicalAmount = Some 10, er_localAmount = Some 30\<rparr>]"
  unfolding executePrepared_def ex_prepared
  by (simp add: executeTransactions_def settled_def map_filter_Cons map_filter_Nil groupByOrigin_def sendTransactionsForChain_def
      ex_internal_def ex_movable_env_def getReorgPeriod_def buildResult_def normalizeToCanonical_def messageAmountFromLocal_eq
      validScale_def ex_token_def ex_env_def)

lemma ex_intents:
  "\<exists>xs s1. createIntents ex_env ex_movable_env ex_movable_routes ex_state = (ret xs, s1)"
  by (simp add: createIntents_def ex_movable_routes_def ex_movable_env_def op_simps createRebalanceIntent_def
      newUuid_def dateNow_def saveIntent_def Let_def)

lemma ex_fresh:
  "uuids_fresh (uuidv4 ex_env) ex_state" "\<forall>k \<ge> uuids ex_state. getRebalanceAction ex_state (uuidv4 ex_env k) = None"
proof -
  have "getRebalanceIntent ex_state (uuidv4 ex_env n) = None" "getRebalanceAction ex_state (uuidv4 ex_env n) = None" for n
    by (simp_all add: ex_state_def ex_env_def getRebalanceIntent_def getRebalanceAction_def store_get_def)
  then show "uuids_fresh (uuidv4 ex_env) ex_state" "\<forall>k \<ge> uuids ex_state. getRebalanceAction ex_state (uuidv4 ex_env k) = None"
    using ex_uuids by (simp_all add: uuids_fresh_def)
qed

lemma processResult_returns:
  assumes wf: "tracker_wf t" and x: "getRebalanceIntent t (res_id res) = Some x" and d: "\<And>c. \<exists>n. mv_getDomainId V c = ret n"
  shows "\<exists>t'. processResult E V res t = (ret (), t') \<and> tracker_wf t' \<and> (\<forall>i. getRebalanceIntent t i \<noteq> None \<longrightarrow> getRebalanceIntent t' i \<noteq> None)"
proof (cases "er_success res \<and> er_messageId res \<noteq> []")
  case True
  obtain org dest where dd: "mv_getDomainId V (sr_origin (ir_route (er_route res))) = ret org"
    "mv_getDomainId V (sr_destination (ir_route (er_route res))) = ret dest" using d by meson
  let ?q = "\<lparr>ca_intentId = res_id res, ca_origin = org, ca_destination = dest,
    ca_amount = (case er_canonicalAmount res of Some a \<Rightarrow> a | None \<Rightarrow> res_amount res), ca_type = rebalance_message,
    ca_messageId = Some (er_messageId res), ca_txHash = er_txHash res, ca_externalBridgeTransferId = None,
    ca_externalBridgeId = None\<rparr>"
  obtain a t1 where a: "createRebalanceAction E ?q t = (ret a, t1)" "tracker_wf t1"
      "getRebalanceIntent t1 = (\<lambda>i. map_option (started (ca_intentId ?q) (clock E (Suc (Suc (ticks t))))) (getRebalanceIntent t i))"
    by (rule createRebalanceAction_run [OF wf])
  then show ?thesis using True dd by (auto simp: processResult_def Let_def op_simps)
next
  case False
  obtain t1 where "failRebalanceIntent E (res_id res) t = (ret (), t1)" "tracker_wf t1"
      "getRebalanceIntent t1 = (getRebalanceIntent t)(res_id res \<mapsto> x\<lparr>te_status := IntentFailed, te_updatedAt := clock E (ticks t)\<rparr>)"
    by (rule failRebalanceIntent_run [OF wf x])
  then show ?thesis using False by (auto simp: processResult_def Let_def)
qed

lemma processResults_return:
  assumes "tracker_wf t" "\<forall>res \<in> set rs. getRebalanceIntent t (res_id res) \<noteq> None" "\<And>c. \<exists>n. mv_getDomainId V c = ret n"
  shows "\<exists>t'. op_for rs (processResult E V) t = (ret (), t')"
proof -
  have "\<exists>t'. op_for rs (processResult E V) t = (ret (), t') \<and> tracker_wf t'
      \<and> (\<forall>i. getRebalanceIntent t i \<noteq> None \<longrightarrow> getRebalanceIntent t' i \<noteq> None)"
  proof (rule op_for_returns [where I = "\<lambda>_ u. tracker_wf u \<and> (\<forall>i. getRebalanceIntent t i \<noteq> None \<longrightarrow> getRebalanceIntent u i \<noteq> None)"])
    fix ys res zs u assume rs: "rs = ys @ res # zs"
      and I: "tracker_wf u \<and> (\<forall>i. getRebalanceIntent t i \<noteq> None \<longrightarrow> getRebalanceIntent u i \<noteq> None)"
    obtain x where "getRebalanceIntent u (res_id res) = Some x" using assms(2) rs I by fastforce
    then show "\<exists>v. processResult E V res u = (ret (), v) \<and> tracker_wf v \<and> (\<forall>i. getRebalanceIntent t i \<noteq> None \<longrightarrow> getRebalanceIntent v i \<noteq> None)"
      using processResult_returns [of u res x V E] I assms(3) by blast
  qed (use assms(1) in simp)
  then show ?thesis by blast
qed

text \<open>
  A run returns whenever the domains are known and the execution of the prepared transactions, which
  throws only for a receipt that cannot be decoded or a scale that is not positive, returns.
\<close>

lemma rebalance_returns:
  assumes wf: "tracker_wf s" and inj: "inj (uuidv4 E)" and d: "\<And>c. \<exists>n. mv_getDomainId V c = ret n"
    and c: "createIntents E V routes s = (ret xs, s1)" and rs: "executePrepared E V (internal_routes routes xs) = ret rs"
  shows "\<exists>results s'. rebalance E V routes s = (ret results, s')"
proof (cases "routes = [] \<or> (\<exists>r \<in> set routes. missingBridge r)")
  case True
  then show ?thesis by (cases "routes = []") (simp_all add: rebalance_def op_simps)
next
  case False
  note ci = createIntents_run [OF c wf inj]
  have len: "length xs = length routes" using ci list_all2_lengthD [of intent_for routes xs] by simp
  have "\<forall>res \<in> set rs. getRebalanceIntent s1 (res_id res) \<noteq> None"
  proof
    fix res assume "res \<in> set rs"
    then have "er_route res \<in> set (internal_routes routes xs)"
      using executePrepared_mset [OF rs] by (metis image_eqI list.set_map set_mset_mset)
    then have "res_id res \<in> set (map te_id xs)" using internal_routes_simps(2) [OF len] by (metis image_eqI list.set_map)
    then obtain x where "x \<in> set xs" "res_id res = te_id x" unfolding set_map by blast
    then show "getRebalanceIntent s1 (res_id res) \<noteq> None" using ci by simp
  qed
  then obtain s' where "op_for rs (processResult E V) s1 = (ret (), s')" using processResults_return [of s1 rs V E] ci d by blast
  then show ?thesis
    using False c rs by (auto simp: rebalance_def internal_routes_def Let_def op_simps processResults_def)
qed

lemma ex_movable_run: "\<exists>results s'. rebalance ex_env ex_movable_env ex_movable_routes ex_state = (ret results, s')"
proof -
  obtain xs s1 where c: "createIntents ex_env ex_movable_env ex_movable_routes ex_state = (ret xs, s1)" using ex_intents by blast
  have len: "length xs = 2"
    using createIntents_run [OF c ex_state_wf ex_uuids] list_all2_lengthD [of intent_for ex_movable_routes xs] by (simp add: ex_movable_routes_def)
  have "internal_routes ex_movable_routes xs = ex_internal (te_id (xs ! 0)) (te_id (xs ! 1))"
    using len by (cases xs; cases "tl xs") (auto simp: internal_routes_def ex_movable_routes_def ex_internal_def)
  then show ?thesis
    using rebalance_returns [OF ex_state_wf ex_uuids _ c] ex_executed by (auto simp: ex_movable_env_def)
qed



end
