(* ===== verification/Inventory_Intents.thy ===== *)
theory Inventory_Intents
  imports Inventory_Spending Tracker_Inventory Movable_Accounting
begin

text \<open>
  What the inventory rebalancer does to the action tracker. The locale \<open>tracker_predicate\<close> holds the
  operations that only read, which keep any predicate on trackers. Its extension \<open>executor_invariant\<close> is what
  the execution of a route asks of a predicate: that creating an action and completing an
  intent preserve it. Then every execution of a route preserves it.
\<close>

section \<open>Invariants of an execution\<close>

locale tracker_predicate =
  fixes P :: "tracker \<Rightarrow> bool"
begin

abbreviation tracked :: "inventory_state \<Rightarrow> bool" where
  "tracked s \<equiv> P (actionTracker s)"

lemma lift_keeps: "keeps P m \<Longrightarrow> keeps tracked (onTracker m)"
  by (force simp: keeps_def onTracker_def split: prod.split)

lemma neutral_keeps: "keeps tracked (ask W f)" "keeps tracked (consume c n)" "keeps tracked (quoteBridge W b params)"
  by (auto simp: keeps_def ask_def consume_def quoteBridge_def op_simps split: option.split)

lemma capacity_keeps: "keeps tracked (calculateBridgeCapacity E D W c d raw b)"
  unfolding calculateBridgeCapacity_def Let_def by (auto split: option.split intro!: keeps neutral_keeps)

lemma send_keeps: "keeps tracked (sendAndConfirmInventoryTx E D W c tx)"
  unfolding sendAndConfirmInventoryTx_def Let_def by (intro keeps neutral_keeps)

lemma sendAll_keeps: "keeps tracked (sendTransferTxs E D W c txs)"
  unfolding sendTransferTxs_def by (intro keeps send_keeps)

lemma message_keeps: "keeps tracked (extractDispatchedMessageId E W c h)"
  unfolding extractDispatchedMessageId_def getTransactionReceipt_def
  by (intro keeps_bind keeps_try keeps_if keeps neutral_keeps) (auto split: option.split receipt.split intro!: keeps neutral_keeps)

lemma feeAware_keeps: "keeps tracked (feeAwareMaxTransferable W t org sn rc a q f)"
  unfolding feeAwareMaxTransferable_def by (auto split: sum.split intro!: keeps neutral_keeps)

end

locale executor_invariant = tracker_predicate P for P +
  fixes E :: tracker_env
  assumes create_action: "keeps P (createRebalanceAction E q)"
    and complete_intent: "keeps P (completeRebalanceIntent E j)"
begin

lemma movement_keeps: "keeps tracked (executeInventoryMovement E D W c d out cap mode i b)"
  unfolding executeInventoryMovement_def Let_def
  by (auto split: option.split intro!: keeps neutral_keeps lift_keeps create_action)

lemma bridge_keeps: "keeps tracked (bridgeInventory E D W r i q a cost)"
  unfolding bridgeInventory_def viableSources_def executeMovements_def Let_def
  by (intro keeps capacity_keeps movement_keeps)

lemma deposit_keeps: "keeps tracked (executeTransferRemote E D W r i n)"
  unfolding executeTransferRemote_def Let_def
  by (intro keeps neutral_keeps sendAll_keeps message_keeps lift_keeps create_action)

lemma route_keeps: "keeps tracked (executeRoute E D W r i)"
  unfolding executeRoute_def depositOrBridge_def Let_def
  by (auto split: option.split intro!: keeps neutral_keeps feeAware_keeps deposit_keeps bridge_keeps lift_keeps complete_intent)

lemma execute_keeps: "keeps tracked (executeAndConsume E D W r i)"
  unfolding executeAndConsume_def by (intro keeps route_keeps neutral_keeps)

end

interpretation wf: executor_invariant tracker_wf E for E
  by unfold_locales (rule keeps)+

text \<open>Nor does an execution add or remove an intent, or take one back.\<close>

definition intent_ids :: "string set \<Rightarrow> tracker \<Rightarrow> bool" where
  "intent_ids K t \<longleftrightarrow> tracker_wf t \<and> dom (getRebalanceIntent t) = K"

lemma intent_ids_create: "keeps (intent_ids K) (createRebalanceAction E q)"
  unfolding keeps_def
proof (intro allI impI)
  fix s assume s: "intent_ids K s"
  then have "tracker_wf s" by (simp add: intent_ids_def)
  from createRebalanceAction_run [OF this, of E q] obtain a s' where "createRebalanceAction E q s = (ret a, s')" "tracker_wf s'"
    "getRebalanceIntent s' = (\<lambda>i. map_option (started (ca_intentId q) (clock E (Suc (Suc (ticks s))))) (getRebalanceIntent s i))"
    by metis
  then show "intent_ids K (snd (createRebalanceAction E q s))" using s by (auto simp: intent_ids_def dom_def)
qed

lemma intent_ids_complete: "keeps (intent_ids K) (completeRebalanceIntent E i)"
  unfolding keeps_def
proof (intro allI impI)
  fix s assume s: "intent_ids K s"
  have wf: "tracker_wf (snd (completeRebalanceIntent E i s))"
    using s keepsD [OF wf_intent_ops(2)] by (metis intent_ids_def prod.collapse)
  have "dom (getRebalanceIntent (snd (completeRebalanceIntent E i s))) = dom (getRebalanceIntent s)"
    by (auto simp: completeRebalanceIntent_def updateIntent_def getRebalanceIntent_def store_update_def store_get_def split: option.splits if_splits)
  then show "intent_ids K (snd (completeRebalanceIntent E i s))" using s wf by (simp add: intent_ids_def)
qed

interpretation ids: executor_invariant "intent_ids K" E for E K
  by unfold_locales (rule intent_ids_create intent_ids_complete)+

interpretation adv: executor_invariant "advanced_from (uuidv4 E) s0" E for E s0
  by unfold_locales (simp_all add: completeRebalanceIntent_def keeps)

section \<open>One intent at a time\<close>

text \<open>A run asks for the active intent and goes on from the tracker this leaves.\<close>

lemma active_run:
  assumes wf: "tracker_wf (actionTracker s)"
  obtains ps t ids where "getPartiallyFulfilledInventoryIntents E (actionTracker s) = (ret ps, t)"
    "getActiveInventoryIntent E (s\<lparr>consumedInventory := []\<rparr>)
      = (ret (case ps of [] \<Rightarrow> None | p # _ \<Rightarrow> Some p), s\<lparr>consumedInventory := [], actionTracker := t\<rparr>)"
    "failed_from (actionTracker s) ids t"
    "\<forall>x. active_intent (actionTracker s) x \<longrightarrow> unfinished (actionTracker s) x \<longrightarrow> no_movement (actionTracker s) (te_id x)
      \<longrightarrow> partial_of (actionTracker s) x \<in> set ps"
    "\<forall>p \<in> set ps. active_intent (actionTracker s) (pi_intent p)"
proof -
  let ?t = "actionTracker s"
  let ?xs = "store_getByStatus IntentInProgress (rebalanceIntentStore ?t) @ store_getByStatus IntentNotStarted (rebalanceIntentStore ?t)"
  obtain ps t where run: "getPartiallyFulfilledInventoryIntents E ?t = (ret ps, t)" and inv: "partial_inv E ?t ?xs ps t"
    using partial_run [OF wf] by blast
  obtain ids where "failed_from ?t ids t" using inv by (auto simp: partial_inv_def)
  moreover have "\<forall>x. active_intent ?t x \<longrightarrow> unfinished ?t x \<longrightarrow> no_movement ?t (te_id x) \<longrightarrow> partial_of ?t x \<in> set ps"
    using inv active_set [OF wf] unfolding partial_inv_def by blast
  moreover have "\<forall>p \<in> set ps. active_intent ?t (pi_intent p)"
    using inv active_set [OF wf] unfolding partial_inv_def by (fastforce simp: partial_of_def Let_def)
  ultimately show ?thesis
    using that [OF run] run by (simp add: getActiveInventoryIntent_def onTracker_def op_simps)
qed

lemma execute_ids:
  assumes "intent_ids K (actionTracker s)" "advanced_from (uuidv4 E) s0 (actionTracker s)"
    "executeAndConsume E D W r i s = (v, s')"
  shows "dom (getRebalanceIntent (actionTracker s')) = K \<and> intents_advance s0 (actionTracker s')"
  using keepsD [OF ids.execute_keeps assms(1,3)] keepsD [OF adv.execute_keeps assms(2,3)]
  by (simp add: intent_ids_def advanced_from_def)

lemma created_advances:
  assumes wf: "tracker_wf t" and fresh: "uuids_fresh (uuidv4 E) t" and run: "createRebalanceIntent E p t = (v, t')"
  shows "\<exists>x. v = ret x \<and> te_id x \<notin> dom (getRebalanceIntent t) \<and> intent_ids (insert (te_id x) (dom (getRebalanceIntent t))) t'
    \<and> advanced_from (uuidv4 E) t t'"
proof -
  obtain x t2 where x: "createRebalanceIntent E p t = (ret x, t2)" "tracker_wf t2" "uuids t2 = Suc (uuids t)"
      "te_id x = uuidv4 E (uuids t)" "getRebalanceIntent t2 = (getRebalanceIntent t)(te_id x \<mapsto> x)"
    using createRebalanceIntent_run [OF wf, of E p] by metis
  have new: "getRebalanceIntent t (te_id x) = None" using fresh x(4) by (simp add: uuids_fresh_def)
  have "uuids_fresh (uuidv4 E) t2" using fresh x(3-5) by (auto simp: uuids_fresh_def inj_eq)
  moreover have "intents_advance t t2"
    using new x(5) by (auto simp: intents_advance_def intent_advances_refl)
  ultimately have "advanced_from (uuidv4 E) t t2" using x(2) by (simp add: advanced_from_def)
  then show ?thesis using run x new by (auto simp: intent_ids_def)
qed

text \<open>The three ways a run can go: it stops, it continues the first partial intent, or it starts a new one.\<close>

definition run_shape ::
    "tracker_env \<Rightarrow> inventory_deps \<Rightarrow> ('tx, 'q) world \<Rightarrow> StrategyRoute list \<Rightarrow> inventory_state \<Rightarrow> PartialInventoryIntent list
      \<Rightarrow> InventoryExecutionResult list result \<Rightarrow> inventory_state \<Rightarrow> bool" where
  "run_shape E D W routes s ps v s' \<longleftrightarrow>
     s' = s \<and> (\<forall>rs. v = ret rs \<longrightarrow> rs = [])
   \<or> (\<exists>p ps' org dest. ps = p # ps' \<and> \<not> hasInflightDeposit p \<and> executeAndConsume E D W
        (InventoryRoute org dest (remaining p) (ri_externalBridge (pi_intent p))) (pi_intent p) s = (v, s'))
   \<or> (\<exists>route rest org dest i t. ps = [] \<and> routes = route # rest
        \<and> createRebalanceIntent E \<lparr>cp_origin = org, cp_destination = dest, cp_amount = sr_amount route,
             cp_bridge = None, cp_priority = None, cp_strategyType = None, cp_executionMethod = Some inventory,
             cp_externalBridge = routeExternalBridge route\<rparr> (actionTracker s) = (ret i, t)
        \<and> executeAndConsume E D W route i (s\<lparr>actionTracker := t\<rparr>) = (v, s'))"

lemma rebalance_shape:
  assumes wf: "tracker_wf (actionTracker s)" and run: "rebalanceInventory E D W routes s = (v, s')"
  obtains ps t ids where "getPartiallyFulfilledInventoryIntents E (actionTracker s) = (ret ps, t)"
    "failed_from (actionTracker s) ids t"
    "\<forall>x. active_intent (actionTracker s) x \<longrightarrow> unfinished (actionTracker s) x \<longrightarrow> no_movement (actionTracker s) (te_id x)
      \<longrightarrow> partial_of (actionTracker s) x \<in> set ps"
    "\<forall>p \<in> set ps. active_intent (actionTracker s) (pi_intent p)"
    "run_shape E D W routes (s\<lparr>consumedInventory := [], actionTracker := t\<rparr>) ps v s'"
proof -
  obtain ps t ids where pf: "getPartiallyFulfilledInventoryIntents E (actionTracker s) = (ret ps, t)"
    and act: "getActiveInventoryIntent E (s\<lparr>consumedInventory := []\<rparr>)
      = (ret (case ps of [] \<Rightarrow> None | p # _ \<Rightarrow> Some p), s\<lparr>consumedInventory := [], actionTracker := t\<rparr>)"
    and f: "failed_from (actionTracker s) ids t"
    and all: "\<forall>x. active_intent (actionTracker s) x \<longrightarrow> unfinished (actionTracker s) x \<longrightarrow> no_movement (actionTracker s) (te_id x)
      \<longrightarrow> partial_of (actionTracker s) x \<in> set ps"
    and actives: "\<forall>p \<in> set ps. active_intent (actionTracker s) (pi_intent p)" using active_run [OF wf] by metis
  let ?s = "s\<lparr>consumedInventory := [], actionTracker := t\<rparr>"
  have wf': "tracker_wf t" using f by (simp add: failed_from_def)
  have "run_shape E D W routes ?s ps v s'"
  proof (cases ps)
    case (Cons p ps')
    then show ?thesis using run act
      by (auto simp: rebalanceInventory_def continueIntent_def op_simps run_shape_def split: if_splits sum.splits)
  next
    case Nil
    show ?thesis
    proof (cases routes)
      case (Cons route rest)
      have "\<exists>i t2. createRebalanceIntent E p t = (ret i, t2)" for p using createRebalanceIntent_run [OF wf'] by metis
      then show ?thesis using run act Nil Cons unfolding run_shape_def
        by (auto simp: rebalanceInventory_def op_simps onTracker_def split: sum.splits prod.splits) (metis Pair_inject sum.inject(2) sum.simps(4))+
    qed (use run act Nil in \<open>auto simp: rebalanceInventory_def op_simps run_shape_def\<close>)
  qed
  then show ?thesis using that [OF pf f all actives] by blast
qed

text \<open>
  C25. A run of the inventory rebalancer loses and rewrites no intent, and only advances statuses. It creates
  at most one intent, and none at all when an active unfinished inventory intent exists whose
  bridge movements are all done: then it goes on with an existing intent, or waits for its deposit. The
  statement covers runs that throw.
\<close>

theorem rebalanceInventory_single_intent:
  assumes wf: "tracker_wf (actionTracker s)" and fresh: "uuids_fresh (uuidv4 E) (actionTracker s)"
    and run: "rebalanceInventory E D W routes s = (v, s')"
  shows "intents_advance (actionTracker s) (actionTracker s')
    \<and> (dom (getRebalanceIntent (actionTracker s')) = dom (getRebalanceIntent (actionTracker s))
       \<or> routes \<noteq> [] \<and> \<not> (\<exists>x. active_intent (actionTracker s) x \<and> unfinished (actionTracker s) x \<and> no_movement (actionTracker s) (te_id x))
          \<and> (\<exists>i. i \<notin> dom (getRebalanceIntent (actionTracker s))
               \<and> dom (getRebalanceIntent (actionTracker s')) = insert i (dom (getRebalanceIntent (actionTracker s)))))"
proof -
  let ?t = "actionTracker s"
  obtain ps t ids where pf: "getPartiallyFulfilledInventoryIntents E ?t = (ret ps, t)" and f: "failed_from ?t ids t"
    and all: "\<forall>x. active_intent ?t x \<longrightarrow> unfinished ?t x \<longrightarrow> no_movement ?t (te_id x) \<longrightarrow> partial_of ?t x \<in> set ps"
    and shape: "run_shape E D W routes (s\<lparr>consumedInventory := [], actionTracker := t\<rparr>) ps v s'"
    using rebalance_shape [OF wf run] by metis
  have t: "rebalanceIntentStore t = rebalanceIntentStore ?t" "tracker_wf t" using f by (auto simp: failed_from_def)
  have "advanced_from (uuidv4 E) ?t ?t" using wf fresh by (simp add: advanced_from_def intents_advance_def intent_advances_refl)
  then have adv: "advanced_from (uuidv4 E) ?t t" by (rule keepsD [OF advanced_inventory_ops(2) _ pf])
  have look: "getRebalanceIntent t = getRebalanceIntent ?t" using t(1) by (simp add: getRebalanceIntent_def fun_eq_iff)
  have ids: "intent_ids (dom (getRebalanceIntent ?t)) t" using t(2) look by (simp add: intent_ids_def)
  from shape consider (stop) "s' = s\<lparr>consumedInventory := [], actionTracker := t\<rparr>"
    | (continue) i r where "executeAndConsume E D W r i (s\<lparr>consumedInventory := [], actionTracker := t\<rparr>) = (v, s')"
    | (new) i r p t2 where "ps = []" "routes \<noteq> []" "createRebalanceIntent E p t = (ret i, t2)"
        "executeAndConsume E D W r i (s\<lparr>consumedInventory := [], actionTracker := t2\<rparr>) = (v, s')"
    unfolding run_shape_def by fastforce
  then show ?thesis
  proof cases
    case stop
    then show ?thesis using look adv by (simp add: advanced_from_def)
  next
    case continue
    from execute_ids [OF _ _ continue, where K = "dom (getRebalanceIntent ?t)" and ?s0.0 = ?t] ids adv show ?thesis by simp
  next
    case new
    have i: "te_id i \<notin> dom (getRebalanceIntent t)" "intent_ids (insert (te_id i) (dom (getRebalanceIntent t))) t2"
      "advanced_from (uuidv4 E) t t2" using created_advances [OF t(2) _ new(3)] adv by (auto simp: advanced_from_def)
    from execute_ids [OF _ _ new(4), where K = "insert (te_id i) (dom (getRebalanceIntent t))" and ?s0.0 = t] i(2,3)
    have "dom (getRebalanceIntent (actionTracker s')) = insert (te_id i) (dom (getRebalanceIntent t))" "intents_advance t (actionTracker s')"
      by simp_all
    then show ?thesis using i(1) all new(1,2) look by (auto simp: intents_advance_def)
  qed
qed

section \<open>Deposits are tracked with their canonical amount\<close>

interpretation frame: tracker_predicate "(=) t" for t .

definition deposited :: "tracker \<Rightarrow> tracker \<Rightarrow> string \<Rightarrow> int \<Rightarrow> bool" where
  "deposited t t' i n \<longleftrightarrow> (\<exists>j a. getRebalanceAction t j = None \<and> getRebalanceAction t' j = Some a \<and> te_status a = ActionInProgress
     \<and> ra_type a = inventory_deposit \<and> ra_intentId a = i \<and> te_amount a = n)"

lemma deposit_tracked_wp:
  assumes wf: "tracker_wf t" and new: "getRebalanceAction t (uuidv4 E (uuids t)) = None" and s: "t = actionTracker s"
  shows "wp (executeTransferRemote E D W r i n) (\<lambda>res s'. ix_amountSent res = Some (sr_amount r)
     \<and> deposited t (actionTracker s') (te_id i) n) (\<lambda>_. True) s"
proof (cases "getTokenForChain D (sr_origin r)")
  case (Some tok)
  have create: "wp (op_bind (onTracker (createRebalanceAction E q)) (\<lambda>_. op_ret x)) (\<lambda>res s'. res = x
      \<and> deposited t (actionTracker s') (ca_intentId q) (ca_amount q)) (\<lambda>_. True) s'"
    if "t = actionTracker s'" "ca_type q = inventory_deposit" for s' q and x :: InventoryExecutionResult
  proof -
    obtain a t2 where a: "createRebalanceAction E q t = (ret a, t2)" "te_id a = uuidv4 E (uuids t)" "te_status a = ActionInProgress"
      "ra_intentId a = ca_intentId q" "te_amount a = ca_amount q" "ra_type a = ca_type q"
      "getRebalanceAction t2 = (getRebalanceAction t)(te_id a \<mapsto> a)"
      using createRebalanceAction_run [OF wf, of E q] by metis
    then have "deposited t t2 (ca_intentId q) (ca_amount q)"
      using new that(2) unfolding deposited_def by (intro exI [of _ "te_id a"] exI [of _ a]) simp
    then show ?thesis using a(1) that(1) by (simp add: wp_def op_simps onTracker_def)
  qed
  show ?thesis unfolding executeTransferRemote_def Some option.case Let_def using s
    by (intro wp_mono [OF create] wp_step [where P = "\<lambda>s. t = actionTracker s"] keeps frame.neutral_keeps frame.sendAll_keeps
        frame.message_keeps) auto
qed (simp add: executeTransferRemote_def wp_simps)

lemma align_normal:
  assumes "alignLocalToCanonical l sc = ret a" "0 \<le> l"
  shows "normalizeToCanonical (localAmount a) sc = ret (messageAmount a)"
proof -
  have c: "messageAmountFromLocal l sc = ret (messageAmount a)" "minLocalAmountForMessage (messageAmount a) sc = ret (localAmount a)"
    using align_cases assms(1) unfolding alignLocalToCanonical_def by blast+
  have "0 \<le> localAmount a" using c by (auto intro: minLocalAmountForMessage_nonneg simp: messageAmountFromLocal_nonneg minLocalAmountForMessage_eq split: if_splits)
  moreover have "validScale (normalizeScale sc)" using c(1) by (auto simp: messageAmountFromLocal_eq split: if_splits)
  ultimately obtain m where m: "messageAmountFromLocal (localAmount a) sc = ret m" using messageAmountFromLocal_Inr by blast
  have "messageAmount a \<le> m" using minLocal_galois [OF c(2) m] by simp
  moreover have "m \<le> messageAmount a" by (rule messageAmountFromLocal_mono [OF c(1) m align_le [OF assms(1)]])
  ultimately show ?thesis using m by (simp add: normalizeToCanonical_def)
qed

lemma bridge_none: "wp (bridgeInventory E D W r i q a cost) (\<lambda>res _. ix_amountSent res = None) (\<lambda>_. True) s"
  unfolding bridgeInventory_def Let_def
  by (intro wp_step [where P = "\<lambda>_. True"] wp_if) (auto simp: keeps_def wp_simps failedRoute_def)

text \<open>A result that reports a sent amount: a new deposit carries the canonical value of what was sent.\<close>

definition sent_tracked :: "inventory_deps \<Rightarrow> tracker \<Rightarrow> StrategyRoute \<Rightarrow> string \<Rightarrow> InventoryExecutionResult \<Rightarrow> tracker \<Rightarrow> bool" where
  "sent_tracked D t r i res t' \<longleftrightarrow> (\<forall>sent. ix_amountSent res = Some sent \<longrightarrow>
     ix_route res = r \<and> (\<exists>tok m. getTokenForChain D (sr_destination r) = Some tok \<and> normalizeToCanonical sent (token_scale tok) = ret m
       \<and> deposited t t' i m))"

lemma deposit_sent_wp:
  assumes "tracker_wf t" "getRebalanceAction t (uuidv4 E (uuids t)) = None" "t = actionTracker s"
    and "getTokenForChain D (sr_destination r) = Some tok" "normalizeToCanonical n (token_scale tok) = ret m"
  shows "wp (op_bind (executeTransferRemote E D W (swappedRoute r n) i m) (\<lambda>result. op_ret (result\<lparr>ix_route := r\<rparr>)))
    (\<lambda>res s'. sent_tracked D t r (te_id i) res (actionTracker s')) (\<lambda>_. True) s"
  unfolding wp_bind
  by (rule wp_mono [OF deposit_tracked_wp [OF assms(1-3)]]) (use assms(4,5) in \<open>auto simp: wp_simps sent_tracked_def swappedRoute_def\<close>)

lemma depositOrBridge_sent_wp:
  assumes t: "tracker_wf t" "getRebalanceAction t (uuidv4 E (uuids t)) = None" "t = actionTracker s"
    and tok: "getTokenForChain D (sr_destination r) = Some tok"
  shows "wp (depositOrBridge E D W r i tok q a mx mn cost) (\<lambda>res s'. sent_tracked D t r (te_id i) res (actionTracker s')) (\<lambda>_. True) s"
proof -
  have bridge: "wp (bridgeInventory E D W r i q a cost) (\<lambda>res s'. sent_tracked D t r (te_id i) res (actionTracker s')) (\<lambda>_. True) s"
    by (rule wp_mono [OF bridge_none]) (auto simp: sent_tracked_def)
  note deposit = deposit_sent_wp [OF t tok]
  show ?thesis unfolding depositOrBridge_def Let_def
    by (intro wp_if wp_bind_lift bridge deposit) (auto simp: align_normal)
qed

lemma executeRoute_sent_wp:
  assumes t: "tracker_wf t" "getRebalanceAction t (uuidv4 E (uuids t)) = None" "t = actionTracker s"
  shows "wp (executeRoute E D W r i) (\<lambda>res s'. sent_tracked D t r (te_id i) res (actionTracker s')) (\<lambda>_. True) s"
proof (cases "getTokenForChain D (sr_destination r)")
  case (Some tok)
  have loss: "wp (op_seq m (op_ret \<lparr>ix_route = r, ix_success = True, ix_error = None, ix_reason = x, ix_amountSent = None\<rparr>))
      (\<lambda>res s'. sent_tracked D t r (te_id i) res (actionTracker s')) (\<lambda>_. True) s'" for m x s'
    unfolding op_seq_def by (intro wp_step [where P = "\<lambda>_. True"]) (auto simp: keeps_def wp_simps sent_tracked_def)
  show ?thesis unfolding executeRoute_def Some option.case Let_def using t(3)
    by (intro wp_step [where P = "\<lambda>s. t = actionTracker s"] wp_if keeps frame.neutral_keeps frame.feeAware_keeps loss
        depositOrBridge_sent_wp [OF t(1,2) _ Some]) auto
qed (simp add: executeRoute_def wp_simps)

lemma executeAndConsume_sent:
  assumes t: "tracker_wf (actionTracker s)" "getRebalanceAction (actionTracker s) (uuidv4 E (uuids (actionTracker s))) = None"
    and run: "executeAndConsume E D W r i s = (ret rs, s')" and res: "res \<in> set rs" "ix_amountSent res = Some sent"
  shows "sent_tracked D (actionTracker s) r (te_id i) res (actionTracker s')"
proof -
  obtain v s2 where v: "executeRoute E D W r i s = (v, s2)" by fastforce
  show ?thesis
  proof (cases v)
    case (Inl e)
    then show ?thesis using run v res by (auto simp: executeAndConsume_def op_settle_def op_simps failedRoute_def)
  next
    case (Inr x)
    then have "rs = [x] \<and> actionTracker s' = actionTracker s2"
      using run v by (auto simp: executeAndConsume_def op_settle_def op_simps op_when_def consume_def split: option.splits if_splits)
    then show ?thesis using wpD(1) [OF executeRoute_sent_wp [OF t refl], of D W r i] v Inr res(1) by auto
  qed
qed

lemma failed_lookup:
  assumes "failed_from s ids t"
  shows "getRebalanceAction t j = None \<longleftrightarrow> getRebalanceAction s j = None"
proof -
  have "map_store core (rebalanceActionStore t) = map_store (\<lambda>a. core (failActions ids a)) (rebalanceActionStore s)"
    using assms by (simp add: failed_from_def)
  from arg_cong [OF this, of "\<lambda>st. store_get st j"] show ?thesis by (auto simp: getRebalanceAction_def)
qed


section \<open>A second intent\<close>

definition pendingMovement :: "tracker \<Rightarrow> string \<Rightarrow> bool" where
  "pendingMovement t i \<longleftrightarrow> (\<exists>a \<in> set (getActionsForIntent t i). inProgressMovement a \<and> ra_lastBridgeStatus a = Some bridge_pending)"

lemma pending_blocks:
  assumes f: "failed_from s ids t" and g: "given_up E s xs ids" and p: "pendingMovement s i"
  shows "\<not> no_movement t i"
proof -
  obtain a where a: "a \<in> set (getActionsForIntent s i)" "inProgressMovement a" "ra_lastBridgeStatus a = Some bridge_pending"
    using p by (auto simp: pendingMovement_def)
  have "\<not> outdated E a" using a(3) by (simp add: outdated_def isStaleMovement_def)
  then have "te_id a \<notin> ids" using g a(1) unfolding given_up_def getActionsForIntent_set by blast
  then show ?thesis using a(1,2) unfolding no_movement_failed [OF f] by blast
qed

lemma blocked_none:
  assumes wf: "tracker_wf t"
    and blocked: "\<forall>x. active_intent t x \<longrightarrow> ri_executionMethod x = Some inventory \<longrightarrow> pendingMovement t (te_id x)"
  shows "\<exists>t'. getPartiallyFulfilledInventoryIntents E t = (ret [], t')"
proof -
  let ?xs = "store_getByStatus IntentInProgress (rebalanceIntentStore t) @ store_getByStatus IntentNotStarted (rebalanceIntentStore t)"
  obtain ps t' where run: "getPartiallyFulfilledInventoryIntents E t = (ret ps, t')" and inv: "partial_inv E t ?xs ps t'"
    using partial_run [OF wf] by blast
  obtain ids where ids: "failed_from t ids t'" "given_up E t ?xs ids" using inv by (auto simp: partial_inv_def)
  have "p \<notin> set ps" for p
  proof
    assume "p \<in> set ps"
    then obtain x where x: "x \<in> set ?xs" "unfinished t x" "no_movement t' (te_id x)" using inv unfolding partial_inv_def by blast
    have "active_intent t x" using x(1) active_set [OF wf] by blast
    then show False using blocked pending_blocks [OF ids] x(2,3) by (auto simp: unfinished_def)
  qed
  then have "ps = []" by (cases ps) auto
  then show ?thesis using run by blast
qed

text \<open>
  C27. The architecture of one intent at a time does not cover an intent that waits for its bridge.
  When every active inventory intent has a movement that its bridge reports as pending, a run that
  gets a route does not find an active intent and creates one more, next to those under way.
\<close>

theorem rebalanceInventory_second_intent:
  assumes wf: "tracker_wf (actionTracker s)" and fresh: "uuids_fresh (uuidv4 E) (actionTracker s)"
    and blocked: "\<forall>x. active_intent (actionTracker s) x \<longrightarrow> ri_executionMethod x = Some inventory \<longrightarrow> pendingMovement (actionTracker s) (te_id x)"
    and doms: "chainDomainId D (sr_origin r) = ret org" "chainDomainId D (sr_destination r) = ret dest"
    and run: "rebalanceInventory E D W (r # routes) s = (v, s')"
  shows "\<exists>i. i \<notin> dom (getRebalanceIntent (actionTracker s))
    \<and> dom (getRebalanceIntent (actionTracker s')) = insert i (dom (getRebalanceIntent (actionTracker s)))"
proof -
  let ?t = "actionTracker s"
  obtain t' where none: "getPartiallyFulfilledInventoryIntents E ?t = (ret [], t')" using blocked_none [OF wf blocked] by blast
  obtain ps t ids where pf: "getPartiallyFulfilledInventoryIntents E ?t = (ret ps, t)" and f: "failed_from ?t ids t"
    and act: "getActiveInventoryIntent E (s\<lparr>consumedInventory := []\<rparr>)
      = (ret (case ps of [] \<Rightarrow> None | p # _ \<Rightarrow> Some p), s\<lparr>consumedInventory := [], actionTracker := t\<rparr>)"
    using active_run [OF wf] by metis
  have t: "tracker_wf t" "getRebalanceIntent t = getRebalanceIntent ?t" "uuids t = uuids ?t"
    using f by (auto simp: failed_from_def getRebalanceIntent_def fun_eq_iff)
  have fresh': "uuids_fresh (uuidv4 E) t" using fresh t(2,3) by (simp add: uuids_fresh_def)
  have "ps = []" using none pf by simp
  then obtain p i t2 where c: "createRebalanceIntent E p t = (ret i, t2)"
      "executeAndConsume E D W r i (s\<lparr>consumedInventory := [], actionTracker := t2\<rparr>) = (v, s')"
    using run act doms created_advances [OF t(1) fresh']
    by (auto simp: rebalanceInventory_def op_simps onTracker_def split: prod.splits)
      (metis (no_types, lifting) sum.simps(4,6) surj_pair)+
  have i: "te_id i \<notin> dom (getRebalanceIntent t)" "intent_ids (insert (te_id i) (dom (getRebalanceIntent t))) t2"
    "advanced_from (uuidv4 E) t t2" using created_advances [OF t(1) fresh' c(1)] by auto
  from execute_ids [OF _ _ c(2), where K = "insert (te_id i) (dom (getRebalanceIntent t))" and ?s0.0 = t] i t(2)
  show ?thesis by auto
qed

section \<open>Examples\<close>

lemma ex_tracker_ok:
  "tracker_wf ex_tracker" "uuids_fresh (uuidv4 ex_env) ex_tracker" "getRebalanceAction ex_tracker j = None"
  using ex_uuids by (auto simp: tracker_wf_def store_wf_def ex_tracker_def uuids_fresh_def getRebalanceIntent_def getRebalanceAction_def store_get_def)

theorem rebalanceInventory_single_intent_witness:
  "\<exists>v s'. rebalanceInventory ex_env ex_deps ex_world ex_inventory_routes ex_inventory = (v, s')
    \<and> intents_advance ex_tracker (actionTracker s')
    \<and> (dom (getRebalanceIntent (actionTracker s')) = {} \<or> (\<exists>i. dom (getRebalanceIntent (actionTracker s')) = {i}))"
proof -
  obtain v s' where run: "rebalanceInventory ex_env ex_deps ex_world ex_inventory_routes ex_inventory = (v, s')" by fastforce
  have t: "actionTracker ex_inventory = ex_tracker" "dom (getRebalanceIntent ex_tracker) = {}"
    by (simp_all add: ex_inventory_def ex_tracker_def getRebalanceIntent_def store_get_def dom_def)
  from rebalanceInventory_single_intent [OF _ _ run] show ?thesis
    unfolding t(1) using ex_tracker_ok(1,2) run t(2) by auto
qed


definition ex_busy :: inventory_state where
  "ex_busy = ex_inventory\<lparr>actionTracker := ex_tracker\<lparr>rebalanceIntentStore := [(''i1'', ex_intent ''i1'' 900)],
     rebalanceActionStore := [(''a1'', (ex_action ''a1'' ''i1'' ActionInProgress 40)\<lparr>ra_type := inventory_movement,
       ra_lastBridgeStatus := Some bridge_pending\<rparr>)]\<rparr>\<rparr>"

lemma ex_busy_ok:
  "tracker_wf (actionTracker ex_busy)" "uuids_fresh (uuidv4 ex_env) (actionTracker ex_busy)"
  "dom (getRebalanceIntent (actionTracker ex_busy)) = {''i1''}" "active_intent (actionTracker ex_busy) (ex_intent ''i1'' 900)"
  "pendingMovement (actionTracker ex_busy) ''i1''"
  using ex_uuids
  by (auto simp: tracker_wf_def store_wf_def ex_busy_def ex_inventory_def ex_tracker_def uuids_fresh_def getRebalanceIntent_def
      store_get_def active_intent_def ex_intent_def ex_action_def pendingMovement_def getActionsForIntent_def store_getAll_def
      inProgressMovement_def ex_env_def split: if_splits)

theorem rebalanceInventory_second_intent_witness:
  "active_intent (actionTracker ex_busy) (ex_intent ''i1'' 900)
   \<and> (\<exists>v s' i. rebalanceInventory ex_env ex_deps ex_world ex_inventory_routes ex_busy = (v, s')
       \<and> i \<noteq> ''i1'' \<and> dom (getRebalanceIntent (actionTracker s')) = {i, ''i1''})"
proof -
  obtain v s' where run: "rebalanceInventory ex_env ex_deps ex_world ex_inventory_routes ex_busy = (v, s')" by fastforce
  have blocked: "\<forall>x. active_intent (actionTracker ex_busy) x \<longrightarrow> ri_executionMethod x = Some inventory
      \<longrightarrow> pendingMovement (actionTracker ex_busy) (te_id x)"
  proof (intro allI impI)
    fix x assume "active_intent (actionTracker ex_busy) x"
    then have "te_id x \<in> dom (getRebalanceIntent (actionTracker ex_busy))" by (simp add: active_intent_def domI)
    then show "pendingMovement (actionTracker ex_busy) (te_id x)" unfolding ex_busy_ok(3) using ex_busy_ok(5) by simp
  qed
  from rebalanceInventory_second_intent [OF ex_busy_ok(1,2) blocked _ _ run [unfolded ex_inventory_routes_def]]
  show ?thesis using ex_busy_ok(3,4) run by (auto simp: ex_answers)
qed

end
