(* ===== verification/Composite_Strategy.thy ===== *)
theory Composite_Strategy
  imports Rebalancer_Config
begin

text \<open>
  \<open>typescript/rebalancer/src/strategy/CompositeStrategy.ts\<close> and \<open>StrategyFactory.ts\<close>: strategies
  run one after the other, each told what the earlier ones propose, and the construction of a
  strategy from its configuration. The locale \<open>IStrategy\<close> is what the rest of the rebalancer may
  rely on, whichever strategy is configured.
\<close>

section \<open>Composition\<close>

type_synonym strategy_fun = "RawBalances \<Rightarrow> InflightContext option \<Rightarrow> StrategyRoute list run"

definition contextForStrategy :: "InflightContext option \<Rightarrow> StrategyRoute list \<Rightarrow> InflightContext" where
  "contextForStrategy ctx accumulated =
     \<lparr>pendingRebalances = ctxPendingRebalances ctx, pendingTransfers = ctxPendingTransfers ctx,
      proposedRebalances = Some accumulated\<rparr>"

fun compositeLoop ::
    "strategy_fun list \<Rightarrow> RawBalances \<Rightarrow> InflightContext option \<Rightarrow> StrategyRoute list \<Rightarrow> StrategyRoute list
      \<Rightarrow> StrategyRoute list run" where
  "compositeLoop [] raw ctx accumulated allRoutes = ([], ret allRoutes)"
| "compositeLoop (s # ss) raw ctx accumulated allRoutes =
     (case s raw (Some (contextForStrategy ctx accumulated)) of
        (ev, Inl e) \<Rightarrow> (ev, Inl e)
      | (ev, Inr routes) \<Rightarrow>
          (let rest = compositeLoop ss raw ctx (accumulated @ routes) (allRoutes @ routes)
           in (ev @ fst rest, snd rest)))"

definition compositeRoutes :: "strategy_fun list \<Rightarrow> strategy_fun" where
  "compositeRoutes ss raw ctx = compositeLoop ss raw ctx [] []"

section \<open>The strategies the factory makes\<close>

datatype strategy =
    Weighted WeightedStrategy
  | MinAmount MinAmountStrategy
  | CollateralDeficit CollateralDeficitStrategy
  | Composite "strategy list"

definition new_CompositeStrategy :: "strategy list \<Rightarrow> strategy result" where
  "new_CompositeStrategy ss =
     (if length ss < 2 then throw (Thrown ''CompositeStrategy requires at least 2 sub-strategies'' '''')
      else ret (Composite ss))"

fun strategyRoutes :: "bignumber_api \<Rightarrow> strategy \<Rightarrow> strategy_fun" where
  "strategyRoutes bn (Weighted st) = weightedRoutes bn st"
| "strategyRoutes bn (MinAmount st) = minAmountRoutes bn st"
| "strategyRoutes bn (CollateralDeficit st) = deficitRoutes bn st"
| "strategyRoutes bn (Composite ss) = compositeRoutes (map (strategyRoutes bn) ss)"

definition extractBridgeConfig :: "ChainConfig \<Rightarrow> BridgeConfigWithOverride" where
  "extractBridgeConfig cc =
     (let minAccepted = Some (case cc_bridgeMinAcceptedAmount cc of None \<Rightarrow> AmountNumber 0 | Some v \<Rightarrow> v)
      in if executionTypeOr (cc_executionType cc) = ExecInventory then
           \<lparr>baseConfig = \<lparr>bridgeMinAcceptedAmount = minAccepted, bc_executionType = ExecInventory,
              bc_bridge = None, bc_externalBridge = cc_externalBridge cc\<rparr>, override = overrides cc\<rparr>
         else
           \<lparr>baseConfig = \<lparr>bridgeMinAcceptedAmount = minAccepted, bc_executionType = ExecMovableCollateral,
              bc_bridge = cc_bridge cc, bc_externalBridge = None\<rparr>, override = overrides cc\<rparr>)"

definition extractBridgeConfigs :: "StrategyConfig \<Rightarrow> BridgeConfigs" where
  "extractBridgeConfigs s = map (\<lambda>(c, cc). (c, extractBridgeConfig cc)) (chainsOf s)"

fun createSingleStrategy ::
    "bignumber_api \<Rightarrow> StrategyConfig \<Rightarrow> (chain, Token) dict \<Rightarrow> int \<Rightarrow> bool \<Rightarrow> strategy result" where
  "createSingleStrategy bn (WeightedConfig m) tokens initialTotalCollateral metrics =
     rbind (new_WeightedStrategy (map (\<lambda>(c, _, w). (c, w)) m) (extractBridgeConfigs (WeightedConfig m))
       metrics (Some tokens)) (\<lambda>st. ret (Weighted st))"
| "createSingleStrategy bn (MinAmountConfig m) tokens initialTotalCollateral metrics =
     rbind (new_MinAmountStrategy bn (map (\<lambda>(c, _, a). (c, a)) m) tokens initialTotalCollateral
       (extractBridgeConfigs (MinAmountConfig m)) metrics) (\<lambda>st. ret (MinAmount st))"
| "createSingleStrategy bn (CollateralDeficitConfig m) tokens initialTotalCollateral metrics =
     rbind (new_CollateralDeficitStrategy (map (\<lambda>(c, _, b). (c, b)) m) tokens
       (extractBridgeConfigs (CollateralDeficitConfig m)) metrics) (\<lambda>st. ret (CollateralDeficit st))"

definition createStrategy ::
    "bignumber_api \<Rightarrow> StrategyConfig list \<Rightarrow> (chain, Token) dict \<Rightarrow> int \<Rightarrow> bool \<Rightarrow> strategy result" where
  "createStrategy bn configs tokens initialTotalCollateral metrics =
     (case configs of
        [] \<Rightarrow> throw (Thrown ''At least one strategy must be configured'' '''')
      | [c] \<Rightarrow> createSingleStrategy bn c tokens initialTotalCollateral metrics
      | _ \<Rightarrow> rbind (rmap (\<lambda>c. createSingleStrategy bn c tokens initialTotalCollateral metrics) configs)
          new_CompositeStrategy)"

section \<open>What a composite run is\<close>

text \<open>The runs of the sub-strategies: the routes of each, and each run's context.\<close>

fun composite_runs ::
    "strategy_fun list \<Rightarrow> RawBalances \<Rightarrow> InflightContext option \<Rightarrow> StrategyRoute list
      \<Rightarrow> (metric_event list \<times> StrategyRoute list) list \<Rightarrow> bool" where
  "composite_runs [] raw ctx acc runs \<longleftrightarrow> runs = []"
| "composite_runs (s # ss) raw ctx acc runs \<longleftrightarrow>
     (case runs of [] \<Rightarrow> False
      | (ev, rs) # runs' \<Rightarrow> s raw (Some (contextForStrategy ctx acc)) = (ev, ret rs)
          \<and> composite_runs ss raw ctx (acc @ rs) runs')"

lemma composite_runs_nth:
  "composite_runs ss raw ctx acc runs \<longleftrightarrow> length runs = length ss
    \<and> (\<forall>k < length ss. (ss ! k) raw (Some (contextForStrategy ctx (acc @ concat (map snd (take k runs)))))
        = (fst (runs ! k), ret (snd (runs ! k))))"
proof (induction ss arbitrary: acc runs)
  case (Cons s ss)
  show ?case
  proof (cases runs)
    case (Cons r runs')
    then show ?thesis
      using Cons.IH [of "acc @ snd r" runs'] by (cases r) (auto simp: All_less_Suc2)
  qed simp
qed simp

lemma compositeLoop_ret:
  "compositeLoop ss raw ctx acc allr = (ev, ret rs) \<longleftrightarrow>
     (\<exists>runs. composite_runs ss raw ctx acc runs \<and> ev = concat (map fst runs)
        \<and> rs = allr @ concat (map snd runs))"
proof (induction ss arbitrary: acc allr ev rs)
  case (Cons s ss)
  obtain e res where s: "s raw (Some (contextForStrategy ctx acc)) = (e, res)" by fastforce
  show ?case
  proof (cases res)
    case (Inr rs1)
    let ?rest = "compositeLoop ss raw ctx (acc @ rs1) (allr @ rs1)"
    have step: "composite_runs (s # ss) raw ctx acc runs \<longleftrightarrow>
        (\<exists>runs'. runs = (e, rs1) # runs' \<and> composite_runs ss raw ctx (acc @ rs1) runs')" for runs
      using s Inr by (cases runs) auto
    have "compositeLoop (s # ss) raw ctx acc allr = (ev, ret rs) \<longleftrightarrow>
        (\<exists>ev'. ?rest = (ev', ret rs) \<and> ev = e @ ev')"
      using s Inr by (cases ?rest) auto
    also have "\<dots> \<longleftrightarrow> (\<exists>runs. composite_runs ss raw ctx (acc @ rs1) runs \<and> ev = e @ concat (map fst runs)
        \<and> rs = allr @ rs1 @ concat (map snd runs))"
      by (auto simp: Cons.IH)
    also have "\<dots> \<longleftrightarrow> (\<exists>runs. composite_runs (s # ss) raw ctx acc runs \<and> ev = concat (map fst runs)
        \<and> rs = allr @ concat (map snd runs))"
      unfolding step by auto
    finally show ?thesis .
  qed (use s in \<open>auto split: list.splits\<close>)
qed auto

text \<open>
  A composite strategy returns exactly when every sub-strategy does, each run on the raw
  balances, on the caller's pending transfers and rebalances, and on the routes of all the earlier
  sub-strategies as its proposed rebalances; it then returns their routes in order, and has
  recorded their metrics in order.
\<close>

theorem compositeRoutes_threads_proposals:
  "compositeRoutes ss raw ctx = (ev, ret rs) \<longleftrightarrow>
     (\<exists>runs. length runs = length ss \<and> ev = concat (map fst runs) \<and> rs = concat (map snd runs)
        \<and> (\<forall>k \<in> {..< length ss}. (ss ! k) raw (Some (contextForStrategy ctx (concat (map snd (take k runs)))))
             = (fst (runs ! k), ret (snd (runs ! k)))))"
  by (auto simp: compositeRoutes_def compositeLoop_ret composite_runs_nth)

theorem compositeRoutes_threads_proposals_witness:
  "compositeRoutes [\<lambda>_ _. ([], ret [InventoryRoute ''a'' ''b'' 1 None]),
      \<lambda>_ c. ([], ret (ctxProposedRebalances c))] [] None
    = ([], ret [InventoryRoute ''a'' ''b'' 1 None, InventoryRoute ''a'' ''b'' 1 None])"
  unfolding compositeRoutes_threads_proposals
  by (rule exI [of _ "[([], [InventoryRoute ''a'' ''b'' 1 None]), ([], [InventoryRoute ''a'' ''b'' 1 None])]"])
    (auto simp: less_Suc_eq contextForStrategy_def ctxProposedRebalances_def)

section \<open>The contract of a strategy\<close>

text \<open>
  Every route of a run is sound with respect to one of the base strategies in \<open>bases\<close>: this is
  what the orchestrator and the executors may assume of an \<open>IStrategy\<close>.
\<close>

locale IStrategy =
  fixes bn :: bignumber_api and routes :: strategy_fun and bases :: "BaseStrategy set"
  assumes sound: "routes raw ctx = (ev, ret rs) \<Longrightarrow> r \<in> set rs \<Longrightarrow> \<exists>st \<in> bases. sound_route bn st raw r"
begin

lemma covered:
  assumes "routes raw ctx = (ev, ret rs)" "r \<in> set rs"
  shows "0 < sr_amount r \<and> sr_amount r \<le> balanceOr0 raw (sr_origin r)"
  using sound [OF assms] by (auto simp: sound_route_def)

lemma created:
  assumes "routes raw ctx = (ev, ret rs)" "r \<in> set rs"
    and "\<And>st c. st \<in> bases \<Longrightarrow> getBridgeConfigForRoute st (sr_origin r) (sr_destination r) = ret c \<Longrightarrow>
       P (createStrategyRoute c (sr_origin r) (sr_destination r) (sr_amount r))"
  shows "P r"
  using sound [OF assms(1,2)] assms(3) unfolding sound_route_def by metis

end

fun basesOf :: "strategy \<Rightarrow> BaseStrategy set" where
  "basesOf (Weighted st) = {BaseStrategy.truncate st}"
| "basesOf (MinAmount st) = {BaseStrategy.truncate st}"
| "basesOf (CollateralDeficit st) = {BaseStrategy.truncate st}"
| "basesOf (Composite ss) = (\<Union>s \<in> set ss. basesOf s)"

lemma getRebalancingRoutes_sound:
  "getRebalancingRoutes bn st cat raw ctx = (ev, ret rs) \<Longrightarrow> r \<in> set rs \<Longrightarrow> sound_route bn st raw r"
  by (auto elim!: getRebalancingRoutes_plan intro: planRoutes_sound)

lemma deficitRoutes_sound:
  "deficitRoutes bn st raw ctx = (ev, ret rs) \<Longrightarrow> r \<in> set rs \<Longrightarrow>
     sound_route bn (BaseStrategy.truncate st) raw r"
  by (auto elim!: deficitRoutes_plan intro: planRoutes_sound)

lemma strategyRoutes_sound:
  "strategyRoutes bn s raw ctx = (ev, ret rs) \<Longrightarrow> r \<in> set rs \<Longrightarrow> \<exists>st \<in> basesOf s. sound_route bn st raw r"
proof (induction s arbitrary: raw ctx ev rs)
  case (Composite ss)
  from Composite.prems(1) obtain runs where runs: "length runs = length ss" "rs = concat (map snd runs)"
    "\<forall>k < length ss. (map (strategyRoutes bn) ss ! k) raw
        (Some (contextForStrategy ctx (concat (map snd (take k runs))))) = (fst (runs ! k), ret (snd (runs ! k)))"
    by (auto simp: compositeRoutes_def compositeLoop_ret composite_runs_nth)
  from Composite.prems(2) runs(1,2) obtain k where k: "k < length ss" "r \<in> set (snd (runs ! k))"
    using that by (auto simp: in_set_conv_nth [of _ runs])
  have "strategyRoutes bn (ss ! k) raw (Some (contextForStrategy ctx (concat (map snd (take k runs)))))
      = (fst (runs ! k), ret (snd (runs ! k)))" using runs(3) k(1) by auto
  from Composite.IH [OF _ this k(2)] k(1) show ?case by auto
qed (auto simp: weightedRoutes_def minAmountRoutes_def intro: getRebalancingRoutes_sound deficitRoutes_sound)

interpretation strategies: IStrategy bn "strategyRoutes bn s" "basesOf s" for bn s
  by unfold_locales (rule strategyRoutes_sound)

text \<open>
  C10. Whatever strategies are configured and composed, a route of a run is positive, is covered by
  the raw balance of its origin alone, carries the execution method and the bridge that the
  bridge configuration of its chains gives, and is not below the minimum its bridge accepts.
\<close>

theorem strategyRoutes_all_sound:
  assumes "strategyRoutes bn s raw ctx = (ev, ret rs)" "r \<in> set rs"
  shows "0 < sr_amount r \<and> sr_amount r \<le> balanceOr0 raw (sr_origin r)
    \<and> (\<exists>st \<in> basesOf s. sound_route bn st raw r)"
  using strategies.covered [OF assms] strategies.sound [OF assms] by blast

section \<open>From a validated configuration to routes with a bridge\<close>

fun route_has_bridge :: "StrategyRoute \<Rightarrow> bool" where
  "route_has_bridge (MovableCollateralRoute _ _ _ b) = truthy b"
| "route_has_bridge (InventoryRoute _ _ _ e) = (e \<noteq> None)"

text \<open>
  An override that changes how its chain executes brings the bridge of the new method itself.
\<close>

definition override_brings_bridge :: "ChainConfig \<Rightarrow> BridgeConfigPartial \<Rightarrow> bool" where
  "override_brings_bridge cc p \<longleftrightarrow>
     (case p_executionType p of
        None \<Rightarrow> True
      | Some e \<Rightarrow> e = executionTypeOr (cc_executionType cc)
          \<or> (e = ExecInventory \<and> p_externalBridge p \<noteq> None)
          \<or> (e = ExecMovableCollateral \<and> p_bridge p \<noteq> None))"

definition overrides_self_contained :: "StrategyConfig \<Rightarrow> bool" where
  "overrides_self_contained s \<longleftrightarrow>
     (\<forall>(c, cc) \<in> set (chainsOf s). \<forall>p \<in> set (dict_values (overrides cc)). override_brings_bridge cc p)"

lemma extractBridgeConfig_sel [simp]:
  "bc_executionType (baseConfig (extractBridgeConfig cc)) = executionTypeOr (cc_executionType cc)"
  "bc_bridge (baseConfig (extractBridgeConfig cc)) =
     (if executionTypeOr (cc_executionType cc) = ExecInventory then None else cc_bridge cc)"
  "bc_externalBridge (baseConfig (extractBridgeConfig cc)) =
     (if executionTypeOr (cc_executionType cc) = ExecInventory then cc_externalBridge cc else None)"
  "override (extractBridgeConfig cc) = overrides cc"
  by (cases "executionTypeOr (cc_executionType cc)"; simp add: extractBridgeConfig_def Let_def)+

lemma extractBridgeConfigs_bridge:
  assumes ok: "strategyIssues i s = []" and self: "overrides_self_contained s"
    and g: "getBridgeConfig (extractBridgeConfigs s) org dest = ret bc"
  shows "route_has_bridge (createStrategyRoute bc org dest amt)"
proof -
  have m: "map_of (extractBridgeConfigs s) org = map_option extractBridgeConfig (map_of (chainsOf s) org)"
    by (simp add: extractBridgeConfigs_def map_of_map)
  from g m obtain cc where cc: "map_of (chainsOf s) org = Some cc"
    by (auto simp: getBridgeConfig_def split: option.splits)
  note base = strategyIssues_chain [OF ok cc]
  let ?b = "extractBridgeConfig cc"
  show ?thesis
  proof (cases "map_of (overrides cc) dest")
    case None
    then have "bc = baseConfig ?b" using g m cc by (simp add: getBridgeConfig_def)
    then show ?thesis using base(1,2)
      by (cases "executionTypeOr (cc_executionType cc)") (simp_all add: createStrategyRoute_def)
  next
    case (Some p)
    then have bc: "bc = applyOverride (baseConfig ?b) p" using g m cc by (simp add: getBridgeConfig_def)
    have "p \<in> set (dict_values (overrides cc))" using map_of_SomeD [OF Some] by force
    then have br: "override_brings_bridge cc p"
      using self map_of_SomeD [OF cc] unfolding overrides_self_contained_def by blast
    show ?thesis
      using base(3) [OF Some] br
      by (cases "executionTypeOr (cc_executionType cc)"; cases "p_executionType p")
        (auto simp: bc applyOverride_def createStrategyRoute_def overrideIssues_def override_brings_bridge_def executionTypeOr_def spread_def Let_def
          split: executionType.splits option.splits)
  qed
qed

lemma createSingleStrategy_bases:
  assumes "createSingleStrategy bn c tokens tot metrics = ret s" "st \<in> basesOf s"
  shows "bs_bridgeConfigs st = extractBridgeConfigs c"
  using assms
  by (cases c) (auto simp: new_WeightedStrategy_def new_MinAmountStrategy_def
      new_CollateralDeficitStrategy_def new_BaseStrategy_def rbind_eq_Inr_iff BaseStrategy.defs
      split: if_splits list.splits)

lemma createStrategy_bases:
  assumes "createStrategy bn cs tokens tot metrics = ret s" "st \<in> basesOf s"
  obtains c where "c \<in> set cs" "bs_bridgeConfigs st = extractBridgeConfigs c"
proof (cases cs rule: remdups_adj.cases)
  case (3 x y xs)
  then obtain ss where ss: "rmap (\<lambda>c. createSingleStrategy bn c tokens tot metrics) cs = ret ss"
      "s = Composite ss"
    using assms(1) by (auto simp: createStrategy_def new_CompositeStrategy_def rbind_eq_Inr_iff
        simp del: rmap.simps split: if_splits)
  then obtain k where k: "k < length ss" "st \<in> basesOf (ss ! k)" using assms(2)
    by (auto simp: in_set_conv_nth)
  have "createSingleStrategy bn (cs ! k) tokens tot metrics = ret (ss ! k)" "k < length cs"
    using ss(1) k(1) by (auto simp: rmap_eq_Inr_iff list_all2_conv_all_nth)
  then show ?thesis using that [of "cs ! k"] createSingleStrategy_bases k(2) by auto
qed (use assms that createSingleStrategy_bases in \<open>auto simp: createStrategy_def\<close>)

text \<open>
  C21. A configuration that passes validation and whose overrides bring the bridge of an execution
  method they change yields only executable routes: every route of every run of the strategy the
  factory makes from it names a bridge address, or an external bridge when it is an inventory
  route.
\<close>

theorem validConfig_routes_have_bridge:
  assumes valid: "validateConfig cfg = []" and self: "\<forall>s \<in> set (rc_strategy cfg). overrides_self_contained s"
    and new: "createStrategy bn (rc_strategy cfg) tokens tot metrics = ret s"
    and run: "strategyRoutes bn s raw ctx = (ev, ret rs)" "r \<in> set rs"
  shows "route_has_bridge r"
proof (rule strategies.created [OF run])
  fix st c
  assume st: "st \<in> basesOf s" and g: "getBridgeConfigForRoute st (sr_origin r) (sr_destination r) = ret c"
  from createStrategy_bases [OF new st] obtain sc where
    sc: "sc \<in> set (rc_strategy cfg)" "bs_bridgeConfigs st = extractBridgeConfigs sc" .
  from validateConfig_strategy [OF valid sc(1)] obtain i where "strategyIssues i sc = []" .
  then show "route_has_bridge (createStrategyRoute c (sr_origin r) (sr_destination r) (sr_amount r))"
    using extractBridgeConfigs_bridge g self sc by (auto simp: getBridgeConfigForRoute_def)
qed

section \<open>Examples\<close>

definition ex_chain :: "ChainConfig" where
  "ex_chain = \<lparr>cc_bridge = Some ex_bridge, cc_executionType = None, cc_externalBridge = None,
     cc_bridgeMinAcceptedAmount = None, cc_override = None\<rparr>"

definition ex_config :: RebalancerConfig where
  "ex_config = \<lparr>warpRouteId = ''ETH/a-b-c'', rc_strategy = [CollateralDeficitConfig
     (map (\<lambda>c. (c, ex_chain, AmountString ''1'')) [''a'', ''b'', ''c''])],
     inventorySigners = None, lifiIntegrator = None, intentTTL = DEFAULT_INTENT_TTL_MS\<rparr>"

lemma ex_bridge_truthy [simp]: "truthy (Some ex_bridge)"
  by (simp add: truthy_def ex_bridge_def)

lemma ex_config_valid: "validateConfig ex_config = []"
  by (simp add: validateConfig_def ex_config_def deficitFirstIssues_def strategyIssues_def
      overrideKeyIssues_def bridgeIssues_def executionTypeOr_def ex_chain_def overrides_def
      inventoryIssues_def hasInventoryChains_def getInventoryChainNames_def strategyInventoryChains_def
      addNew_def lifiIssues_def checkLifiBridge_def)

lemma ex_config_create:
  "createStrategy ex_bn (rc_strategy ex_config) ex_def_tokens 1000 False = ret (CollateralDeficit ex_deficit)"
proof -
  have "extractBridgeConfigs (CollateralDeficitConfig (map (\<lambda>c. (c, ex_chain, AmountString ''1'')) [''a'', ''b'', ''c'']))
      = ex_def_bridges"
    by (simp add: extractBridgeConfigs_def extractBridgeConfig_def ex_chain_def executionTypeOr_def
        ex_def_bridges_def overrides_def)
  then show ?thesis using ex_def_new by (simp add: createStrategy_def ex_config_def ex_def_cfg_def)
qed

theorem strategyRoutes_all_sound_witness:
  "sr_amount (MovableCollateralRoute ''b'' ''a'' 300 (Some ex_bridge)) \<le> balanceOr0 ex_def_raw ''b''"
  using strategyRoutes_all_sound [of ex_bn "CollateralDeficit ex_deficit" ex_def_raw "Some ex_def_ctx" "[]"
      ex_def_routes "MovableCollateralRoute ''b'' ''a'' 300 (Some ex_bridge)"] ex_def_run by simp

theorem validConfig_routes_have_bridge_witness:
  "route_has_bridge (MovableCollateralRoute ''b'' ''a'' 300 (Some ex_bridge))"
proof (rule validConfig_routes_have_bridge [OF ex_config_valid _ ex_config_create])
  show "\<forall>s \<in> set (rc_strategy ex_config). overrides_self_contained s"
    by (simp add: ex_config_def overrides_self_contained_def ex_chain_def overrides_def)
  show "strategyRoutes ex_bn (CollateralDeficit ex_deficit) ex_def_raw (Some ex_def_ctx) = ([], ret ex_def_routes)"
    by (simp add: ex_def_run)
  show "MovableCollateralRoute ''b'' ''a'' 300 (Some ex_bridge) \<in> set ex_def_routes" by simp
qed

definition ex_switch :: "chain \<Rightarrow> ChainConfig" where
  "ex_switch d = \<lparr>cc_bridge = Some ex_bridge, cc_executionType = None, cc_externalBridge = Some LiFi,
     cc_bridgeMinAcceptedAmount = None, cc_override = Some [(d, \<lparr>p_bridgeMinAcceptedAmount = None,
       p_executionType = Some ExecInventory, p_bridge = None, p_externalBridge = None\<rparr>)]\<rparr>"

definition ex_switch_config :: RebalancerConfig where
  "ex_switch_config = \<lparr>warpRouteId = ''ETH/a-b'', rc_strategy = [CollateralDeficitConfig
     [(''a'', ex_switch ''b'', AmountString ''1''), (''b'', ex_switch ''a'', AmountString ''1'')]],
     inventorySigners = Some [(''cosmos'', ''x'')], lifiIntegrator = Some ''hyperlane'',
     intentTTL = DEFAULT_INTENT_TTL_MS\<rparr>"


end
