(* ===== verification/Inflight_Context.thy ===== *)
theory Inflight_Context
  imports Tracker_Invariants
begin

text \<open>
  \<open>typescript/rebalancer/src/tracking/InflightContextAdapter.ts\<close>: the inflight context a strategy
  decides on, from the state of the tracker. \<open>pendingRebalances\<close> carry the delivered and the
  awaiting amount of their inventory deposits.
\<close>

definition intentRoute :: "tracker_env \<Rightarrow> tracker \<Rightarrow> RebalanceIntent \<Rightarrow> Route result" where
  "intentRoute E s x =
     (let actions = getActionsForIntent s (te_id x);
          isInventory = (ri_executionMethod x = Some inventory);
          delivered = (if isInventory then depositAmount ActionComplete actions else 0);
          awaiting = (if isInventory then depositAmount ActionInProgress actions else 0)
      in rbind (getChainName E (te_origin x)) (\<lambda>org.
         rbind (getChainName E (te_destination x)) (\<lambda>dest.
           ret \<lparr>origin = org, destination = dest, amount = te_amount x,
             executionMethod = ri_executionMethod x, deliveredAmount = Some delivered,
             awaitingDeliveryAmount = Some awaiting, bridge = ri_bridge x, externalBridge = None\<rparr>)))"

definition transferRoute :: "tracker_env \<Rightarrow> Transfer \<Rightarrow> Route result" where
  "transferRoute E t =
     rbind (getChainName E (te_origin t)) (\<lambda>org.
     rbind (getChainName E (te_destination t)) (\<lambda>dest.
       ret \<lparr>origin = org, destination = dest, amount = te_amount t, executionMethod = None,
         deliveredAmount = None, awaitingDeliveryAmount = None, bridge = None, externalBridge = None\<rparr>))"

definition getInflightContext :: "tracker_env \<Rightarrow> tracker \<Rightarrow> InflightContext result" where
  "getInflightContext E s =
     rbind (rmap (intentRoute E s) (getActiveRebalanceIntents s)) (\<lambda>rebalances.
     rbind (rmap (transferRoute E) (getInProgressTransfers s)) (\<lambda>transfers.
       ret \<lparr>pendingRebalances = rebalances, pendingTransfers = transfers, proposedRebalances = None\<rparr>))"

section \<open>The balances a strategy sees\<close>

text \<open>What an intent in progress still adds to a chain, by the tracker's own state.\<close>

definition intentEffect :: "tracker_env \<Rightarrow> tracker \<Rightarrow> chain \<Rightarrow> RebalanceIntent \<Rightarrow> int" where
  "intentEffect E s c x =
     (let actions = getActionsForIntent s (te_id x);
          toDo = te_amount x - depositAmount ActionComplete actions
      in if ri_executionMethod x = Some inventory
         then (if getChainName E (te_destination x) = ret c then max 0 (toDo - depositAmount ActionInProgress actions) else 0)
            - (if getChainName E (te_origin x) = ret c then max 0 toDo else 0)
         else (if getChainName E (te_destination x) = ret c then te_amount x else 0))"

lemma intentRoute_effect: "intentRoute E s x = ret r \<Longrightarrow> pendingEffect c r = intentEffect E s c x"
  by (auto simp: intentRoute_def pendingEffect_def intentEffect_def Let_def rbind_eq_Inr_iff)

lemma sum_list_all2:
  "list_all2 P xs ys \<Longrightarrow> (\<And>x y. P x y \<Longrightarrow> f y = g x) \<Longrightarrow> sum_list (map f ys) = (sum_list (map g xs) :: int)"
  by (induction rule: list_all2_induct) auto

lemma transferRoute_inflow:
  assumes "rmap (transferRoute E) ts = ret rs"
  shows "inflowTo c rs = sum_list (map (\<lambda>t. if getChainName E (te_destination t) = ret c then te_amount t else 0) ts)"
proof -
  have "inflowTo c rs = sum_list (map (\<lambda>r. if destination r = c then amount r else 0) rs)"
    by (induction rs) auto
  also have "\<dots> = sum_list (map (\<lambda>t. if getChainName E (te_destination t) = ret c then te_amount t else 0) ts)"
    using assms unfolding rmap_eq_Inr_iff
    by (rule sum_list_all2) (auto simp: transferRoute_def rbind_eq_Inr_iff)
  finally show ?thesis .
qed

lemma getInflightContext_ret:
  assumes "getInflightContext E s = ret ctx"
  shows "rmap (intentRoute E s) (getActiveRebalanceIntents s) = ret (pendingRebalances ctx)"
    and "rmap (transferRoute E) (getInProgressTransfers s) = ret (pendingTransfers ctx)"
    and "proposedRebalances ctx = None"
  using assms by (auto simp: getInflightContext_def rbind_eq_Inr_iff)

text \<open>
  C37. The balance of a chain that a strategy computes from the tracker's context is the raw balance,
  less every transfer in progress that pays out there, plus what the intents in progress still
  bring: the amount of a movable-collateral intent at its destination; of an inventory intent,
  the amount neither deposited nor awaiting delivery at its destination, less the amount not yet
  deposited at its origin.
\<close>

theorem inflight_context_balance:
  assumes "getInflightContext E s = ret ctx"
  shows "balanceOr0 (simulatePendingRebalances (reserveCollateral raw (pendingTransfers ctx)) (pendingRebalances ctx)) c
    = balanceOr0 raw c
      - sum_list (map (\<lambda>t. if getChainName E (te_destination t) = ret c then te_amount t else 0) (getInProgressTransfers s))
      + sum_list (map (intentEffect E s c) (getActiveRebalanceIntents s))"
proof -
  note ctx = getInflightContext_ret [OF assms]
  have "sum_list (map (pendingEffect c) (pendingRebalances ctx))
      = sum_list (map (intentEffect E s c) (getActiveRebalanceIntents s))"
    using ctx(1) unfolding rmap_eq_Inr_iff by (rule sum_list_all2) (rule intentRoute_effect)
  then show ?thesis
    using transferRoute_inflow [OF ctx(2), of c] pending_balance_sum reserve_balance by simp
qed


text \<open>The context of the example: 30 is reserved and 140 still to come at the destination.\<close>

theorem inflight_context_balance_witness:
  "\<exists>ctx. getInflightContext ex_env ex_state = ret ctx
     \<and> balanceOr0 (simulatePendingRebalances (reserveCollateral [(''alpha'', 500), (''beta'', 50)] (pendingTransfers ctx))
         (pendingRebalances ctx)) ''beta'' = 50"
proof -
  have "\<exists>ctx. getInflightContext ex_env ex_state = ret ctx"
    by (simp add: getInflightContext_def intentRoute_def transferRoute_def Let_def ex_env_def ex_state_def
        getActiveRebalanceIntents_def getInProgressTransfers_def store_getByStatus_def ex_intent_def ex_transfer_def)
  then obtain ctx where ctx: "getInflightContext ex_env ex_state = ret ctx" by blast
  have i: "getActiveRebalanceIntents ex_state = [ex_intent ''i1'' 900, ex_intent ''i2'' 100]"
      "getInProgressTransfers ex_state = [ex_transfer ''m1'']"
    by (simp_all add: getActiveRebalanceIntents_def getInProgressTransfers_def store_getByStatus_def ex_state_def
        ex_intent_def ex_transfer_def)
  have e: "intentEffect ex_env ex_state ''beta'' (ex_intent ''i1'' 900) = 0"
      "intentEffect ex_env ex_state ''beta'' (ex_intent ''i2'' 100) = 30"
    by (simp_all add: intentEffect_def depositAmount_def getActionsForIntent_def store_getAll_def ex_state_def
        ex_action_def ex_env_def ex_intent_def)
  show ?thesis
    using inflight_context_balance [OF ctx, of "[(''alpha'', 500), (''beta'', 50)]" "''beta''"] ctx
    by (simp add: i e) (simp add: ex_env_def ex_transfer_def balanceOr0_def)
qed

end
