(* ===== verification/Orchestrator.thy ===== *)
theory Orchestrator
  imports Inventory_Intents Composite_Strategy Inflight_Context
begin

text \<open>
  \<open>typescript/rebalancer/src/core/RebalancerOrchestrator.ts\<close>: the polling cycle, which synchronizes the action
  tracker, asks the strategy for routes and hands them to the rebalancers. The state is the one of the inventory
  rebalancer, whose tracker all components share.

  \<open>Promise.all\<close> starts the three synchronizations together. That of the intents has no call outside the
  process and is done before the Explorer answers the other two; these write to different stores. So they run here one
  after another, and the synchronization fails when one of them does. \<open>Promise.all\<close> rejects without waiting
  for the others; here they finish before the cycle goes on. Metrics are left out.
\<close>

section \<open>The cycle\<close>

record MonitorEvent =
  tokensInfo :: "TokenInfo list"
  confirmedBlockTags :: "block_tags option"
  ev_inventoryBalances :: "(chain, int) dict option"

record CycleResult =
  cy_balances :: RawBalances
  proposedRoutes :: "StrategyRoute list"
  executedCount :: nat
  failedCount :: nat

record ('q, 'tx, 'r) orchestrator =
  oc_strategy :: strategy
  oc_strategyConfig :: "StrategyConfig list"
  oc_tracker :: ActionTrackerConfig
  oc_movable :: "('q, 'tx, 'r) movable_env option"
  oc_inventory :: "inventory_deps option"
  oc_registry :: "bridge_registry option"

definition syncActionTracker ::
    "tracker_env \<Rightarrow> ('q, 'tx, 'r) orchestrator \<Rightarrow> block_tags option \<Rightarrow> unit tracker_op" where
  "syncActionTracker E R tags =
     op_try
       (op_bind (op_settle (syncRebalanceIntents E (oc_tracker R))) (\<lambda>r1.
        op_bind (op_settle (syncTransfers E (oc_tracker R) tags)) (\<lambda>r2.
        op_bind (op_settle (syncRebalanceActions E (oc_tracker R) tags)) (\<lambda>r3.
        op_bind (op_lift r1) (\<lambda>_. op_bind (op_lift r2) (\<lambda>_. op_bind (op_lift r3) (\<lambda>_.
        case oc_registry R of
          None \<Rightarrow> op_ret ()
        | Some registry \<Rightarrow> op_bind (syncInventoryMovementActions E registry) (\<lambda>_. op_ret ()))))))))
       (op_ret ())"

text \<open>The two calls of \<open>executeRoutes\<close>, by the type of the rebalancer: an error gives no results.\<close>

definition executeMovableRoutes ::
    "tracker_env \<Rightarrow> ('q, 'tx, 'r) movable_env \<Rightarrow> StrategyRoute list \<Rightarrow> MovableCollateralExecutionResult list inventory_op" where
  "executeMovableRoutes E V routes = op_try (onTracker (rebalance E V routes)) (op_ret [])"

definition executeInventoryRoutes ::
    "tracker_env \<Rightarrow> inventory_deps \<Rightarrow> ('tx, 'q) world \<Rightarrow> StrategyRoute list \<Rightarrow> MonitorEvent \<Rightarrow> InventoryExecutionResult list inventory_op" where
  "executeInventoryRoutes E D W routes event =
     op_seq (case ev_inventoryBalances event of Some balances \<Rightarrow> setInventoryBalances balances | None \<Rightarrow> op_ret ())
       (op_try (rebalanceInventory E D W routes) (op_ret []))"

definition executeWithTracking ::
    "tracker_env \<Rightarrow> ('q, 'tx, 'r) orchestrator \<Rightarrow> ('tx2, 'q2) world \<Rightarrow> StrategyRoute list \<Rightarrow> MonitorEvent \<Rightarrow> (nat \<times> nat) inventory_op" where
  "executeWithTracking E R W routes event =
     (let movableCollateral = filter isMovableCollateralRoute routes; inventoryRoutes = filter isInventoryRoute routes in
      op_bind (case oc_movable R of
          Some V \<Rightarrow> if movableCollateral \<noteq> []
            then op_bind (executeMovableRoutes E V movableCollateral) (\<lambda>results.
              op_ret (length (filter mx_success results), length (filter (\<lambda>r. \<not> mx_success r) results)))
            else op_ret (0, 0)
        | None \<Rightarrow> op_ret (0, 0)) (\<lambda>counts.
      op_bind (case oc_inventory R of
          Some D \<Rightarrow> if inventoryRoutes \<noteq> [] then executeInventoryRoutes E D W inventoryRoutes event else op_ret []
        | None \<Rightarrow> op_ret []) (\<lambda>_.
      op_ret counts)))"

definition executeCycle ::
    "bignumber_api \<Rightarrow> tracker_env \<Rightarrow> ('q, 'tx, 'r) orchestrator \<Rightarrow> ('tx2, 'q2) world \<Rightarrow> MonitorEvent \<Rightarrow> CycleResult inventory_op" where
  "executeCycle bn E R W event =
     op_seq (onTracker (syncActionTracker E R (confirmedBlockTags event)))
     (op_bind (op_lift (getRawBalances (getStrategyChainNames (oc_strategyConfig R)) (tokensInfo event))) (\<lambda>rawBalances.
      op_bind (op_gets (\<lambda>s. getInflightContext E (actionTracker s))) (\<lambda>context.
      op_bind (op_lift context) (\<lambda>inflightContext.
      op_bind (op_lift (snd (strategyRoutes bn (oc_strategy R) rawBalances (Some inflightContext)))) (\<lambda>routes.
      op_bind (if routes \<noteq> [] then executeWithTracking E R W routes event else op_ret (0, 0)) (\<lambda>(executed, failed).
      op_bind (case oc_inventory R of
          Some D \<Rightarrow> if routes = [] then executeInventoryRoutes E D W [] event else op_ret []
        | None \<Rightarrow> op_ret []) (\<lambda>_.
      op_ret \<lparr>cy_balances = rawBalances, proposedRoutes = routes, executedCount = executed, failedCount = failed\<rparr>)))))))"

end
