(* ===== verification/Orchestrator_Cycles.thy ===== *)
theory Orchestrator_Cycles
  imports Orchestrator
begin

text \<open>
  What a polling cycle keeps and returns. The invariant \<open>cycle_ok\<close> joins the components: the tracker's stores are well
  formed, and what the inventory rebalancer consumed is covered by the inventory it was given. Every
  cycle preserves it, with any answers of the outside and any event, also when it throws, so it holds
  in every state that cycles reach.
\<close>

section \<open>Invariant of the cycles\<close>

definition cycle_ok :: "inventory_state \<Rightarrow> bool" where
  "cycle_ok s \<longleftrightarrow> tracker_wf (actionTracker s) \<and> distinct (dict_keys (inventoryBalances s)) \<and> covered (inventoryBalances s) s"

lemma ok_onTracker: "keeps tracker_wf m \<Longrightarrow> keeps cycle_ok (onTracker m)"
  by (force simp: keeps_def cycle_ok_def covered_def onTracker_def split: prod.split)

lemma wf_rebalance [keeps]: "keeps tracker_wf (rebalance E V routes)"
  unfolding rebalance_def createIntents_def processResults_def processResult_def Let_def by (intro keeps)

lemma wf_syncActionTracker [keeps]: "keeps tracker_wf (syncActionTracker E R tags)"
  unfolding syncActionTracker_def by (auto split: option.split intro!: keeps)

lemma wf_rebalanceInventory: "keeps (\<lambda>s. tracker_wf (actionTracker s)) (rebalanceInventory E D W routes)"
  unfolding rebalanceInventory_def getActiveInventoryIntent_def continueIntent_def
  by (auto split: option.split list.split intro!: keeps wf.lift_keeps wf.execute_keeps keeps_modify)

lemma ok_rebalanceInventory:
  assumes "world_ok W"
  shows "keeps cycle_ok (rebalanceInventory E D W routes)"
  unfolding keeps_def
proof (intro allI impI)
  fix s assume s: "cycle_ok s"
  then have "covered (inventoryBalances s) (snd (rebalanceInventory E D W routes s))"
    using rebalance_covered [OF assms, of s] by (simp add: wp_both cycle_ok_def)
  moreover have "tracker_wf (actionTracker (snd (rebalanceInventory E D W routes s)))"
    using wf_rebalanceInventory [of E D W routes] s by (auto simp: keeps_def cycle_ok_def)
  ultimately show "cycle_ok (snd (rebalanceInventory E D W routes s))" using s by (simp add: cycle_ok_def covered_def)
qed

text \<open>
  New balances alone may fall below what the last run consumed; the run that follows starts by
  clearing it.
\<close>

lemma rebalance_clears:
  "rebalanceInventory E D W routes s = rebalanceInventory E D W routes (s\<lparr>consumedInventory := []\<rparr>)"
  by (simp add: rebalanceInventory_def op_simps)

definition event_ok :: "MonitorEvent \<Rightarrow> bool" where
  "event_ok event \<longleftrightarrow> (case ev_inventoryBalances event of None \<Rightarrow> True | Some b \<Rightarrow> distinct (dict_keys b))"

lemma ok_inventoryRoutes:
  assumes "world_ok W" "event_ok event"
  shows "keeps cycle_ok (executeInventoryRoutes E D W routes event)"
proof (cases "ev_inventoryBalances event")
  case (Some b)
  show ?thesis unfolding keeps_def
  proof (intro allI impI)
    fix s assume "cycle_ok s"
    then have "cycle_ok (s\<lparr>inventoryBalances := b, consumedInventory := []\<rparr>)"
      using assms(2) Some by (simp add: cycle_ok_def covered_def event_ok_def dict_or_zero_def)
    moreover have "keeps cycle_ok (op_try (rebalanceInventory E D W routes) (op_ret []))"
      by (intro keeps ok_rebalanceInventory assms)
    moreover have "executeInventoryRoutes E D W routes event s
        = op_try (rebalanceInventory E D W routes) (op_ret []) (s\<lparr>inventoryBalances := b, consumedInventory := []\<rparr>)"
      using rebalance_clears [of E D W routes "s\<lparr>inventoryBalances := b\<rparr>"]
      by (simp add: executeInventoryRoutes_def Some setInventoryBalances_def op_simps)
    ultimately show "cycle_ok (snd (executeInventoryRoutes E D W routes event s))" by (simp add: keeps_def)
  qed
qed (simp add: executeInventoryRoutes_def keeps ok_rebalanceInventory assms)

lemma ok_executeWithTracking:
  assumes "world_ok W" "event_ok event"
  shows "keeps cycle_ok (executeWithTracking E R W routes event)"
  unfolding executeWithTracking_def executeMovableRoutes_def Let_def
  by (auto split: option.split intro!: keeps ok_inventoryRoutes [OF assms] ok_onTracker)

lemma ok_executeCycle:
  assumes "world_ok W" "event_ok event"
  shows "keeps cycle_ok (executeCycle bn E R W event)"
  unfolding executeCycle_def
  by (intro keeps_seq keeps_bind ok_onTracker wf_syncActionTracker)
    (auto split: option.split prod.split intro!: keeps ok_inventoryRoutes [OF assms] ok_executeWithTracking [OF assms])

text \<open>
  One polling cycle, with any result: the caller catches what it throws and polls again. What the tracker asks may be
  answered differently in every cycle; so may what the inventory rebalancer asks, since a world gives each of its calls an
  answer of its own.
\<close>

inductive cycle_step ::
    "bignumber_api \<Rightarrow> ('q, 'tx, 'r) orchestrator \<Rightarrow> ('tx2, 'q2) world \<Rightarrow> inventory_state \<Rightarrow> inventory_state \<Rightarrow> bool" for bn R W where
  cycle: "executeCycle bn E R W event s = (r, s') \<Longrightarrow> event_ok event \<Longrightarrow> cycle_step bn R W s s'"

lemma cycle_step_ok: "cycle_step bn R W s s' \<Longrightarrow> world_ok W \<Longrightarrow> cycle_ok s \<Longrightarrow> cycle_ok s'"
  by (induction rule: cycle_step.induct) (rule keepsD [OF ok_executeCycle])

lemma cycles_ok: "(cycle_step bn R W)\<^sup>*\<^sup>* s s' \<Longrightarrow> world_ok W \<Longrightarrow> cycle_ok s \<Longrightarrow> cycle_ok s'"
  by (induction rule: rtranclp_induct) (auto intro: cycle_step_ok)

definition orchestrator_init :: inventory_state where
  "orchestrator_init = \<lparr>actionTracker = \<lparr>transferStore = [], rebalanceIntentStore = [], rebalanceActionStore = [], ticks = 0, uuids = 0\<rparr>,
     inventoryBalances = [], consumedInventory = [], calls = 0\<rparr>"

lemma init_ok: "cycle_ok orchestrator_init"
  by (simp add: cycle_ok_def orchestrator_init_def covered_def tracker_wf_def store_wf_def dict_or_zero_def)

text \<open>
  In every state that polling cycles reach from the start, whichever of them threw and whatever the monitor, the
  Explorer, the chains and the bridges answered: the stores of the tracker are well formed, and the inventory consumed on a
  chain is at most the inventory last reported for it.
\<close>

theorem cycles_keep_components_wf:
  assumes "(cycle_step bn R W)\<^sup>*\<^sup>* orchestrator_init s" and "world_ok W"
  shows "tracker_wf (actionTracker s) \<and> distinct (dict_keys (inventoryBalances s))
    \<and> (\<forall>c. dict_or_zero (consumedInventory s) c \<le> max 0 (getAvailableInventory s c))"
  using cycles_ok [OF assms init_ok] by (simp add: cycle_ok_def covered_def getAvailableInventory_def)

section \<open>The result of a cycle\<close>

lemma op_map_length: "op_map f xs s = (ret ys, s') \<Longrightarrow> length ys = length xs"
  by (induction xs arbitrary: ys s s') (auto simp: op_simps split: prod.splits sum.splits)

lemma rebalance_length:
  assumes "rebalance E V routes s = (ret results, s')"
  shows "length results = length routes"
proof (cases "routes = [] \<or> (\<exists>r \<in> set routes. missingBridge r)")
  case False
  then obtain xs s1 rs where c: "createIntents E V routes s = (ret xs, s1)"
      "executePrepared E V (internal_routes routes xs) = ret rs" "results = map toPublicResult rs"
    using rebalance_ret [OF assms] by metis
  have "length xs = length routes" using op_map_length c(1) by (simp add: createIntents_def)
  then show ?thesis using mset_eq_length [OF conjunct1 [OF executePrepared_mset [OF c(2)]]] c(3)
    by (simp add: internal_routes_def)
qed (use assms in \<open>auto simp: rebalance_def op_simps split: if_splits\<close>)

lemma split_length: "length (filter P xs) + length (filter (\<lambda>x. \<not> P x) xs) = length xs"
  by (rule sum_length_filter_compl)

definition counted :: "nat \<Rightarrow> nat \<times> nat \<Rightarrow> bool" where
  "counted n p \<longleftrightarrow> fst p + snd p = n \<or> p = (0, 0)"

lemma counted_zero: "counted n (0, 0)"
  by (simp add: counted_def)

lemma movable_counted:
  "wp (executeMovableRoutes E V routes) (\<lambda>results _. counted (length routes)
     (length (filter mx_success results), length (filter (\<lambda>r. \<not> mx_success r) results))) X s"
  by (auto simp: wp_def executeMovableRoutes_def op_simps onTracker_def counted_def split_length
      split: prod.splits sum.splits dest!: rebalance_length)

text \<open>The executors catch what they throw, and the synchronization catches what it throws.\<close>

lemma never_throws: "wp (op_try m (op_ret x)) (\<lambda>_ _. True) (\<lambda>_. False) s"
  by (auto simp: wp_def op_simps split: prod.split sum.split)

lemma inventory_total: "wp (executeInventoryRoutes E D W routes event) (\<lambda>_ _. True) (\<lambda>_. False) s"
  unfolding executeInventoryRoutes_def setInventoryBalances_def
  by (cases "ev_inventoryBalances event") (simp_all only: option.case wp_seq wp_basic never_throws)

lemma movable_total: "wp (executeMovableRoutes E V routes) (\<lambda>_ _. True) (\<lambda>_. False) s"
  unfolding executeMovableRoutes_def by (rule never_throws)

lemma tracking_counted:
  "wp (executeWithTracking E R W routes event)
     (\<lambda>p _. counted (if oc_movable R = None then 0 else length (filter isMovableCollateralRoute routes)) p) (\<lambda>_. False) s"
proof -
  have inv: "wp (case oc_inventory R of Some D \<Rightarrow> if is \<noteq> [] then executeInventoryRoutes E D W is event else op_ret [] | None \<Rightarrow> op_ret [])
      (\<lambda>_. wp (op_ret p) (\<lambda>p _. counted n p) (\<lambda>_. False)) (\<lambda>_. False) s" if "counted n p" for "is" n p s
    using that by (auto simp: wp_simps split: option.split intro: wp_mono [OF inventory_total])
  show ?thesis
  proof (cases "oc_movable R")
    case (Some V)
    let ?mc = "filter isMovableCollateralRoute routes"
    have "wp (executeMovableRoutes E V ?mc) (\<lambda>results _. counted (length ?mc)
       (length (filter mx_success results), length (filter (\<lambda>r. \<not> mx_success r) results))) (\<lambda>_. False) s"
      by (rule movable_counted)
    then show ?thesis unfolding executeWithTracking_def Some Let_def option.case
      by (auto simp: wp_bind wp_basic Some counted_zero intro!: wp_if inv elim!: wp_mono)
  qed (auto simp: executeWithTracking_def Let_def wp_bind wp_basic counted_zero intro!: inv)
qed

lemma sync_total: "wp (syncActionTracker E R tags) (\<lambda>_ _. True) (\<lambda>_. False) s"
  unfolding syncActionTracker_def by (rule never_throws)

lemma sync_ret: obtains t where "syncActionTracker E R tags s = (ret (), t)"
  using sync_total [of E R tags s] by (auto simp: wp_def split: prod.splits sum.splits)

definition cycle_result :: "('q, 'tx, 'r) orchestrator \<Rightarrow> MonitorEvent \<Rightarrow> CycleResult \<Rightarrow> bool" where
  "cycle_result R event res \<longleftrightarrow>
     getRawBalances (getStrategyChainNames (oc_strategyConfig R)) (tokensInfo event) = ret (cy_balances res)
   \<and> (\<forall>r \<in> set (proposedRoutes res). 0 < sr_amount r \<and> sr_amount r \<le> balanceOr0 (cy_balances res) (sr_origin r))
   \<and> counted (if oc_movable R = None then 0 else length (filter isMovableCollateralRoute (proposedRoutes res)))
       (executedCount res, failedCount res)"

lemma executeCycle_wp:
  assumes t: "syncActionTracker E R (confirmedBlockTags event) (actionTracker s) = (ret (), t)"
  shows "wp (executeCycle bn E R W event) (\<lambda>res _. cycle_result R event res) (\<lambda>s'. s' = s\<lparr>actionTracker := t\<rparr>) s"
proof -
  let ?u = "s\<lparr>actionTracker := t\<rparr>"
  have sync: "wp (onTracker (syncActionTracker E R (confirmedBlockTags event))) Q X s = Q () ?u" for Q X
    using t by (simp add: wp_def onTracker_def)
  have last: "wp (case oc_inventory R of Some D \<Rightarrow> if routes = [] then executeInventoryRoutes E D W [] event else op_ret [] | None \<Rightarrow> op_ret [])
      (\<lambda>_. wp (op_ret res) (\<lambda>res _. cycle_result R event res) X) X s'" if "cycle_result R event res" for routes res X s'
    using that by (auto simp: wp_simps split: option.split intro: wp_mono [OF inventory_total])
  show ?thesis unfolding executeCycle_def wp_seq sync
  proof (intro wp_bind_lift, unfold wp_bind [of "op_gets _"] wp_basic, intro wp_bind_lift, unfold wp_bind)
    fix raw ctx routes
    assume raw: "getRawBalances (getStrategyChainNames (oc_strategyConfig R)) (tokensInfo event) = ret raw"
      and "getInflightContext E (actionTracker ?u) = ret ctx"
      and rs: "snd (strategyRoutes bn (oc_strategy R) raw (Some ctx)) = ret routes"
    obtain ev where run: "strategyRoutes bn (oc_strategy R) raw (Some ctx) = (ev, ret routes)" using rs by (metis prod.collapse)
    have "wp (if routes \<noteq> [] then executeWithTracking E R W routes event else op_ret (0, 0))
        (\<lambda>p _. counted (if oc_movable R = None then 0 else length (filter isMovableCollateralRoute routes)) p) (\<lambda>_. False) ?u"
      by (intro wp_if tracking_counted) (simp add: wp_simps counted_zero)
    then show "wp (if routes \<noteq> [] then executeWithTracking E R W routes event else op_ret (0, 0))
        (\<lambda>p. wp (case p of (executed, failed) \<Rightarrow> op_bind (case oc_inventory R of
            Some D \<Rightarrow> if routes = [] then executeInventoryRoutes E D W [] event else op_ret [] | None \<Rightarrow> op_ret []) (\<lambda>_.
          op_ret \<lparr>cy_balances = raw, proposedRoutes = routes, executedCount = executed, failedCount = failed\<rparr>))
          (\<lambda>res _. cycle_result R event res) (\<lambda>s'. s' = ?u)) (\<lambda>s'. s' = ?u) ?u"
      by (rule wp_mono) (auto simp: wp_bind intro!: wp_prod last,
        auto simp: cycle_result_def raw strategies.covered [OF run] split: if_splits)
  qed simp_all
qed


text \<open>
  A cycle that throws has executed nothing: it leaves the inventory as it was and the tracker as the
  synchronization left it, and the synchronization itself never throws.
\<close>

theorem executeCycle_throws_before_execution:
  assumes "executeCycle bn E R W event s = (throw e, s')"
  shows "s' = s\<lparr>actionTracker := actionTracker s'\<rparr>
    \<and> syncActionTracker E R (confirmedBlockTags event) (actionTracker s) = (ret (), actionTracker s')"
proof -
  obtain t where t: "syncActionTracker E R (confirmedBlockTags event) (actionTracker s) = (ret (), t)" by (rule sync_ret)
  from wpD(2) [OF executeCycle_wp [OF t] assms] t show ?thesis by simp
qed

section \<open>An example\<close>

text \<open>
  A transfer of 400 to the chain \<open>a\<close>, which holds 50, is pending, and the Explorer does not answer, so the cycle works on
  what the tracker knows. The strategy proposes 300 from \<open>b\<close> and 150 from \<open>c\<close>; the second one fails its gas estimation.
\<close>

definition ex_cycle_env :: tracker_env where
  "ex_cycle_env = ex_env\<lparr>getChainName := (\<lambda>d. ret (if d = 1 then ''b'' else ''a'')), isDelivered := (\<lambda>_ _ _. ret False),
     getInflightUserTransfers := (\<lambda>_ _. throw RangeError), getInflightRebalanceActions := (\<lambda>_ _ _ _. throw RangeError)\<rparr>"

definition ex_cycle_state :: inventory_state where
  "ex_cycle_state = \<lparr>actionTracker = \<lparr>transferStore = [(''m1'', (ex_transfer ''m1'')\<lparr>te_amount := 400\<rparr>)],
       rebalanceIntentStore = [], rebalanceActionStore = [], ticks = 0, uuids = 0\<rparr>,
     inventoryBalances = [], consumedInventory = [], calls = 0\<rparr>"

definition ex_cycle_movable :: "(unit, int, string list) movable_env" where
  "ex_cycle_movable = \<lparr>mv_getDomainId = (\<lambda>c. ret (if c = ''b'' then 1 else if c = ''a'' then 2 else 3)),
     mv_chainMetadata = [(''a'', 2), (''b'', 1), (''c'', 3)],
     mv_tokensByChainName = ex_def_tokens,
     isMovableCollateralAdapter = (\<lambda>_. ret True), signerAddress = (\<lambda>_. ret ''me''), isRebalancer = (\<lambda>_ _. ret True),
     getAllowedDestination = (\<lambda>_ _. ret ''0xr''), isBridgeAllowed = (\<lambda>_ _ _. ret True),
     eqAddress = (\<lambda>a b. ret (a = b)), getRebalanceQuotes = (\<lambda>_ _ _ _ _. ret ()),
     populateRebalanceTx = (\<lambda>_ _ amt _ _. ret amt), estimateGas = (\<lambda>_ amt. if amt = 300 then ret () else throw RangeError),
     sendTransaction = (\<lambda>_ _ _ _. ret [''m'']), transactionHash = concat, dispatchedIds = ret\<rparr>"

definition ex_orchestrator :: "(unit, int, string list) orchestrator" where
  "ex_orchestrator = \<lparr>oc_strategy = CollateralDeficit ex_deficit, oc_strategyConfig = rc_strategy ex_config, oc_tracker = ex_cfg,
     oc_movable = Some ex_cycle_movable, oc_inventory = Some ex_deps, oc_registry = None\<rparr>"

definition ex_event :: MonitorEvent where
  "ex_event = \<lparr>tokensInfo = map (\<lambda>(c, b). \<lparr>ti_token = (Rebalancer_Types.ex_token c)\<lparr>token_decimals := 2\<rparr>, bridgedSupply = Some b\<rparr>) ex_def_raw,
     confirmedBlockTags = None, ev_inventoryBalances = Some [(''alpha'', 100), (''beta'', 80)]\<rparr>"

lemma ex_event_balances: "getRawBalances (getStrategyChainNames (oc_strategyConfig ex_orchestrator)) (tokensInfo ex_event) = ret ex_def_raw"
  by (simp add: ex_orchestrator_def ex_event_def ex_config_def getStrategyChainNames_def getRawBalances_def rawBalanceStep_def
      Rebalancer_Types.ex_token_def isCollateralized_def addNew_def
        isCollateralizedTokenEligibleForRebalancing_def TOKEN_COLLATERALIZED_STANDARDS_def
        REBALANCEABLE_TOKEN_COLLATERALIZED_STANDARDS_def normalizeToCanonical_def
        messageAmountFromLocal_eq validScale_def DEFAULT_SCALE_def)

lemma ex_cycle_sync:
  "syncActionTracker ex_cycle_env ex_orchestrator tags (actionTracker ex_cycle_state)
   = (ret (), (actionTracker ex_cycle_state)\<lparr>ticks := Suc 0\<rparr>)"
  by (simp add: syncActionTracker_def op_simps op_settle_def syncRebalanceIntents_def syncTransfers_def syncRebalanceActions_def
      inflightRebalanceActions_def dateNow_def ex_cycle_env_def ex_cycle_state_def getActiveRebalanceIntents_def store_getByStatus_def
      getInProgressActions_def)

lemma ex_cycle_context: "getInflightContext ex_cycle_env ((actionTracker ex_cycle_state)\<lparr>ticks := Suc 0\<rparr>) = ret ex_def_ctx"
  by (simp add: getInflightContext_def transferRoute_def ex_cycle_env_def ex_cycle_state_def ex_transfer_def ex_def_ctx_def
      getActiveRebalanceIntents_def getInProgressTransfers_def store_getByStatus_def)

lemma ex_cycle_executed:
  "executePrepared ex_cycle_env ex_cycle_movable (internal_routes ex_def_routes [x, y]) = ret
     [failureResult (GasEstimationFailed RangeError) (internal_routes ex_def_routes [x, y] ! 1),
      \<lparr>er_route = internal_routes ex_def_routes [x, y] ! 0, er_success = True, er_error = None, er_messageId = ''m'', er_txHash = Some ''m'',
       er_canonicalAmount = Some 300, er_localAmount = Some 300\<rparr>]"
  by (simp add: executePrepared_def prepareTransactions_def settled_def map_filter_Cons map_filter_Nil prepareTransaction_def validateRoute_def
      internal_routes_def ex_cycle_movable_def ex_def_tokens_def Rebalancer_Types.ex_token_def denormalizeToLocal_def minLocalAmountForMessage_eq validScale_def
      executeTransactions_def groupByOrigin_def sendTransactionsForChain_def DEFAULT_SCALE_def
      getReorgPeriod_def buildResult_def normalizeToCanonical_def messageAmountFromLocal_eq ex_env_def ex_cycle_env_def)

lemma ex_cycle_rebalance:
  "\<exists>results t. rebalance ex_cycle_env ex_cycle_movable ex_def_routes ((actionTracker ex_cycle_state)\<lparr>ticks := Suc 0\<rparr>) = (ret results, t)
     \<and> map mx_success results = [False, True]"
proof -
  let ?s = "(actionTracker ex_cycle_state)\<lparr>ticks := Suc 0\<rparr>"
  have wf: "tracker_wf ?s" by (simp add: tracker_wf_def store_wf_def ex_cycle_state_def ex_transfer_def)
  have inj: "inj (uuidv4 ex_cycle_env)" using ex_uuids by (simp add: ex_cycle_env_def)
  have "\<exists>xs s1. createIntents ex_cycle_env ex_cycle_movable ex_def_routes ?s = (ret xs, s1)"
    by (simp add: createIntents_def ex_cycle_movable_def op_simps createRebalanceIntent_def newUuid_def dateNow_def saveIntent_def Let_def)
  then obtain xs s1 where c: "createIntents ex_cycle_env ex_cycle_movable ex_def_routes ?s = (ret xs, s1)" by blast
  have "length xs = 2" using c op_map_length unfolding createIntents_def by fastforce
  then obtain x y where xs: "xs = [x, y]" by (cases xs; cases "tl xs") auto
  obtain results t where run: "rebalance ex_cycle_env ex_cycle_movable ex_def_routes ?s = (ret results, t)"
    using rebalance_returns [OF wf inj _ c] ex_cycle_executed xs by (auto simp: ex_cycle_movable_def)
  have mb: "\<forall>r \<in> set ex_def_routes. \<not> missingBridge r" by (simp add: missingBridge_def ex_bridge_def)
  obtain xs2 s2 rs where r: "createIntents ex_cycle_env ex_cycle_movable ex_def_routes ?s = (ret xs2, s2)"
    "executePrepared ex_cycle_env ex_cycle_movable (internal_routes ex_def_routes xs2) = ret rs" "results = map toPublicResult rs"
    by (rule rebalance_ret [OF run mb]) simp_all
  then have "map mx_success results = [False, True]"
    using c xs ex_cycle_executed [of x y] by (auto simp: toPublicResult_def failureResult_def)
  with run show ?thesis by (intro exI conjI)
qed

lemma ex_cycle_run:
  "\<exists>res s'. executeCycle ex_bn ex_cycle_env ex_orchestrator ex_world ex_event ex_cycle_state = (ret res, s')
     \<and> proposedRoutes res = ex_def_routes \<and> executedCount res = 1 \<and> failedCount res = 1"
proof -
  obtain results t where r: "rebalance ex_cycle_env ex_cycle_movable ex_def_routes ((actionTracker ex_cycle_state)\<lparr>ticks := Suc 0\<rparr>) = (ret results, t)"
    and m: "map mx_success results = [False, True]"
    using ex_cycle_rebalance by (elim exE conjE) (rule that)
  from m have "length (filter mx_success results) = 1 \<and> length (filter (\<lambda>r. \<not> mx_success r) results) = 1"
    by (cases results; cases "tl results") auto
  then have "\<exists>u. executeWithTracking ex_cycle_env ex_orchestrator ex_world ex_def_routes ex_event
      (ex_cycle_state\<lparr>actionTracker := (actionTracker ex_cycle_state)\<lparr>ticks := Suc 0\<rparr>\<rparr>) = (ret (1, 1), u)"
    using r by (simp add: executeWithTracking_def ex_orchestrator_def op_simps executeMovableRoutes_def onTracker_def)
  moreover have "snd (strategyRoutes ex_bn (oc_strategy ex_orchestrator) ex_def_raw (Some ex_def_ctx)) = ret ex_def_routes"
    by (simp add: ex_orchestrator_def ex_def_run)
  ultimately show ?thesis
    by (auto simp: executeCycle_def op_simps onTracker_def ex_cycle_sync ex_event_balances ex_cycle_context)
     (simp add: ex_orchestrator_def op_simps)
qed


text \<open>A balance that the monitor could not read makes the cycle throw.\<close>

definition ex_bad_event :: MonitorEvent where
  "ex_bad_event = ex_event\<lparr>tokensInfo := [\<lparr>ti_token = Rebalancer_Types.ex_token ''a'', bridgedSupply = None\<rparr>]\<rparr>"

theorem executeCycle_throws_before_execution_witness:
  "\<exists>e s'. executeCycle ex_bn ex_cycle_env ex_orchestrator ex_world ex_bad_event ex_cycle_state = (throw e, s')
     \<and> rebalanceIntentStore (actionTracker s') = [] \<and> inventoryBalances s' = []"
proof -
  obtain e where "getRawBalances (getStrategyChainNames (oc_strategyConfig ex_orchestrator)) (tokensInfo ex_bad_event) = throw e"
    by (simp add: ex_orchestrator_def ex_bad_event_def ex_config_def getStrategyChainNames_def getRawBalances_def rawBalanceStep_def
        Rebalancer_Types.ex_token_def isCollateralized_def isCollateralizedTokenEligibleForRebalancing_def
        TOKEN_COLLATERALIZED_STANDARDS_def REBALANCEABLE_TOKEN_COLLATERALIZED_STANDARDS_def)
  then have "\<exists>s'. executeCycle ex_bn ex_cycle_env ex_orchestrator ex_world ex_bad_event ex_cycle_state = (throw e, s')"
    by (simp add: executeCycle_def op_simps onTracker_def ex_cycle_sync)
  then obtain s' where run: "executeCycle ex_bn ex_cycle_env ex_orchestrator ex_world ex_bad_event ex_cycle_state = (throw e, s')" by blast
  note res = executeCycle_throws_before_execution [OF run]
  have "rebalanceIntentStore (actionTracker s') = []" 
    using arg_cong [OF conjunct2 [OF res, unfolded ex_cycle_sync], of "\<lambda>p. rebalanceIntentStore (snd p)"] by (simp add: ex_cycle_state_def)
  moreover have "inventoryBalances s' = []"
    using arg_cong [OF conjunct1 [OF res], of inventoryBalances] by (simp add: ex_cycle_state_def)
  ultimately show ?thesis using run by blast
qed

text \<open>Two cycles with the example's configuration, the first of which throws.\<close>

theorem cycles_keep_components_wf_witness:
  "\<exists>s1 s2. s1 = snd (executeCycle ex_bn ex_cycle_env ex_orchestrator ex_world ex_bad_event orchestrator_init)
     \<and> s2 = snd (executeCycle ex_bn ex_cycle_env ex_orchestrator ex_world ex_event s1)
     \<and> tracker_wf (actionTracker s2) \<and> dict_or_zero (consumedInventory s2) ''alpha'' \<le> max 0 (getAvailableInventory s2 ''alpha'')"
proof -
  define s1 where "s1 = snd (executeCycle ex_bn ex_cycle_env ex_orchestrator ex_world ex_bad_event orchestrator_init)"
  define s2 where "s2 = snd (executeCycle ex_bn ex_cycle_env ex_orchestrator ex_world ex_event s1)"
  have w: "world_ok ex_world"
    by (auto simp: world_ok_def quotes_ok_def ex_world_def gas_env_nonneg_def Let_def split: option.split)
  have ev: "event_ok ex_event" "event_ok ex_bad_event" by (simp_all add: event_ok_def ex_bad_event_def ex_event_def)
  have "cycle_step ex_bn ex_orchestrator ex_world orchestrator_init s1" "cycle_step ex_bn ex_orchestrator ex_world s1 s2"
    by (rule cycle [OF _ ev(2)], simp add: s1_def prod_eq_iff, rule cycle [OF _ ev(1)], simp add: s2_def prod_eq_iff)
  then have "(cycle_step ex_bn ex_orchestrator ex_world)\<^sup>*\<^sup>* orchestrator_init s2" by (meson r_into_rtranclp rtranclp_trans)
  from cycles_keep_components_wf [OF this w] show ?thesis unfolding s1_def s2_def by blast
qed

end
