(* ===== verification/Rebalancer_Monitor.thy ===== *)
theory Rebalancer_Monitor
  imports Orchestrator_Cycles
begin

text \<open>
  \<open>typescript/rebalancer/src/monitor/Monitor.ts\<close> up to the event of a polling cycle: the confirmed block of every chain, the collateral
  of every token at that block, and the inventory balances. \<open>Rebalancer_Service\<close> has the polling loop.

  What the adapters of the tokens answer during one cycle is the record \<open>monitor_env\<close>; blocks are asked of the same providers as in
  the action tracker. The reads of inventory balances do not depend on each other and run in the order of the chains.
\<close>

section \<open>Tokens\<close>

definition TOKEN_HYP_STANDARDS :: "string list" where
  "TOKEN_HYP_STANDARDS =
    [''EvmHypNative'', ''EvmHypCollateral'', ''EvmHypCollateralFiat'', ''EvmHypOwnerCollateral'', ''EvmHypRebaseCollateral'',
     ''EvmHypSynthetic'', ''EvmHypSyntheticRebase'', ''EvmHypXERC20'', ''EvmHypXERC20Lockbox'', ''EvmHypVSXERC20'',
     ''EvmHypVSXERC20Lockbox'', ''EvmM0PortalLite'', ''EvmM0Portal'', ''EvmHypCrossCollateralRouter'', ''SealevelHypNative'',
     ''SealevelHypCollateral'', ''SealevelHypSynthetic'', ''SealevelHypCrossCollateral'', ''CwHypNative'', ''CwHypCollateral'',
     ''CwHypSynthetic'', ''CosmosNativeHypCollateral'', ''CosmosNativeHypSynthetic'', ''StarknetHypNative'', ''StarknetHypCollateral'',
     ''StarknetHypSynthetic'', ''RadixHypCollateral'', ''RadixHypSynthetic'', ''AleoHypNative'', ''AleoHypCollateral'',
     ''AleoHypSynthetic'', ''TronHypNative'', ''TronHypCollateral'', ''TronHypOwnerCollateral'', ''TronHypRebaseCollateral'',
     ''TronHypCollateralFiat'', ''TronHypSynthetic'', ''TronHypSyntheticRebase'', ''TronHypXERC20'', ''TronHypXERC20Lockbox'',
     ''TronHypVSXERC20'', ''TronHypVSXERC20Lockbox'', ''TronM0PortalLite'', ''TronHypCrossCollateralRouter'',
     ''TronHypEverclearCollateral'', ''TronHypEverclearEth'']"

definition isHypToken :: "Token \<Rightarrow> bool" where
  "isHypToken t = List.member TOKEN_HYP_STANDARDS (standard t)"

section \<open>A polling cycle\<close>

text \<open>
  \<open>supplyAt\<close> and \<open>latestSupply\<close> are \<open>getBridgedSupply\<close> with and without a block tag, \<open>inventoryBalance\<close> is \<open>getAdapter\<close> followed by
  \<open>getBalance\<close>.
\<close>

record monitor_env =
  getHypAdapter :: "Token \<Rightarrow> unit result"
  supplyAt :: "Token \<Rightarrow> block_tag option \<Rightarrow> int option result"
  latestSupply :: "Token \<Rightarrow> int option result"
  tokenProtocol :: "Token \<Rightarrow> string"
  inventoryBalance :: "Token \<Rightarrow> address \<Rightarrow> int result"

record InventoryMonitorConfig =
  inventoryAddresses :: "(string, address) dict"
  imc_chains :: "chain list"

definition computeConfirmedBlockTags :: "tracker_env \<Rightarrow> Token list \<Rightarrow> block_tags" where
  "computeConfirmedBlockTags E tokens = map (\<lambda>c. (c, getConfirmedBlockTag E c)) (addNew [] (map chainName tokens))"

definition getTokenBridgedSupply :: "monitor_env \<Rightarrow> Token \<Rightarrow> block_tag option \<Rightarrow> int option result" where
  "getTokenBridgedSupply M token blockTag =
     (if \<not> isHypToken token then ret None
      else rbind (getHypAdapter M token) (\<lambda>_.
        case supplyAt M token blockTag of Inr supply \<Rightarrow> ret supply | Inl _ \<Rightarrow> latestSupply M token))"

definition readInventoryBalance :: "monitor_env \<Rightarrow> InventoryMonitorConfig \<Rightarrow> Token list \<Rightarrow> chain \<Rightarrow> int" where
  "readInventoryBalance M config tokens c =
     (case List.find (\<lambda>t. chainName t = c) tokens of
        None \<Rightarrow> 0
      | Some token \<Rightarrow>
          (case map_of (inventoryAddresses config) (tokenProtocol M token) of
             None \<Rightarrow> 0
           | Some addr \<Rightarrow> if addr = [] then 0
               else case inventoryBalance M token addr of Inr balance \<Rightarrow> balance | Inl _ \<Rightarrow> 0))"

definition fetchInventoryBalances :: "monitor_env \<Rightarrow> InventoryMonitorConfig option \<Rightarrow> Token list \<Rightarrow> (chain, int) dict" where
  "fetchInventoryBalances M inventoryConfig tokens =
     (case inventoryConfig of
        None \<Rightarrow> []
      | Some config \<Rightarrow>
          foldl (\<lambda>balances (c, balance). AList.update c balance balances) []
            (map (\<lambda>c. (c, readInventoryBalance M config tokens c)) (imc_chains config)))"

definition tokenInfo :: "monitor_env \<Rightarrow> block_tags \<Rightarrow> Token \<Rightarrow> TokenInfo result" where
  "tokenInfo M tags token =
     rbind (getTokenBridgedSupply M token (case map_of tags (chainName token) of Some t \<Rightarrow> t | None \<Rightarrow> None)) (\<lambda>supply.
       ret \<lparr>ti_token = token, bridgedSupply = supply\<rparr>)"

definition pollEvent :: "tracker_env \<Rightarrow> monitor_env \<Rightarrow> InventoryMonitorConfig option \<Rightarrow> Token list \<Rightarrow> MonitorEvent result" where
  "pollEvent E M inventoryConfig tokens =
     (let tags = computeConfirmedBlockTags E tokens in
      rbind (rmap (tokenInfo M tags) tokens) (\<lambda>infos.
      let balances = fetchInventoryBalances M inventoryConfig tokens in
      ret \<lparr>tokensInfo = infos, confirmedBlockTags = Some tags,
           ev_inventoryBalances = (if balances \<noteq> [] then Some balances else None)\<rparr>))"

section \<open>What an event holds\<close>

lemma keys_foldl_update:
  "distinct (dict_keys d) \<Longrightarrow> distinct (dict_keys (foldl (\<lambda>d (c, b). AList.update c b d) d xs))
     \<and> map_of (foldl (\<lambda>d (c, b). AList.update c b d) d xs) = map_of d ++ map_of (rev xs)"
  by (induction xs arbitrary: d) (auto simp: distinct_update update_conv' map_add_def fun_eq_iff split: option.splits)

lemma fetch_distinct: "distinct (dict_keys (fetchInventoryBalances M ic tokens))"
  by (simp add: fetchInventoryBalances_def keys_foldl_update split: option.split)

lemma tags_lookup:
  "map_of (computeConfirmedBlockTags E tokens) c = (if c \<in> chainName ` set tokens then Some (getConfirmedBlockTag E c) else None)"
proof -
  have "map_of (map (\<lambda>c. (c, f c)) cs) c = (if c \<in> set cs then Some (f c) else None)" for f :: "chain \<Rightarrow> block_tag option" and cs
    by (induction cs) auto
  then show ?thesis by (simp add: computeConfirmedBlockTags_def set_addNew)
qed

lemma fetch_lookup:
  "map_of (fetchInventoryBalances M ic tokens) c =
     (case ic of Some config \<Rightarrow> if c \<in> set (imc_chains config) then Some (readInventoryBalance M config tokens c) else None | None \<Rightarrow> None)"
proof (cases ic)
  case (Some config)
  let ?xs = "map (\<lambda>c. (c, readInventoryBalance M config tokens c)) (imc_chains config)"
  have r: "map_of (rev (map (\<lambda>c. (c, f c)) cs)) c = (if c \<in> set cs then Some (f c) else None)" for f :: "chain \<Rightarrow> int" and cs
    by (induction cs rule: rev_induct) auto
  have "map_of (fetchInventoryBalances M ic tokens) = map_of (rev ?xs)"
    using keys_foldl_update [of "[]" ?xs] Some by (simp only: fetchInventoryBalances_def option.case) simp
  then show ?thesis using r [of "readInventoryBalance M config tokens" "imc_chains config"] Some by simp
qed (simp add: fetchInventoryBalances_def)

text \<open>Every token the rebalancer may move is one whose supply the monitor can read.\<close>

lemma eligible_hyp: "isCollateralizedTokenEligibleForRebalancing t \<Longrightarrow> isHypToken t"
  by (auto simp: isCollateralizedTokenEligibleForRebalancing_def isHypToken_def REBALANCEABLE_TOKEN_COLLATERALIZED_STANDARDS_def
      TOKEN_HYP_STANDARDS_def List.member_iff)

text \<open>The supply of a token: at the confirmed block of its chain, or the latest one when that cannot be read.\<close>

definition supply_read :: "tracker_env \<Rightarrow> monitor_env \<Rightarrow> Token \<Rightarrow> int option result \<Rightarrow> bool" where
  "supply_read E M t r \<longleftrightarrow>
     (case supplyAt M t (getConfirmedBlockTag E (chainName t)) of Inr s \<Rightarrow> r = ret s | Inl _ \<Rightarrow> r = latestSupply M t)"

lemma tokenInfo_cases:
  assumes "t \<in> set tokens"
  shows "case tokenInfo M (computeConfirmedBlockTags E tokens) t of
      Inl e \<Rightarrow> isHypToken t \<and> (getHypAdapter M t = throw e \<or> supply_read E M t (throw e))
    | Inr info \<Rightarrow> ti_token info = t \<and> (if isHypToken t then supply_read E M t (ret (bridgedSupply info)) else bridgedSupply info = None)"
  using assms by (auto simp: tokenInfo_def getTokenBridgedSupply_def supply_read_def tags_lookup rbind_def split: sum.splits)

lemma rmap_cases:
  "case rmap f xs of Inl e \<Rightarrow> \<exists>x \<in> set xs. f x = throw e | Inr ys \<Rightarrow> list_all2 (\<lambda>x y. f x = ret y) xs ys"
proof (induction xs)
  case (Cons x xs)
  then show ?case by (cases "f x"; cases "rmap f xs") auto
qed simp

text \<open>
  C16. Polling gives an event, or fails because the adapter of some warp route token cannot be made or both its confirmed and its latest supply
  cannot be read. The event has all tokens in their order, each with its supply at the confirmed block, or the latest one when
  that block cannot be read; among them all tokens that may be rebalanced are read. It has the confirmed block of every chain, and one
  inventory balance for every configured chain, whatever fails.
\<close>

theorem pollEvent_spec:
  "case pollEvent E M ic tokens of
     Inl e \<Rightarrow> \<exists>t \<in> set tokens. isHypToken t \<and> (getHypAdapter M t = throw e \<or> supply_read E M t (throw e))
   | Inr event \<Rightarrow> map ti_token (tokensInfo event) = tokens \<and> event_ok event
       \<and> (\<forall>info \<in> set (tokensInfo event).
            (if isHypToken (ti_token info) then supply_read E M (ti_token info) (ret (bridgedSupply info)) else bridgedSupply info = None)
            \<and> (isCollateralizedTokenEligibleForRebalancing (ti_token info) \<longrightarrow> isHypToken (ti_token info)))
       \<and> (\<exists>tags. confirmedBlockTags event = Some tags
            \<and> (\<forall>c. map_of tags c = (if c \<in> chainName ` set tokens then Some (getConfirmedBlockTag E c) else None)))
       \<and> (\<forall>c. map_of (case ev_inventoryBalances event of Some b \<Rightarrow> b | None \<Rightarrow> []) c
            = (case ic of Some config \<Rightarrow> if c \<in> set (imc_chains config) then Some (readInventoryBalance M config tokens c) else None | None \<Rightarrow> None))"
proof (cases "rmap (tokenInfo M (computeConfirmedBlockTags E tokens)) tokens")
  case (Inl e)
  then obtain t where "t \<in> set tokens" "tokenInfo M (computeConfirmedBlockTags E tokens) t = throw e"
    using rmap_cases [where f = "tokenInfo M (computeConfirmedBlockTags E tokens)" and xs = tokens] by auto
  then show ?thesis using tokenInfo_cases [where t = t and tokens = tokens and M = M and E = E] Inl by (auto simp: pollEvent_def Let_def)
next
  case (Inr infos)
  let ?b = "fetchInventoryBalances M ic tokens"
  have all: "list_all2 (\<lambda>t info. tokenInfo M (computeConfirmedBlockTags E tokens) t = ret info) tokens infos"
    using rmap_cases [where f = "tokenInfo M (computeConfirmedBlockTags E tokens)" and xs = tokens] Inr by simp
  have one: "ti_token info = t \<and> (if isHypToken t then supply_read E M t (ret (bridgedSupply info)) else bridgedSupply info = None)"
    if "t \<in> set tokens" "tokenInfo M (computeConfirmedBlockTags E tokens) t = ret info" for t info
    using tokenInfo_cases [OF that(1), where M = M and E = E] that(2) by simp
  have toks: "map ti_token infos = tokens"
    using all one by (auto simp: list_all2_conv_all_nth list_eq_iff_nth_eq)
  have sup: "if isHypToken (ti_token info) then supply_read E M (ti_token info) (ret (bridgedSupply info)) else bridgedSupply info = None"
    if "info \<in> set infos" for info
  proof -
    obtain i where i: "i < length infos" "info = infos ! i" using \<open>info \<in> set infos\<close> by (auto simp: in_set_conv_nth)
    then have "tokens ! i \<in> set tokens" "tokenInfo M (computeConfirmedBlockTags E tokens) (tokens ! i) = ret info"
      using all by (auto simp: list_all2_conv_all_nth)
    from one [OF this] show ?thesis by simp
  qed
  have "pollEvent E M ic tokens = ret \<lparr>tokensInfo = infos, confirmedBlockTags = Some (computeConfirmedBlockTags E tokens),
      ev_inventoryBalances = (if ?b \<noteq> [] then Some ?b else None)\<rparr>"
    using Inr by (simp add: pollEvent_def Let_def)
  moreover have "map_of (case (if ?b \<noteq> [] then Some ?b else None) of Some b \<Rightarrow> b | None \<Rightarrow> []) = map_of ?b" by simp
  ultimately show ?thesis using toks sup fetch_distinct [where M = M and ic = ic and tokens = tokens]
    by (simp add: event_ok_def tags_lookup fetch_lookup eligible_hyp)
qed

section \<open>An example\<close>

text \<open>The confirmed block of the second chain cannot be read, and the inventory of the first one cannot.\<close>

definition ex_monitor_env :: monitor_env where
  "ex_monitor_env = \<lparr>getHypAdapter = (\<lambda>_. ret ()), supplyAt = (\<lambda>t _. if chainName t = ''b'' then throw RangeError else ret (Some 7)),
     latestSupply = (\<lambda>_. ret (Some 9)), tokenProtocol = (\<lambda>_. ''ethereum''),
     inventoryBalance = (\<lambda>t _. if chainName t = ''a'' then throw RangeError else ret 5)\<rparr>"

definition ex_inventory_config :: InventoryMonitorConfig where
  "ex_inventory_config = \<lparr>inventoryAddresses = [(''ethereum'', ''0xme'')], imc_chains = [''a'', ''b'', ''z'']\<rparr>"

theorem pollEvent_spec_witness:
  "\<exists>event. pollEvent ex_cycle_env ex_monitor_env (Some ex_inventory_config) [Rebalancer_Types.ex_token ''a'', Rebalancer_Types.ex_token ''b''] = ret event
     \<and> map bridgedSupply (tokensInfo event) = [Some 7, Some 9]
     \<and> ev_inventoryBalances event = Some [(''a'', 0), (''b'', 5), (''z'', 0)]
     \<and> map ti_token (tokensInfo event) = [Rebalancer_Types.ex_token ''a'', Rebalancer_Types.ex_token ''b''] \<and> event_ok event"
proof -
  let ?ts = "[Rebalancer_Types.ex_token ''a'', Rebalancer_Types.ex_token ''b'']"
  obtain event where p: "pollEvent ex_cycle_env ex_monitor_env (Some ex_inventory_config) ?ts = ret event"
    and "map bridgedSupply (tokensInfo event) = [Some 7, Some 9]" "ev_inventoryBalances event = Some [(''a'', 0), (''b'', 5), (''z'', 0)]"
    by (simp add: pollEvent_def tokenInfo_def getTokenBridgedSupply_def ex_monitor_env_def Rebalancer_Types.ex_token_def isHypToken_def
        TOKEN_HYP_STANDARDS_def fetchInventoryBalances_def readInventoryBalance_def ex_inventory_config_def)
  then show ?thesis using pollEvent_spec [where E = ex_cycle_env and M = ex_monitor_env and ic = "Some ex_inventory_config" and tokens = ?ts] unfolding p by auto
qed

end
