(* ===== verification/Rebalancer_Service.thy ===== *)
theory Rebalancer_Service
  imports Rebalancer_Monitor
begin

text \<open>
  The rebalancer as a process: \<open>start\<close> and \<open>stop\<close> of \<open>typescript/rebalancer/src/monitor/Monitor.ts\<close> with the polling loop, and
  \<open>typescript/rebalancer/src/core/RebalancerService.ts\<close>, which creates the components, handles the events of the monitor and runs
  manual rebalances.

  What \<open>RebalancerContextFactory\<close> creates is the record \<open>factory_env\<close>; an \<open>actionTracker\<close> given from outside and metrics are left out.
  An iteration of the loop is one step: the monitor awaits its handler before it goes on. A monitor that is started again before its loop has
  ended has more than one loop, so a service counts them; their iterations follow each other here. Once its stop is over a graceful
  shutdown ends the process, after which there are no steps.
\<close>

section \<open>The monitor\<close>

record monitor =
  mn_inventoryConfig :: "InventoryMonitorConfig option"
  tokenInfoHandler :: bool
  errorHandler :: bool
  startHandler :: bool
  isMonitorRunning :: bool
  stopPromise :: bool

definition new_Monitor :: "InventoryMonitorConfig option \<Rightarrow> monitor" where
  "new_Monitor ic = \<lparr>mn_inventoryConfig = ic, tokenInfoHandler = False, errorHandler = False, startHandler = False,
     isMonitorRunning = False, stopPromise = False\<rparr>"

text \<open>The three registrations \<open>on\<close> of a service.\<close>

definition onHandlers :: "monitor \<Rightarrow> monitor" where
  "onHandlers m = m\<lparr>tokenInfoHandler := True, errorHandler := True, startHandler := True\<rparr>"

text \<open>\<open>stop\<close>: the promise it returns is resolved by the loop when it ends.\<close>

definition monitorStop :: "monitor \<Rightarrow> monitor" where
  "monitorStop m =
     (if \<not> isMonitorRunning m then m
      else if stopPromise m then m
      else m\<lparr>isMonitorRunning := False, stopPromise := True\<rparr>)"

text \<open>What \<open>start\<close> does after its loop: the handlers are removed and a stop under way is resolved.\<close>

definition monitorEnd :: "monitor \<Rightarrow> monitor" where
  "monitorEnd m = m\<lparr>tokenInfoHandler := False, errorHandler := False, startHandler := False, stopPromise := False\<rparr>"

section \<open>The service\<close>

record RebalancerServiceConfig =
  sc_daemon :: bool
  monitorOnly :: bool
  withMetrics :: bool
  sc_strategyConfig :: "StrategyConfig list"
  sc_tokens :: "Token list"

record ('q, 'tx, 'r) factory_env =
  createContext :: "unit result"
  createMetrics :: "unit result"
  createContextStrategy :: "strategy result"
  createActionTracker :: "ActionTrackerConfig result"
  createRebalancers :: "(('q, 'tx, 'r) movable_env option \<times> inventory_deps option \<times> bridge_registry \<times> InventoryMonitorConfig option) result"

record ('q, 'tx, 'r) service =
  contextFactory :: bool
  sv_monitor :: "monitor option"
  sv_orchestrator :: "('q, 'tx, 'r) orchestrator option"
  isExiting :: bool
  sv_state :: inventory_state
  sv_loops :: nat
  pollingErrors :: nat
  sv_cycles :: "CycleResult list"

type_synonym ('q, 'tx, 'r, 'a) service_op = "(('q, 'tx, 'r) service, 'a) op"

definition new_RebalancerService :: "('q, 'tx, 'r) service" where
  "new_RebalancerService = \<lparr>contextFactory = False, sv_monitor = None, sv_orchestrator = None, isExiting = False, sv_state = orchestrator_init,
     sv_loops = 0, pollingErrors = 0, sv_cycles = []\<rparr>"

definition onState :: "'a inventory_op \<Rightarrow> ('q, 'tx, 'r, 'a) service_op" where
  "onState m = (\<lambda>s. case m (sv_state s) of (r, t) \<Rightarrow> (r, s\<lparr>sv_state := t\<rparr>))"

definition serviceInitialize ::
    "RebalancerServiceConfig \<Rightarrow> ('q, 'tx, 'r) factory_env \<Rightarrow> tracker_env \<Rightarrow> ('q, 'tx, 'r, unit) service_op" where
  "serviceInitialize C F E =
     op_bind (op_gets contextFactory) (\<lambda>initialized.
     if initialized then op_ret ()
     else op_seq (op_lift (createContext F))
       (op_seq (op_modify (\<lambda>s. s\<lparr>contextFactory := True\<rparr>))
       (op_seq (if withMetrics C then op_lift (createMetrics F) else op_ret ())
       (op_bind (op_lift (createContextStrategy F)) (\<lambda>strat.
        op_bind (op_lift (createActionTracker F)) (\<lambda>trackerConfig.
        op_seq (onState (onTracker (initialize E trackerConfig)))
       (op_bind (if monitorOnly C then op_ret (None, None, \<lambda>_. None, None) else op_lift (createRebalancers F))
         (\<lambda>(movable, inventory, registry, inventoryConfig).
        op_modify (\<lambda>s. s\<lparr>sv_monitor := (if sc_daemon C then Some (new_Monitor inventoryConfig) else None),
          sv_orchestrator := Some \<lparr>oc_strategy = strat, oc_strategyConfig = sc_strategyConfig C, oc_tracker = trackerConfig,
            oc_movable = movable, oc_inventory = inventory, oc_registry = Some registry\<rparr>\<rparr>)))))))))"

text \<open>\<open>Monitor.start\<close> up to its loop: a monitor that runs reports an error, which \<open>onMonitorError\<close> throws on.\<close>

definition monitorStart :: "monitor \<Rightarrow> ('q, 'tx, 'r, unit) service_op" where
  "monitorStart m =
     (if isMonitorRunning m
      then (if errorHandler m then op_throw (Thrown ''MonitorStartError'' ''Monitor already running'') else op_ret ())
      else op_modify (\<lambda>s. s\<lparr>sv_monitor := Some (m\<lparr>isMonitorRunning := True\<rparr>), sv_loops := Suc (sv_loops s)\<rparr>))"

definition startService ::
    "RebalancerServiceConfig \<Rightarrow> ('q, 'tx, 'r) factory_env \<Rightarrow> tracker_env \<Rightarrow> ('q, 'tx, 'r, unit) service_op" where
  "startService C F E =
     (if \<not> sc_daemon C then op_throw (Thrown ''start() can only be called in daemon mode'' '''')
      else op_seq (serviceInitialize C F E)
        (op_bind (op_gets sv_monitor) (\<lambda>mon.
         case mon of
           None \<Rightarrow> op_throw (AssertionError ''Monitor must be initialized for daemon mode'')
         | Some m \<Rightarrow> op_seq (op_modify (\<lambda>s. s\<lparr>sv_monitor := Some (onHandlers m)\<rparr>)) (monitorStart (onHandlers m)))))"

definition stopService :: "('q, 'tx, 'r, unit) service_op" where
  "stopService = op_modify (\<lambda>s. s\<lparr>sv_monitor := map_option monitorStop (sv_monitor s)\<rparr>)"

definition gracefulShutdown :: "('q, 'tx, 'r, unit) service_op" where
  "gracefulShutdown =
     op_bind (op_gets isExiting) (\<lambda>exiting.
     if exiting then op_ret () else op_seq (op_modify (\<lambda>s. s\<lparr>isExiting := True\<rparr>)) stopService)"

text \<open>\<open>onTokenInfo\<close> hands an event to the orchestrator; \<open>onMonitorError\<close> counts a polling error.\<close>

definition onTokenInfo ::
    "bignumber_api \<Rightarrow> tracker_env \<Rightarrow> ('tx2, 'q2) world \<Rightarrow> MonitorEvent \<Rightarrow> ('q, 'tx, 'r, unit) service_op" where
  "onTokenInfo bn E W event =
     op_bind (op_gets sv_orchestrator) (\<lambda>orch.
     case orch of
       None \<Rightarrow> op_ret ()
     | Some R \<Rightarrow> op_bind (onState (executeCycle bn E R W event)) (\<lambda>r. op_modify (\<lambda>s. s\<lparr>sv_cycles := sv_cycles s @ [r]\<rparr>)))"

definition onMonitorError :: "('q, 'tx, 'r, unit) service_op" where
  "onMonitorError = op_modify (\<lambda>s. s\<lparr>pollingErrors := Suc (pollingErrors s)\<rparr>)"

text \<open>An iteration of the loop: every error, also one of a cycle, is reported and the loop goes on.\<close>

definition pollingCycle ::
    "RebalancerServiceConfig \<Rightarrow> bignumber_api \<Rightarrow> tracker_env \<Rightarrow> monitor_env \<Rightarrow> ('tx2, 'q2) world \<Rightarrow> monitor \<Rightarrow> ('q, 'tx, 'r, unit) service_op" where
  "pollingCycle C bn E M W m =
     op_try
       (op_bind (op_lift (pollEvent E M (mn_inventoryConfig m) (sc_tokens C))) (\<lambda>event.
        op_when (tokenInfoHandler m) (onTokenInfo bn E W event)))
       (op_when (errorHandler m) onMonitorError)"

section \<open>Manual rebalances\<close>

text \<open>\<open>Number\<close> of a string. A decimal value at or below half of the least positive double rounds to zero.\<close>

datatype js_number = NaN | Infinity bool | Finite rat

definition isDecimalDigit :: "char \<Rightarrow> bool" where
  "isDecimalDigit c \<longleftrightarrow> 48 \<le> (of_char c :: nat) \<and> (of_char c :: nat) \<le> 57"

definition radixNumber :: "nat \<Rightarrow> string \<Rightarrow> nat" where
  "radixNumber radix s = foldl (\<lambda>n c. radix * n + (of_char c - 48)) 0 s"

definition withSign :: "string \<Rightarrow> bool \<times> string" where
  "withSign s = (case s of [] \<Rightarrow> (False, []) | c # r \<Rightarrow> if c = CHR ''-'' then (True, r) else if c = CHR ''+'' then (False, r) else (False, s))"

definition scaleBy10 :: "rat \<Rightarrow> string \<Rightarrow> rat option" where
  "scaleBy10 q exponent = (case withSign exponent of (negative, ds) \<Rightarrow>
     if ds = [] \<or> \<not> list_all isDecimalDigit ds then None
     else Some (if negative then q / 10 ^ radixNumber 10 ds else q * 10 ^ radixNumber 10 ds))"

definition unsignedDecimal :: "string \<Rightarrow> rat option" where
  "unsignedDecimal s =
     (let isE = (\<lambda>c. c = CHR ''e'' \<or> c = CHR ''E'');
          mantissa = takeWhile (\<lambda>c. \<not> isE c) s; rest = dropWhile (\<lambda>c. \<not> isE c) s;
          (whole, fraction) = (case js_split (CHR ''.'') mantissa of [w] \<Rightarrow> (w, []) | [w, f] \<Rightarrow> (w, f) | _ \<Rightarrow> ([], []));
          value = of_nat (radixNumber 10 (whole @ fraction)) / 10 ^ length fraction
      in if whole @ fraction = [] \<or> \<not> list_all isDecimalDigit (whole @ fraction) then None
         else if rest = [] then Some value else scaleBy10 value (tl rest))"

definition js_Number :: "string \<Rightarrow> js_number" where
  "js_Number s =
     (let t = js_trim s; p = take 2 t; r = drop 2 t in
      if t = [] then Finite 0
      else if (p = ''0x'' \<or> p = ''0X'') then (if r \<noteq> [] \<and> isHexDigits r then Finite (of_nat (hexNumber r)) else NaN)
      else if (p = ''0o'' \<or> p = ''0O'') then (if r \<noteq> [] \<and> list_all (\<lambda>c. c \<in> set ''01234567'') r then Finite (of_nat (radixNumber 8 r)) else NaN)
      else if (p = ''0b'' \<or> p = ''0B'') then (if r \<noteq> [] \<and> list_all (\<lambda>c. c \<in> set ''01'') r then Finite (of_nat (radixNumber 2 r)) else NaN)
      else case withSign t of (negative, u) \<Rightarrow>
        if u = ''Infinity'' then Infinity negative
        else case unsignedDecimal u of None \<Rightarrow> NaN | Some q \<Rightarrow> Finite (if negative then - q else q))"

definition js_positive :: "js_number \<Rightarrow> bool" where
  "js_positive n = (case n of NaN \<Rightarrow> False | Infinity negative \<Rightarrow> \<not> negative | Finite q \<Rightarrow> q > 1 / 2 ^ 1075)"

text \<open>The checks of \<open>executeManual\<close> and the route it makes.\<close>

record ManualRebalanceRequest =
  mr_origin :: chain
  mr_destination :: chain
  mr_amount :: string

definition manualRoute ::
    "RebalancerServiceConfig \<Rightarrow> bignumber_api \<Rightarrow> ManualRebalanceRequest \<Rightarrow> StrategyRoute result" where
  "manualRoute C bn q =
     (case List.find (\<lambda>t. chainName t = mr_origin q) (sc_tokens C) of
        None \<Rightarrow> throw (Thrown ''Origin token not found for chain'' (mr_origin q))
      | Some originToken \<Rightarrow>
          rbind (rassert (js_Number (mr_amount q) \<noteq> NaN) ''Amount must be a valid number'') (\<lambda>_.
          rbind (rassert (js_positive (js_Number (mr_amount q))) ''Amount must be greater than 0'') (\<lambda>_.
          case getStrategyChainConfig (sc_strategyConfig C) (mr_origin q) of
            None \<Rightarrow> throw (AssertionError ''No bridge configured for origin chain'')
          | Some originConfig \<Rightarrow>
              if \<not> truthy (cc_bridge originConfig) then throw (AssertionError ''No bridge configured for origin chain'')
              else rbind (normalizeConfiguredAmount bn (AmountString (mr_amount q)) originToken) (\<lambda>amt.
                ret (MovableCollateralRoute (mr_origin q) (mr_destination q) amt
                  (case Option.bind (map_of (overrides originConfig) (mr_destination q)) p_bridge of
                     Some b \<Rightarrow> Some b | None \<Rightarrow> cc_bridge originConfig))))))"

definition executeManual ::
    "RebalancerServiceConfig \<Rightarrow> bignumber_api \<Rightarrow> ('q, 'tx, 'r) factory_env \<Rightarrow> tracker_env \<Rightarrow> ('tx2, 'q2) world
      \<Rightarrow> ManualRebalanceRequest \<Rightarrow> ('q, 'tx, 'r, unit) service_op" where
  "executeManual C bn F E W q =
     op_seq (serviceInitialize C F E)
       (op_bind (op_gets sv_orchestrator) (\<lambda>orch.
        case orch of
          None \<Rightarrow> op_throw (AssertionError ''Rebalancer not available'')
        | Some R \<Rightarrow>
            if oc_movable R = None \<and> oc_inventory R = None then op_throw (AssertionError ''Rebalancer not available'')
            else op_bind (op_lift (manualRoute C bn q)) (\<lambda>route.
              case oc_movable R of
                Some V \<Rightarrow> op_bind (onState (onTracker (rebalance E V [route]))) (\<lambda>_. op_ret ())
              | None \<Rightarrow> op_bind (onState (rebalanceInventory E (the (oc_inventory R)) W [route])) (\<lambda>_. op_ret ()))))"

section \<open>The process\<close>

text \<open>
  The steps of a service: calls of its methods, iterations of a loop, and the end of a loop. The Explorer, the chains and the adapters may
  answer differently in every step.
\<close>

inductive service_step ::
    "RebalancerServiceConfig \<Rightarrow> bignumber_api \<Rightarrow> ('q, 'tx, 'r) factory_env \<Rightarrow> ('tx2, 'q2) world \<Rightarrow> ('q, 'tx, 'r) service \<Rightarrow> ('q, 'tx, 'r) service \<Rightarrow> bool"
  for C bn F W where
  starts: "startService C F E s = (r, s') \<Longrightarrow> service_step C bn F W s s'"
| iterates: "sv_loops s > 0 \<Longrightarrow> sv_monitor s = Some m \<Longrightarrow> isMonitorRunning m \<Longrightarrow> pollingCycle C bn E M W m s = (r, s') \<Longrightarrow> service_step C bn F W s s'"
| ends: "sv_loops s > 0 \<Longrightarrow> sv_monitor s = Some m \<Longrightarrow> \<not> isMonitorRunning m \<Longrightarrow>
    service_step C bn F W s (s\<lparr>sv_monitor := Some (monitorEnd m), sv_loops := sv_loops s - 1\<rparr>)"
| stops: "stopService s = (r, s') \<Longrightarrow> service_step C bn F W s s'"
| shuts_down: "gracefulShutdown s = (r, s') \<Longrightarrow> service_step C bn F W s s'"
| manual: "executeManual C bn F E W q s = (r, s') \<Longrightarrow> service_step C bn F W s s'"

inductive_cases service_stepE: "service_step C bn F W s s'"

section \<open>The components of a service\<close>

definition service_ok :: "('q, 'tx, 'r) service \<Rightarrow> bool" where
  "service_ok s \<longleftrightarrow> cycle_ok (sv_state s)"

lemma ok_onState: "keeps cycle_ok m \<Longrightarrow> keeps service_ok (onState m)"
  by (force simp: keeps_def service_ok_def onState_def split: prod.split)

lemma ok_other [keeps]:
  "keeps service_ok (op_modify (\<lambda>s. s\<lparr>sv_monitor := mon s\<rparr>))" "keeps service_ok (op_modify (\<lambda>s. s\<lparr>contextFactory := b\<rparr>))"
  "keeps service_ok (op_modify (\<lambda>s. s\<lparr>sv_monitor := mon s, sv_loops := n s\<rparr>))"
  "keeps service_ok (op_modify (\<lambda>s. s\<lparr>sv_monitor := mon s, sv_orchestrator := orch\<rparr>))"
  "keeps service_ok (op_modify (\<lambda>s. s\<lparr>sv_cycles := cs s\<rparr>))" "keeps service_ok (op_modify (\<lambda>s. s\<lparr>pollingErrors := n s\<rparr>))"
  "keeps service_ok (op_modify (\<lambda>s. s\<lparr>isExiting := b\<rparr>))"
  by (intro keeps_modify; simp add: service_ok_def)+

lemma ok_initialize [keeps]: "keeps service_ok (serviceInitialize C F E)"
  unfolding serviceInitialize_def by (auto split: prod.split intro!: keeps ok_onState ok_onTracker)

lemma ok_startService: "keeps service_ok (startService C F E)"
  unfolding startService_def monitorStart_def by (auto split: option.split intro!: keeps)

lemma pollEvent_ok: "pollEvent E M ic tokens = ret event \<Longrightarrow> event_ok event"
  by (auto simp: pollEvent_def Let_def rbind_def event_ok_def fetch_distinct split: sum.splits)

lemma ok_pollingCycle:
  assumes "world_ok W"
  shows "keeps service_ok (pollingCycle C bn E M W m :: ('q, 'tx, 'r, unit) service_op)"
proof (cases "pollEvent E M (mn_inventoryConfig m) (sc_tokens C)")
  case (Inl e)
  then show ?thesis by (simp add: pollingCycle_def keeps_def op_simps)
      (simp add: keeps_def [symmetric] onMonitorError_def op_when_def keeps)
next
  case (Inr event)
  then have "pollingCycle C bn E M W m = (op_try (op_when (tokenInfoHandler m) (onTokenInfo bn E W event)) (op_when (errorHandler m) onMonitorError)
      :: ('q, 'tx, 'r, unit) service_op)"
    by (simp add: pollingCycle_def fun_eq_iff op_simps)
  then show ?thesis
    unfolding onTokenInfo_def onMonitorError_def
    using ok_executeCycle [OF assms pollEvent_ok [OF Inr]] by (auto split: option.split intro!: keeps ok_onState)
qed

lemma ok_executeManual:
  assumes "world_ok W"
  shows "keeps service_ok (executeManual C bn F E W q)"
  unfolding executeManual_def
  by (auto split: option.split intro!: keeps ok_onState ok_onTracker ok_rebalanceInventory assms)

lemma service_step_ok: "service_step C bn F W s s' \<Longrightarrow> world_ok W \<Longrightarrow> service_ok s \<Longrightarrow> service_ok s'"
proof (induction rule: service_step.induct)
  case (ends s m)
  then show ?case by (simp add: service_ok_def)
next
  case (stops s r s')
  then show ?case by (auto simp: stopService_def op_simps service_ok_def)
next
  case (shuts_down s r s')
  then show ?case by (auto simp: gracefulShutdown_def stopService_def op_simps service_ok_def split: if_splits)
qed (auto dest: keepsD [OF ok_startService] keepsD [OF ok_pollingCycle] keepsD [OF ok_executeManual])

text \<open>
  C2. In every state that a rebalancer service reaches, in whatever order it is started, polls, runs manual rebalances, stops and is shut down, whatever of
  this failed, and whatever the Explorer, the chains and the bridges answered: the stores of the tracker are well formed, the inventory
  balances name each chain once, and the inventory consumed on a chain is at most the inventory last reported for it.
\<close>

theorem service_keeps_components_wf:
  assumes "(service_step C bn F W)\<^sup>*\<^sup>* new_RebalancerService s" and "world_ok W"
  shows "tracker_wf (actionTracker (sv_state s)) \<and> distinct (dict_keys (inventoryBalances (sv_state s)))
    \<and> (\<forall>c. dict_or_zero (consumedInventory (sv_state s)) c \<le> max 0 (getAvailableInventory (sv_state s) c))"
proof -
  from assms(1) have "service_ok s"
  proof induction
    case base
    show ?case using init_ok by (simp add: service_ok_def new_RebalancerService_def)
  qed (use service_step_ok assms(2) in blast)
  then show ?thesis by (simp add: service_ok_def cycle_ok_def covered_def getAvailableInventory_def)
qed

section \<open>The control of the loop\<close>

text \<open>
  An abstract specification of the service: whether it was initialized, the monitor, and the number of loops. Every step of the
  service is one of these.
\<close>

record control =
  co_context :: bool
  co_monitor :: "monitor option"
  co_loops :: nat

definition controlOf :: "('q, 'tx, 'r) service \<Rightarrow> control" where
  "controlOf s = \<lparr>co_context = contextFactory s, co_monitor = sv_monitor s, co_loops = sv_loops s\<rparr>"

inductive control_step :: "control \<Rightarrow> control \<Rightarrow> bool" where
  same: "control_step c c"
| made: "\<not> co_context c \<Longrightarrow> control_step c (c\<lparr>co_context := True\<rparr>)"
| created: "\<not> co_context c \<Longrightarrow> control_step c (c\<lparr>co_context := True, co_monitor := map_option new_Monitor ic\<rparr>)"
| created_started: "\<not> co_context c \<Longrightarrow> control_step c
    (c\<lparr>co_context := True, co_monitor := Some ((onHandlers (new_Monitor ic))\<lparr>isMonitorRunning := True\<rparr>), co_loops := Suc (co_loops c)\<rparr>)"
| handlers: "co_context c \<Longrightarrow> co_monitor c = Some m \<Longrightarrow> isMonitorRunning m \<Longrightarrow> control_step c (c\<lparr>co_monitor := Some (onHandlers m)\<rparr>)"
| started: "co_context c \<Longrightarrow> co_monitor c = Some m \<Longrightarrow> \<not> isMonitorRunning m \<Longrightarrow>
    control_step c (c\<lparr>co_monitor := Some ((onHandlers m)\<lparr>isMonitorRunning := True\<rparr>), co_loops := Suc (co_loops c)\<rparr>)"
| stopped: "control_step c (c\<lparr>co_monitor := map_option monitorStop (co_monitor c)\<rparr>)"
| ended: "co_loops c > 0 \<Longrightarrow> co_monitor c = Some m \<Longrightarrow> \<not> isMonitorRunning m \<Longrightarrow>
    control_step c (c\<lparr>co_monitor := Some (monitorEnd m), co_loops := co_loops c - 1\<rparr>)"

lemma controlOf_simps [simp]:
  "co_context (controlOf s) = contextFactory s" "co_monitor (controlOf s) = sv_monitor s" "co_loops (controlOf s) = sv_loops s"
  by (simp_all add: controlOf_def)

lemma controlOf_update:
  "controlOf (s\<lparr>sv_monitor := x\<rparr>) = (controlOf s)\<lparr>co_monitor := x\<rparr>"
  "controlOf (s\<lparr>sv_monitor := x, sv_loops := n\<rparr>) = (controlOf s)\<lparr>co_monitor := x, co_loops := n\<rparr>"
  by (simp_all add: controlOf_def)

lemma initialize_again: "contextFactory s \<Longrightarrow> serviceInitialize C F E s = (ret (), s)"
  by (simp add: serviceInitialize_def op_simps)

text \<open>An initialization that throws leaves no monitor; one that has created the context is not tried again.\<close>

definition initialized :: "RebalancerServiceConfig \<Rightarrow> control \<Rightarrow> control \<Rightarrow> bool" where
  "initialized C c c' \<longleftrightarrow> (\<exists>ic. c' = c\<lparr>co_context := True, co_monitor := map_option new_Monitor ic\<rparr> \<and> (sc_daemon C \<longrightarrow> ic \<noteq> None))"

definition not_initialized :: "control \<Rightarrow> control \<Rightarrow> bool" where
  "not_initialized c c' \<longleftrightarrow> c' = c \<or> c' = c\<lparr>co_context := True\<rparr>"

lemma wp_onState: "(\<And>r s'. controlOf s' = controlOf s \<Longrightarrow> Q r s') \<Longrightarrow> (\<And>s'. controlOf s' = controlOf s \<Longrightarrow> X s') \<Longrightarrow> wp (onState m) Q X s"
  by (auto simp: wp_def onState_def controlOf_def split: prod.split sum.split)

lemma wp_initialize:
  assumes "\<not> contextFactory s"
  shows "wp (serviceInitialize C F E) (\<lambda>_ s'. initialized C (controlOf s) (controlOf s')) (\<lambda>s'. not_initialized (controlOf s) (controlOf s')) s"
proof -
  have i: "initialized C \<lparr>co_context = b, co_monitor = m, co_loops = n\<rparr> \<lparr>co_context = True, co_monitor = Some (new_Monitor ic), co_loops = n\<rparr>"
    "\<not> sc_daemon C \<Longrightarrow> initialized C \<lparr>co_context = b, co_monitor = m, co_loops = n\<rparr> \<lparr>co_context = True, co_monitor = None, co_loops = n\<rparr>"
    for b m n ic by (auto simp: initialized_def intro: exI [of _ "Some ic"] exI [of _ None])
  show ?thesis
    unfolding serviceInitialize_def wp_bind wp_seq wp_basic
    using assms by (auto simp: wp_simps controlOf_def not_initialized_def split: prod.split intro!: wp_lift wp_onState i)
qed

lemma initialize_control:
  "wp (serviceInitialize C F E)
     (\<lambda>_ s'. if contextFactory s then s' = s else initialized C (controlOf s) (controlOf s'))
     (\<lambda>s'. \<not> contextFactory s \<and> not_initialized (controlOf s) (controlOf s')) s"
  using wp_initialize [of s C F E] by (cases "contextFactory s") (simp_all add: wp_def initialize_again)

lemma initialized_steps: "\<not> contextFactory s \<Longrightarrow> initialized C (controlOf s) c' \<Longrightarrow> control_step (controlOf s) c'"
    "\<not> contextFactory s \<Longrightarrow> not_initialized (controlOf s) c' \<Longrightarrow> control_step (controlOf s) c'"
  by (auto simp: initialized_def not_initialized_def intro: control_step.same control_step.made control_step.created)

lemma pollingCycle_control: "wp (pollingCycle C bn E M W m) (\<lambda>_ s'. controlOf s' = controlOf s) (\<lambda>_. False) s"
  unfolding pollingCycle_def onTokenInfo_def onMonitorError_def wp_try wp_bind op_when_def
  by (auto simp: wp_simps controlOf_def split: option.split intro!: wp_lift wp_onState)

lemma executeManual_control:
  "wp (executeManual C bn F E W q) (\<lambda>_ s'. control_step (controlOf s) (controlOf s')) (\<lambda>s'. control_step (controlOf s) (controlOf s')) s"
  unfolding executeManual_def wp_seq
proof (rule wp_mono [OF initialize_control])
  fix u and t
  assume t: "if contextFactory s then t = s else initialized C (controlOf s) (controlOf t)"
  have "control_step (controlOf s) (controlOf t)" using t initialized_steps(1) control_step.same by (metis (full_types))
  then show "wp (op_bind (op_gets sv_orchestrator) (\<lambda>orch. case orch of
          None \<Rightarrow> op_throw (AssertionError ''Rebalancer not available'')
        | Some R \<Rightarrow>
            if oc_movable R = None \<and> oc_inventory R = None then op_throw (AssertionError ''Rebalancer not available'')
            else op_bind (op_lift (manualRoute C bn q)) (\<lambda>route.
              case oc_movable R of
                Some V \<Rightarrow> op_bind (onState (onTracker (rebalance E V [route]))) (\<lambda>_. op_ret ())
              | None \<Rightarrow> op_bind (onState (rebalanceInventory E (the (oc_inventory R)) W [route])) (\<lambda>_. op_ret ()))))
      (\<lambda>_ s'. control_step (controlOf s) (controlOf s')) (\<lambda>s'. control_step (controlOf s) (controlOf s')) t"
    by (auto simp: wp_simps split: option.split intro!: wp_lift wp_onState)
qed (simp add: initialized_steps)

lemma startService_control:
  "wp (startService C F E) (\<lambda>_ s'. control_step (controlOf s) (controlOf s')) (\<lambda>s'. control_step (controlOf s) (controlOf s')) s"
proof (cases "sc_daemon C")
  case True
  have e: "wp (op_seq (op_modify (\<lambda>s. s\<lparr>sv_monitor := Some (onHandlers m)\<rparr>)) (monitorStart (onHandlers m)))
      (\<lambda>_ s'. control_step (controlOf s) (controlOf s')) (\<lambda>s'. control_step (controlOf s) (controlOf s')) t"
    if t: "sv_monitor t = Some m" "if contextFactory s then t = s else initialized C (controlOf s) (controlOf t)" for t m
  proof (cases "contextFactory s")
    case True
    then show ?thesis using True t control_step.handlers [of "controlOf s" m] control_step.started [of "controlOf s" m]
      by (simp add: wp_simps monitorStart_def onHandlers_def controlOf_update)
  next
    case False
    then obtain ic where ic: "controlOf t = (controlOf s)\<lparr>co_context := True, co_monitor := Some (new_Monitor ic)\<rparr>" "m = new_Monitor ic"
      using t True by (auto simp: initialized_def controlOf_def)
    have "sv_loops t = sv_loops s" using arg_cong [OF ic(1), of co_loops] by simp
    then show ?thesis using False control_step.created_started [of "controlOf s" ic] ic
      by (simp add: wp_simps monitorStart_def onHandlers_def new_Monitor_def controlOf_update)
  qed
  have "wp (op_bind (op_gets sv_monitor) (\<lambda>mon. case mon of
           None \<Rightarrow> op_throw (AssertionError ''Monitor must be initialized for daemon mode'')
         | Some m \<Rightarrow> op_seq (op_modify (\<lambda>s. s\<lparr>sv_monitor := Some (onHandlers m)\<rparr>)) (monitorStart (onHandlers m))))
      (\<lambda>_ s'. control_step (controlOf s) (controlOf s')) (\<lambda>s'. control_step (controlOf s) (controlOf s')) t"
    if t: "if contextFactory s then t = s else initialized C (controlOf s) (controlOf t)" for t
  proof -
    have "control_step (controlOf s) (controlOf t)" using t initialized_steps(1) control_step.same by (metis (full_types))
    then show ?thesis using e [OF _ t] by (auto simp: wp_bind wp_basic split: option.split)
  qed
  then show ?thesis unfolding startService_def wp_seq
    using True by (simp add: wp_seq) (rule wp_mono [OF initialize_control], auto simp: initialized_steps)
qed (simp add: startService_def wp_simps control_step.same)

text \<open>The service refines its control.\<close>

lemma service_step_control: "service_step C bn F W s s' \<Longrightarrow> control_step (controlOf s) (controlOf s')"
proof (induction rule: service_step.induct)
  case (starts E s r s')
  then show ?case using startService_control [of C F E s] by (simp add: wp_def split: sum.splits)
next
  case (iterates s m E M r s')
  then show ?case using pollingCycle_control [of C bn E M W m s] control_step.same by (auto simp: wp_def split: sum.splits)
next
  case (ends s m)
  then show ?case using control_step.ended [of "controlOf s" m] by (simp add: controlOf_def)
next
  case (stops s r s')
  then show ?case using control_step.stopped [of "controlOf s"] by (auto simp: stopService_def op_simps controlOf_def)
next
  case (shuts_down s r s')
  then show ?case using control_step.stopped [of "controlOf s"] control_step.same
    by (auto simp: gracefulShutdown_def stopService_def op_simps controlOf_def split: if_splits)
next
  case (manual E q s r s')
  then show ?case using executeManual_control [of C bn F E W q s] by (simp add: wp_def split: sum.splits)
qed

definition running :: "control \<Rightarrow> bool" where
  "running c \<longleftrightarrow> (case co_monitor c of Some m \<Rightarrow> isMonitorRunning m | None \<Rightarrow> False)"

definition stopping :: "control \<Rightarrow> bool" where
  "stopping c \<longleftrightarrow> (case co_monitor c of Some m \<Rightarrow> stopPromise m | None \<Rightarrow> False)"

lemmas control_defs = running_def stopping_def onHandlers_def new_Monitor_def monitorStop_def monitorEnd_def

text \<open>As long as a monitor is not started again while it stops, there is one loop while it runs or stops, and none otherwise.\<close>

definition single_loop :: "control \<Rightarrow> bool" where
  "single_loop c \<longleftrightarrow> co_loops c = (if running c \<or> stopping c then 1 else 0) \<and> \<not> (running c \<and> stopping c) \<and> (\<not> co_context c \<longrightarrow> co_monitor c = None)"

lemma single_loop_step: "control_step c c' \<Longrightarrow> single_loop c \<Longrightarrow> \<not> (stopping c \<and> running c') \<Longrightarrow> single_loop c'"
  by (cases rule: control_step.cases) (auto simp: single_loop_def control_defs split: option.splits if_splits)

text \<open>A monitor that runs while an earlier stop waits, and one that was never created, stay as they are.\<close>

lemma stuck_running: "control_step c c' \<Longrightarrow> co_context c \<and> running c \<and> stopping c \<Longrightarrow> co_context c' \<and> running c' \<and> stopping c'"
  by (cases rule: control_step.cases) (auto simp: control_defs split: option.splits if_splits)

lemma stuck_uninitialized: "control_step c c' \<Longrightarrow> co_context c \<and> co_monitor c = None \<and> co_loops c = 0 \<Longrightarrow> co_context c' \<and> co_monitor c' = None \<and> co_loops c' = 0"
  by (cases rule: control_step.cases) auto

text \<open>
  C14. A service whose monitor is not started again while it stops has exactly one polling loop while the monitor runs or stops, and none otherwise.
  When it stops the loop ends at its next test, which resolves the promise of the stop: no other iteration begins.
\<close>

theorem service_single_loop:
  assumes "(\<lambda>s s'. service_step C bn F W s s' \<and> \<not> (stopping (controlOf s) \<and> running (controlOf s')))\<^sup>*\<^sup>* new_RebalancerService s"
  shows "sv_loops s = (if running (controlOf s) \<or> stopping (controlOf s) then 1 else 0)
    \<and> (stopping (controlOf s) \<longrightarrow> \<not> running (controlOf s)
        \<and> (\<exists>s'. service_step C bn F W s s' \<and> \<not> stopping (controlOf s') \<and> \<not> running (controlOf s') \<and> sv_loops s' = 0))"
proof -
  from assms have inv: "single_loop (controlOf s)"
  proof induction
    case base
    show ?case by (simp add: single_loop_def running_def stopping_def controlOf_def new_RebalancerService_def)
  next
    case (step y z)
    then show ?case using single_loop_step service_step_control by blast
  qed
  moreover have "\<exists>s'. service_step C bn F W s s' \<and> \<not> stopping (controlOf s') \<and> \<not> running (controlOf s') \<and> sv_loops s' = 0"
    if st: "stopping (controlOf s)"
  proof -
    obtain m where m: "sv_monitor s = Some m" using st by (auto simp: stopping_def split: option.splits)
    have l: "sv_loops s = 1" "\<not> isMonitorRunning m" using inv st m by (auto simp: single_loop_def running_def)
    then show ?thesis using service_step.ends [of s m C bn F W] m
      by (intro exI [of _ "s\<lparr>sv_monitor := Some (monitorEnd m), sv_loops := sv_loops s - 1\<rparr>"])
        (simp add: running_def stopping_def monitorEnd_def)
  qed
  ultimately show ?thesis by (auto simp: single_loop_def)
qed

text \<open>
  C15. A monitor that is started again while it stops cannot be stopped any more: the start succeeds and adds a loop beside the old one, the
  promise of the first stop stays, and every later stop or shutdown returns it without asking the loops to end.
\<close>

theorem restart_while_stopping_never_stops:
  assumes "contextFactory s" and "sv_monitor s = Some m" and "isMonitorRunning m" and "\<not> stopPromise m" and "sc_daemon C"
    and "stopService s = (r1, s1)" and "startService C F E s1 = (r2, s2)" and "(service_step C bn F W)\<^sup>*\<^sup>* s2 s3"
  shows "r2 = ret () \<and> sv_loops s2 = Suc (sv_loops s) \<and> running (controlOf s3) \<and> stopping (controlOf s3)"
proof -
  have s1: "s1 = s\<lparr>sv_monitor := Some (m\<lparr>isMonitorRunning := False, stopPromise := True\<rparr>)\<rparr>"
    using assms(2-4,6) by (auto simp: stopService_def op_simps monitorStop_def)
  have two: "r2 = ret ()" "sv_loops s2 = Suc (sv_loops s)" "co_context (controlOf s2) \<and> running (controlOf s2) \<and> stopping (controlOf s2)"
    using assms(1,5,7) s1 initialize_again [of s1 C F E]
    by (auto simp: startService_def monitorStart_def op_simps onHandlers_def running_def stopping_def)
  from assms(8) two(3) have "co_context (controlOf s3) \<and> running (controlOf s3) \<and> stopping (controlOf s3)"
    by induction (use stuck_running service_step_control in blast)+
  then show ?thesis using two by simp
qed

text \<open>
  A start that fails after the context was created is final: whatever is done afterwards, every later start fails because there is no
  monitor, and no loop ever runs, also when what failed would succeed now.
\<close>

theorem failed_start_is_final:
  fixes s1 :: "('q, 'tx, 'r) service"
  assumes "sc_daemon C" and "startService C F E new_RebalancerService = (throw e, s1)" and "contextFactory s1"
    and "(service_step C bn F W)\<^sup>*\<^sup>* s1 s"
  shows "startService C F' E' s = (throw (AssertionError ''Monitor must be initialized for daemon mode''), s) \<and> sv_loops s = 0"
proof -
  let ?n = "new_RebalancerService :: ('q, 'tx, 'r) service"
  have n: "\<not> contextFactory ?n" by (simp add: new_RebalancerService_def)
  obtain r t where i: "serviceInitialize C F E ?n = (r, t)" by fastforce
  have "\<exists>e'. r = throw e'"
  proof (rule ccontr)
    assume "\<not> ?thesis"
    then have r: "r = ret ()" by (cases r) auto
    then obtain ic where "sv_monitor t = Some (new_Monitor ic)"
      using wp_initialize [OF n, of C F E] i assms(1) by (auto simp: wp_def initialized_def controlOf_def)
    then show False using assms(1,2) i r by (simp add: startService_def monitorStart_def op_simps onHandlers_def new_Monitor_def)
  qed
  then have t: "t = s1" "not_initialized (controlOf ?n) (controlOf t)"
    using wp_initialize [OF n, of C F E] i assms(1,2) by (auto simp: wp_def startService_def op_simps)
  then have "co_context (controlOf s1) \<and> co_monitor (controlOf s1) = None \<and> co_loops (controlOf s1) = 0"
    using assms(3) by (auto simp: not_initialized_def controlOf_def new_RebalancerService_def)
  with assms(4) have "co_context (controlOf s) \<and> co_monitor (controlOf s) = None \<and> co_loops (controlOf s) = 0"
    by induction (use stuck_uninitialized service_step_control in blast)+
  then show ?thesis using assms(1) initialize_again [of s C F' E'] by (simp add: startService_def op_simps)
qed

section \<open>An example\<close>

text \<open>A daemon with the configuration of the example cycle; the Explorer answers with nothing.\<close>

definition ex_service_config :: RebalancerServiceConfig where
  "ex_service_config = \<lparr>sc_daemon = True, monitorOnly = False, withMetrics = False, sc_strategyConfig = rc_strategy ex_config,
     sc_tokens = [Rebalancer_Types.ex_token ''a'', Rebalancer_Types.ex_token ''b'']\<rparr>"

definition ex_factory :: "(unit, int, string list) factory_env" where
  "ex_factory = \<lparr>createContext = ret (), createMetrics = ret (), createContextStrategy = ret (CollateralDeficit ex_deficit),
     createActionTracker = ret ex_cfg, createRebalancers = ret (Some ex_cycle_movable, Some ex_deps, \<lambda>_. None, Some ex_inventory_config)\<rparr>"

definition ex_silent_env :: tracker_env where
  "ex_silent_env = ex_cycle_env\<lparr>getInflightUserTransfers := (\<lambda>_ _. ret []), getInflightRebalanceActions := (\<lambda>_ _ _ _. ret [])\<rparr>"

definition ex_started :: "(unit, int, string list) service" where
  "ex_started = snd (startService ex_service_config ex_factory ex_silent_env new_RebalancerService)"

lemma ex_start_monitor:
  "sv_monitor ex_started = Some ((onHandlers (new_Monitor (Some ex_inventory_config)))\<lparr>isMonitorRunning := True\<rparr>)"
  "contextFactory ex_started" "sv_loops ex_started = 1"
  by (simp_all add: ex_started_def startService_def ex_service_config_def ex_factory_def serviceInitialize_def op_simps new_RebalancerService_def
      onState_def onTracker_def initialize_def inflightRebalanceActions_def ex_silent_env_def orchestrator_init_def syncTransfers_def
      syncRebalanceIntents_def syncRebalanceActions_def dateNow_def getActiveRebalanceIntents_def store_getByStatus_def getInProgressActions_def
      getInProgressTransfers_def monitorStart_def onHandlers_def new_Monitor_def)

abbreviation ex_service_step :: "(unit, int, string list) service \<Rightarrow> (unit, int, string list) service \<Rightarrow> bool" where
  "ex_service_step \<equiv> service_step ex_service_config ex_bn ex_factory ex_world"

lemma ex_steps:
  "ex_service_step new_RebalancerService ex_started" "ex_service_step s (snd (stopService s))"
  "ex_service_step ex_started (snd (pollingCycle ex_service_config ex_bn ex_silent_env ex_monitor_env ex_world (the (sv_monitor ex_started)) ex_started))"
  by (rule service_step.starts, simp add: ex_started_def prod_eq_iff, rule service_step.stops, simp add: prod_eq_iff,
      rule service_step.iterates, simp_all add: ex_start_monitor prod_eq_iff)

lemma ex_world_fine: "world_ok ex_world"
  by (auto simp: world_ok_def quotes_ok_def ex_world_def gas_env_nonneg_def Let_def split: option.split)

theorem service_keeps_components_wf_witness:
  "\<exists>s. s = snd (pollingCycle ex_service_config ex_bn ex_silent_env ex_monitor_env ex_world (the (sv_monitor ex_started)) ex_started)
     \<and> ex_service_step ex_started s \<and> tracker_wf (actionTracker (sv_state s)) \<and> distinct (dict_keys (inventoryBalances (sv_state s)))"
proof -
  let ?s = "snd (pollingCycle ex_service_config ex_bn ex_silent_env ex_monitor_env ex_world (the (sv_monitor ex_started)) ex_started)"
  have "ex_service_step\<^sup>*\<^sup>* new_RebalancerService ?s" using ex_steps(1,3) by (meson r_into_rtranclp rtranclp_trans)
  from service_keeps_components_wf [OF this ex_world_fine] show ?thesis using ex_steps(3) by blast
qed

lemma ex_stopped: "stopping (controlOf (snd (stopService ex_started)))" "\<not> running (controlOf (snd (stopService ex_started)))"
  "\<not> stopping (controlOf ex_started)" "\<not> stopping (controlOf (new_RebalancerService :: (unit, int, string list) service))"
  by (simp_all add: stopService_def op_simps ex_start_monitor stopping_def running_def monitorStop_def onHandlers_def new_Monitor_def
      new_RebalancerService_def controlOf_def)

theorem service_single_loop_witness:
  "\<exists>s. s = snd (stopService ex_started) \<and> stopping (controlOf s) \<and> sv_loops s = 1
     \<and> (\<exists>s'. ex_service_step s s' \<and> \<not> stopping (controlOf s') \<and> sv_loops s' = 0)"
proof -
  let ?step = "\<lambda>s s'. ex_service_step s s' \<and> \<not> (stopping (controlOf s) \<and> running (controlOf s'))"
  have a: "?step new_RebalancerService ex_started" and b: "?step ex_started (snd (stopService ex_started))"
    using ex_steps ex_stopped by blast+
  have "?step\<^sup>*\<^sup>* new_RebalancerService (snd (stopService ex_started))" 
    by (rule rtranclp_trans [where y = ex_started]; rule r_into_rtranclp) (rule a, rule b)
  from service_single_loop [OF this] show ?thesis using ex_stopped(1) by auto
qed

theorem restart_while_stopping_never_stops_witness:
  "\<exists>s1 s2 s3. s1 = snd (stopService ex_started) \<and> s2 = snd (startService ex_service_config ex_factory ex_silent_env s1)
     \<and> s3 = snd (stopService s2) \<and> running (controlOf s3) \<and> sv_loops s2 = 2"
proof -
  define s1 where "s1 = snd (stopService ex_started)"
  define s2 where "s2 = snd (startService ex_service_config ex_factory ex_silent_env s1)"
  have a: "stopService ex_started = (fst (stopService ex_started), s1)"
    "startService ex_service_config ex_factory ex_silent_env s1 = (fst (startService ex_service_config ex_factory ex_silent_env s1), s2)"
    by (simp_all add: s1_def s2_def)
  have "ex_service_step\<^sup>*\<^sup>* s2 (snd (stopService s2))" using ex_steps(2) by blast
  from restart_while_stopping_never_stops [OF ex_start_monitor(2,1) _ _ _ a this]
  have "running (controlOf (snd (stopService s2)))" "sv_loops s2 = 2"
    by (simp_all add: onHandlers_def new_Monitor_def ex_service_config_def ex_start_monitor)
  then show ?thesis unfolding s2_def s1_def by blast
qed

theorem failed_start_is_final_witness:
  "\<exists>s1. startService ex_service_config (ex_factory\<lparr>createContextStrategy := throw RangeError\<rparr>) ex_silent_env new_RebalancerService = (throw RangeError, s1)
     \<and> startService ex_service_config ex_factory ex_silent_env s1 = (throw (AssertionError ''Monitor must be initialized for daemon mode''), s1)"
proof -
  let ?F = "ex_factory\<lparr>createContextStrategy := throw RangeError\<rparr>"
  obtain s1 where s1: "startService ex_service_config ?F ex_silent_env new_RebalancerService = (throw RangeError, s1)" "contextFactory s1"
    by (simp add: startService_def ex_service_config_def ex_factory_def serviceInitialize_def op_simps new_RebalancerService_def)
  have "(service_step ex_service_config ex_bn ?F ex_world)\<^sup>*\<^sup>* s1 s1" by simp
  from failed_start_is_final [OF _ s1 this] s1 show ?thesis by (simp add: ex_service_config_def)
qed

end
