(* ===== verification/Ism_Types.thy ===== *)
theory Ism_Types
  imports Hex_Messages JS_Async
begin

text \<open>
  Interchain security modules as the relayer sees them: the types of \<open>typescript/sdk/src/ism/types.ts\<close>, their
  configurations, the structured metadata of \<open>typescript/relayer/src/metadata/types.ts\<close>, and writing into buffers.

  A configuration is an object with a \<open>type\<close> and the fields of that type. The code chooses by the type, so
  one constructor carries the fields that the relayer reads, and a configuration given by its address alone is a string.
\<close>

section \<open>Configurations\<close>

datatype IsmType =
    CUSTOM | OP_STACK | ROUTING | INCREMENTAL_ROUTING | FALLBACK_ROUTING | AMOUNT_ROUTING | INTERCHAIN_ACCOUNT_ROUTING
  | AGGREGATION | STORAGE_AGGREGATION | MERKLE_ROOT_MULTISIG | MESSAGE_ID_MULTISIG | STORAGE_MERKLE_ROOT_MULTISIG
  | STORAGE_MESSAGE_ID_MULTISIG | TEST_ISM | PAUSABLE | TRUSTED_RELAYER | ARB_L2_TO_L1 | WEIGHTED_MERKLE_ROOT_MULTISIG
  | WEIGHTED_MESSAGE_ID_MULTISIG | CCIP | OFFCHAIN_LOOKUP | RATE_LIMITED | COMPOSITE | BLACKLIST | MAILBOX_DEFAULT
  | NET_FLOW_RATE_LIMITED | DELAYED_FLOW_ROUTER | UNKNOWN

definition DYNAMICALLY_ROUTED_ISM_TYPES :: "IsmType list" where
  "DYNAMICALLY_ROUTED_ISM_TYPES = [AMOUNT_ROUTING, INTERCHAIN_ACCOUNT_ROUTING, MAILBOX_DEFAULT]"

definition isDynamicallyRoutedIsmType :: "IsmType \<Rightarrow> bool" where
  "isDynamicallyRoutedIsmType t = List.member DYNAMICALLY_ROUTED_ISM_TYPES t"

datatype ism =
    IsmAddress string
  | Ism (ismType: IsmType) (ismAddress: string) (relayer: string) (ismValidators: "string list") (threshold: nat)
      (modules: "ism list") (domains: "(string \<times> ism) list")

section \<open>Structured metadata\<close>

text \<open>A signature of ethers: its 65 bytes as a string, or an object with its parts.\<close>

datatype SignatureLike = SigString hex | SigObject hex hex nat

record MultisigCheckpoint =
  cp_root :: hex
  cp_index :: nat
  merkle_tree_hook_address :: hex

record Checkpoint = MultisigCheckpoint +
  mailbox_domain :: nat

record MerkleProof =
  mp_branch :: "hex list"
  mp_leaf :: hex
  mp_index :: nat

datatype MultisigMetadata =
    MessageIdMultisigMetadata (signatures: "SignatureLike list") (checkpoint: MultisigCheckpoint)
  | MerkleRootMultisigMetadata (signatures: "SignatureLike list") (checkpoint: MultisigCheckpoint) (mm_proof: MerkleProof)

text \<open>\<open>RawMetadata\<close> is a submodule's metadata that is left encoded.\<close>

datatype StructuredMetadata =
    NullMetadata ism
  | MultisigM MultisigMetadata
  | AggregationMetadata "StructuredMetadata option list"
  | RoutingMetadata IsmType string StructuredMetadata
  | ArbL2ToL1Metadata
  | RawMetadata hex

section \<open>Writing into a buffer\<close>

text \<open>\<open>Buffer.write\<close> with encoding \<open>hex\<close> stops at the end of the buffer and at the first pair that is not hexadecimal.\<close>

definition writeHex :: "string \<Rightarrow> nat \<Rightarrow> nat \<Rightarrow> byte list \<Rightarrow> byte list" where
  "writeHex s off len buf =
     (let bs = take (min len (length buf - off)) (bufferFromHex s)
      in take off buf @ bs @ drop (off + length bs) buf)"

definition writeUInt32BE :: "nat \<Rightarrow> nat \<Rightarrow> byte list \<Rightarrow> byte list result" where
  "writeUInt32BE v off buf =
     (if v < 2 ^ 32 \<and> off + 4 \<le> length buf then ret (take off buf @ beBytes 4 v @ drop (off + 4) buf)
      else throw RangeError)"

lemma writeUInt32BE_length: "writeUInt32BE v off buf = ret buf' \<Longrightarrow> length buf' = length buf"
  by (auto simp: writeUInt32BE_def split: if_splits)

text \<open>What is written is read back, and nothing else changes.\<close>

lemma writeUInt32BE_read: "writeUInt32BE v off buf = ret buf' \<Longrightarrow> readUInt 4 off buf' = ret v"
  using readUInt_mid [of "take off buf" off "beBytes 4 v" 4 "drop (off + 4) buf"] beValue_beBytes [of v 4]
  by (auto simp: writeUInt32BE_def split: if_splits)

lemma subarray_before: "j \<le> length xs \<Longrightarrow> subarray i j (xs @ ys) = subarray i j xs"
  by (cases "i \<le> j") (simp_all add: subarray_def)

lemma subarray_after: "length xs \<le> i \<Longrightarrow> subarray i j (xs @ ys) = subarray (i - length xs) (j - length xs) ys"
  by (simp add: subarray_def)

lemma subarray_take: "j \<le> n \<Longrightarrow> subarray i j (take n xs) = subarray i j xs"
  by (simp add: subarray_def drop_take)

lemma subarray_drop: "n \<le> i \<Longrightarrow> subarray (i - n) (j - n) (drop n xs) = subarray i j xs"
  by (simp add: subarray_def)

lemma writeUInt32BE_other:
  assumes w: "writeUInt32BE v off buf = ret buf'" and d: "j \<le> off \<or> off + 4 \<le> i"
  shows "subarray i j buf' = subarray i j buf"
proof -
  have b: "buf' = take off buf @ beBytes 4 v @ drop (off + 4) buf" "off + 4 \<le> length buf"
    using w by (auto simp: writeUInt32BE_def split: if_splits)
  from d show ?thesis
  proof
    assume "j \<le> off"
    then show ?thesis using b by (simp add: subarray_before subarray_take)
  next
    assume i: "off + 4 \<le> i"
    then have "subarray i j ((take off buf @ beBytes 4 v) @ drop (off + 4) buf)
        = subarray (i - (off + 4)) (j - (off + 4)) (drop (off + 4) buf)"
      using b(2) by (subst subarray_after) simp_all
    then show ?thesis unfolding b(1) append_assoc using subarray_drop [OF i] by simp
  qed
qed

lemma readUInt_other:
  assumes "writeUInt32BE v off buf = ret buf'" "i + n \<le> off \<or> off + 4 \<le> i"
  shows "readUInt n i buf' = readUInt n i buf"
  using writeUInt32BE_other [OF assms] writeUInt32BE_length [OF assms(1)] by (simp add: readUInt_def)

lemma writeHex_exact:
  "length bs = len \<Longrightarrow> length xs = off \<Longrightarrow> len \<le> length ys \<Longrightarrow>
     writeHex (bufferToHex bs) off len (xs @ ys) = xs @ bs @ drop len ys"
  by (simp add: writeHex_def)

end
