(* ===== verification/Aggregation_Codec.thy ===== *)
theory Aggregation_Codec
  imports Ism_Types
begin

text \<open>
  The encoding of aggregation metadata in \<open>typescript/relayer/src/metadata/aggregation.ts\<close>: a table of one range per
  submodule, followed by the metadata the ranges point to.
\<close>

section \<open>The encoding\<close>

definition RANGE_SIZE :: nat where
  "RANGE_SIZE = 4"

definition rangeIndex :: "nat \<Rightarrow> nat" where
  "rangeIndex index = index * 2 * RANGE_SIZE"

text \<open>One step of \<open>forEach\<close>; \<open>null\<close> and the empty string are skipped.\<close>

definition encodeSubmodule :: "byte list \<Rightarrow> nat \<times> hex option \<Rightarrow> byte list result" where
  "encodeSubmodule encoded im =
     (case im of (index, meta) \<Rightarrow>
        if meta = None \<or> meta = Some [] then ret encoded
        else let start = length encoded;
                 encoded' = encoded @ fromHexString (the meta);
                 finish = length encoded';
                 rangeStart = rangeIndex index
             in rbind (writeUInt32BE start rangeStart encoded') (\<lambda>e. writeUInt32BE finish (rangeStart + RANGE_SIZE) e))"

definition aggregationEncode :: "hex option list \<Rightarrow> hex result" where
  "aggregationEncode submoduleMetadata =
     rbind (rfold encodeSubmodule (replicate (rangeIndex (length submoduleMetadata)) 0) (enumerate 0 submoduleMetadata))
       (\<lambda>encoded. ret (toHexString encoded))"

definition metadataRange :: "hex \<Rightarrow> nat \<Rightarrow> (nat \<times> nat \<times> hex) result" where
  "metadataRange metadata index =
     (let rangeStart = rangeIndex index; encoded = fromHexString metadata in
      rbind (readUInt 4 rangeStart encoded) (\<lambda>start.
      rbind (readUInt 4 (rangeStart + RANGE_SIZE) encoded) (\<lambda>finish.
        ret (start, finish, toHexString (subarray start finish encoded)))))"

definition decodeRange ::
    "hex \<Rightarrow> (hex \<Rightarrow> ism \<Rightarrow> StructuredMetadata result) \<Rightarrow> nat \<times> ism \<Rightarrow> StructuredMetadata option result" where
  "decodeRange metadata decodeSubmodule im =
     (case im of (index, ism) \<Rightarrow>
        rbind (metadataRange metadata index) (\<lambda>(start, _, encoded).
          if start = 0 then ret None
          else case ism of
              IsmAddress _ \<Rightarrow> ret (Some (RawMetadata encoded))
            | Ism _ _ _ _ _ _ _ \<Rightarrow> rbind (decodeSubmodule encoded ism) (\<lambda>m. ret (Some m))))"

definition aggregationDecode ::
    "hex \<Rightarrow> ism list \<Rightarrow> (hex \<Rightarrow> ism \<Rightarrow> StructuredMetadata result) \<Rightarrow> StructuredMetadata result" where
  "aggregationDecode metadata ms decodeSubmodule =
     rbind (rmap (decodeRange metadata decodeSubmodule) (enumerate 0 ms)) (\<lambda>submoduleMetadata.
       ret (AggregationMetadata submoduleMetadata))"

section \<open>A table of ranges\<close>

text \<open>
  What the encoding of one submodule stands for: its bytes, or nothing. A buffer with \<open>n\<close> ranges has a content in its slot \<open>i\<close>
  when the range of \<open>i\<close> is zero and there is none, or points behind the table at its bytes.
\<close>

definition included :: "hex option \<Rightarrow> byte list option" where
  "included meta = (if meta = None \<or> meta = Some [] then None else Some (fromHexString (the meta)))"

lemmas range_defs = rangeIndex_def RANGE_SIZE_def

definition slot :: "nat \<Rightarrow> byte list \<Rightarrow> nat \<Rightarrow> byte list option \<Rightarrow> bool" where
  "slot n buf i content \<longleftrightarrow>
     (case content of
        None \<Rightarrow> readUInt 4 (8 * i) buf = ret 0 \<and> readUInt 4 (8 * i + 4) buf = ret 0
      | Some bs \<Rightarrow> (\<exists>a. 8 * n \<le> a \<and> a + length bs \<le> length buf \<and> readUInt 4 (8 * i) buf = ret a
          \<and> readUInt 4 (8 * i + 4) buf = ret (a + length bs) \<and> subarray a (a + length bs) buf = bs))"

lemma readUInt_append: "i + k \<le> length buf \<Longrightarrow> readUInt k i (buf @ xs) = readUInt k i buf"
  by (simp add: readUInt_def subarray_before)

lemma slot_append:
  assumes "slot n buf i c" "i < n" "8 * n \<le> length buf"
  shows "slot n (buf @ xs) i c"
  using assms by (auto simp: slot_def readUInt_append subarray_before split: option.splits)

lemma slot_write:
  assumes s: "slot n buf i c" and i: "i < n" "k < n" "i \<noteq> k" and off: "off = 8 * k \<or> off = 8 * k + 4"
    and w: "writeUInt32BE v off buf = ret buf'"
  shows "slot n buf' i c"
proof -
  have "readUInt 4 (8 * i) buf' = readUInt 4 (8 * i) buf" "readUInt 4 (8 * i + 4) buf' = readUInt 4 (8 * i + 4) buf"
    using i off by (auto intro!: readUInt_other [OF w])
  moreover have "subarray a b buf' = subarray a b buf" if "8 * n \<le> a" for a b
    using that i(2) off by (intro writeUInt32BE_other [OF w]) auto
  ultimately show ?thesis using s writeUInt32BE_length [OF w] by (auto simp: slot_def split: option.splits)
qed

lemma encodeSubmodule_slots:
  assumes run: "encodeSubmodule buf (k, meta) = ret buf'" and k: "k < n" and len: "8 * n \<le> length buf"
    and slots: "\<forall>i < n. slot n buf i (c i)" and free: "c k = None"
  shows "8 * n \<le> length buf' \<and> (\<forall>i < n. slot n buf' i ((c(k := included meta)) i))"
proof (cases "included meta")
  case None
  then show ?thesis using run slots len free by (auto simp: encodeSubmodule_def included_def split: if_splits)
next
  case (Some bs)
  let ?e = "buf @ bs"
  obtain e where w: "writeUInt32BE (length buf) (8 * k) ?e = ret e" "writeUInt32BE (length ?e) (8 * k + 4) e = ret buf'"
    using run Some by (auto simp: encodeSubmodule_def included_def range_defs Let_def rbind_eq_Inr_iff mult.commute split: if_splits)
  have l: "length buf' = length ?e" using w writeUInt32BE_length by metis
  have "slot n buf' i (c i)" if "i < n" "i \<noteq> k" for i
    using slot_write [OF slot_write [OF slot_append [of n buf i "c i" bs] that(1) k that(2) _ w(1)] that(1) k that(2) _ w(2)] slots len that
    by simp
  moreover have "slot n buf' k (Some bs)"
  proof -
    have "readUInt 4 (8 * k) buf' = ret (length buf)"
      using readUInt_other [OF w(2), of "8 * k" 4] writeUInt32BE_read [OF w(1)] by simp
    moreover have "subarray (length buf) (length ?e) buf' = subarray (length buf) (length ?e) ?e"
      using writeUInt32BE_other [OF w(2), of "length ?e" "length buf"] writeUInt32BE_other [OF w(1), of "length ?e" "length buf"] len k by simp
    ultimately show ?thesis using writeUInt32BE_read [OF w(2)] len l
      by (auto simp: slot_def subarray_def intro!: exI [of _ "length buf"])
  qed
  ultimately show ?thesis using Some l len by auto
qed

lemma encode_slots:
  assumes "rfold encodeSubmodule buf (enumerate k ms) = ret buf'" "8 * n \<le> length buf" "k + length ms = n"
    "\<forall>i < n. slot n buf i (c i)" "\<forall>i < n. k \<le> i \<longrightarrow> c i = None"
  shows "\<forall>i < n. slot n buf' i (if i < k then c i else included (ms ! (i - k)))"
  using assms
proof (induction ms arbitrary: k buf c)
  case Nil
  then show ?case by simp
next
  case (Cons meta ms)
  obtain b where b: "encodeSubmodule buf (k, meta) = ret b" "rfold encodeSubmodule b (enumerate (Suc k) ms) = ret buf'"
    using Cons.prems(1) by (auto simp: rbind_eq_Inr_iff)
  have k: "k < n" using Cons.prems(3) by simp
  note step = encodeSubmodule_slots [OF b(1) k Cons.prems(2,4)]
  have all: "\<forall>i < n. slot n buf' i (if i < Suc k then (c(k := included meta)) i else included (ms ! (i - Suc k)))"
    by (rule Cons.IH [OF b(2)]) (use step Cons.prems k in auto)
  have "(if i < Suc k then (c(k := included meta)) i else included (ms ! (i - Suc k)))
      = (if i < k then c i else included ((meta # ms) ! (i - k)))" for i
    by (cases i k rule: linorder_cases) (simp_all add: nth_Cons')
  then show ?case using all by simp
qed

text \<open>The buffer of an encoding holds, for every submodule, exactly what is included for it.\<close>

lemma aggregationEncode_slots:
  assumes "aggregationEncode ms = ret md"
  obtains buf where "md = toHexString buf" "\<forall>i < length ms. slot (length ms) buf i (included (ms ! i))"
proof -
  let ?n = "length ms"
  obtain buf where buf: "rfold encodeSubmodule (replicate (8 * ?n) 0) (enumerate 0 ms) = ret buf" "md = toHexString buf"
    using assms by (auto simp: aggregationEncode_def range_defs rbind_eq_Inr_iff mult.commute)
  have z: "readUInt 4 i (replicate m 0) = ret 0" if "i + 4 \<le> m" for i m
    using that by (simp add: readUInt_def subarray_def numeral_eq_Suc)
  have "\<forall>i < ?n. slot ?n (replicate (8 * ?n) 0) i None" by (simp add: slot_def z)
  then have "\<forall>i < ?n. slot ?n buf i (included (ms ! i))"
    using encode_slots [OF buf(1), of ?n "\<lambda>_. None"] by simp
  then show ?thesis using that buf(2) by blast
qed

lemma slot_range:
  assumes "slot n buf i c" "i < n"
  shows "\<exists>start finish. metadataRange (toHexString buf) i = ret (start, finish, case c of None \<Rightarrow> ''0x'' | Some bs \<Rightarrow> toHexString bs)
    \<and> (start = 0 \<longleftrightarrow> c = None)"
proof -
  have e: "subarray 0 0 buf = []" "toHexString [] = ''0x''" by (simp_all add: subarray_def toHexString_eq)
  show ?thesis using assms by (cases c) (auto simp: slot_def metadataRange_def range_defs mult.commute Let_def e)
qed

section \<open>Round trip\<close>

text \<open>The decoding of one submodule, given what is included for it.\<close>

definition decodeIncluded ::
    "(hex \<Rightarrow> ism \<Rightarrow> StructuredMetadata result) \<Rightarrow> ism \<times> hex option \<Rightarrow> StructuredMetadata option result" where
  "decodeIncluded dec im =
     (case im of (ism, meta) \<Rightarrow>
        case included meta of
          None \<Rightarrow> ret None
        | Some bs \<Rightarrow> (case ism of
              IsmAddress _ \<Rightarrow> ret (Some (RawMetadata (toHexString bs)))
            | Ism _ _ _ _ _ _ _ \<Rightarrow> rbind (dec (toHexString bs) ism) (\<lambda>m. ret (Some m))))"

lemma aggregationDecode_encode:
  assumes enc: "aggregationEncode ms = ret md" and len: "length isms = length ms"
  shows "aggregationDecode md isms dec = rbind (rmap (decodeIncluded dec) (zip isms ms)) (\<lambda>xs. ret (AggregationMetadata xs))"
proof -
  obtain buf where buf: "md = toHexString buf" "\<forall>i < length ms. slot (length ms) buf i (included (ms ! i))"
    by (rule aggregationEncode_slots [OF enc])
  have "decodeRange md dec (i, isms ! i) = decodeIncluded dec (isms ! i, ms ! i)" if i: "i < length ms" for i
  proof -
    from slot_range [OF buf(2) [rule_format, OF i] i] obtain start finish where "metadataRange md i
        = ret (start, finish, case included (ms ! i) of None \<Rightarrow> ''0x'' | Some bs \<Rightarrow> toHexString bs)"
      "start = 0 \<longleftrightarrow> included (ms ! i) = None"
      unfolding buf(1) [symmetric] by (elim exE conjE) (rule that)
    then show ?thesis by (cases "included (ms ! i)") (simp_all add: decodeRange_def decodeIncluded_def)
  qed
  then have "rmap (decodeRange md dec) (enumerate 0 isms) = rmap (decodeIncluded dec) (zip isms ms)"
    by (intro rmap_cong2) (simp_all add: len nth_enumerate_eq)
  then show ?thesis by (simp add: aggregationDecode_def)
qed

text \<open>An encoding fails only for its size.\<close>

definition payload :: "hex option list \<Rightarrow> nat" where
  "payload ms = (\<Sum>m\<leftarrow>ms. case included m of None \<Rightarrow> 0 | Some bs \<Rightarrow> length bs)"

lemma encodeSubmodule_returns:
  assumes "k < n" "8 * n \<le> length buf" "included m \<noteq> None \<Longrightarrow> length buf + payload [m] < 2 ^ 32"
  shows "\<exists>b. encodeSubmodule buf (k, m) = ret b \<and> length b = length buf + payload [m]"
proof (cases "included m")
  case (Some bs)
  then show ?thesis using assms
    by (auto simp: encodeSubmodule_def included_def payload_def range_defs writeUInt32BE_def Let_def split: if_splits)
qed (auto simp: encodeSubmodule_def included_def payload_def split: if_splits)

lemma encode_returns:
  assumes "8 * n \<le> length buf" "k + length ms = n" "length buf + payload ms < 2 ^ 32 \<or> (\<forall>m \<in> set ms. included m = None)"
  shows "\<exists>b. rfold encodeSubmodule buf (enumerate k ms) = ret b"
  using assms
proof (induction ms arbitrary: k buf)
  case (Cons m ms)
  have "\<exists>b. encodeSubmodule buf (k, m) = ret b \<and> length b = length buf + payload [m]"
    by (rule encodeSubmodule_returns [of _ n]) (use Cons.prems in \<open>auto simp: payload_def\<close>)
  then obtain b where b: "encodeSubmodule buf (k, m) = ret b" "length b = length buf + payload [m]" by blast
  have "\<exists>c. rfold encodeSubmodule b (enumerate (Suc k) ms) = ret c"
    by (rule Cons.IH) (use Cons.prems b(2) in \<open>auto simp: payload_def\<close>)
  then show ?case using b(1) by simp
qed simp



end
