(* ===== verification/Multisig_Codec.thy ===== *)
theory Multisig_Codec
  imports Ism_Types
begin

text \<open>
  The encoding of multisig metadata in \<open>typescript/relayer/src/metadata/multisig.ts\<close>: a prefix of fixed size, with or without a
  Merkle proof, followed by signatures of 65 bytes. Joining and splitting a signature is ethers' and a parameter.
\<close>

section \<open>The encoding\<close>

record signature_api =
  joinSignature :: "SignatureLike \<Rightarrow> hex result"
  splitSignature :: "SignatureLike \<Rightarrow> (hex \<times> hex \<times> nat) result"

definition SIGNATURE_LENGTH :: nat where
  "SIGNATURE_LENGTH = 65"

definition encodeSimplePrefix :: "MultisigCheckpoint \<Rightarrow> hex result" where
  "encodeSimplePrefix cp =
     (let buf = replicate 68 0;
          buf = writeHex (strip0x (merkle_tree_hook_address cp)) 0 32 buf;
          buf = writeHex (strip0x (cp_root cp)) 32 32 buf
      in rbind (writeUInt32BE (cp_index cp) 64 buf) (\<lambda>buf. ret (toHexString buf)))"

definition decodeSimplePrefix :: "hex \<Rightarrow> MultisigCheckpoint result" where
  "decodeSimplePrefix metadata =
     (let buf = fromHexString metadata in
      rbind (readUInt 4 64 buf) (\<lambda>index.
        ret \<lparr>cp_root = toHexString (subarray 32 64 buf), cp_index = index,
          merkle_tree_hook_address = toHexString (subarray 0 32 buf)\<rparr>))"

definition encodeProofPrefix :: "MultisigCheckpoint \<Rightarrow> MerkleProof \<Rightarrow> hex result" where
  "encodeProofPrefix cp p =
     (let buf = replicate 1096 0;
          buf = writeHex (strip0x (merkle_tree_hook_address cp)) 0 32 buf
      in rbind (writeUInt32BE (mp_index p) 32 buf) (\<lambda>buf.
         let buf = writeHex (strip0x (mp_leaf p)) 36 32 buf;
             branchEncoded = concat (map strip0x (mp_branch p));
             buf = writeHex branchEncoded 68 (32 * 32) buf
         in rbind (writeUInt32BE (cp_index cp) 1092 buf) (\<lambda>buf. ret (toHexString buf))))"

text \<open>\<open>chunk(str, 64)\<close> of \<open>utils/src/arrays.ts\<close>.\<close>

function chunk64 :: "string \<Rightarrow> string list" where
  "chunk64 s = (if s = [] then [] else take 64 s # chunk64 (drop 64 s))"
  by pat_completeness auto
termination by (relation "measure length") auto

declare chunk64.simps [simp del]

definition decodeProofPrefix :: "hex \<Rightarrow> (MultisigCheckpoint \<times> MerkleProof) result" where
  "decodeProofPrefix metadata =
     (let buf = fromHexString metadata in
      rbind (readUInt 4 32 buf) (\<lambda>messageIndex.
      let branch = map ensure0x (chunk64 (bufferToHex (subarray 68 1092 buf))) in
      rbind (readUInt 4 1092 buf) (\<lambda>signedIndex.
        ret (\<lparr>cp_root = '''', cp_index = messageIndex, merkle_tree_hook_address = toHexString (subarray 0 32 buf)\<rparr>,
             \<lparr>mp_branch = branch, mp_leaf = toHexString (subarray 36 68 buf), mp_index = signedIndex\<rparr>))))"

definition appendSignature :: "signature_api \<Rightarrow> hex \<Rightarrow> SignatureLike \<Rightarrow> hex result" where
  "appendSignature S encoded sig =
     rbind (joinSignature S sig) (\<lambda>encodedSignature.
     rbind (rassert (length (fromHexString encodedSignature) = SIGNATURE_LENGTH) ''Invalid signature length'') (\<lambda>_.
       ret (encoded @ strip0x encodedSignature)))"

definition multisigEncode :: "signature_api \<Rightarrow> MultisigMetadata \<Rightarrow> hex result" where
  "multisigEncode S metadata =
     rbind (case metadata of
         MessageIdMultisigMetadata _ cp \<Rightarrow> encodeSimplePrefix cp
       | MerkleRootMultisigMetadata _ cp p \<Rightarrow> encodeProofPrefix cp p) (\<lambda>prefix.
       rfold (appendSignature S) prefix (signatures metadata))"

definition signatureAt :: "hex \<Rightarrow> nat \<Rightarrow> nat \<Rightarrow> hex option" where
  "signatureAt metadata offset index =
     (let buf = fromHexString metadata;
          start = offset + index * SIGNATURE_LENGTH;
          finish = start + SIGNATURE_LENGTH
      in if finish > length buf then None else Some (toHexString (subarray start finish buf)))"

text \<open>The loop reads signatures until the buffer ends; a hex string is never empty, so it is truthy.\<close>

function decodeSignatures :: "signature_api \<Rightarrow> hex \<Rightarrow> nat \<Rightarrow> nat \<Rightarrow> SignatureLike list result" where
  "decodeSignatures S metadata offset i =
     (case signatureAt metadata offset i of
        None \<Rightarrow> ret []
      | Some sig \<Rightarrow> rbind (splitSignature S (SigString sig)) (\<lambda>(r, s, v).
          rbind (decodeSignatures S metadata offset (Suc i)) (\<lambda>rest. ret (SigObject r s v # rest))))"
  by pat_completeness auto
termination
  by (relation "measure (\<lambda>(S, metadata, offset, i). length (fromHexString metadata) - (offset + i * SIGNATURE_LENGTH))")
    (auto simp: signatureAt_def SIGNATURE_LENGTH_def Let_def split: if_splits)

declare decodeSignatures.simps [simp del]

definition multisigDecode :: "signature_api \<Rightarrow> hex \<Rightarrow> IsmType \<Rightarrow> MultisigMetadata result" where
  "multisigDecode S metadata type =
     (if type = MERKLE_ROOT_MULTISIG \<or> type = STORAGE_MERKLE_ROOT_MULTISIG
      then rbind (decodeProofPrefix metadata) (\<lambda>(cp, p).
        rbind (decodeSignatures S metadata 1096 0) (\<lambda>sigs. ret (MerkleRootMultisigMetadata sigs cp p)))
      else rbind (decodeSimplePrefix metadata) (\<lambda>cp.
        rbind (decodeSignatures S metadata 68 0) (\<lambda>sigs. ret (MessageIdMultisigMetadata sigs cp))))"

section \<open>Signatures\<close>

text \<open>
  What ethers documents: joining gives the 65 bytes of a signature, and splitting these gives the parts of the
  signature, which can be split since it can be joined.
\<close>

definition signature_laws :: "signature_api \<Rightarrow> bool" where
  "signature_laws S \<longleftrightarrow> (\<forall>sig h. joinSignature S sig = ret h \<longrightarrow>
     (\<exists>bs. length bs = 65 \<and> h = toHexString bs) \<and> splitSignature S (SigString h) = splitSignature S sig
     \<and> (\<exists>parts. splitSignature S sig = ret parts))"

definition partsOf :: "signature_api \<Rightarrow> SignatureLike \<Rightarrow> SignatureLike result" where
  "partsOf S sig = rbind (splitSignature S sig) (\<lambda>(r, s, v). ret (SigObject r s v))"

lemma strip0x_toHexString [simp]: "strip0x (toHexString bs) = bufferToHex bs"
  by (simp add: toHexString_eq strip0x_def startsWith_def)

lemma toHexString_append: "toHexString (xs @ bs) = toHexString xs @ bufferToHex bs"
  by (simp add: toHexString_eq)

lemma appendSignature_eq:
  assumes "signature_laws S" "joinSignature S sig = ret (toHexString bs)"
  shows "length bs = 65 \<Longrightarrow> appendSignature S (toHexString xs) sig = ret (toHexString (xs @ bs))"
  using assms by (simp add: appendSignature_def SIGNATURE_LENGTH_def toHexString_append)

text \<open>Encoded signatures follow the prefix in order.\<close>

lemma appendSignatures_bytes:
  assumes S: "signature_laws S" and run: "rfold (appendSignature S) (toHexString xs) sigs = ret md"
  obtains bss where "md = toHexString (xs @ concat bss)" "length bss = length sigs" "\<forall>bs \<in> set bss. length bs = 65"
    "\<forall>i < length sigs. splitSignature S (SigString (toHexString (bss ! i))) = splitSignature S (sigs ! i)"
  using run
proof (induction sigs arbitrary: xs thesis)
  case Nil
  from Nil.prems(1) [of "[]"] Nil.prems(2) show ?case by simp
next
  case (Cons sig sigs)
  obtain h where h: "joinSignature S sig = ret h"
    using Cons.prems(2) by (auto simp: rbind_eq_Inr_iff appendSignature_def)
  then obtain bs where bs: "length bs = 65" "h = toHexString bs" "splitSignature S (SigString h) = splitSignature S sig"
    using S by (auto simp: signature_laws_def)
  have "rfold (appendSignature S) (toHexString (xs @ bs)) sigs = ret md"
    using Cons.prems(2) appendSignature_eq [OF S, of sig bs xs] h bs by simp
  then obtain bss where bss: "md = toHexString ((xs @ bs) @ concat bss)" "length bss = length sigs" "\<forall>b \<in> set bss. length b = 65"
    "\<forall>i < length sigs. splitSignature S (SigString (toHexString (bss ! i))) = splitSignature S (sigs ! i)"
    using Cons.IH by blast
  show ?case
    by (rule Cons.prems(1) [of "bs # bss"]) (use bss bs in \<open>auto simp: nth_Cons split: nat.split\<close>)
qed

lemma length_concat_65: "\<forall>bs \<in> set bss. length bs = 65 \<Longrightarrow> length (concat bss) = 65 * length bss"
  by (induction bss) auto

lemma decodeSignatures_bytes:
  assumes "length xs = offset" "\<forall>bs \<in> set (before @ rest). length bs = 65"
  shows "decodeSignatures S (toHexString (xs @ concat (before @ rest))) offset (length before)
    = rmap (\<lambda>bs. partsOf S (SigString (toHexString bs))) rest"
  using assms
proof (induction rest arbitrary: "before")
  case Nil
  then show ?case using length_concat_65 [of "before"]
    by (subst decodeSignatures.simps) (simp add: signatureAt_def SIGNATURE_LENGTH_def)
next
  case (Cons bs rest)
  let ?xs = "xs @ concat before"
  have l: "length ?xs = offset + length before * 65" "length bs = 65"
    using length_concat_65 [of "before"] Cons.prems by auto
  have "subarray (offset + length before * 65) (offset + length before * 65 + 65) (?xs @ bs @ concat rest) = bs"
    by (rule subarray_mid) (use l in simp_all)
  then have s: "signatureAt (toHexString (xs @ concat (before @ bs # rest))) offset (length before) = Some (toHexString bs)"
    using l by (simp add: signatureAt_def SIGNATURE_LENGTH_def Let_def)
  have "decodeSignatures S (toHexString (xs @ concat ((before @ [bs]) @ rest))) offset (length (before @ [bs]))
      = rmap (\<lambda>bs. partsOf S (SigString (toHexString bs))) rest"
    by (rule Cons.IH) (use Cons.prems in auto)
  then show ?case
    by (subst decodeSignatures.simps) (simp add: s [simplified] partsOf_def rbind_assoc case_prod_unfold)
qed

lemma decode_appended:
  assumes S: "signature_laws S" and run: "rfold (appendSignature S) (toHexString xs) sigs = ret md"
  obtains ys where "md = toHexString (xs @ ys)" "decodeSignatures S md (length xs) 0 = rmap (partsOf S) sigs"
proof -
  obtain bss where bss: "md = toHexString (xs @ concat bss)" "length bss = length sigs" "\<forall>bs \<in> set bss. length bs = 65"
    "\<forall>i < length sigs. splitSignature S (SigString (toHexString (bss ! i))) = splitSignature S (sigs ! i)"
    by (rule appendSignatures_bytes [OF S run])
  have "rmap (\<lambda>bs. partsOf S (SigString (toHexString bs))) bss = rmap (partsOf S) sigs"
    by (rule rmap_cong2) (use bss in \<open>simp_all add: partsOf_def\<close>)
  then show ?thesis using that bss(1) decodeSignatures_bytes [of xs "length xs" "[]" bss S] bss(3) by simp
qed

section \<open>Round trips\<close>

definition bytes32 :: "hex \<Rightarrow> bool" where
  "bytes32 h \<longleftrightarrow> isBytes32 h \<and> h = toHexString (fromHexString h)"

lemma bytes32E:
  assumes "bytes32 h"
  obtains bs where "h = toHexString bs" "length bs = 32"
  using assms isBytes32_length by (auto simp: bytes32_def)

lemma encodeSimplePrefix_eq:
  assumes "length mb = 32" "length rb = 32"
  shows "encodeSimplePrefix \<lparr>cp_root = toHexString rb, cp_index = i, merkle_tree_hook_address = toHexString mb\<rparr>
    = (if i < 2 ^ 32 then ret (toHexString (mb @ rb @ beBytes 4 i)) else throw RangeError)"
proof -
  have "writeHex (bufferToHex mb) 0 32 ([] @ replicate 68 0) = [] @ mb @ drop 32 (replicate 68 0)"
    by (rule writeHex_exact) (use assms in simp_all)
  moreover have "writeHex (bufferToHex rb) 32 32 (mb @ replicate 36 0) = mb @ rb @ drop 32 (replicate 36 0)"
    by (rule writeHex_exact) (use assms in simp_all)
  ultimately show ?thesis using assms by (simp add: encodeSimplePrefix_def Let_def writeUInt32BE_def)
qed

lemma decodeSimplePrefix_eq:
  assumes "length mb = 32" "length rb = 32" "i < 2 ^ 32"
  shows "decodeSimplePrefix (toHexString (mb @ rb @ beBytes 4 i @ ys))
    = ret \<lparr>cp_root = toHexString rb, cp_index = i, merkle_tree_hook_address = toHexString mb\<rparr>"
proof -
  let ?buf = "mb @ rb @ beBytes 4 i @ ys"
  have "subarray 0 32 ?buf = mb" "subarray 32 64 ?buf = rb"
    using subarray_mid [of "[]" 0 mb 32] subarray_mid [of mb 32 rb 64] assms by simp_all
  moreover have "readUInt 4 64 ?buf = ret i"
    using readUInt_mid [of "mb @ rb" 64 "beBytes 4 i" 4 ys] beValue_beBytes [of i 4] assms by simp
  ultimately show ?thesis by (simp add: decodeSimplePrefix_def)
qed

lemma message_id_decode:
  assumes S: "signature_laws S" and cp: "bytes32 (cp_root cp)" "bytes32 (merkle_tree_hook_address cp)"
    and enc: "multisigEncode S (MessageIdMultisigMetadata sigs cp) = ret md"
    and type: "type \<noteq> MERKLE_ROOT_MULTISIG" "type \<noteq> STORAGE_MERKLE_ROOT_MULTISIG"
  shows "multisigDecode S md type = rbind (rmap (partsOf S) sigs) (\<lambda>parts. ret (MessageIdMultisigMetadata parts cp))"
proof -
  obtain rb mb where b: "cp_root cp = toHexString rb" "length rb = 32" "merkle_tree_hook_address cp = toHexString mb" "length mb = 32"
    using cp by (auto elim!: bytes32E)
  have c: "cp = \<lparr>cp_root = toHexString rb, cp_index = cp_index cp, merkle_tree_hook_address = toHexString mb\<rparr>"
    using b by (metis MultisigCheckpoint.surjective old.unit.exhaust)
  let ?xs = "mb @ rb @ beBytes 4 (cp_index cp)"
  have i: "cp_index cp < 2 ^ 32" and r: "rfold (appendSignature S) (toHexString ?xs) sigs = ret md"
    using enc encodeSimplePrefix_eq [OF b(4,2), of "cp_index cp"] c
    by (auto simp: multisigEncode_def rbind_eq_Inr_iff split: if_splits)
  obtain ys where ys: "md = toHexString (?xs @ ys)" "decodeSignatures S md (length ?xs) 0 = rmap (partsOf S) sigs"
    by (rule decode_appended [OF S r])
  have "decodeSimplePrefix md = ret cp" using decodeSimplePrefix_eq [OF b(4,2) i, of ys] ys(1) c by simp
  then show ?thesis using ys(2) b type by (simp add: multisigDecode_def)
qed

lemma appendSignatures_return:
  assumes S: "signature_laws S" and j: "\<forall>sig \<in> set sigs. \<exists>h. joinSignature S sig = ret h"
  shows "\<exists>md. rfold (appendSignature S) (toHexString xs) sigs = ret md"
  using j
proof (induction sigs arbitrary: xs)
  case (Cons sig sigs)
  then obtain bs where bs: "joinSignature S sig = ret (toHexString bs)" "length bs = 65" using S by (force simp: signature_laws_def)
  then show ?case using Cons appendSignature_eq [OF S bs] by simp
qed simp

text \<open>
  Message id metadata survives a round trip. Encoding succeeds when the index fits 32 bits and every signature can be joined;
  decoding the result gives the root, the index and the Merkle tree hook of the checkpoint back, and the parts of every
  signature, in order.
\<close>

theorem multisig_message_id_roundtrip:
  assumes S: "signature_laws S" and cp: "bytes32 (cp_root cp)" "bytes32 (merkle_tree_hook_address cp)" "cp_index cp < 2 ^ 32"
    and j: "\<forall>sig \<in> set sigs. \<exists>h. joinSignature S sig = ret h"
  shows "\<exists>md. multisigEncode S (MessageIdMultisigMetadata sigs cp) = ret md
    \<and> multisigDecode S md MESSAGE_ID_MULTISIG = rbind (rmap (partsOf S) sigs) (\<lambda>parts. ret (MessageIdMultisigMetadata parts cp))"
proof -
  obtain rb mb where b: "cp_root cp = toHexString rb" "length rb = 32" "merkle_tree_hook_address cp = toHexString mb" "length mb = 32"
    using cp by (auto elim!: bytes32E)
  have "cp = \<lparr>cp_root = toHexString rb, cp_index = cp_index cp, merkle_tree_hook_address = toHexString mb\<rparr>"
    using b by (metis MultisigCheckpoint.surjective old.unit.exhaust)
  then have "encodeSimplePrefix cp = ret (toHexString (mb @ rb @ beBytes 4 (cp_index cp)))"
    using encodeSimplePrefix_eq [OF b(4,2), of "cp_index cp"] cp(3) by simp
  then obtain md where "multisigEncode S (MessageIdMultisigMetadata sigs cp) = ret md"
    using appendSignatures_return [OF S j] by (auto simp: multisigEncode_def)
  then show ?thesis using message_id_decode [OF S cp(1,2)] by blast
qed

text \<open>Whatever the strings of a checkpoint are, its prefix has 68 bytes and ends with the index.\<close>

lemma writeHex_length: "off \<le> length buf \<Longrightarrow> length (writeHex s off len buf) = length buf"
  by (simp add: writeHex_def Let_def)

lemma encodeSimplePrefix_index:
  assumes "encodeSimplePrefix cp = ret h"
  obtains xs where "length xs = 64" "cp_index cp < 2 ^ 32" "h = toHexString (xs @ beBytes 4 (cp_index cp))"
proof -
  let ?buf = "writeHex (strip0x (cp_root cp)) 32 32 (writeHex (strip0x (merkle_tree_hook_address cp)) 0 32 (replicate 68 0))"
  have "length ?buf = 68" by (simp add: writeHex_length)
  then show ?thesis using assms that [of "take 64 ?buf"]
    by (auto simp: encodeSimplePrefix_def Let_def writeUInt32BE_def rbind_eq_Inr_iff split: if_splits)
qed

lemma appendSignature_joins: "appendSignature S h sig = ret h' \<Longrightarrow> \<exists>j. joinSignature S sig = ret j"
  by (auto simp: appendSignature_def rbind_eq_Inr_iff)

lemma parts_return:
  assumes "signature_laws S" "rfold (appendSignature S) h sigs = ret md"
  shows "\<exists>parts. rmap (partsOf S) sigs = ret parts"
  using assms(2)
proof (induction sigs arbitrary: h)
  case (Cons sig sigs)
  then obtain h' where h': "appendSignature S h sig = ret h'" "rfold (appendSignature S) h' sigs = ret md"
    by (auto simp: rbind_eq_Inr_iff)
  obtain p where "splitSignature S sig = ret p"
    using appendSignature_joins [OF h'(1)] assms(1) unfolding signature_laws_def by blast
  then show ?case using Cons.IH [OF h'(2)] by (auto simp: partsOf_def case_prod_unfold)
qed simp

lemma message_id_reads:
  assumes S: "signature_laws S" and enc: "multisigEncode S (MessageIdMultisigMetadata sigs cp) = ret md"
    and type: "type \<noteq> MERKLE_ROOT_MULTISIG" "type \<noteq> STORAGE_MERKLE_ROOT_MULTISIG"
  obtains parts cp' bs where "multisigDecode S md type = ret (MessageIdMultisigMetadata parts cp')"
    "rmap (partsOf S) sigs = ret parts" "cp_index cp' = cp_index cp" "md = toHexString bs"
proof -
  obtain h where h: "encodeSimplePrefix cp = ret h" "rfold (appendSignature S) h sigs = ret md"
    using enc by (auto simp: multisigEncode_def rbind_eq_Inr_iff)
  obtain xs where xs: "length xs = 64" "cp_index cp < 2 ^ 32" "h = toHexString (xs @ beBytes 4 (cp_index cp))"
    by (rule encodeSimplePrefix_index [OF h(1)])
  obtain ys where ys: "md = toHexString ((xs @ beBytes 4 (cp_index cp)) @ ys)"
      "decodeSignatures S md (length (xs @ beBytes 4 (cp_index cp))) 0 = rmap (partsOf S) sigs"
    using decode_appended [OF S, of "xs @ beBytes 4 (cp_index cp)" sigs md] h(2) xs(3) by blast
  obtain parts where p: "rmap (partsOf S) sigs = ret parts" using parts_return [OF S h(2)] by blast
  have "readUInt 4 64 (xs @ beBytes 4 (cp_index cp) @ ys) = ret (cp_index cp)"
    using readUInt_mid [of xs 64 "beBytes 4 (cp_index cp)" 4 ys] beValue_beBytes [of "cp_index cp" 4] xs by simp
  then have "\<exists>cp'. decodeSimplePrefix md = ret cp' \<and> cp_index cp' = cp_index cp" using ys(1) by (simp add: decodeSimplePrefix_def Let_def)
  then obtain cp' where cp': "decodeSimplePrefix md = ret cp'" "cp_index cp' = cp_index cp" by blast
  then have "multisigDecode S md type = ret (MessageIdMultisigMetadata parts cp')" using ys(2) p xs(1) type by (simp add: multisigDecode_def)
  then show ?thesis using that p cp'(2) ys(1) by blast
qed

section \<open>Merkle proofs\<close>

lemma strip0x_concat: "concat (map strip0x (map toHexString bbs)) = bufferToHex (concat bbs)"
  by (induction bbs) simp_all

lemma encodeProofPrefix_eq:
  assumes l: "length mb = 32" "length lb = 32" "length (concat bbs) = 1024" and i: "i < 2 ^ 32" "j < 2 ^ 32"
  shows "encodeProofPrefix \<lparr>cp_root = r, cp_index = i, merkle_tree_hook_address = toHexString mb\<rparr>
      \<lparr>mp_branch = map toHexString bbs, mp_leaf = toHexString lb, mp_index = j\<rparr>
    = ret (toHexString (mb @ beBytes 4 j @ lb @ concat bbs @ beBytes 4 i))"
proof -
  have 1: "writeHex (bufferToHex mb) 0 32 (replicate 1096 0) = mb @ replicate 1064 0"
    using writeHex_exact [of mb 32 "[]" 0 "replicate 1096 0"] l by simp
  have 2: "writeUInt32BE j 32 (mb @ replicate 1064 0) = ret (mb @ beBytes 4 j @ replicate 1060 0)"
    using l i by (simp add: writeUInt32BE_def)
  have 3: "writeHex (bufferToHex lb) 36 32 (mb @ beBytes 4 j @ replicate 1060 0) = mb @ beBytes 4 j @ lb @ replicate 1028 0"
    using writeHex_exact [of lb 32 "mb @ beBytes 4 j" 36 "replicate 1060 0"] l by simp
  have 4: "writeHex (bufferToHex (concat bbs)) 68 1024 (mb @ beBytes 4 j @ lb @ replicate 1028 0)
      = mb @ beBytes 4 j @ lb @ concat bbs @ replicate 4 0"
    using writeHex_exact [of "concat bbs" 1024 "mb @ beBytes 4 j @ lb" 68 "replicate 1028 0"] l by simp
  have 5: "writeUInt32BE i 1092 (mb @ beBytes 4 j @ lb @ concat bbs @ replicate 4 0) = ret (mb @ beBytes 4 j @ lb @ concat bbs @ beBytes 4 i)"
    using l i by (simp add: writeUInt32BE_def)
  show ?thesis using 1 2 3 4 5 strip0x_concat [of bbs] by (simp add: encodeProofPrefix_def Let_def)
qed

lemma chunk64_concat: "\<forall>bs \<in> set bbs. length bs = 32 \<Longrightarrow> chunk64 (bufferToHex (concat bbs)) = map bufferToHex bbs"
proof (induction bbs)
  case (Cons bs bbs)
  then have l: "length (bufferToHex bs) = 64" by simp
  then have "bufferToHex bs \<noteq> []" by (metis list.size(3) zero_neq_numeral)
  then show ?case using Cons l by (subst chunk64.simps) simp
qed (simp add: chunk64.simps)

lemma decodeProofPrefix_eq:
  assumes l: "length mb = 32" "length lb = 32" "\<forall>bs \<in> set bbs. length bs = 32" "length (concat bbs) = 1024" and i: "i < 2 ^ 32" "j < 2 ^ 32"
  shows "decodeProofPrefix (toHexString (mb @ beBytes 4 j @ lb @ concat bbs @ beBytes 4 i @ ys))
    = ret (\<lparr>cp_root = '''', cp_index = j, merkle_tree_hook_address = toHexString mb\<rparr>,
        \<lparr>mp_branch = map toHexString bbs, mp_leaf = toHexString lb, mp_index = i\<rparr>)"
proof -
  let ?buf = "mb @ beBytes 4 j @ lb @ concat bbs @ beBytes 4 i @ ys"
  have "subarray 0 32 ?buf = mb" "subarray 36 68 ?buf = lb" "subarray 68 1092 ?buf = concat bbs"
    using subarray_mid [of "[]" 0 mb 32] subarray_mid [of "mb @ beBytes 4 j" 36 lb 68]
      subarray_mid [of "mb @ beBytes 4 j @ lb" 68 "concat bbs" 1092] l by simp_all
  moreover have "readUInt 4 32 ?buf = ret j" "readUInt 4 1092 ?buf = ret i"
    using readUInt_mid [of mb 32 "beBytes 4 j" 4] readUInt_mid [of "mb @ beBytes 4 j @ lb @ concat bbs" 1092 "beBytes 4 i" 4 ys]
      beValue_beBytes [of i 4] beValue_beBytes [of j 4] l i by simp_all
  moreover have "map ensure0x (chunk64 (bufferToHex (concat bbs))) = map toHexString bbs"
    by (simp add: chunk64_concat [OF l(3)] toHexString_def)
  ultimately show ?thesis by (simp add: decodeProofPrefix_def)
qed

text \<open>
  C20. Merkle root metadata does not survive a round trip: the encoder puts the index of the proof before and the index of the
  checkpoint behind the branch, and the decoder reads them into each other's place. So decoding what was encoded
  gives the hook, the leaf, the branch and the signatures back, but exchanges the two indices; the root is
  not part of the encoding.
\<close>

theorem multisig_merkle_root_swaps_indices:
  assumes S: "signature_laws S" and cp: "bytes32 (merkle_tree_hook_address cp)" "cp_index cp < 2 ^ 32"
    and p: "\<forall>b \<in> set (mp_branch p). bytes32 b" "length (mp_branch p) = 32" "bytes32 (mp_leaf p)" "mp_index p < 2 ^ 32"
    and j: "\<forall>sig \<in> set sigs. \<exists>h. joinSignature S sig = ret h"
  shows "\<exists>md. multisigEncode S (MerkleRootMultisigMetadata sigs cp p) = ret md
    \<and> multisigDecode S md MERKLE_ROOT_MULTISIG = rbind (rmap (partsOf S) sigs) (\<lambda>parts.
        ret (MerkleRootMultisigMetadata parts (cp\<lparr>cp_root := '''', cp_index := mp_index p\<rparr>) (p\<lparr>mp_index := cp_index cp\<rparr>)))"
proof -
  obtain mb lb where b: "merkle_tree_hook_address cp = toHexString mb" "length mb = 32" "mp_leaf p = toHexString lb" "length lb = 32"
    using cp p by (auto elim!: bytes32E)
  define bbs where "bbs = map fromHexString (mp_branch p)"
  have br: "mp_branch p = map toHexString bbs" using p(1) by (auto simp: bbs_def bytes32_def intro!: map_idI [symmetric])
  have l32: "\<forall>bs \<in> set bbs. length bs = 32" using p(1) isBytes32_length by (auto simp: bbs_def bytes32_def)
  have "length (concat bbs) = 32 * length bbs" using l32 by (induction bbs) auto
  then have l: "length (concat bbs) = 1024" using p(2) by (simp add: bbs_def)
  let ?xs = "mb @ beBytes 4 (mp_index p) @ lb @ concat bbs @ beBytes 4 (cp_index cp)"
  have c: "cp = \<lparr>cp_root = cp_root cp, cp_index = cp_index cp, merkle_tree_hook_address = toHexString mb\<rparr>"
    "p = \<lparr>mp_branch = map toHexString bbs, mp_leaf = toHexString lb, mp_index = mp_index p\<rparr>" using b br by simp_all
  have e: "encodeProofPrefix cp p = ret (toHexString ?xs)"
    using encodeProofPrefix_eq [OF b(2,4) l cp(2) p(4), of "cp_root cp"] c by simp
  obtain md where md: "rfold (appendSignature S) (toHexString ?xs) sigs = ret md"
    using appendSignatures_return [OF S j] by blast
  obtain ys where ys: "md = toHexString (?xs @ ys)" "decodeSignatures S md (length ?xs) 0 = rmap (partsOf S) sigs"
    by (rule decode_appended [OF S md])
  have "decodeProofPrefix md = ret (cp\<lparr>cp_root := '''', cp_index := mp_index p\<rparr>, p\<lparr>mp_index := cp_index cp\<rparr>)"
  proof -
    have "cp\<lparr>cp_root := [], cp_index := mp_index p\<rparr> = \<lparr>cp_root = [], cp_index = mp_index p, merkle_tree_hook_address = toHexString mb\<rparr>"
      "p\<lparr>mp_index := cp_index cp\<rparr> = \<lparr>mp_branch = map toHexString bbs, mp_leaf = toHexString lb, mp_index = cp_index cp\<rparr>"
      using b br by (auto intro: MultisigCheckpoint.equality MerkleProof.equality)
    then show ?thesis using decodeProofPrefix_eq [OF b(2,4) l32 l cp(2) p(4), of ys] ys(1) by simp
  qed
  then show ?thesis using md e ys(2) b(2,4) l by (simp add: multisigEncode_def multisigDecode_def)
qed

section \<open>An example\<close>

definition ex_word :: "hex \<Rightarrow> byte list" where
  "ex_word h = take 32 (fromHexString h @ replicate 32 0)"

lemma ex_word_length [simp]: "length (ex_word h) = 32"
  by (simp add: ex_word_def)

definition ex_signatures :: signature_api where
  "ex_signatures = \<lparr>joinSignature = (\<lambda>sig. case sig of SigString h \<Rightarrow> if length (fromHexString h) = 65 then ret (toHexString (fromHexString h)) else throw TypeError
       | SigObject r s v \<Rightarrow> ret (toHexString (ex_word r @ ex_word s @ [word_of_nat v]))),
     splitSignature = (\<lambda>sig. case sig of
         SigString h \<Rightarrow> (let bs = fromHexString h in ret (toHexString (take 32 bs), toHexString (take 32 (drop 32 bs)), unat (bs ! 64)))
       | SigObject r s v \<Rightarrow> ret (toHexString (ex_word r), toHexString (ex_word s), unat (word_of_nat v :: byte)))\<rparr>"

lemma ex_signature_laws: "signature_laws ex_signatures"
  unfolding signature_laws_def
proof (intro allI impI)
  fix sig h assume j: "joinSignature ex_signatures sig = ret h"
  show "(\<exists>bs. length bs = 65 \<and> h = toHexString bs) \<and> splitSignature ex_signatures (SigString h) = splitSignature ex_signatures sig
    \<and> (\<exists>parts. splitSignature ex_signatures sig = ret parts)"
  proof (cases sig)
    case (SigString k)
    then have "length (fromHexString k) = 65" "h = toHexString (fromHexString k)"
      using j by (auto simp: ex_signatures_def split: if_splits)
    then show ?thesis using SigString by (auto simp: ex_signatures_def Let_def)
  next
    case (SigObject r s v)
    then show ?thesis using j
      by (auto simp: ex_signatures_def Let_def nth_append intro!: exI [of _ "ex_word r @ ex_word s @ [word_of_nat v]"])
  qed
qed

definition ex_hash :: "nat \<Rightarrow> hex" where
  "ex_hash n = toHexString (replicate 32 (word_of_nat n))"

lemma ex_bytes32: "bytes32 (ex_hash n)"
  by (simp add: bytes32_def ex_hash_def isBytes32_toHexString)

definition ex_signature :: SignatureLike where
  "ex_signature = SigObject (ex_hash 1) (ex_hash 2) 27"

lemma ex_parts: "partsOf ex_signatures ex_signature = ret ex_signature" "\<exists>h. joinSignature ex_signatures ex_signature = ret h"
  by (simp_all add: partsOf_def ex_signatures_def ex_signature_def ex_hash_def ex_word_def)

theorem multisig_message_id_roundtrip_witness:
  "\<exists>md. multisigEncode ex_signatures (MessageIdMultisigMetadata [ex_signature]
       \<lparr>cp_root = ex_hash 3, cp_index = 7, merkle_tree_hook_address = ex_hash 4\<rparr>) = ret md
     \<and> multisigDecode ex_signatures md MESSAGE_ID_MULTISIG = ret (MessageIdMultisigMetadata [ex_signature]
       \<lparr>cp_root = ex_hash 3, cp_index = 7, merkle_tree_hook_address = ex_hash 4\<rparr>)"
  using multisig_message_id_roundtrip [OF ex_signature_laws, of "\<lparr>cp_root = ex_hash 3, cp_index = 7, merkle_tree_hook_address = ex_hash 4\<rparr>" "[ex_signature]"]
    ex_parts ex_bytes32 by simp

theorem multisig_merkle_root_swaps_indices_witness:
  "\<exists>md. multisigEncode ex_signatures (MerkleRootMultisigMetadata [ex_signature]
       \<lparr>cp_root = '''', cp_index = 9, merkle_tree_hook_address = ex_hash 4\<rparr>
       \<lparr>mp_branch = replicate 32 (ex_hash 5), mp_leaf = ex_hash 6, mp_index = 7\<rparr>) = ret md
     \<and> multisigDecode ex_signatures md MERKLE_ROOT_MULTISIG = ret (MerkleRootMultisigMetadata [ex_signature]
       \<lparr>cp_root = '''', cp_index = 7, merkle_tree_hook_address = ex_hash 4\<rparr>
       \<lparr>mp_branch = replicate 32 (ex_hash 5), mp_leaf = ex_hash 6, mp_index = 9\<rparr>)"
  using multisig_merkle_root_swaps_indices [OF ex_signature_laws, of "\<lparr>cp_root = '''', cp_index = 9, merkle_tree_hook_address = ex_hash 4\<rparr>"
      "\<lparr>mp_branch = replicate 32 (ex_hash 5), mp_leaf = ex_hash 6, mp_index = 7\<rparr>" "[ex_signature]"]
    ex_parts ex_bytes32 by simp

end
