(* ===== verification/Arb_Metadata.thy ===== *)
theory Arb_Metadata
  imports Ism_Types Probe_Errors
begin

text \<open>
  \<open>typescript/relayer/src/metadata/arbL2ToL1.ts\<close>: metadata for a message that crosses the native bridge of Arbitrum. The bridge
  and the contracts answer by the record \<open>arb_env\<close>; an event of \<open>ArbSys\<close> is its call data and an opaque rest. The builder
  recovers the status of the bridge from the text of the error it catches, so an error here is its text.
\<close>

section \<open>Text\<close>

fun decimalDigits :: "nat \<Rightarrow> string" where
  "decimalDigits n = (if n < 10 then [char_of (48 + n)] else decimalDigits (n div 10) @ [char_of (48 + n mod 10)])"

declare decimalDigits.simps [simp del]

definition isDigit :: "char \<Rightarrow> bool" where
  "isDigit ch \<longleftrightarrow> 48 \<le> (of_char ch :: nat) \<and> (of_char ch :: nat) \<le> 57"

definition parseDecimal :: "string \<Rightarrow> nat" where
  "parseDecimal s = foldl (\<lambda>n ch. 10 * n + (of_char ch - 48)) 0 s"

text \<open>The first match of the expression \<open>Wait (\d+) blocks\<close>, as a number.\<close>

fun matchWaitBlocks :: "string \<Rightarrow> nat option" where
  "matchWaitBlocks [] = None"
| "matchWaitBlocks (ch # s) =
     (let r = drop 4 s; ds = takeWhile isDigit r in
      if startsWith (ch # s) ''Wait '' \<and> ds \<noteq> [] \<and> startsWith (dropWhile isDigit r) '' blocks'' then Some (parseDecimal ds)
      else matchWaitBlocks s)"

section \<open>The bridge\<close>

datatype ChildToParentMessageStatus = BridgeUnconfirmed | BridgeConfirmed | BridgeExecuted

datatype bridgeStatus = confirmed | unconfirmed | executed | verified

record 'ev arb_event =
  ev_data :: hex
  ev_rest :: 'ev

record ('log, 'ev) arb_env =
  isVerified :: "string \<Rightarrow> hex \<Rightarrow> string + bool"
  l2ToL1TxEvents :: "'log list \<Rightarrow> 'ev arb_event list"
  chainIdOf :: "nat \<Rightarrow> string + (int + string)"
  messageStatus :: "'ev arb_event \<Rightarrow> string + ChildToParentMessageStatus"
  getFirstExecutableBlock :: "'ev arb_event \<Rightarrow> string + int option"
  arbBlockNumber :: "string + int"
  getOutboxProof :: "'ev arb_event \<Rightarrow> string + hex list option"
  abiEncodeExecute :: "hex list \<Rightarrow> 'ev arb_event \<Rightarrow> string + hex"
  abiDecodeExecute :: "hex \<Rightarrow> string + unit"

definition getWaitingBlocksUntilReady :: "('log, 'ev) arb_env \<Rightarrow> 'ev arb_event \<Rightarrow> string + int" where
  "getWaitingBlocksUntilReady A ev =
     (case getFirstExecutableBlock A ev of
        Inl e \<Rightarrow> Inl e
      | Inr None \<Rightarrow> Inl ''No first executable block found''
      | Inr (Some firstBlock) \<Rightarrow> (case arbBlockNumber A of
            Inl e \<Rightarrow> Inl e
          | Inr currentBlock \<Rightarrow>
              if currentBlock > firstBlock then Inl ''First executable block is in the past''
              else Inr (firstBlock - currentBlock)))"

definition getArbitrumOutboxProof :: "('log, 'ev) arb_env \<Rightarrow> 'ev arb_event \<Rightarrow> string + hex list" where
  "getArbitrumOutboxProof A ev =
     (case getOutboxProof A ev of Inl e \<Rightarrow> Inl e | Inr None \<Rightarrow> Inr [] | Inr (Some proof) \<Rightarrow> Inr proof)"

definition waitMessage :: "int \<Rightarrow> string" where
  "waitMessage waitingPeriod = ''Arbitrum L2ToL1 message isn't ready for relay. Wait '' @ decimalDigits (nat waitingPeriod)
     @ '' blocks until the challenge period before relaying again.''"

definition buildArbitrumBridgeCalldata ::
    "('log, 'ev) arb_env \<Rightarrow> 'log list \<Rightarrow> hex \<Rightarrow> nat \<Rightarrow> string + ('ev arb_event \<times> hex list)" where
  "buildArbitrumBridgeCalldata A logs messageId origin =
     (case find (\<lambda>ev. ev_data ev \<noteq> [] \<and> js_includes (ev_data ev) (drop 2 messageId)) (l2ToL1TxEvents A logs) of
        None \<Rightarrow> Inl ''No matching L2ToL1Tx event found''
      | Some ev \<Rightarrow> (case chainIdOf A origin of
          Inl e \<Rightarrow> Inl e
        | Inr (Inr chainId) \<Rightarrow> Inl (''Invalid chainId for '' @ chainId)
        | Inr (Inl _) \<Rightarrow> (case messageStatus A ev of
            Inl e \<Rightarrow> Inl e
          | Inr BridgeUnconfirmed \<Rightarrow> (case getWaitingBlocksUntilReady A ev of
              Inl e \<Rightarrow> Inl e | Inr waitingPeriod \<Rightarrow> Inl (waitMessage waitingPeriod))
          | Inr BridgeExecuted \<Rightarrow> Inl ''Arbitrum L2ToL1 message has already been executed''
          | Inr BridgeConfirmed \<Rightarrow> (case getArbitrumOutboxProof A ev of Inl e \<Rightarrow> Inl e | Inr outboxProof \<Rightarrow> Inr (ev, outboxProof)))))"

text \<open>The fields of the result beside its type and address: status, metadata, blocks remaining.\<close>

definition arbBuild ::
    "('log, 'ev) arb_env \<Rightarrow> 'log list \<Rightarrow> hex \<Rightarrow> hex \<Rightarrow> nat \<Rightarrow> string \<Rightarrow> string + (bridgeStatus \<times> hex option \<times> nat option)" where
  "arbBuild A logs messageId message origin ismAddr =
     (case isVerified A ismAddr message of
        Inl e \<Rightarrow> Inl e
      | Inr True \<Rightarrow> Inr (verified, Some ''0x'', None)
      | Inr False \<Rightarrow>
          (case (case buildArbitrumBridgeCalldata A logs messageId origin of
                Inl e \<Rightarrow> Inl e | Inr (ev, outboxProof) \<Rightarrow> abiEncodeExecute A outboxProof ev) of
             Inr metadata \<Rightarrow> Inr (confirmed, Some metadata, None)
           | Inl errorMessage \<Rightarrow>
               if js_includes errorMessage ''Wait'' \<and> js_includes errorMessage ''blocks''
               then Inr (unconfirmed, None, matchWaitBlocks errorMessage)
               else if js_includes errorMessage ''already been executed'' then Inr (executed, None, None)
               else Inl errorMessage))"

text \<open>
  Decoding reads the transaction's arguments and then collects them under the keys of an empty object, so
  the decoded value has no fields.
\<close>

definition arbDecode :: "('log, 'ev) arb_env \<Rightarrow> hex \<Rightarrow> string + StructuredMetadata" where
  "arbDecode A metadata = (case abiDecodeExecute A metadata of Inl e \<Rightarrow> Inl e | Inr _ \<Rightarrow> Inr ArbL2ToL1Metadata)"

section \<open>The status of the bridge\<close>

lemma digits_of: "n < 10 \<Longrightarrow> (of_char (char_of (48 + n) :: char) :: nat) = 48 + n"
  by (simp add: of_char_of)

lemma isDigit_char: "n < (10 :: nat) \<Longrightarrow> isDigit (char_of (48 + n))"
  by (simp add: isDigit_def digits_of)

lemma decimal_roundtrip: "parseDecimal (decimalDigits n) = n \<and> list_all isDigit (decimalDigits n) \<and> decimalDigits n \<noteq> []"
proof (induction n rule: decimalDigits.induct)
  case (1 n)
  show ?case
  proof (cases "n < 10")
    case True
    then show ?thesis by (subst (1 2 3) decimalDigits.simps) (simp add: parseDecimal_def isDigit_char digits_of)
  next
    case False
    have "n mod 10 < 10" by simp
    then show ?thesis using 1 [OF False] False
      by (subst (1 2 3) decimalDigits.simps) (simp add: parseDecimal_def isDigit_char digits_of)
  qed
qed

lemma takeWhile_digits:
  assumes "list_all isDigit ds" "\<not> isDigit c"
  shows "takeWhile isDigit (ds @ c # s) = ds" "dropWhile isDigit (ds @ c # s) = c # s"
  using assms by (induction ds) simp_all

lemma matchWait_skip: "ch \<noteq> CHR ''W'' \<Longrightarrow> matchWaitBlocks (ch # s) = matchWaitBlocks s"
  by (simp add: startsWith_def)

lemma matchWait_here:
  "matchWaitBlocks (''Wait '' @ decimalDigits n @ '' blocks'' @ s) = Some n"
proof -
  have sp: "\<not> isDigit (CHR '' '')" by (simp add: isDigit_def)
  note d = decimal_roundtrip [of n]
  note tw = takeWhile_digits [OF conjunct1 [OF conjunct2 [OF d]] sp, of "''blocks'' @ s"]
  show ?thesis using d tw by (simp add: startsWith_def)
qed

lemma waitMessage_blocks: "matchWaitBlocks (waitMessage n) = Some (nat n)"
  using matchWait_here [of "nat n" "'' until the challenge period before relaying again.''"]
  by (simp add: waitMessage_def matchWait_skip del: matchWaitBlocks.simps)

lemma js_includes_mid: "js_includes (xs @ p @ ys) p"
  unfolding js_includes_def list_ex_iff
  by (rule bexI [of _ "length xs"]) (simp_all add: startsWith_def)

lemma waitMessage_includes: "js_includes (waitMessage n) ''Wait''" "js_includes (waitMessage n) ''blocks''"
  using js_includes_mid [of "''Arbitrum L2ToL1 message isn't ready for relay. ''" "''Wait''"
      "'' '' @ decimalDigits (nat n) @ '' blocks until the challenge period before relaying again.''"]
    js_includes_mid [of "''Arbitrum L2ToL1 message isn't ready for relay. Wait '' @ decimalDigits (nat n) @ '' ''" "''blocks''"
      "'' until the challenge period before relaying again.''"]
  by (simp_all add: waitMessage_def)

lemma executed_message:
  "\<not> js_includes ''Arbitrum L2ToL1 message has already been executed'' ''Wait''"
  "js_includes ''Arbitrum L2ToL1 message has already been executed'' ''already been executed''"
  by code_simp+

text \<open>
  For a message with a matching event that is not verified yet, the build result reports the status of the bridge: the
  encoded call with its proof when the bridge has confirmed the message, the number of blocks to wait, recovered from the text of the error,
  when it has not, and no metadata when the message is executed already.
\<close>

theorem arbBuild_reports_status:
  assumes v: "isVerified A ismAddr message = Inr False"
    and ev: "find (\<lambda>ev. ev_data ev \<noteq> [] \<and> js_includes (ev_data ev) (drop 2 messageId)) (l2ToL1TxEvents A logs) = Some ev"
    and c: "chainIdOf A origin = Inr (Inl chainId)" and st: "messageStatus A ev = Inr status"
    and f: "getFirstExecutableBlock A ev = Inr (Some firstBlock)" "arbBlockNumber A = Inr currentBlock" "currentBlock \<le> firstBlock"
    and p: "getOutboxProof A ev = Inr (Some outboxProof)" "abiEncodeExecute A outboxProof ev = Inr metadata"
  shows "arbBuild A logs messageId message origin ismAddr = Inr (case status of
      BridgeConfirmed \<Rightarrow> (confirmed, Some metadata, None)
    | BridgeUnconfirmed \<Rightarrow> (unconfirmed, None, Some (nat (firstBlock - currentBlock)))
    | BridgeExecuted \<Rightarrow> (executed, None, None))"
  using assms waitMessage_blocks [of "firstBlock - currentBlock"] waitMessage_includes [of "firstBlock - currentBlock"]
  by (cases status) (simp_all add: arbBuild_def buildArbitrumBridgeCalldata_def getWaitingBlocksUntilReady_def
      getArbitrumOutboxProof_def executed_message)

definition ex_arb :: "ChildToParentMessageStatus \<Rightarrow> (unit, unit) arb_env" where
  "ex_arb status = \<lparr>isVerified = (\<lambda>_ _. Inr False), l2ToL1TxEvents = (\<lambda>_. [\<lparr>ev_data = ''0xab12'', ev_rest = ()\<rparr>]),
     chainIdOf = (\<lambda>_. Inr (Inl 42161)), messageStatus = (\<lambda>_. Inr status), getFirstExecutableBlock = (\<lambda>_. Inr (Some 1300)),
     arbBlockNumber = Inr 1000, getOutboxProof = (\<lambda>_. Inr (Some [])), abiEncodeExecute = (\<lambda>_ _. Inr ''0x01''), abiDecodeExecute = (\<lambda>_. Inr ())\<rparr>"

theorem arbBuild_reports_status_witness:
  "arbBuild (ex_arb BridgeUnconfirmed) [] ''0xb12'' ''0x'' 1 ''0xi'' = Inr (unconfirmed, None, Some 300)
   \<and> arbBuild (ex_arb BridgeConfirmed) [] ''0xb12'' ''0x'' 1 ''0xi'' = Inr (confirmed, Some ''0x01'', None)"
proof -
  have "js_includes ''0xab12'' ''b12''" by code_simp
  then have h: "find (\<lambda>ev. ev_data ev \<noteq> [] \<and> js_includes (ev_data ev) (drop 2 ''0xb12'')) (l2ToL1TxEvents (ex_arb st) [])
      = Some \<lparr>ev_data = ''0xab12'', ev_rest = ()\<rparr>" for st by (simp add: ex_arb_def)
  have "arbBuild (ex_arb st) [] ''0xb12'' ''0x'' 1 ''0xi'' = Inr (case st of
      BridgeConfirmed \<Rightarrow> (confirmed, Some ''0x01'', None) | BridgeUnconfirmed \<Rightarrow> (unconfirmed, None, Some (nat (1300 - 1000)))
    | BridgeExecuted \<Rightarrow> (executed, None, None))" for st
    by (rule arbBuild_reports_status [OF _ h, where chainId = 42161 and outboxProof = "[]"]) (simp_all add: ex_arb_def)
  from this [of BridgeUnconfirmed] this [of BridgeConfirmed] show ?thesis by simp
qed

end
