(* ===== verification/Ccip_Metadata.thy ===== *)
theory Ccip_Metadata
  imports Ism_Types Probe_Errors
begin

text \<open>
  \<open>typescript/relayer/src/metadata/ccipread.ts\<close>: metadata from the gateways a CCIP read module names in its revert. The thrown
  value may be anything, with properties that may form a cycle, so values refer to objects of a heap; every falsy value but
  the empty string is \<open>RNull\<close>, and a truthy number or boolean is \<open>RPrimitive\<close>. Signing, fetching and the ABI are parameters.
\<close>

section \<open>Finding the revert data\<close>

datatype revert_value = RNull | RPrimitive nat | RString string | RObject nat

record revert_object =
  isArray :: bool
  properties :: "(string, revert_value) dict"

type_synonym revert_heap = "(nat, revert_object) dict"

definition isHexString :: "revert_value \<Rightarrow> bool" where
  "isHexString v =
     (case v of RString s \<Rightarrow> startsWith s ''0x'' \<and> isHexDigits (drop 2 s) \<and> even (length (drop 2 s)) \<and> 128 \<le> length (drop 2 s)
      | _ \<Rightarrow> False)"

definition MAX_BFS_ITERATIONS :: nat where
  "MAX_BFS_ITERATIONS = 50"

definition revertKeys :: "string list" where
  "revertKeys = [''data'', ''error'', ''cause'', ''details'', ''info'']"

text \<open>The values an object adds to the queue: an array is no record, and a property that is absent is undefined.\<close>

definition successors :: "revert_heap \<Rightarrow> revert_value \<Rightarrow> revert_value list" where
  "successors h v =
     (case v of
        RObject a \<Rightarrow> (case map_of h a of
            Some obj \<Rightarrow> if isArray obj then [] else List.map_filter (map_of (properties obj)) revertKeys
          | None \<Rightarrow> [])
      | _ \<Rightarrow> [])"

function extractLoop :: "revert_heap \<Rightarrow> nat \<Rightarrow> revert_value list \<Rightarrow> revert_value list \<Rightarrow> string option" where
  "extractLoop h iterations seen queue =
     (case queue of
        [] \<Rightarrow> None
      | candidate # rest \<Rightarrow>
          if iterations \<ge> MAX_BFS_ITERATIONS then None
          else if candidate = RNull \<or> candidate = RString [] \<or> List.member seen candidate
          then extractLoop h (Suc iterations) seen rest
          else if isHexString candidate then (case candidate of RString s \<Rightarrow> Some s | _ \<Rightarrow> None)
          else extractLoop h (Suc iterations) (candidate # seen) (rest @ successors h candidate))"
  by pat_completeness auto
termination by (relation "measure (\<lambda>(h, iterations, seen, queue). MAX_BFS_ITERATIONS - iterations)") auto

declare extractLoop.simps [simp del]

definition extractRevertData :: "revert_heap \<Rightarrow> revert_value \<Rightarrow> string option" where
  "extractRevertData h error = extractLoop h 0 [] [error]"

section \<open>The gateways\<close>

record lookup_response =
  res_ok :: bool
  res_data :: "string option result"

record ccip_env =
  getOffchainVerifyInfo :: "string \<Rightarrow> hex \<Rightarrow> (revert_heap \<times> revert_value) option"
  parseError :: "hex \<Rightarrow> (string \<times> string \<times> string list \<times> hex) result"
  signLookup :: "string \<Rightarrow> hex \<Rightarrow> string \<Rightarrow> string result"
  fetchGet :: "string \<Rightarrow> lookup_response result"
  fetchPost :: "string \<Rightarrow> string \<Rightarrow> hex \<Rightarrow> string \<Rightarrow> lookup_response result"

fun replaceFirst :: "string \<Rightarrow> string \<Rightarrow> string \<Rightarrow> string" where
  "replaceFirst pattern replacement s =
     (if startsWith s pattern then replacement @ drop (length pattern) s
      else case s of [] \<Rightarrow> [] | ch # t \<Rightarrow> ch # replaceFirst pattern replacement t)"

declare replaceFirst.simps [simp del]

definition askGateway :: "ccip_env \<Rightarrow> string \<Rightarrow> hex \<Rightarrow> string \<Rightarrow> lookup_response result" where
  "askGateway C sender callDataHex urlTemplate =
     (let url = replaceFirst ''{data}'' callDataHex (replaceFirst ''{sender}'' sender urlTemplate) in
      if js_includes urlTemplate ''{data}'' then fetchGet C url
      else rbind (signLookup C sender callDataHex urlTemplate) (\<lambda>signature. fetchPost C url sender callDataHex signature))"

text \<open>The metadata one gateway gives: its answer must be fetched, parsed, successful, and carry a string.\<close>

definition gatewayMetadata :: "ccip_env \<Rightarrow> string \<Rightarrow> hex \<Rightarrow> string \<Rightarrow> hex option" where
  "gatewayMetadata C sender callDataHex urlTemplate =
     (case askGateway C sender callDataHex urlTemplate of
        Inl _ \<Rightarrow> None
      | Inr res \<Rightarrow> (case res_data res of
            Inl _ \<Rightarrow> None
          | Inr data \<Rightarrow> if res_ok res then map_option ensure0x data else None))"

fun tryGateways :: "ccip_env \<Rightarrow> string \<Rightarrow> hex \<Rightarrow> string list \<Rightarrow> hex option" where
  "tryGateways C sender callDataHex [] = None"
| "tryGateways C sender callDataHex (url # urls) =
     (case gatewayMetadata C sender callDataHex url of
        Some metadata \<Rightarrow> Some metadata
      | None \<Rightarrow> tryGateways C sender callDataHex urls)"

text \<open>The metadata, when there is any, and the configured URLs.\<close>

definition ccipBuild :: "ccip_env \<Rightarrow> string \<Rightarrow> hex \<Rightarrow> (hex option \<times> string list) result" where
  "ccipBuild C ismAddr message =
     (case getOffchainVerifyInfo C ismAddr message of
        None \<Rightarrow> throw (Thrown ''Expected OffchainLookup revert'' '''')
      | Some (h, err) \<Rightarrow> (case extractRevertData h err of
          None \<Rightarrow> throw (Thrown ''rethrown'' '''')
        | Some revertData \<Rightarrow> if revertData = [] then throw (Thrown ''rethrown'' '''')
          else rbind (parseError C revertData) (\<lambda>(name, sender, urls, callDataHex).
            if name \<noteq> ''OffchainLookup'' then throw (Thrown ''Unexpected error'' name)
            else ret (tryGateways C sender callDataHex urls, urls))))"

end
