(* ===== verification/Metadata_Builder.thy ===== *)
theory Metadata_Builder
  imports Aggregation_Codec Multisig_Codec Arb_Metadata Ccip_Metadata
begin

text \<open>
  The metadata builders of \<open>typescript/relayer/src/metadata\<close>: what the relayer hands to a destination chain so that its
  interchain security module accepts a message. \<open>metadataBuild\<close> chooses by the type of the module, recursing into
  aggregations and routings up to a maximal depth; \<open>decodeIsmMetadata\<close> is its inverse for reading metadata.

  The state is the cache of checkpoint validators that \<open>MultisigMetadataBuilder\<close> keeps. What chains, contracts and
  validators answer is the record \<open>relayer_env\<close>. The submodules of an aggregation are built in parallel, with the cache
  as their only shared state; here they are built one after another. A build that takes too long
  still finishes, but its result is dropped; \<open>timesOut\<close> says which ones do.
\<close>

section \<open>Contexts\<close>

text \<open>A hook configuration as \<open>deepFind\<close> walks it: an object or array with its values.\<close>

datatype hook_config =
    HookNull
  | HookString string
  | HookOther
  | HookNode (hk_type: "string option") (hk_address: "string option") (hk_values: "hook_config list")

record 'log MetadataContext =
  msg_id :: hex
  msg_message :: hex
  msg_origin :: nat
  msg_destination :: nat
  msg_originChain :: "string option"
  dispatchLogs :: "'log list"
  ctx_hook :: hook_config

datatype ValidatorStatus = Signed | Pending | StatusError

record ValidatorInfo =
  vi_address :: string
  vi_alias :: "string option"
  vi_status :: ValidatorStatus
  vi_signature :: "SignatureLike option"
  vi_checkpointIndex :: "nat option"
  vi_error :: "js_error option"

text \<open>
  \<open>FailedResult\<close> is the minimal result for a submodule whose build failed; a submodule given by its address
  has neither type nor address.
\<close>

datatype MetadataBuildResult =
    MultisigResult IsmType string "hex option" nat "ValidatorInfo list" nat
  | AggregationResult IsmType string "hex option" nat "MetadataBuildResult list"
  | RoutingResult IsmType string "hex option" string MetadataBuildResult
  | NullResult IsmType string hex
  | ArbL2ToL1Result string "hex option" bridgeStatus "nat option"
  | CcipReadResult string "hex option" "string list"
  | FailedResult "IsmType option" "string option"

fun metadata :: "MetadataBuildResult \<Rightarrow> hex option" where
  "metadata (MultisigResult _ _ m _ _ _) = m"
| "metadata (AggregationResult _ _ m _ _) = m"
| "metadata (RoutingResult _ _ m _ _) = m"
| "metadata (NullResult _ _ m) = Some m"
| "metadata (ArbL2ToL1Result _ m _ _) = m"
| "metadata (CcipReadResult _ m _) = m"
| "metadata (FailedResult _ _) = None"

definition isMetadataBuildable :: "MetadataBuildResult \<Rightarrow> bool" where
  "isMetadataBuildable result \<longleftrightarrow> metadata result \<noteq> None"

definition signedValidators :: "ValidatorInfo list \<Rightarrow> ValidatorInfo list" where
  "signedValidators infos = filter (\<lambda>v. vi_status v = Signed) infos"

record CheckpointWithId =
  cw_checkpoint :: Checkpoint
  message_id :: hex

record S3CheckpointWithId =
  s3_value :: CheckpointWithId
  s3_signature :: SignatureLike

record checkpoint_match =
  m_origin :: nat
  m_merkleTree :: string
  m_messageId :: hex
  m_index :: nat

type_synonym 'v validator_cache = "(string, (string, 'v option) dict) dict"

type_synonym ('v, 'a) relayer_op = "('v validator_cache, 'a) op"

record ('log, 'v, 'ev) relayer_env = "signature_api" +
  chainNameOf :: "nat \<Rightarrow> string result"
  signerAddressOf :: "nat \<Rightarrow> string result"
  providerOf :: "nat \<Rightarrow> unit result"
  sameAddress :: "string \<Rightarrow> string \<Rightarrow> bool"
  sameAddressEvm :: "string \<Rightarrow> string \<Rightarrow> bool"
  getAddress :: "string \<Rightarrow> string result"
  log_address :: "'log \<Rightarrow> string"
  parseMerkleLog :: "'log \<Rightarrow> (hex option \<times> nat) result"
  validatorAliases :: "string \<Rightarrow> (string \<times> string option) list option"
  getAnnouncedStorageLocations :: "string \<Rightarrow> string list \<Rightarrow> string list list result"
  getValidatorFromStorageLocation :: "string \<Rightarrow> 'v result"
  getCheckpoint :: "'v \<Rightarrow> nat \<Rightarrow> S3CheckpointWithId option result"
  routeOf :: "string \<Rightarrow> hex \<Rightarrow> string result"
  moduleOf :: "string \<Rightarrow> nat \<Rightarrow> string result"
  deriveIsmConfig :: "string \<Rightarrow> ism result"
  timesOut :: "ism \<Rightarrow> nat \<Rightarrow> bool"
  arbOf :: "('log, 'ev) arb_env"
  ccipOf :: ccip_env

section \<open>Null modules\<close>

definition NULL_METADATA :: hex where
  "NULL_METADATA = ''0x''"

definition nullBuild :: "('log, 'v, 'ev) relayer_env \<Rightarrow> 'log MetadataContext \<Rightarrow> ism \<Rightarrow> MetadataBuildResult result" where
  "nullBuild E ctx ism =
     rbind (if ismType ism = TRUSTED_RELAYER
         then rbind (signerAddressOf E (msg_destination ctx)) (\<lambda>destinationSigner.
           rassert (sameAddress E destinationSigner (relayer ism)) ''Destination signer does not match trusted relayer'')
         else ret ())
       (\<lambda>_. ret (NullResult (ismType ism) (ismAddress ism) NULL_METADATA))"

section \<open>Multisig modules\<close>

definition getValidatorAlias :: "('log, 'v, 'ev) relayer_env \<Rightarrow> string \<Rightarrow> string \<Rightarrow> string option" where
  "getValidatorAlias E validatorAddress chain =
     (case validatorAliases E chain of
        None \<Rightarrow> None
      | Some vs \<Rightarrow> (case find (\<lambda>v. sameAddress E (fst v) validatorAddress) vs of None \<Rightarrow> None | Some v \<Rightarrow> snd v))"

text \<open>The validator of an announced list of locations: that of the last one.\<close>

definition validatorOf :: "('log, 'v, 'ev) relayer_env \<Rightarrow> string list \<Rightarrow> 'v option" where
  "validatorOf E locations =
     (if locations = [] \<or> last locations = [] then None
      else case getValidatorFromStorageLocation E (last locations) of Inl _ \<Rightarrow> None | Inr v \<Rightarrow> Some v)"

definition cached :: "'v validator_cache \<Rightarrow> string \<Rightarrow> (string, 'v option) dict" where
  "cached cache chain = (case map_of cache chain of Some c \<Rightarrow> c | None \<Rightarrow> [])"

definition checkpointValidators ::
    "('log, 'v, 'ev) relayer_env \<Rightarrow> string \<Rightarrow> string list \<Rightarrow> ('v, 'v option list) relayer_op" where
  "checkpointValidators E originChain validators =
     op_seq (op_modify (\<lambda>cache. if map_of cache originChain = None then AList.update originChain [] cache else cache))
     (op_bind (op_gets (\<lambda>cache. filter (\<lambda>v. map_of (cached cache originChain) v = None) validators)) (\<lambda>toFetch.
      op_seq (op_when (toFetch \<noteq> [])
        (op_bind (op_lift (getAnnouncedStorageLocations E originChain toFetch)) (\<lambda>storageLocations.
           op_modify (\<lambda>cache. AList.update originChain (fold (\<lambda>(i, v) c.
               AList.update v (if i < length storageLocations then validatorOf E (storageLocations ! i) else None) c)
             (enumerate 0 toFetch) (cached cache originChain)) cache))))
      (op_gets (\<lambda>cache. map (\<lambda>v. Option.bind (map_of (cached cache originChain) v) id) validators))))"

definition fetchValidatorCheckpoints ::
    "('log, 'v, 'ev) relayer_env \<Rightarrow> string list \<Rightarrow> checkpoint_match
      \<Rightarrow> ('v, string \<times> S3CheckpointWithId option result list) relayer_op" where
  "fetchValidatorCheckpoints E validators match =
     op_bind (op_lift (chainNameOf E (m_origin match))) (\<lambda>originChain.
     op_bind (checkpointValidators E originChain validators) (\<lambda>checkpointValidators.
       op_ret (originChain, map (\<lambda>validator. case validator of
           None \<Rightarrow> throw (Thrown ''No valid storage location for validator'' '''')
         | Some v \<Rightarrow> getCheckpoint E v (m_index match)) checkpointValidators)))"

definition bytes32ToAddress :: "('log, 'v, 'ev) relayer_env \<Rightarrow> hex \<Rightarrow> string result" where
  "bytes32ToAddress E h = getAddress E (drop (length h - 40) h)"

definition checkpointMatches ::
    "('log, 'v, 'ev) relayer_env \<Rightarrow> S3CheckpointWithId \<Rightarrow> checkpoint_match \<Rightarrow> bool result" where
  "checkpointMatches E cp match =
     (let c = cw_checkpoint (s3_value cp) in
      rbind (bytes32ToAddress E (merkle_tree_hook_address c)) (\<lambda>hook.
        ret (sameAddress E hook (m_merkleTree match) \<and> message_id (s3_value cp) = m_messageId match
           \<and> cp_index c = m_index match \<and> mailbox_domain c = m_origin match)))"

text \<open>The checkpoints that match, of those that were fetched.\<close>

definition getS3Checkpoints ::
    "('log, 'v, 'ev) relayer_env \<Rightarrow> string list \<Rightarrow> checkpoint_match \<Rightarrow> ('v, S3CheckpointWithId list) relayer_op" where
  "getS3Checkpoints E validators match =
     op_bind (fetchValidatorCheckpoints E validators match) (\<lambda>(_, results).
       op_lift (rfold (\<lambda>acc cp. rbind (checkpointMatches E cp match) (\<lambda>ok. ret (if ok then acc @ [cp] else acc))) []
         (List.map_filter (\<lambda>r. case r of Inl _ \<Rightarrow> None | Inr cp \<Rightarrow> cp) results)))"

definition validatorInfo ::
    "('log, 'v, 'ev) relayer_env \<Rightarrow> string \<Rightarrow> checkpoint_match \<Rightarrow> string \<times> S3CheckpointWithId option result
      \<Rightarrow> (ValidatorInfo \<times> Checkpoint option) result" where
  "validatorInfo E originChain match ar =
     (case ar of (address, fetched) \<Rightarrow>
        let info = \<lparr>vi_address = address, vi_alias = getValidatorAlias E address originChain, vi_status = Pending,
              vi_signature = None, vi_checkpointIndex = None, vi_error = None\<rparr>
        in case fetched of
            Inl e \<Rightarrow> ret (info\<lparr>vi_status := StatusError, vi_error := Some e\<rparr>, None)
          | Inr None \<Rightarrow> ret (info, None)
          | Inr (Some cp) \<Rightarrow> rbind (checkpointMatches E cp match) (\<lambda>ok.
              if \<not> ok then ret (info, None)
              else ret (info\<lparr>vi_status := Signed, vi_signature := Some (s3_signature cp),
                  vi_checkpointIndex := Some (cp_index (cw_checkpoint (s3_value cp)))\<rparr>, Some (cw_checkpoint (s3_value cp)))))"

definition getValidatorInfos ::
    "('log, 'v, 'ev) relayer_env \<Rightarrow> string list \<Rightarrow> checkpoint_match \<Rightarrow> ('v, ValidatorInfo list \<times> Checkpoint option) relayer_op" where
  "getValidatorInfos E validators match =
     op_bind (fetchValidatorCheckpoints E validators match) (\<lambda>(originChain, results).
     op_bind (op_lift (rmap (validatorInfo E originChain match) (zip validators results))) (\<lambda>infos.
       op_ret (map fst infos, case List.map_filter snd infos of [] \<Rightarrow> None | cp # _ \<Rightarrow> Some cp)))"

definition multisigBuild ::
    "('log, 'v, 'ev) relayer_env \<Rightarrow> 'log MetadataContext \<Rightarrow> string \<Rightarrow> ism \<Rightarrow> ('v, MetadataBuildResult) relayer_op" where
  "multisigBuild E ctx merkleTree ism =
     op_bind (op_lift (rassert (ismType ism = MESSAGE_ID_MULTISIG \<or> ismType ism = STORAGE_MESSAGE_ID_MULTISIG)
       ''Merkle proofs are not yet supported'')) (\<lambda>_.
     op_bind (op_lift (rmap (parseMerkleLog E) (filter (\<lambda>l. sameAddressEvm E (log_address E l) merkleTree) (dispatchLogs ctx)))) (\<lambda>events.
     case find (\<lambda>event. fst event = Some (msg_id ctx)) events of
       None \<Rightarrow> op_throw (AssertionError ''No merkle tree insertion found in dispatch tx'')
     | Some (_, checkpointIndex) \<Rightarrow>
         op_bind (getValidatorInfos E (ismValidators ism) \<lparr>m_origin = msg_origin ctx, m_merkleTree = merkleTree,
           m_messageId = msg_id ctx, m_index = checkpointIndex\<rparr>) (\<lambda>(validatorInfos, cp).
         let signed = signedValidators validatorInfos;
             result = (\<lambda>md. MultisigResult (ismType ism) (ismAddress ism) md (threshold ism) validatorInfos checkpointIndex)
         in case cp of
              Some c \<Rightarrow> if length signed \<ge> threshold ism
                then op_bind (op_lift (multisigEncode (signature_api.truncate E)
                    (MessageIdMultisigMetadata (take (threshold ism) (map (the \<circ> vi_signature) signed)) (MultisigCheckpoint.truncate c))))
                  (\<lambda>md. op_ret (result (Some md)))
                else op_ret (result None)
            | None \<Rightarrow> op_ret (result None))))"

section \<open>Aggregations\<close>

text \<open>Submodule metadata beyond the first \<open>threshold\<close> ones becomes \<open>null\<close>.\<close>

fun firstMetadatas :: "nat \<Rightarrow> nat \<Rightarrow> hex option list \<Rightarrow> hex option list" where
  "firstMetadatas limit n [] = []"
| "firstMetadatas limit n (None # ms) = None # firstMetadatas limit n ms"
| "firstMetadatas limit n (Some m # ms) = (if Suc n > limit then None else Some m) # firstMetadatas limit (Suc n) ms"

definition failedResult :: "ism \<Rightarrow> MetadataBuildResult" where
  "failedResult m = (case m of IsmAddress _ \<Rightarrow> FailedResult None None | Ism t a _ _ _ _ _ \<Rightarrow> FailedResult (Some t) (Some a))"

definition aggregationBuild ::
    "('log, 'v, 'ev) relayer_env \<Rightarrow> (ism \<Rightarrow> ('v, MetadataBuildResult) relayer_op) \<Rightarrow> nat \<Rightarrow> ism \<Rightarrow> ('v, MetadataBuildResult) relayer_op" where
  "aggregationBuild E base maxDepth ism =
     (let result = (\<lambda>md rs. AggregationResult (ismType ism) (ismAddress ism) md (threshold ism) rs) in
      if maxDepth = 0 then op_ret (result None [])
      else op_bind (op_map (\<lambda>m. op_bind (op_settle (base m)) (\<lambda>r.
          op_ret (case r of
             Inl _ \<Rightarrow> failedResult m
           | Inr x \<Rightarrow> if timesOut E m maxDepth then failedResult m else x))) (modules ism)) (\<lambda>moduleResults.
        if length (filter isMetadataBuildable moduleResults) \<ge> threshold ism
        then op_bind (op_lift (aggregationEncode (firstMetadatas (threshold ism) 0 (map metadata moduleResults))))
          (\<lambda>md. op_ret (result (Some md) moduleResults))
        else op_ret (result None moduleResults)))"

section \<open>Routings\<close>

definition routedResult :: "ism \<Rightarrow> string \<Rightarrow> MetadataBuildResult \<Rightarrow> MetadataBuildResult" where
  "routedResult ism originChain selected = RoutingResult (ismType ism) (ismAddress ism) (metadata selected) originChain selected"

definition staticRoutingBuild ::
    "('log, 'v, 'ev) relayer_env \<Rightarrow> (ism \<Rightarrow> ('v, MetadataBuildResult) relayer_op) \<Rightarrow> 'log MetadataContext \<Rightarrow> ism
      \<Rightarrow> ('v, MetadataBuildResult) relayer_op" where
  "staticRoutingBuild E base ctx ism =
     op_bind (op_lift (chainNameOf E (msg_origin ctx))) (\<lambda>originChain.
       case map_of (domains ism) originChain of
         None \<Rightarrow> op_throw TypeError
       | Some selected \<Rightarrow> op_bind (base selected) (\<lambda>r. op_ret (routedResult ism originChain r)))"

definition dynamicRoutingBuild ::
    "('log, 'v, 'ev) relayer_env \<Rightarrow> (ism \<Rightarrow> ('v, MetadataBuildResult) relayer_op) \<Rightarrow> 'log MetadataContext \<Rightarrow> ism
      \<Rightarrow> ('v, MetadataBuildResult) relayer_op" where
  "dynamicRoutingBuild E base ctx ism =
     op_bind (op_lift (chainNameOf E (msg_origin ctx))) (\<lambda>originChain.
     op_bind (op_lift (providerOf E (msg_destination ctx))) (\<lambda>_.
     let deriveAndRecurse = (\<lambda>moduleAddress. op_bind (op_lift (deriveIsmConfig E moduleAddress)) (\<lambda>nextConfig.
           op_bind (base nextConfig) (\<lambda>r. op_ret (routedResult ism originChain r))))
     in if isDynamicallyRoutedIsmType (ismType ism) then op_bind (op_lift (routeOf E (ismAddress ism) (msg_message ctx))) deriveAndRecurse
        else if map_of (domains ism) originChain \<noteq> None \<and> map_of (domains ism) originChain \<noteq> Some (IsmAddress [])
        then staticRoutingBuild E base ctx ism
        else if ismType ism = FALLBACK_ROUTING then op_bind (op_lift (moduleOf E (ismAddress ism) (msg_origin ctx))) deriveAndRecurse
        else op_throw (Thrown ''DefaultFallbackRoutingMetadataBuilder: unexpected ISM type'' '''')))"

section \<open>The base builder\<close>

text \<open>\<open>deepFind\<close> of \<open>utils/src/objects.ts\<close> for the address of a Merkle tree hook. All values are searched before the first result is taken.\<close>

primrec deepFindMerkleTree :: "nat \<Rightarrow> hook_config \<Rightarrow> string option result" where
  "deepFindMerkleTree 0 h = throw (AssertionError ''deepFind max depth reached'')"
| "deepFindMerkleTree (Suc depth) h =
     (case h of
        HookNull \<Rightarrow> throw TypeError
      | HookString _ \<Rightarrow> ret None
      | HookOther \<Rightarrow> ret None
      | HookNode t a vs \<Rightarrow>
          if t = Some ''merkleTreeHook'' \<and> a \<noteq> None \<and> a \<noteq> Some [] then ret a
          else rbind (rmap (deepFindMerkleTree depth) vs) (\<lambda>found. ret (case List.map_filter id found of [] \<Rightarrow> None | x # _ \<Rightarrow> Some x)))"

definition nullTypes :: "IsmType list" where
  "nullTypes = [TRUSTED_RELAYER, TEST_ISM, OP_STACK, PAUSABLE, CCIP, RATE_LIMITED, BLACKLIST, NET_FLOW_RATE_LIMITED, DELAYED_FLOW_ROUTER]"

definition multisigTypes :: "IsmType list" where
  "multisigTypes = [MERKLE_ROOT_MULTISIG, MESSAGE_ID_MULTISIG, STORAGE_MERKLE_ROOT_MULTISIG, STORAGE_MESSAGE_ID_MULTISIG]"

definition routingTypes :: "IsmType list" where
  "routingTypes = [ROUTING, FALLBACK_ROUTING, AMOUNT_ROUTING, INTERCHAIN_ACCOUNT_ROUTING, MAILBOX_DEFAULT]"

definition arbResult :: "ism \<Rightarrow> string + (bridgeStatus \<times> hex option \<times> nat option) \<Rightarrow> MetadataBuildResult result" where
  "arbResult ism r = (case r of Inl e \<Rightarrow> throw (Thrown e '''') | Inr (status, md, blocks) \<Rightarrow> ret (ArbL2ToL1Result (ismAddress ism) md status blocks))"

primrec metadataBuild ::
    "('log, 'v, 'ev) relayer_env \<Rightarrow> 'log MetadataContext \<Rightarrow> nat \<Rightarrow> ism \<Rightarrow> ('v, MetadataBuildResult) relayer_op" where
  "metadataBuild E ctx 0 ism = op_throw (AssertionError ''Max depth reached'')"
| "metadataBuild E ctx (Suc depth) ism =
     (case ism of
        IsmAddress _ \<Rightarrow> op_throw (Thrown ''Unsupported ISM'' '''')
      | Ism t _ _ _ _ _ _ \<Rightarrow>
          if List.member nullTypes t then op_lift (nullBuild E ctx ism)
          else if List.member multisigTypes t then
            (case ctx_hook ctx of
               HookString _ \<Rightarrow> op_throw (Thrown ''Hook context must be an object (for multisig ISM)'' '''')
             | _ \<Rightarrow> op_bind (op_lift (deepFindMerkleTree 10 (ctx_hook ctx))) (\<lambda>hook.
                 case hook of
                   None \<Rightarrow> op_throw (AssertionError ''Merkle tree hook context not found'')
                 | Some merkleTree \<Rightarrow> multisigBuild E ctx merkleTree ism))
          else if List.member routingTypes t then dynamicRoutingBuild E (metadataBuild E ctx depth) ctx ism
          else if t = AGGREGATION \<or> t = STORAGE_AGGREGATION then aggregationBuild E (metadataBuild E ctx depth) (Suc depth) ism
          else if t = ARB_L2_TO_L1
          then op_lift (arbResult ism (arbBuild (arbOf E) (dispatchLogs ctx) (msg_id ctx) (msg_message ctx) (msg_origin ctx) (ismAddress ism)))
          else if t = OFFCHAIN_LOOKUP
          then op_lift (rbind (ccipBuild (ccipOf E) (ismAddress ism) (msg_message ctx)) (\<lambda>(md, urls). ret (CcipReadResult (ismAddress ism) md urls)))
          else op_throw (Thrown ''Unsupported ISM'' ''''))"

end
