(* ===== verification/Metadata_Decoder.thy ===== *)
theory Metadata_Decoder
  imports Metadata_Builder
begin

text \<open>
  \<open>typescript/relayer/src/metadata/decode.ts\<close>: reading metadata against the configuration of a module, and that it
  reads what the builders wrote.
\<close>

section \<open>Decoding\<close>

lemma decodeRange_cong: "(\<And>h. dec h m = dec' h m) \<Longrightarrow> decodeRange md dec (i, m) = decodeRange md dec' (i, m)"
  by (cases m) (simp_all add: decodeRange_def cong: if_cong)

lemma aggregationDecode_cong [fundef_cong]:
  assumes "md = md'" "ms = ms'" "\<And>h m. m \<in> set ms' \<Longrightarrow> dec h m = dec' h m"
  shows "aggregationDecode md ms dec = aggregationDecode md' ms' dec'"
proof -
  have "rmap (decodeRange md' dec) (enumerate 0 ms') = rmap (decodeRange md' dec') (enumerate 0 ms')"
  proof (rule rmap_cong2)
    fix i assume "i < length (enumerate 0 ms')"
    then have "ms' ! i \<in> set ms'" "enumerate 0 ms' ! i = (i, ms' ! i)" by (simp_all add: nth_enumerate_eq)
    then show "decodeRange md' dec (enumerate 0 ms' ! i) = decodeRange md' dec' (enumerate 0 ms' ! i)"
      using decodeRange_cong [of dec "ms' ! i" dec'] assms(3) by simp
  qed simp
  then show ?thesis using assms(1,2) by (simp add: aggregationDecode_def)
qed

lemma modules_smaller: "m \<in> set (modules (Ism t a r v n ms ds)) \<Longrightarrow> size m < size (Ism t a r v n ms ds)"
  by (auto dest!: size_list_estimation' [where f = size, OF _ order_refl])

lemma domains_smaller: "map_of ds c = Some m \<Longrightarrow> size m < size (Ism t a r v n ms ds)"
proof -
  assume "map_of ds c = Some m"
  then have "(c, m) \<in> set ds" by (rule map_of_SomeD)
  then have "size_prod (\<lambda>x. 0) size (c, m) \<le> size_list (size_prod (\<lambda>x. 0) size) ds"
    by (rule size_list_estimation') simp
  then show ?thesis by simp
qed

function decodeIsmMetadata ::
    "('log, 'v, 'ev) relayer_env \<Rightarrow> 'log MetadataContext \<Rightarrow> hex \<Rightarrow> ism \<Rightarrow> StructuredMetadata result" where
  "decodeIsmMetadata E ctx md (IsmAddress a) = throw (Thrown ''Unsupported ISM type'' '''')"
| "decodeIsmMetadata E ctx md (Ism t a r v n ms ds) =
     (if t = TRUSTED_RELAYER \<or> t = NET_FLOW_RATE_LIMITED \<or> t = DELAYED_FLOW_ROUTER then ret (NullMetadata (Ism t a r v n ms ds))
      else if List.member multisigTypes t then rbind (multisigDecode (signature_api.truncate E) md t) (\<lambda>m. ret (MultisigM m))
      else if t = AGGREGATION \<or> t = STORAGE_AGGREGATION then aggregationDecode md ms (\<lambda>h m. decodeIsmMetadata E ctx h m)
      else if t = ROUTING then
        (case msg_originChain ctx of
           None \<Rightarrow> throw (AssertionError ''originChain is required'')
         | Some originChain \<Rightarrow>
             if originChain = [] then throw (AssertionError ''originChain is required'')
             else (case map_of ds originChain of
                 None \<Rightarrow> throw TypeError
               | Some (IsmAddress _) \<Rightarrow> ret (RoutingMetadata ROUTING originChain (RawMetadata md))
               | Some m \<Rightarrow> rbind (decodeIsmMetadata E ctx md m) (\<lambda>x. ret (RoutingMetadata ROUTING originChain x))))
      else if t = ARB_L2_TO_L1 then (case arbDecode (arbOf E) md of Inl e \<Rightarrow> throw (Thrown e '''') | Inr x \<Rightarrow> ret x)
      else if t = MAILBOX_DEFAULT then
        (case msg_originChain ctx of
           None \<Rightarrow> throw (AssertionError ''originChain is required'')
         | Some originChain \<Rightarrow> rbind (rassert (originChain \<noteq> []) ''originChain is required'')
             (\<lambda>_. ret (RoutingMetadata MAILBOX_DEFAULT originChain (RawMetadata md))))
      else throw (Thrown ''Unsupported ISM type'' ''''))"
  by pat_completeness auto
termination
proof (relation "measure (\<lambda>(E, ctx, md, ism). size ism)", goal_cases)
  case (2 E ctx md t a r v n ms ds h m)
  then show ?case using modules_smaller [of m t a r v n ms ds] by simp
next
  case (3 E ctx md t a r v n ms ds chain m)
  then show ?case using domains_smaller [of ds chain m t a r v n ms] by simp
qed simp

declare decodeIsmMetadata.simps [simp del]

section \<open>What a result reads as\<close>

text \<open>
  The modules that the decoder supports, for a message from the chain \<open>c\<close>: it knows three of the null types, message id
  multisigs, aggregations of modules it supports, and routings to one.
\<close>

inductive decodable :: "string \<Rightarrow> ism \<Rightarrow> bool" for c where
  null: "t \<in> {TRUSTED_RELAYER, NET_FLOW_RATE_LIMITED, DELAYED_FLOW_ROUTER} \<Longrightarrow> decodable c (Ism t a r v n ms ds)"
| multisig: "t \<in> {MESSAGE_ID_MULTISIG, STORAGE_MESSAGE_ID_MULTISIG} \<Longrightarrow> decodable c (Ism t a r v n ms ds)"
| aggregation: "t \<in> {AGGREGATION, STORAGE_AGGREGATION} \<Longrightarrow> \<forall>m \<in> set ms. decodable c m \<Longrightarrow> decodable c (Ism t a r v n ms ds)"
| routing: "map_of ds c = Some m \<Longrightarrow> decodable c m \<Longrightarrow> decodable c (Ism ROUTING a r v n ms ds)"

text \<open>
  How structured metadata describes a build result: a multisig by exactly its threshold of signatures, those of the first
  validators that signed, at the index of its checkpoint; an aggregation by exactly its threshold of submodules, each
  described in turn; a routing by the module selected for the origin.
\<close>

inductive reads :: "signature_api \<Rightarrow> MetadataBuildResult \<Rightarrow> StructuredMetadata \<Rightarrow> bool" for S where
  reads_null: "reads S (NullResult t a md) (NullMetadata (Ism t a r v n ms ds))"
| reads_multisig: "rmap (partsOf S) (take n (map (the \<circ> vi_signature) (signedValidators infos))) = ret parts \<Longrightarrow> length parts = n
    \<Longrightarrow> cp_index cp = i \<Longrightarrow> reads S (MultisigResult t a (Some md) n infos i) (MultisigM (MessageIdMultisigMetadata parts cp))"
| reads_aggregation: "list_all2 (\<lambda>r x. x = None \<or> (\<exists>y. x = Some y \<and> isMetadataBuildable r \<and> reads S r y)) rs xs
    \<Longrightarrow> length (filter (\<lambda>x. x \<noteq> None) xs) = n \<Longrightarrow> reads S (AggregationResult t a (Some md) n rs) (AggregationMetadata xs)"
| reads_routing: "reads S r x \<Longrightarrow> reads S (RoutingResult ROUTING a (Some md) c r) (RoutingMetadata ROUTING c x)"

text \<open>What a build promises of its metadata: a canonical hex string whose decoding describes the result.\<close>

definition readable :: "('log, 'v, 'ev) relayer_env \<Rightarrow> 'log MetadataContext \<Rightarrow> ism \<Rightarrow> MetadataBuildResult \<Rightarrow> bool" where
  "readable E ctx m r \<longleftrightarrow> (\<forall>md. metadata r = Some md \<longrightarrow> (\<exists>x bs. md = toHexString bs
     \<and> decodeIsmMetadata E ctx md m = ret x \<and> reads (signature_api.truncate E) r x))"

lemma firstMetadatas_length [simp]: "length (firstMetadatas limit n ms) = length ms"
  by (induction limit n ms rule: firstMetadatas.induct) simp_all

lemma firstMetadatas_sub: "i < length ms \<Longrightarrow> firstMetadatas limit n ms ! i = Some h \<Longrightarrow> ms ! i = Some h"
  by (induction limit n ms arbitrary: i rule: firstMetadatas.induct) (auto simp: nth_Cons split: nat.splits if_splits)

lemma firstMetadatas_count:
  "length (filter (\<lambda>m. m \<noteq> None) (firstMetadatas limit n ms)) = min (limit - n) (length (filter (\<lambda>m. m \<noteq> None) ms))"
  by (induction limit n ms rule: firstMetadatas.induct) auto

lemma filter_length_cong:
  "length xs = length ys \<Longrightarrow> (\<And>i. i < length xs \<Longrightarrow> P (xs ! i) \<longleftrightarrow> Q (ys ! i)) \<Longrightarrow> length (filter P xs) = length (filter Q ys)"
  by (induction xs ys rule: list_induct2) (auto, (metis nth_Cons_0 nth_Cons_Suc Suc_less_eq zero_less_Suc)+)

lemma op_map_all2:
  "op_map f xs s = (ret ys, s') \<Longrightarrow> list_all2 (\<lambda>x y. \<exists>s s'. f x s = (ret y, s')) xs ys"
  by (induction xs arbitrary: ys s) (force simp: op_simps split: prod.splits sum.splits)+

lemma toHexString_not_empty: "toHexString bs \<noteq> []"
  by (simp add: toHexString_eq)

lemma null_readable:
  assumes "nullBuild E ctx m = ret r" "m = Ism t a rl v n ms ds" "t \<in> {TRUSTED_RELAYER, NET_FLOW_RATE_LIMITED, DELAYED_FLOW_ROUTER}"
  shows "readable E ctx m r"
proof -
  have "r = NullResult t a NULL_METADATA" using assms(1,2) by (auto simp: nullBuild_def rbind_eq_Inr_iff)
  moreover have "decodeIsmMetadata E ctx md m = ret (NullMetadata m)" for md
    using assms(2,3) by (auto simp: decodeIsmMetadata.simps)
  moreover have "NULL_METADATA = toHexString []" by (simp add: NULL_METADATA_def toHexString_eq)
  ultimately show ?thesis using assms(2) reads_null by (fastforce simp: readable_def)
qed

lemma validatorInfo_match:
  "validatorInfo E chain match ar = ret (info, Some c) \<Longrightarrow> cp_index c = m_index match"
  by (auto simp: validatorInfo_def checkpointMatches_def Let_def rbind_eq_Inr_iff split: prod.splits sum.splits option.splits if_splits)

lemma getValidatorInfos_match:
  assumes "getValidatorInfos E vs match s = (ret (infos, Some c), s')"
  shows "cp_index c = m_index match"
proof -
  obtain chain zs ps where "rmap (validatorInfo E chain match) zs = ret ps" "List.map_filter snd ps \<noteq> []" "hd (List.map_filter snd ps) = c"
    using assms by (fastforce simp: getValidatorInfos_def op_simps split: prod.splits sum.splits list.splits)
  then have "c \<in> set (List.map_filter snd ps)" by (metis list.set_sel(1))
  then have "\<exists>info. (info, Some c) \<in> set ps" by (force simp: List.map_filter_def)
  then obtain info k where k: "k < length ps" "ps ! k = (info, Some c)" by (metis in_set_conv_nth)
  have "list_all2 (\<lambda>z p. validatorInfo E chain match z = ret p) zs ps"
    using \<open>rmap (validatorInfo E chain match) zs = ret ps\<close> by (simp add: rmap_eq_Inr_iff)
  then have "validatorInfo E chain match (zs ! k) = ret (info, Some c)" using k by (simp add: list_all2_conv_all_nth)
  then show ?thesis by (rule validatorInfo_match)
qed

lemma multisigBuild_shape:
  assumes "multisigBuild E ctx mt m s = (ret r, s')"
  obtains infos i md where "r = MultisigResult (ismType m) (ismAddress m) md (threshold m) infos i"
    "md = None \<or> (\<exists>c h. md = Some h \<and> threshold m \<le> length (signedValidators infos) \<and> cp_index c = i
      \<and> multisigEncode (signature_api.truncate E)
          (MessageIdMultisigMetadata (take (threshold m) (map (the \<circ> vi_signature) (signedValidators infos))) c) = ret h)"
proof -
  have "\<exists>infos i md. r = MultisigResult (ismType m) (ismAddress m) md (threshold m) infos i \<and>
    (md = None \<or> (\<exists>c h. md = Some h \<and> threshold m \<le> length (signedValidators infos) \<and> cp_index c = i
      \<and> multisigEncode (signature_api.truncate E)
          (MessageIdMultisigMetadata (take (threshold m) (map (the \<circ> vi_signature) (signedValidators infos))) c) = ret h))"
    using assms
    by (auto simp: multisigBuild_def op_simps Let_def split: prod.splits sum.splits option.splits if_splits)
      (auto dest!: getValidatorInfos_match intro!: exI [of _ "MultisigCheckpoint.truncate _"] simp: MultisigCheckpoint.defs)
  then show ?thesis using that by blast
qed

lemma multisig_readable:
  assumes S: "signature_laws (signature_api.truncate E)" and run: "multisigBuild E ctx mt m s = (ret r, s')"
    and m: "m = Ism t a rl v n ms ds" "t \<in> {MESSAGE_ID_MULTISIG, STORAGE_MESSAGE_ID_MULTISIG}"
  shows "readable E ctx m r"
  unfolding readable_def
proof (intro allI impI)
  fix md assume md: "metadata r = Some md"
  let ?S = "signature_api.truncate E"
  obtain infos i md' where r: "r = MultisigResult t a md' n infos i"
    and "md' = None \<or> (\<exists>c h. md' = Some h \<and> n \<le> length (signedValidators infos) \<and> cp_index c = i
      \<and> multisigEncode ?S (MessageIdMultisigMetadata (take n (map (the \<circ> vi_signature) (signedValidators infos))) c) = ret h)"
    using multisigBuild_shape [OF run] m(1) by (metis ism.sel(2,3,6))
  then obtain c where c: "n \<le> length (signedValidators infos)" "cp_index c = i"
    "multisigEncode ?S (MessageIdMultisigMetadata (take n (map (the \<circ> vi_signature) (signedValidators infos))) c) = ret md"
    using md r by auto
  have tt: "t \<noteq> MERKLE_ROOT_MULTISIG" "t \<noteq> STORAGE_MERKLE_ROOT_MULTISIG" using m(2) by auto
  obtain parts cp' bs where p: "multisigDecode ?S md t = ret (MessageIdMultisigMetadata parts cp')"
    "rmap (partsOf ?S) (take n (map (the \<circ> vi_signature) (signedValidators infos))) = ret parts" "cp_index cp' = i" "md = toHexString bs"
    using message_id_reads [OF S c(3) tt] c(2) by metis
  have "length parts = n" using p(2) c(1) by (auto simp: rmap_eq_Inr_iff dest!: list_all2_lengthD)
  then have "reads ?S r (MultisigM (MessageIdMultisigMetadata parts cp'))" using r md p(2,3) reads_multisig by auto
  moreover have "decodeIsmMetadata E ctx md m = ret (MultisigM (MessageIdMultisigMetadata parts cp'))"
    using m p(1) by (auto simp: decodeIsmMetadata.simps multisigTypes_def)
  ultimately show "\<exists>x bs. md = toHexString bs \<and> decodeIsmMetadata E ctx md m = ret x \<and> reads ?S r x" using p(4) by blast
qed

lemma aggregationBuild_shape:
  assumes run: "aggregationBuild E base (Suc d) m s = (ret r, s')"
    and base: "\<And>x s r s'. x \<in> set (modules m) \<Longrightarrow> base x s = (ret r, s') \<Longrightarrow> readable E ctx x r"
  obtains rs md where "r = AggregationResult (ismType m) (ismAddress m) md (threshold m) rs" "list_all2 (readable E ctx) (modules m) rs"
    "md = None \<or> (\<exists>h. md = Some h \<and> threshold m \<le> length (filter isMetadataBuildable rs)
      \<and> aggregationEncode (firstMetadatas (threshold m) 0 (map metadata rs)) = ret h)"
proof -
  let ?f = "\<lambda>x. op_bind (op_settle (base x)) (\<lambda>r. op_ret (case r of Inl _ \<Rightarrow> failedResult x
      | Inr y \<Rightarrow> if timesOut E x (Suc d) then failedResult x else y))"
  obtain rs s1 where rs: "op_map ?f (modules m) s = (ret rs, s1)"
    and r: "r = AggregationResult (ismType m) (ismAddress m) None (threshold m) rs
      \<or> (\<exists>h. r = AggregationResult (ismType m) (ismAddress m) (Some h) (threshold m) rs \<and> threshold m \<le> length (filter isMetadataBuildable rs)
        \<and> aggregationEncode (firstMetadatas (threshold m) 0 (map metadata rs)) = ret h)"
    using run by (fastforce simp: aggregationBuild_def Let_def op_simps split: prod.splits sum.splits if_splits)
  have f: "readable E ctx x (failedResult x)" for x by (cases x) (simp_all add: readable_def failedResult_def)
  have "list_all2 (readable E ctx) (modules m) rs"
    using op_map_all2 [OF rs]
    by (rule list.rel_mono_strong) (auto simp: op_simps op_settle_def f base split: prod.splits sum.splits if_splits)
  then show ?thesis using that r by blast
qed

text \<open>Every included submodule is decoded to what describes it.\<close>

lemma included_decodes:
  assumes rd: "readable E ctx m r" and h: "metadata r = Some h" and m: "\<exists>t a rl v n ms ds. m = Ism t a rl v n ms ds"
  shows "\<exists>y. decodeIncluded (\<lambda>h m. decodeIsmMetadata E ctx h m) (m, Some h) = ret (Some y) \<and> reads (signature_api.truncate E) r y"
proof -
  obtain x bs where x: "h = toHexString bs" "decodeIsmMetadata E ctx h m = ret x" "reads (signature_api.truncate E) r x"
    using rd h by (auto simp: readable_def)
  have "included (Some h) = Some bs" using x(1) by (simp add: included_def toHexString_not_empty)
  then show ?thesis using x m by (auto simp: decodeIncluded_def)
qed

lemma aggregation_readable:
  assumes run: "aggregationBuild E base (Suc d) m s = (ret r, s')"
    and base: "\<And>x s r s'. x \<in> set ms \<Longrightarrow> base x s = (ret r, s') \<Longrightarrow> readable E ctx x r"
    and m: "m = Ism t a rl v n ms ds" "t \<in> {AGGREGATION, STORAGE_AGGREGATION}"
    and objs: "\<forall>x \<in> set ms. \<exists>t a rl v n ms ds. x = Ism t a rl v n ms ds"
  shows "readable E ctx m r"
  unfolding readable_def
proof (intro allI impI)
  fix md assume md: "metadata r = Some md"
  let ?S = "signature_api.truncate E" and ?dec = "\<lambda>h m. decodeIsmMetadata E ctx h m"
  obtain rs md' where r: "r = AggregationResult t a md' n rs" and rds: "list_all2 (readable E ctx) ms rs"
    and "md' = None \<or> (\<exists>h. md' = Some h \<and> n \<le> length (filter isMetadataBuildable rs) \<and> aggregationEncode (firstMetadatas n 0 (map metadata rs)) = ret h)"
    by (rule aggregationBuild_shape [OF run]) (use base m(1) in auto)
  then have q: "n \<le> length (filter isMetadataBuildable rs)" and enc: "aggregationEncode (firstMetadatas n 0 (map metadata rs)) = ret md"
    using md r by auto
  let ?fs = "firstMetadatas n 0 (map metadata rs)"
  have len: "length rs = length ms" "length ?fs = length ms" using rds by (auto dest: list_all2_lengthD)
  have "\<exists>x. decodeIncluded ?dec (zip ms ?fs ! i) = ret x \<and> (x = None \<longleftrightarrow> ?fs ! i = None)
      \<and> (x = None \<or> (\<exists>y. x = Some y \<and> isMetadataBuildable (rs ! i) \<and> reads ?S (rs ! i) y))" if i: "i < length ms" for i
  proof (cases "?fs ! i")
    case (Some h)
    then have h: "metadata (rs ! i) = Some h" using firstMetadatas_sub [of i "map metadata rs" n 0 h] len i by simp
    have "readable E ctx (ms ! i) (rs ! i)" using rds i by (simp add: list_all2_conv_all_nth)
    from included_decodes [OF this h] objs i Some h len show ?thesis by (auto simp: isMetadataBuildable_def)
  qed (use i len in \<open>simp add: decodeIncluded_def included_def\<close>)
  then obtain xs where xs: "\<And>i. i < length ms \<Longrightarrow> decodeIncluded ?dec (zip ms ?fs ! i) = ret (xs i) \<and> (xs i = None \<longleftrightarrow> ?fs ! i = None)
      \<and> (xs i = None \<or> (\<exists>y. xs i = Some y \<and> isMetadataBuildable (rs ! i) \<and> reads ?S (rs ! i) y))" by metis
  let ?xs = "map xs [0..<length ms]"
  have "rmap (decodeIncluded ?dec) (zip ms ?fs) = ret ?xs"
    using xs len by (auto simp: rmap_eq_Inr_iff list_all2_conv_all_nth)
  then have dec: "decodeIsmMetadata E ctx md m = ret (AggregationMetadata ?xs)"
    using aggregationDecode_encode [OF enc, of ms ?dec] len m by (auto simp: decodeIsmMetadata.simps multisigTypes_def)
  have "length (filter (\<lambda>x. x \<noteq> None) ?xs) = length (filter (\<lambda>f. f \<noteq> None) ?fs)"
    by (rule filter_length_cong) (use xs len in auto)
  moreover have "length (filter (\<lambda>f. f \<noteq> None) (map metadata rs)) = length (filter isMetadataBuildable rs)"
    by (rule filter_length_cong) (auto simp: isMetadataBuildable_def)
  ultimately have "length (filter (\<lambda>x. x \<noteq> None) ?xs) = n" using firstMetadatas_count [of n 0 "map metadata rs"] q by simp
  moreover have "list_all2 (\<lambda>r x. x = None \<or> (\<exists>y. x = Some y \<and> isMetadataBuildable r \<and> reads ?S r y)) rs ?xs"
    unfolding list_all2_conv_all_nth using xs len by fastforce
  ultimately have "reads ?S r (AggregationMetadata ?xs)" using r md reads_aggregation by simp
  moreover obtain bs where "md = toHexString bs" using aggregationEncode_slots [OF enc] by blast
  ultimately show "\<exists>x bs. md = toHexString bs \<and> decodeIsmMetadata E ctx md m = ret x \<and> reads ?S r x" using dec by blast
qed

lemma routing_readable:
  assumes run: "dynamicRoutingBuild E base ctx m s = (ret r, s')"
    and c: "chainNameOf E (msg_origin ctx) = ret c" "msg_originChain ctx = Some c" "c \<noteq> []"
    and m: "m = Ism ROUTING a rl v n ms ds" and sel: "map_of ds c = Some x" "\<exists>t a rl v n ms ds. x = Ism t a rl v n ms ds"
    and base: "\<And>s r s'. base x s = (ret r, s') \<Longrightarrow> readable E ctx x r"
  shows "readable E ctx m r"
proof -
  obtain q s1 s2 where q: "base x s1 = (ret q, s2)" "r = RoutingResult ROUTING a (metadata q) c q"
    using run c m sel by (auto simp: dynamicRoutingBuild_def staticRoutingBuild_def op_simps isDynamicallyRoutedIsmType_def
        DYNAMICALLY_ROUTED_ISM_TYPES_def routedResult_def split: sum.splits prod.splits)
  show ?thesis unfolding readable_def
  proof (intro allI impI)
    fix md assume "metadata r = Some md"
    then have md: "metadata q = Some md" using q(2) by simp
    then obtain y bs where y: "md = toHexString bs" "decodeIsmMetadata E ctx md x = ret y" "reads (signature_api.truncate E) q y"
      using base [OF q(1)] by (auto simp: readable_def)
    have "decodeIsmMetadata E ctx md m = ret (RoutingMetadata ROUTING c y)"
      using m c sel y(2) by (auto simp: decodeIsmMetadata.simps(2) multisigTypes_def)
    then show "\<exists>x bs. md = toHexString bs \<and> decodeIsmMetadata E ctx md m = ret x \<and> reads (signature_api.truncate E) r x"
      using y q(2) md reads_routing by fastforce
  qed
qed

lemma decodable_object: "decodable c m \<Longrightarrow> \<exists>t a rl v n ms ds. m = Ism t a rl v n ms ds"
  by (cases rule: decodable.cases) auto

lemma build_readable:
  assumes S: "signature_laws (signature_api.truncate E)"
    and c: "chainNameOf E (msg_origin ctx) = ret c" "msg_originChain ctx = Some c" "c \<noteq> []"
  shows "decodable c m \<Longrightarrow> metadataBuild E ctx d m s = (ret r, s') \<Longrightarrow> readable E ctx m r"
proof (induction d arbitrary: m s r s')
  case 0
  then show ?case by (simp add: op_simps)
next
  case (Suc d)
  from Suc.prems(1) show ?case
  proof cases
    case (null t a rl v n ms ds)
    then have "nullBuild E ctx m = ret r" using Suc.prems(2) by (auto simp: nullTypes_def op_simps)
    then show ?thesis using null by (intro null_readable) auto
  next
    case (multisig t a rl v n ms ds)
    then have "\<exists>mt s1. multisigBuild E ctx mt m s1 = (ret r, s')"
      using Suc.prems(2) by (auto simp: nullTypes_def multisigTypes_def op_simps split: hook_config.splits sum.splits option.splits; blast)
    then show ?thesis using multisig multisig_readable [OF S] by blast
  next
    case (aggregation t ms a rl v n ds)
    have run: "aggregationBuild E (metadataBuild E ctx d) (Suc d) m s = (ret r, s')"
      using Suc.prems(2) aggregation by (auto simp: nullTypes_def multisigTypes_def routingTypes_def)
    show ?thesis
      by (rule aggregation_readable [OF run _ aggregation(1,2)]) (use aggregation(3) Suc.IH decodable_object in auto)
  next
    case (routing ds x a rl v n ms)
    have run: "dynamicRoutingBuild E (metadataBuild E ctx d) ctx m s = (ret r, s')"
      using Suc.prems(2) routing by (auto simp: nullTypes_def multisigTypes_def routingTypes_def)
    show ?thesis
      by (rule routing_readable [OF run c routing(1,2)]) (use routing(3) Suc.IH decodable_object in auto)
  qed
qed


section \<open>An example\<close>

text \<open>A routing to an aggregation that needs one of a trusted relayer and a multisig of two validators.\<close>

definition ex_relayer_env :: "(unit, string, unit) relayer_env" where
  "ex_relayer_env = \<lparr>joinSignature = joinSignature ex_signatures, splitSignature = splitSignature ex_signatures,
     chainNameOf = (\<lambda>_. ret ''alpha''), signerAddressOf = (\<lambda>_. ret ''me''), providerOf = (\<lambda>_. ret ()),
     sameAddress = (=), sameAddressEvm = (=), getAddress = ret, log_address = (\<lambda>_. ''0xtree''),
     parseMerkleLog = (\<lambda>_. ret (Some ''0xid'', 7)), validatorAliases = (\<lambda>_. None),
     getAnnouncedStorageLocations = (\<lambda>_ vs. ret (map (\<lambda>v. [v]) vs)), getValidatorFromStorageLocation = ret,
     getCheckpoint = (\<lambda>v i. ret (Some \<lparr>s3_value = \<lparr>cw_checkpoint = \<lparr>cp_root = ex_hash 3, cp_index = i,
         merkle_tree_hook_address = ''0xtree'', mailbox_domain = 5\<rparr>, message_id = ''0xid''\<rparr>, s3_signature = ex_signature\<rparr>)),
     routeOf = (\<lambda>_ _. throw TypeError), moduleOf = (\<lambda>_ _. throw TypeError), deriveIsmConfig = (\<lambda>_. throw TypeError),
     timesOut = (\<lambda>_ _. False), arbOf = ex_arb BridgeConfirmed,
     ccipOf = \<lparr>getOffchainVerifyInfo = (\<lambda>_ _. None), parseError = (\<lambda>_. throw TypeError), signLookup = (\<lambda>_ _ _. throw TypeError),
       fetchGet = (\<lambda>_. throw TypeError), fetchPost = (\<lambda>_ _ _ _. throw TypeError)\<rparr>\<rparr>"

definition ex_context :: "unit MetadataContext" where
  "ex_context = \<lparr>msg_id = ''0xid'', msg_message = ''0x00'', msg_origin = 5, msg_destination = 2, msg_originChain = Some ''alpha'',
     dispatchLogs = [()], ctx_hook = HookNode (Some ''merkleTreeHook'') (Some ''0xtree'') []\<rparr>"

definition ex_multisig :: ism where
  "ex_multisig = Ism MESSAGE_ID_MULTISIG ''0xm'' '''' [''v1'', ''v2''] 2 [] []"

definition ex_trusted :: ism where
  "ex_trusted = Ism TRUSTED_RELAYER ''0xt'' ''me'' [] 0 [] []"

definition ex_routing :: ism where
  "ex_routing = Ism ROUTING ''0xr'' '''' [] 0 [] [(''alpha'', Ism AGGREGATION ''0xa'' '''' [] 1 [ex_trusted, ex_multisig] [])]"

lemma ex_decodable: "decodable ''alpha'' ex_routing"
proof -
  have "decodable ''alpha'' ex_trusted" "decodable ''alpha'' ex_multisig"
    by (simp_all add: ex_trusted_def ex_multisig_def decodable.null decodable.multisig)
  then have "decodable ''alpha'' (Ism AGGREGATION ''0xa'' '''' [] 1 [ex_trusted, ex_multisig] [])"
    by (intro decodable.aggregation) auto
  then show ?thesis unfolding ex_routing_def by (intro decodable.routing) auto
qed

lemma ex_trusted_build: "metadataBuild ex_relayer_env ex_context (Suc 0) ex_trusted s = (ret (NullResult TRUSTED_RELAYER ''0xt'' ''0x''), s)"
  by (simp add: ex_trusted_def nullTypes_def nullBuild_def ex_relayer_env_def NULL_METADATA_def op_simps)

lemma ex_relayer_laws: "signature_laws (signature_api.truncate ex_relayer_env)"
  using ex_signature_laws by (simp add: signature_laws_def ex_relayer_env_def signature_api.defs)

lemma ex_routing_build:
  "\<exists>r s' md. metadataBuild ex_relayer_env ex_context (Suc (Suc (Suc 0))) ex_routing [] = (ret r, s') \<and> metadata r = Some md"
proof -
  obtain v s1 where m: "metadataBuild ex_relayer_env ex_context (Suc 0) ex_multisig [] = (v, s1)" by fastforce
  have to: "\<not> timesOut ex_relayer_env ex_trusted (Suc (Suc 0))" by (simp add: ex_relayer_env_def)
  have e: "\<exists>h. aggregationEncode (firstMetadatas 1 0 [Some ''0x'', md]) = ret h" for md
    by (cases md) (simp_all add: aggregationEncode_def encodeSubmodule_def range_defs writeUInt32BE_def Let_def fromHexString_def strip0x_def startsWith_def)
  have "\<exists>r s' md. aggregationBuild ex_relayer_env (metadataBuild ex_relayer_env ex_context (Suc 0)) (Suc (Suc 0))
      (Ism AGGREGATION ''0xa'' '''' [] 1 [ex_trusted, ex_multisig] []) [] = (ret r, s') \<and> metadata r = Some md"
    using e [of "metadata (case v of Inl _ \<Rightarrow> failedResult ex_multisig
        | Inr x \<Rightarrow> if timesOut ex_relayer_env ex_multisig (Suc (Suc 0)) then failedResult ex_multisig else x)"] m ex_trusted_build [of "[]"] to
    by (auto simp: aggregationBuild_def op_simps op_settle_def isMetadataBuildable_def simp del: metadataBuild.simps)
  then show ?thesis
    by (auto simp: ex_routing_def nullTypes_def multisigTypes_def routingTypes_def dynamicRoutingBuild_def staticRoutingBuild_def op_simps
        isDynamicallyRoutedIsmType_def DYNAMICALLY_ROUTED_ISM_TYPES_def ex_relayer_env_def [THEN arg_cong [of _ _ chainNameOf]]
        ex_relayer_env_def [THEN arg_cong [of _ _ providerOf]] routedResult_def)
qed


end
