(* ===== verification/Multisig_Quorum.thy ===== *)
theory Multisig_Quorum
  imports Metadata_Decoder
begin

text \<open>
  What a multisig build says of its validators: every configured validator appears once, in order; only checkpoints that match the
  message count as signed; and metadata is there exactly when the signed ones reach the threshold. And the cache
  of checkpoint validators: an entry that is there stays as it is.
\<close>

section \<open>Validators\<close>

text \<open>
  A validator has signed: the one that is cached for its address returned a checkpoint at the index of the message, with the fields of the
  message, and its signature is listed.
\<close>

definition signed_by ::
    "('log, 'v, 'ev) relayer_env \<Rightarrow> (string, 'v option) dict \<Rightarrow> checkpoint_match \<Rightarrow> ValidatorInfo \<Rightarrow> bool" where
  "signed_by E vs match info \<longleftrightarrow> (\<exists>v cp hook. map_of vs (vi_address info) = Some (Some v)
     \<and> getCheckpoint E v (m_index match) = ret (Some cp)
     \<and> bytes32ToAddress E (merkle_tree_hook_address (cw_checkpoint (s3_value cp))) = ret hook \<and> sameAddress E hook (m_merkleTree match)
     \<and> message_id (s3_value cp) = m_messageId match \<and> cp_index (cw_checkpoint (s3_value cp)) = m_index match
     \<and> mailbox_domain (cw_checkpoint (s3_value cp)) = m_origin match
     \<and> vi_signature info = Some (s3_signature cp) \<and> vi_checkpointIndex info = Some (m_index match))"

lemma validatorInfo_cases:
  assumes "validatorInfo E chain match (address, fetched) = ret (info, c)"
    and "\<And>cp. fetched = ret (Some cp) \<Longrightarrow> \<exists>v. map_of vs address = Some (Some v) \<and> getCheckpoint E v (m_index match) = ret (Some cp)"
  shows "vi_address info = address \<and> (vi_status info = Signed \<longleftrightarrow> c \<noteq> None) \<and> (vi_status info = Signed \<longrightarrow> signed_by E vs match info)"
proof (cases "\<exists>cp. fetched = ret (Some cp) \<and> checkpointMatches E cp match = ret True")
  case True
  then obtain cp where cp: "fetched = ret (Some cp)" "checkpointMatches E cp match = ret True" by blast
  then obtain v where "map_of vs address = Some (Some v)" "getCheckpoint E v (m_index match) = ret (Some cp)" using assms(2) by blast
  with cp assms(1) show ?thesis
    by (auto simp: validatorInfo_def signed_by_def checkpointMatches_def Let_def rbind_eq_Inr_iff)
next
  case False
  then show ?thesis using assms(1)
    by (auto simp: validatorInfo_def Let_def rbind_eq_Inr_iff split: sum.splits option.splits if_splits)
qed

lemma fetched_checkpoint:
  assumes "fetchValidatorCheckpoints E vs match s = (ret (chain, results), s')"
  shows "chainNameOf E (m_origin match) = ret chain" and "length results = length vs"
    and "\<And>k cp. k < length vs \<Longrightarrow> results ! k = ret (Some cp) \<Longrightarrow>
      \<exists>v. map_of (cached s' chain) (vs ! k) = Some (Some v) \<and> getCheckpoint E v (m_index match) = ret (Some cp)"
proof -
  obtain cs where c: "chainNameOf E (m_origin match) = ret chain" and cs: "checkpointValidators E chain vs s = (ret cs, s')"
    "results = map (\<lambda>validator. case validator of
      None \<Rightarrow> throw (Thrown ''No valid storage location for validator'' '''') | Some v \<Rightarrow> getCheckpoint E v (m_index match)) cs"
    using assms by (auto simp: fetchValidatorCheckpoints_def op_simps split: prod.splits sum.splits)
  have "cs = map (\<lambda>v. Option.bind (map_of (cached s' chain) v) id) vs"
    using cs(1) by (auto simp: checkpointValidators_def op_simps op_when_def split: prod.splits sum.splits if_splits)
  note r = cs(2) [unfolded this]
  show "chainNameOf E (m_origin match) = ret chain" by (rule c)
  show "length results = length vs" using r by simp
  show "\<exists>v. map_of (cached s' chain) (vs ! k) = Some (Some v) \<and> getCheckpoint E v (m_index match) = ret (Some cp)"
    if "k < length vs" "results ! k = ret (Some cp)" for k cp
    using that r by (auto split: option.splits simp: bind_eq_Some_conv)
qed

lemma getValidatorInfos_cases:
  assumes run: "getValidatorInfos E vs match s = (ret (infos, c), s')"
  shows "map vi_address infos = vs"
    and "\<exists>chain. chainNameOf E (m_origin match) = ret chain
      \<and> (\<forall>info \<in> set infos. vi_status info = Signed \<longrightarrow> signed_by E (cached s' chain) match info)"
    and "c = None \<longleftrightarrow> signedValidators infos = []"
proof -
  obtain chain results ps where f: "fetchValidatorCheckpoints E vs match s = (ret (chain, results), s')"
    and ps: "rmap (validatorInfo E chain match) (zip vs results) = ret ps" "infos = map fst ps"
      "c = (case List.map_filter snd ps of [] \<Rightarrow> None | cp # _ \<Rightarrow> Some cp)"
    using run by (fastforce simp: getValidatorInfos_def op_simps split: prod.splits sum.splits)
  note fetched = fetched_checkpoint [OF f]
  have all: "list_all2 (\<lambda>z p. validatorInfo E chain match z = ret p) (zip vs results) ps" using ps(1) by (simp add: rmap_eq_Inr_iff)
  have i: "vi_address (fst (ps ! k)) = vs ! k \<and> (vi_status (fst (ps ! k)) = Signed \<longleftrightarrow> snd (ps ! k) \<noteq> None)
      \<and> (vi_status (fst (ps ! k)) = Signed \<longrightarrow> signed_by E (cached s' chain) match (fst (ps ! k)))" if k: "k < length vs" for k
  proof (rule validatorInfo_cases)
    show "validatorInfo E chain match (vs ! k, results ! k) = ret (fst (ps ! k), snd (ps ! k))"
      using all k fetched(2) by (simp add: list_all2_conv_all_nth)
  qed (rule fetched(3) [OF k])
  have l: "length ps = length vs" using all fetched(2) by (auto dest: list_all2_lengthD)
  show "map vi_address infos = vs" using i l ps(2) by (auto intro: nth_equalityI)
  show "\<exists>chain. chainNameOf E (m_origin match) = ret chain
      \<and> (\<forall>info \<in> set infos. vi_status info = Signed \<longrightarrow> signed_by E (cached s' chain) match info)"
    unfolding ps(2) set_map by (rule exI [of _ chain]) (auto simp: in_set_conv_nth l fetched(1) dest!: i)
  have "signedValidators infos = [] \<longleftrightarrow> (\<forall>k < length ps. snd (ps ! k) = None)"
  proof -
    have "signedValidators infos = [] \<longleftrightarrow> (\<forall>k < length ps. vi_status (fst (ps ! k)) \<noteq> Signed)"
      unfolding signedValidators_def filter_empty_conv ps(2) all_set_conv_all_nth by simp
    then show ?thesis using i l by simp
  qed
  moreover have "List.map_filter snd ps = [] \<longleftrightarrow> (\<forall>k < length ps. snd (ps ! k) = None)"
    by (auto simp: List.map_filter_def filter_empty_conv all_set_conv_all_nth)
  ultimately show "c = None \<longleftrightarrow> signedValidators infos = []" using ps(3) by (auto split: list.splits)
qed

text \<open>
  C12. The result of a multisig build lists every configured validator in order. A validator counts as signed only when the
  checkpoint validator that is cached for its address returned a checkpoint for the Merkle tree, the origin, the message and the index of the
  message's insertion, whose signature is listed. Metadata is there exactly when somebody signed and the
  signed validators reach the threshold.
\<close>

theorem multisig_quorum:
  assumes "multisigBuild E ctx mt m s = (ret r, s')"
  shows "\<exists>md infos i chain. r = MultisigResult (ismType m) (ismAddress m) md (threshold m) infos i
    \<and> map vi_address infos = ismValidators m \<and> chainNameOf E (msg_origin ctx) = ret chain
    \<and> (\<forall>info \<in> set (signedValidators infos). signed_by E (cached s' chain)
         \<lparr>m_origin = msg_origin ctx, m_merkleTree = mt, m_messageId = msg_id ctx, m_index = i\<rparr> info)
    \<and> (md \<noteq> None \<longleftrightarrow> signedValidators infos \<noteq> [] \<and> threshold m \<le> length (signedValidators infos))"
proof -
  obtain infos i c s1 where g: "getValidatorInfos E (ismValidators m) \<lparr>m_origin = msg_origin ctx, m_merkleTree = mt,
      m_messageId = msg_id ctx, m_index = i\<rparr> s1 = (ret (infos, c), s')"
    and r: "\<exists>md. r = MultisigResult (ismType m) (ismAddress m) md (threshold m) infos i
      \<and> (md \<noteq> None \<longleftrightarrow> c \<noteq> None \<and> threshold m \<le> length (signedValidators infos))"
    using assms
    by (auto simp: multisigBuild_def op_simps Let_def split: prod.splits sum.splits option.splits if_splits)
  show ?thesis using r getValidatorInfos_cases [OF g] by (auto simp: signedValidators_def)
qed

section \<open>The cache\<close>

text \<open>
  No build replaces an entry of the cache, whether it returns or throws: a validator that could not be initialized
  is not tried again, and one that could is kept.
\<close>

definition cache_extends :: "'v validator_cache \<Rightarrow> 'v validator_cache \<Rightarrow> bool" where
  "cache_extends c0 c \<longleftrightarrow> (\<forall>chain v x. map_of (cached c0 chain) v = Some x \<longrightarrow> map_of (cached c chain) v = Some x)"

lemma cached_update: "cached (AList.update chain d c) chain' = (if chain' = chain then d else cached c chain')"
  by (simp add: cached_def update_conv)

lemma fold_update_other:
  "v \<notin> snd ` set ivs \<Longrightarrow> map_of (fold (\<lambda>(i, v) c. AList.update v (f i) c) ivs d) v = map_of d v"
  by (induction ivs arbitrary: d) (auto simp: update_conv)

lemma snd_enumerate: "snd ` set (enumerate n xs) = set xs"
  by (metis list.set_map map_snd_enumerate)

lemma cache_checkpointValidators: "keeps (cache_extends c0) (checkpointValidators E chain vs)"
  unfolding checkpointValidators_def keeps_def
proof (intro allI impI)
  fix s assume s: "cache_extends c0 s"
  define c where "c = (if map_of s chain = None then AList.update chain [] s else s)"
  have c: "cached c = cached s" by (auto simp: c_def cached_update fun_eq_iff) (simp add: cached_def)
  have e: "cache_extends c0 c" using s by (simp add: cache_extends_def c)
  have u: "cache_extends c0 (AList.update chain (fold (\<lambda>(i, v) d. AList.update v (g i) d)
      (enumerate 0 (filter (\<lambda>v. map_of (cached c chain) v = None) vs)) (cached c chain)) c)" for g
    unfolding cache_extends_def
  proof (intro allI impI)
    fix chain' v x assume x: "map_of (cached c0 chain') v = Some x"
    then have "map_of (cached c chain') v = Some x" using e by (simp add: cache_extends_def)
    moreover from this have "v \<notin> snd ` set (enumerate 0 (filter (\<lambda>v. map_of (cached c chain) v = None) vs))" if "chain' = chain"
      using that by (simp add: snd_enumerate)
    ultimately show "map_of (cached (AList.update chain (fold (\<lambda>(i, v) d. AList.update v (g i) d)
        (enumerate 0 (filter (\<lambda>v. map_of (cached c chain) v = None) vs)) (cached c chain)) c) chain') v = Some x"
      by (cases "chain' = chain") (simp_all add: cached_update fold_update_other)
  qed
  show "cache_extends c0 (snd (op_seq (op_modify (\<lambda>cache. if map_of cache chain = None then AList.update chain [] cache else cache))
     (op_bind (op_gets (\<lambda>cache. filter (\<lambda>v. map_of (cached cache chain) v = None) vs)) (\<lambda>toFetch.
      op_seq (op_when (toFetch \<noteq> [])
        (op_bind (op_lift (getAnnouncedStorageLocations E chain toFetch)) (\<lambda>storageLocations.
           op_modify (\<lambda>cache. AList.update chain (fold (\<lambda>(i, v) c.
               AList.update v (if i < length storageLocations then validatorOf E (storageLocations ! i) else None) c)
             (enumerate 0 toFetch) (cached cache chain)) cache))))
      (op_gets (\<lambda>cache. map (\<lambda>v. Option.bind (map_of (cached cache chain) v) id) vs)))) s))"
    using e u by (simp add: op_simps op_when_def c_def [symmetric] split: sum.split)
qed

lemma cache_multisig: "keeps (cache_extends c0) (multisigBuild E ctx mt m)"
  unfolding multisigBuild_def getValidatorInfos_def fetchValidatorCheckpoints_def Let_def
  by (intro keeps_bind keeps) (auto split: option.split prod.split intro!: keeps cache_checkpointValidators)

lemma cache_build: "keeps (cache_extends c0) (metadataBuild E ctx d m)"
proof (induction d arbitrary: m)
  case (Suc d)
  have agg: "keeps (cache_extends c0) (aggregationBuild E (metadataBuild E ctx d) (Suc d) m)" for m
    unfolding aggregationBuild_def Let_def by (intro keeps_if keeps Suc.IH)
  have route: "keeps (cache_extends c0) (dynamicRoutingBuild E (metadataBuild E ctx d) ctx m)" for m
    unfolding dynamicRoutingBuild_def staticRoutingBuild_def Let_def by (auto split: option.split intro!: keeps Suc.IH)
  show ?case
    by (auto split: ism.split hook_config.split option.split intro!: keeps agg route cache_multisig)
qed (simp add: keeps)

section \<open>An example\<close>

lemma encodeSimplePrefix_returns: "cp_index cp < 2 ^ 32 \<Longrightarrow> \<exists>xs. encodeSimplePrefix cp = ret (toHexString xs)"
  by (auto simp: encodeSimplePrefix_def Let_def writeUInt32BE_def writeHex_length)

definition ex_checkpoint :: "nat \<Rightarrow> S3CheckpointWithId" where
  "ex_checkpoint i = \<lparr>s3_value = \<lparr>cw_checkpoint = \<lparr>cp_root = ex_hash 3, cp_index = i,
     merkle_tree_hook_address = ''0xtree'', mailbox_domain = 5\<rparr>, message_id = ''0xid''\<rparr>, s3_signature = ex_signature\<rparr>"

lemma ex_relayer_sel:
  "chainNameOf ex_relayer_env d = ret ''alpha''" "getCheckpoint ex_relayer_env v i = ret (Some (ex_checkpoint i))"
  "getAnnouncedStorageLocations ex_relayer_env c vs = ret (map (\<lambda>v. [v]) vs)" "getValidatorFromStorageLocation ex_relayer_env l = ret l"
  "sameAddress ex_relayer_env = (=)" "getAddress ex_relayer_env = ret" "validatorAliases ex_relayer_env c = None"
  "sameAddressEvm ex_relayer_env = (=)" "log_address ex_relayer_env x = ''0xtree''" "parseMerkleLog ex_relayer_env x = ret (Some ''0xid'', 7)"
  by (simp_all add: ex_relayer_env_def ex_checkpoint_def)

abbreviation "ex_match \<equiv> \<lparr>m_origin = 5, m_merkleTree = ''0xtree'', m_messageId = ''0xid'', m_index = 7\<rparr>"

lemma ex_fetch:
  "\<exists>s'. fetchValidatorCheckpoints ex_relayer_env [''v1'', ''v2''] ex_match []
     = (ret (''alpha'', [ret (Some (ex_checkpoint 7)), ret (Some (ex_checkpoint 7))]), s')"
  by (simp add: fetchValidatorCheckpoints_def checkpointValidators_def validatorOf_def cached_def op_simps ex_relayer_sel)

lemma ex_info: "validatorInfo ex_relayer_env ''alpha'' ex_match (a, ret (Some (ex_checkpoint 7)))
    = ret (\<lparr>vi_address = a, vi_alias = None, vi_status = Signed, vi_signature = Some ex_signature, vi_checkpointIndex = Some 7, vi_error = None\<rparr>,
        Some (cw_checkpoint (s3_value (ex_checkpoint 7))))"
  by (simp add: validatorInfo_def checkpointMatches_def bytes32ToAddress_def getValidatorAlias_def ex_relayer_sel ex_checkpoint_def Let_def)

lemma ex_infos:
  "\<exists>infos c s'. getValidatorInfos ex_relayer_env [''v1'', ''v2''] ex_match [] = (ret (infos, Some c), s')
     \<and> map vi_signature (signedValidators infos) = [Some ex_signature, Some ex_signature] \<and> cp_index c = 7"
proof -
  obtain s' where f: "fetchValidatorCheckpoints ex_relayer_env [''v1'', ''v2''] ex_match []
     = (ret (''alpha'', [ret (Some (ex_checkpoint 7)), ret (Some (ex_checkpoint 7))]), s')" using ex_fetch by blast
  show ?thesis unfolding getValidatorInfos_def
    by (simp add: f op_simps ex_info map_filter_Cons map_filter_Nil signedValidators_def) (simp add: ex_checkpoint_def)
qed

lemma ex_multisig_build: "\<exists>r s'. multisigBuild ex_relayer_env ex_context ''0xtree'' ex_multisig [] = (ret r, s')"
proof -
  obtain infos c s' where i: "getValidatorInfos ex_relayer_env [''v1'', ''v2''] ex_match [] = (ret (infos, Some c), s')"
    "map vi_signature (signedValidators infos) = [Some ex_signature, Some ex_signature]" "cp_index c = 7"
    using ex_infos by (elim exE conjE) (rule that)
  let ?S = "signature_api.truncate ex_relayer_env"
  have "\<exists>h. joinSignature ?S ex_signature = ret h" using ex_parts(2) by (simp add: ex_relayer_env_def signature_api.defs)
  then have "\<exists>md. rfold (appendSignature ?S) (toHexString xs) sigs = ret md" if "set sigs \<subseteq> {ex_signature}" for xs sigs
    by (intro appendSignatures_return [OF ex_relayer_laws]) (use that in blast)
  moreover have "\<exists>xs. encodeSimplePrefix (MultisigCheckpoint.truncate c) = ret (toHexString xs)"
    by (rule encodeSimplePrefix_returns) (simp add: MultisigCheckpoint.defs i(3))
  moreover have "set (take 2 (map (the \<circ> vi_signature) (signedValidators infos))) \<subseteq> {ex_signature}"
    using arg_cong [OF i(2), of "map the"] by (simp add: numeral_2_eq_2)
  ultimately have "\<exists>md. multisigEncode ?S (MessageIdMultisigMetadata (take 2 (map (the \<circ> vi_signature) (signedValidators infos)))
      (MultisigCheckpoint.truncate c)) = ret md" by (fastforce simp: multisigEncode_def)
  then show ?thesis using i(1)
    by (auto simp: multisigBuild_def ex_multisig_def ex_context_def op_simps ex_relayer_sel Let_def)
qed

theorem multisig_quorum_witness:
  "\<exists>s' md infos i. multisigBuild ex_relayer_env ex_context ''0xtree'' ex_multisig []
       = (ret (MultisigResult MESSAGE_ID_MULTISIG ''0xm'' md 2 infos i), s') \<and> map vi_address infos = [''v1'', ''v2'']
     \<and> (md \<noteq> None) = (2 \<le> length (signedValidators infos))"
proof -
  obtain r s' where b: "multisigBuild ex_relayer_env ex_context ''0xtree'' ex_multisig [] = (ret r, s')" using ex_multisig_build by blast
  obtain md infos i where r: "r = MultisigResult MESSAGE_ID_MULTISIG ''0xm'' md 2 infos i" "map vi_address infos = [''v1'', ''v2'']"
      "md \<noteq> None \<longleftrightarrow> signedValidators infos \<noteq> [] \<and> 2 \<le> length (signedValidators infos)"
    using multisig_quorum [OF b] by (elim exE conjE) (rule that, simp_all add: ex_multisig_def)
  then have "(md \<noteq> None) = (2 \<le> length (signedValidators infos))" by (cases "signedValidators infos") auto
  with b [unfolded r(1)] r(2) show ?thesis by (intro exI conjI)
qed

end
