(* ===== verification/JS_Objects.thy ===== *)
theory JS_Objects
  imports JS_Prelude
begin

text \<open>
  \<open>typescript/utils/src/objects.ts\<close>: merging, comparing and filtering of configuration objects.

  A value is undefined, null, a primitive, an array or an object; an object is a dictionary of its own enumerable
  properties. Numbers are finite. Two arguments of \<open>diffObjMerge\<close> share no array, so that \<open>===\<close> on arrays is false. \<open>isEqual\<close> of lodash is
  \<open>deepEquals\<close>: equality up to the order of properties.
\<close>

section \<open>Values\<close>

datatype jsval =
    VUndefined
  | VNull
  | VBool bool
  | VNum rat
  | VStr string
  | VArr "jsval list"
  | VObj "(string \<times> jsval) list"

definition isNullish :: "jsval \<Rightarrow> bool" where
  "isNullish v \<longleftrightarrow> v = VNull \<or> v = VUndefined"

fun isTruthy :: "jsval \<Rightarrow> bool" where
  "isTruthy VUndefined = False"
| "isTruthy VNull = False"
| "isTruthy (VBool b) = b"
| "isTruthy (VNum n) = (n \<noteq> 0)"
| "isTruthy (VStr s) = (s \<noteq> [])"
| "isTruthy (VArr _) = True"
| "isTruthy (VObj _) = True"

fun isObject :: "jsval \<Rightarrow> bool" where
  "isObject (VObj _) = True"
| "isObject _ = False"

fun isArray :: "jsval \<Rightarrow> bool" where
  "isArray (VArr _) = True"
| "isArray _ = False"

text \<open>\<open>Object.entries\<close> of an object, the elements of an array, and the property \<open>v[key]\<close>.\<close>

fun entries :: "jsval \<Rightarrow> (string \<times> jsval) list" where
  "entries (VObj ps) = ps"
| "entries _ = []"

fun elements :: "jsval \<Rightarrow> jsval list" where
  "elements (VArr xs) = xs"
| "elements _ = []"

abbreviation keys :: "jsval \<Rightarrow> string list" where
  "keys v \<equiv> map fst (entries v)"

definition propOf :: "jsval \<Rightarrow> string \<Rightarrow> jsval" where
  "propOf v key = (case map_of (entries v) key of Some x \<Rightarrow> x | None \<Rightarrow> VUndefined)"

definition setProp :: "string \<Rightarrow> jsval \<Rightarrow> jsval \<Rightarrow> jsval" where
  "setProp key x v = VObj (AList.update key x (entries v))"

text \<open>\<open>Object.fromEntries\<close>: the last value of a key counts.\<close>

definition fromEntries :: "(string \<times> jsval) list \<Rightarrow> jsval" where
  "fromEntries ps = foldl (\<lambda>v (k, x). setProp k x v) (VObj []) ps"

definition isObjEmpty :: "jsval \<Rightarrow> bool" where
  "isObjEmpty v \<longleftrightarrow> (case v of VObj ps \<Rightarrow> ps = [] | VArr xs \<Rightarrow> xs = [] | VStr s \<Rightarrow> s = [] | _ \<Rightarrow> True)"

lemma isObject_iff: "isObject v \<longleftrightarrow> (\<exists>ps. v = VObj ps)"
  by (cases v) auto

lemma isArray_iff: "isArray v \<longleftrightarrow> (\<exists>xs. v = VArr xs)"
  by (cases v) auto

lemma size_map_of: "map_of ps k = Some x \<Longrightarrow> size x < Suc (size_list (size_prod (\<lambda>_. 0) size) ps)"
  by (induction ps) (auto split: if_splits)

lemma size_prop: "k \<in> set (keys v) \<Longrightarrow> size (propOf v k) < size v"
proof -
  assume k: "k \<in> set (keys v)"
  then obtain ps where v: "v = VObj ps" by (cases v) auto
  then obtain x where "map_of ps k = Some x" using k by (metis entries.simps(1) map_of_eq_None_keys not_None_eq)
  then show "size (propOf v k) < size v" using size_map_of [of ps k x] v by (simp add: propOf_def)
qed

lemma size_entry: "(k, x) \<in> set (entries v) \<Longrightarrow> size (propOf v k) < size v"
  by (rule size_prop) force

lemma size_elements: "x \<in> set (elements v) \<Longrightarrow> size x < size v"
  by (cases v) (auto dest: size_list_estimation' [of _ _ _ size] simp: less_Suc_eq_le)

lemma prop_missing [simp]: "k \<notin> set (keys v) \<Longrightarrow> propOf v k = VUndefined"
  by (metis map_of_eq_None_keys option.simps(4) propOf_def)

lemma prop_setProp [simp]: "propOf (setProp k x v) k' = (if k' = k then x else propOf v k')"
  by (simp add: propOf_def setProp_def)

lemma rmap_fundef_cong [fundef_cong]:
  "xs = ys \<Longrightarrow> (\<And>x. x \<in> set ys \<Longrightarrow> f x = g x) \<Longrightarrow> rmap f xs = rmap g ys"
  by (induction xs arbitrary: ys) auto

section \<open>Merging\<close>

text \<open>\<open>objMerge max_depth mergeArrays a b\<close>.\<close>

primrec objMerge :: "nat \<Rightarrow> bool \<Rightarrow> jsval \<Rightarrow> jsval \<Rightarrow> jsval result" where
  "objMerge 0 mergeArrays a b = throw (Thrown ''objMerge tried to go too deep'' '''')"
| "objMerge (Suc depth) mergeArrays a b =
     (if \<not> isObject a \<or> \<not> isObject b then ret (if isNullish b then a else b)
      else rfold (\<lambda>r (key, bv).
          let av = propOf a key in
          if isObject av \<and> isObject bv then rbind (objMerge depth mergeArrays av bv) (\<lambda>m. ret (setProp key m r))
          else if mergeArrays \<and> isArray av \<and> isArray bv then ret (setProp key (VArr (elements bv @ elements av)) r)
          else if bv \<noteq> VUndefined then ret (setProp key bv r)
          else ret r) a (entries b))"

section \<open>Equality\<close>

text \<open>\<open>deepEquals\<close>: lodash compares objects by their keys and values and arrays in order.\<close>

function deepEquals :: "jsval \<Rightarrow> jsval \<Rightarrow> bool" where
  "deepEquals v1 v2 \<longleftrightarrow>
     (if isObject v1 \<and> isObject v2
      then set (keys v1) = set (keys v2) \<and> (\<forall>k \<in> set (keys v1). deepEquals (propOf v1 k) (propOf v2 k))
      else if isArray v1 \<and> isArray v2
      then length (elements v1) = length (elements v2)
        \<and> (\<forall>(x, y) \<in> set (zip (elements v1) (elements v2)). deepEquals x y)
      else v1 = v2)"
  by pat_completeness auto
termination
  by (relation "measure (\<lambda>(v1, _). size v1)") (auto intro: size_entry dest: set_zip_leftD size_elements)

declare deepEquals.simps [simp del]

section \<open>Removing fields\<close>

primrec objOmit :: "nat \<Rightarrow> bool \<Rightarrow> jsval \<Rightarrow> jsval \<Rightarrow> jsval result" where
  "objOmit 0 sliceArrays a b = throw (Thrown ''objSlice tried to go too deep'' '''')"
| "objOmit (Suc depth) sliceArrays a b =
     (if \<not> isObject a \<or> \<not> isObject b then ret a
      else rfold (\<lambda>r (key, av).
          if List.member (keys b) key then
            (let bv = propOf b key in
             if sliceArrays \<and> isArray av \<and> isArray bv
             then ret (setProp key (VArr (filter (\<lambda>v. \<not> list_ex (deepEquals v) (elements bv)) (elements av))) r)
             else if isObject av \<and> isObject bv
             then rbind (objOmit depth sliceArrays av bv) (\<lambda>sliced. ret (if entries sliced \<noteq> [] then setProp key sliced r else r))
             else if \<not> isTruthy bv then rbind (objOmit depth sliceArrays av bv) (\<lambda>x. ret (setProp key x r))
             else ret r)
          else ret (setProp key av r)) (VObj []) (entries a))"

section \<open>Differences\<close>

definition diff_entry :: "jsval \<Rightarrow> jsval \<Rightarrow> jsval" where
  "diff_entry actual expected = VObj [(''actual'', actual), (''expected'', expected)]"

definition orEmpty :: "jsval \<Rightarrow> jsval" where
  "orEmpty v = (if isNullish v then VStr [] else v)"

text \<open>
  \<open>diffObjMerge maxDepth actual expected\<close> returns the merged object and \<open>isInvalid\<close>. The elements of an array are compared
  with the default depth of 10 again, as in the source.
\<close>

function diffObjMerge :: "nat \<Rightarrow> jsval \<Rightarrow> jsval \<Rightarrow> (jsval \<times> bool) result" where
  "diffObjMerge maxDepth actual expected =
     (if maxDepth = 0 then throw (Thrown ''diffObjMerge tried to go too deep'' '''')
      else if \<not> isObject actual \<and> \<not> isObject expected \<and> \<not> isArray actual \<and> actual = expected then ret (actual, False)
      else if isNullish actual \<and> isNullish expected then ret (VUndefined, False)
      else if isObject actual \<and> isObject expected then
        rbind (rmap (\<lambda>key.
            if List.member (keys actual) key \<and> List.member (keys expected) key then
              rbind (diffObjMerge (maxDepth - 1) (propOf actual key) (propOf expected key)) (\<lambda>(m, i). ret (Some (key, m), i))
            else if List.member (keys actual) key \<and> \<not> isNullish (propOf actual key) then
              ret (Some (key, diff_entry (propOf actual key) (VStr [])), True)
            else if \<not> isNullish (propOf expected key) then
              ret (Some (key, diff_entry (VStr []) (propOf expected key)), True)
            else ret (None, False)) (remdups (keys actual @ filter (\<lambda>k. \<not> List.member (keys actual) k) (keys expected))))
          (\<lambda>rs. ret (VObj (List.map_filter fst rs), list_ex snd rs))
      else if isArray actual \<and> isArray expected \<and> length (elements actual) = length (elements expected) then
        rbind (rmap (\<lambda>(x, y). diffObjMerge 10 x y) (zip (elements actual) (elements expected)))
          (\<lambda>rs. ret (VArr (map fst rs), list_ex snd rs))
      else ret (VObj [(''expected'', orEmpty expected), (''actual'', orEmpty actual)], True))"
  by pat_completeness auto
termination
  by (relation "measure (\<lambda>(_, v, _). size v)")
    (auto simp: List.member_iff intro: size_entry dest: set_zip_leftD size_elements)

declare diffObjMerge.simps [simp del]

text \<open>\<open>keepOnlyDiffObjects\<close>: the fields of a merged object that hold a difference.\<close>

function keepOnlyDiffObjects :: "jsval \<Rightarrow> jsval" where
  "keepOnlyDiffObjects obj =
     (if isArray obj then
        VArr (filter (\<lambda>item. \<not> isObjEmpty item) (map (\<lambda>item. if isObject item then keepOnlyDiffObjects item else VObj []) (elements obj)))
      else if isObject obj then
        (if \<not> isNullish (propOf obj ''expected'') \<and> \<not> isNullish (propOf obj ''actual'') then obj
         else let filtered = fromEntries (filter (\<lambda>(k, v). \<not> isObjEmpty v)
                    (map (\<lambda>k. (k, keepOnlyDiffObjects (propOf obj k))) (keys obj)))
              in if \<not> isObjEmpty filtered \<and> isTruthy (propOf obj ''type'') then setProp ''type'' (propOf obj ''type'') filtered
                 else filtered)
      else VObj [])"
  by pat_completeness auto
termination
  by (relation "measure size") (auto intro: size_entry dest: size_elements)

declare keepOnlyDiffObjects.simps [simp del]

section \<open>Maps, filters and lookups\<close>

definition objMap :: "(string \<Rightarrow> jsval \<Rightarrow> jsval) \<Rightarrow> jsval \<Rightarrow> jsval" where
  "objMap func obj = fromEntries (map (\<lambda>(k, v). (k, func k v)) (entries obj))"

definition objFilter :: "(string \<Rightarrow> jsval \<Rightarrow> bool) \<Rightarrow> jsval \<Rightarrow> jsval" where
  "objFilter func obj = fromEntries (filter (\<lambda>(k, v). func k v) (entries obj))"

definition objOmitKeys :: "jsval \<Rightarrow> string list \<Rightarrow> jsval" where
  "objOmitKeys obj ks = objFilter (\<lambda>k _. \<not> List.member ks k) obj"

definition pick :: "jsval \<Rightarrow> string list \<Rightarrow> jsval" where
  "pick obj ks = foldl (\<lambda>r key. if List.member (keys obj) key then setProp key (propOf obj key) r else r) (VObj []) ks"

definition arrayToObject :: "string list \<Rightarrow> bool \<Rightarrow> jsval" where
  "arrayToObject ks val = foldl (\<lambda>r k. setProp k (VBool val) r) (VObj []) ks"

definition mustGet :: "jsval \<Rightarrow> string \<Rightarrow> jsval result" where
  "mustGet obj key = (if isTruthy (propOf obj key) then ret (propOf obj key) else throw (Thrown ''Missing key in object'' key))"

definition objDiff :: "(jsval \<Rightarrow> jsval \<Rightarrow> bool) \<Rightarrow> jsval \<Rightarrow> jsval \<Rightarrow> jsval" where
  "objDiff areEquals a b = objFilter (\<lambda>key value. \<not> List.member (keys b) key \<or> \<not> areEquals value (propOf b key)) a"

text \<open>\<open>transformObj\<close>: the transformer sees every object and primitive with the path of properties to it, the inner ones first.\<close>

function internalTransformObj ::
    "(jsval \<Rightarrow> string list \<Rightarrow> jsval result) \<Rightarrow> nat \<Rightarrow> string list \<Rightarrow> jsval \<Rightarrow> jsval result" where
  "internalTransformObj transformer maxDepth propPath obj =
     (if length propPath > maxDepth then throw (Thrown ''transformObj went too deep'' '''')
      else if isArray obj then
        rbind (rmap (internalTransformObj transformer maxDepth propPath) (elements obj)) (\<lambda>xs. ret (VArr xs))
      else if isObject obj then
        rbind (rmap (\<lambda>key. rbind (internalTransformObj transformer maxDepth (propPath @ [key]) (propOf obj key))
            (\<lambda>v. ret (key, v))) (keys obj))
          (\<lambda>newObj. transformer (fromEntries (filter (\<lambda>(_, v). \<not> isNullish v) newObj)) propPath)
      else transformer obj propPath)"
  by pat_completeness auto
termination
  by (relation "measure (\<lambda>(_, _, _, obj). size obj)") (auto intro: size_entry dest: size_elements)

declare internalTransformObj.simps [simp del]

definition transformObj :: "(jsval \<Rightarrow> string list \<Rightarrow> jsval result) \<Rightarrow> nat \<Rightarrow> jsval \<Rightarrow> jsval result" where
  "transformObj transformer maxDepth obj = internalTransformObj transformer maxDepth [] obj"

text \<open>\<open>sortArraysInObject\<close> with a comparison function.\<close>

function sortArraysInObject :: "(jsval \<Rightarrow> jsval \<Rightarrow> int) \<Rightarrow> jsval \<Rightarrow> jsval" where
  "sortArraysInObject sortFunction obj =
     (if isArray obj then VArr (map (sortArraysInObject sortFunction) (js_sort sortFunction (elements obj)))
      else if isObject obj then fromEntries (map (\<lambda>key. (key, sortArraysInObject sortFunction (propOf obj key))) (keys obj))
      else obj)"
  by pat_completeness auto
termination
  by (relation "measure (\<lambda>(_, obj). size obj)") (auto intro: size_entry dest: size_elements)

declare sortArraysInObject.simps [simp del]

section \<open>Lookups\<close>

text \<open>What the operations do is said by the properties of their results.\<close>

lemma propOf_foldl_setProp:
  "propOf (foldl (\<lambda>v (k, x). setProp k x v) v ps) key = (case map_of (rev ps) key of Some x \<Rightarrow> x | None \<Rightarrow> propOf v key)"
proof (induction ps arbitrary: v)
  case (Cons p ps)
  obtain k x where p: "p = (k, x)" by (cases p)
  show ?case unfolding p foldl_Cons split_conv Cons.IH by (auto simp: map_add_def split: option.split)
qed simp

lemma map_of_rev_distinct: "distinct (map fst ps) \<Longrightarrow> map_of (rev ps) = map_of ps"
  by (rule map_of_inject_set [THEN iffD2]) (simp_all add: rev_map [symmetric])

lemma propOf_fromEntries:
  "distinct (map fst ps) \<Longrightarrow> propOf (fromEntries ps) key = (case map_of ps key of Some x \<Rightarrow> x | None \<Rightarrow> VUndefined)"
  unfolding fromEntries_def propOf_foldl_setProp by (auto simp: map_of_rev_distinct split: option.split)

lemma keys_setProp: "set (keys (setProp k x v)) = insert k (set (keys v))"
  by (auto simp: setProp_def update_keys [simplified])

lemma keys_fromEntries: "set (keys (fromEntries ps)) = fst ` set ps"
proof -
  have "set (keys (foldl (\<lambda>v (k, x). setProp k x v) v ps)) = set (keys v) \<union> fst ` set ps" for v
  proof (induction ps arbitrary: v)
    case (Cons p ps)
    obtain k x where p: "p = (k, x)" by (cases p)
    show ?case unfolding p foldl_Cons split_conv Cons.IH keys_setProp by simp
  qed simp
  from this [of "VObj []"] show ?thesis by (simp add: fromEntries_def)
qed

lemma isObject_foldl_setProp: "isObject v \<Longrightarrow> isObject (foldl (\<lambda>v (k, x). setProp k x v) v ps)"
  by (induction ps arbitrary: v) (auto simp: setProp_def)

lemma fromEntries_obj: "isObject (fromEntries ps)"
  by (simp add: fromEntries_def isObject_foldl_setProp)

lemma isObjEmpty_fromEntries: "isObjEmpty (fromEntries ps) \<longleftrightarrow> ps = []"
proof -
  obtain qs where q: "fromEntries ps = VObj qs" using fromEntries_obj [of ps] by (auto simp: isObject_iff)
  have "fst ` set qs = fst ` set ps" using keys_fromEntries [of ps] q by simp
  then show ?thesis using q by (auto simp: isObjEmpty_def)
qed

end
