(* ===== verification/Relayer_Core.thy ===== *)
theory Relayer_Core
  imports Gas_Estimation Multisig_Quorum JS_Objects
begin

text \<open>
  \<open>typescript/relayer/src/core/HyperlaneRelayer.ts\<close>, \<open>whitelist.ts\<close>, \<open>cache.ts\<close> and \<open>events.ts\<close>, with what they call of
  \<open>typescript/sdk/src/core/HyperlaneCore.ts\<close>: the relay of one message and of all messages of a transaction, and the cache of
  configurations. \<open>Relayer_Backlog\<close> has the loop over the backlog.

  The state has the cache, the two fields of it that hold configurations as values of the language, so that \<open>hydrate\<close> merges them as the
  source does. The backlog of the relayer and the one of the cache may be the same array, so both are addresses into \<open>rl_arrays\<close>. The
  state also records the calls of the observer and the transactions that were submitted.

  What the chains, the readers of configurations and the clock answer during one relay is the record \<open>relay_env\<close>; every
  relay has one of its own, chosen by \<open>rl_calls\<close>. The configurations of the two sides of a message are fetched together; here
  that of the ISM comes first, and its error counts when both fail.
\<close>

section \<open>Data\<close>

record NamedMessage = ParsedMessage +
  originChain :: "string option"
  destinationChain :: "string option"

record DispatchedMessage =
  dm_id :: hex
  dm_message :: hex
  dm_parsed :: NamedMessage

record BacklogMessage =
  attempts :: nat
  lastAttempt :: int
  bk_message :: hex
  bk_dispatchTx :: string

record RelayerCache =
  ca_hook :: jsval
  ca_ism :: jsval
  ca_backlog :: nat

datatype skip_reason = SkipWhitelist | SkipAlreadyDelivered

datatype RelayerEvent =
    MessageRelayed DispatchedMessage string string int
  | MessageFailed DispatchedMessage string string js_error
  | MessageSkipped DispatchedMessage string string skip_reason
  | Retry DispatchedMessage string string nat
  | Backlog nat

record 'v relayer =
  rl_cache :: "RelayerCache option"
  rl_backlog :: nat
  rl_arrays :: "BacklogMessage list list"
  rl_running :: bool
  rl_validators :: "'v validator_cache"
  rl_events :: "RelayerEvent list"
  rl_submitted :: "(string \<times> hex \<times> hex) list"
  rl_calls :: nat

type_synonym ('v, 'a) relay_op = "('v relayer, 'a) op"

text \<open>The constructor: \<open>caching\<close> creates a cache with a backlog of its own.\<close>

record relayer_config =
  whitelist :: "(string, string list) dict option"
  retryTimeout :: int
  contractChains :: "string list"

definition new_HyperlaneRelayer :: "bool \<Rightarrow> 'v relayer" where
  "new_HyperlaneRelayer caching =
     \<lparr>rl_cache = (if caching then Some \<lparr>ca_hook = VObj [], ca_ism = VObj [], ca_backlog = 1\<rparr> else None),
      rl_backlog = 0, rl_arrays = (if caching then [[], []] else [[]]), rl_running = False, rl_validators = [],
      rl_events = [], rl_submitted = [], rl_calls = 0\<rparr>"

record ('log, 'v, 'ev, 'rcpt) relay_env =
  builder :: "('log, 'v, 'ev) relayer_env"
  ethers :: ethers_api
  solidityKeccak256 :: "hex \<Rightarrow> hex result"
  dispatchMessages :: "'log list \<Rightarrow> hex list"
  delivered :: "string \<Rightarrow> hex \<Rightarrow> bool result"
  processedAt :: "string \<Rightarrow> hex \<Rightarrow> nat result"
  processEvents :: "string \<Rightarrow> hex \<Rightarrow> nat \<Rightarrow> 'rcpt result list result"
  recipientIsm :: "string \<Rightarrow> string \<Rightarrow> string result"
  clientHook :: "string \<Rightarrow> string \<Rightarrow> string result"
  defaultHook :: "string \<Rightarrow> string result"
  handleGas :: "string \<Rightarrow> string \<Rightarrow> NamedMessage \<Rightarrow> int option result"
  deriveHook :: "string \<Rightarrow> string \<Rightarrow> DispatchedMessage option \<Rightarrow> jsval result"
  deriveIsm :: "string \<Rightarrow> string \<Rightarrow> DispatchedMessage option \<Rightarrow> jsval result"
  deliverable :: "string \<Rightarrow> unit result"
  sendProcess :: "string \<Rightarrow> hex \<Rightarrow> hex \<Rightarrow> 'rcpt result"
  transactionReceipt :: "nat \<Rightarrow> string \<Rightarrow> 'log list result"
  defaultsOf :: "(string, string \<times> string) dict result"
  startTime :: int
  endTime :: int

section \<open>Configurations as the metadata builders read them\<close>

lemma size_value: "(k, x) \<in> set (entries v) \<Longrightarrow> size x < size v"
  by (cases v) (force dest: size_list_estimation' [of _ _ _ "size_prod (\<lambda>_. 0) size"] simp: less_Suc_eq_le)+

lemma size_element_prop: "x \<in> set (elements (propOf v k)) \<Longrightarrow> size x < size v"
  by (cases "k \<in> set (keys v)") (auto dest!: size_elements size_prop simp del: set_map)

lemma size_value_prop: "(j, x) \<in> set (entries (propOf v k)) \<Longrightarrow> size x < size v"
  by (cases "k \<in> set (keys v)") (auto dest!: size_value size_prop simp del: set_map)

fun stringOf :: "jsval \<Rightarrow> string option" where
  "stringOf (VStr s) = Some s"
| "stringOf _ = None"

function hookOf :: "jsval \<Rightarrow> hook_config" where
  "hookOf v = (case v of
      VObj ps \<Rightarrow> HookNode (stringOf (propOf v ''type'')) (stringOf (propOf v ''address'')) (map (\<lambda>kx. hookOf (snd kx)) (entries v))
    | VArr xs \<Rightarrow> HookNode None None (map hookOf (elements v))
    | VStr s \<Rightarrow> HookString s
    | VNull \<Rightarrow> HookNull
    | VUndefined \<Rightarrow> HookNull
    | _ \<Rightarrow> HookOther)"
  by pat_completeness auto
termination
  by (relation "measure size")
    (auto dest: size_value [of _ _ "VObj ps" for ps, simplified] size_elements [of _ "VArr xs" for xs, simplified])

definition ismTypeNames :: "(string \<times> IsmType) list" where
  "ismTypeNames =
     [(''custom'', CUSTOM), (''opStackIsm'', OP_STACK), (''domainRoutingIsm'', ROUTING),
      (''incrementalDomainRoutingIsm'', INCREMENTAL_ROUTING), (''defaultFallbackRoutingIsm'', FALLBACK_ROUTING),
      (''amountRoutingIsm'', AMOUNT_ROUTING), (''interchainAccountRouting'', INTERCHAIN_ACCOUNT_ROUTING),
      (''staticAggregationIsm'', AGGREGATION), (''storageAggregationIsm'', STORAGE_AGGREGATION),
      (''merkleRootMultisigIsm'', MERKLE_ROOT_MULTISIG), (''messageIdMultisigIsm'', MESSAGE_ID_MULTISIG),
      (''storageMerkleRootMultisigIsm'', STORAGE_MERKLE_ROOT_MULTISIG), (''storageMessageIdMultisigIsm'', STORAGE_MESSAGE_ID_MULTISIG),
      (''testIsm'', TEST_ISM), (''pausableIsm'', PAUSABLE), (''trustedRelayerIsm'', TRUSTED_RELAYER), (''arbL2ToL1Ism'', ARB_L2_TO_L1),
      (''weightedMerkleRootMultisigIsm'', WEIGHTED_MERKLE_ROOT_MULTISIG), (''weightedMessageIdMultisigIsm'', WEIGHTED_MESSAGE_ID_MULTISIG),
      (''ccipIsm'', CCIP), (''offchainLookupIsm'', OFFCHAIN_LOOKUP), (''rateLimitedIsm'', RATE_LIMITED), (''compositeIsm'', COMPOSITE),
      (''blacklistIsm'', BLACKLIST), (''defaultIsm'', MAILBOX_DEFAULT), (''netFlowRateLimitedHookIsm'', NET_FLOW_RATE_LIMITED),
      (''delayedFlowRouterHookIsm'', DELAYED_FLOW_ROUTER), (''unknownIsm'', UNKNOWN)]"

definition ismTypeOf :: "jsval \<Rightarrow> IsmType" where
  "ismTypeOf v = (case Option.bind (stringOf v) (map_of ismTypeNames) of Some t \<Rightarrow> t | None \<Rightarrow> UNKNOWN)"

abbreviation stringOr0 :: "jsval \<Rightarrow> string" where
  "stringOr0 v \<equiv> (case stringOf v of Some s \<Rightarrow> s | None \<Rightarrow> [])"

fun numberOr0 :: "jsval \<Rightarrow> nat" where
  "numberOr0 (VNum q) = nat \<lfloor>q\<rfloor>"
| "numberOr0 _ = 0"

function ismOf :: "jsval \<Rightarrow> ism" where
  "ismOf v = (if isObject v
     then Ism (ismTypeOf (propOf v ''type'')) (stringOr0 (propOf v ''address'')) (stringOr0 (propOf v ''relayer''))
       (map stringOr0 (elements (propOf v ''validators''))) (numberOr0 (propOf v ''threshold''))
       (map ismOf (elements (propOf v ''modules''))) (map (\<lambda>kx. (fst kx, ismOf (snd kx))) (entries (propOf v ''domains'')))
     else IsmAddress (stringOr0 v))"
  by pat_completeness auto
termination
  by (relation "measure size") (auto dest: size_element_prop size_value_prop)

declare hookOf.simps [simp del] ismOf.simps [simp del]

section \<open>The whitelist\<close>

definition chainKey :: "string option \<Rightarrow> nat \<Rightarrow> string" where
  "chainKey name domain = (case name of Some c \<Rightarrow> c | None \<Rightarrow> decimalDigits domain)"

definition messageMatchesWhitelist ::
    "('log, 'v, 'ev) relayer_env \<Rightarrow> (string, string list) dict \<Rightarrow> NamedMessage \<Rightarrow> bool result" where
  "messageMatchesWhitelist E wl m =
     (case map_of wl (chainKey (originChain m) (pm_origin m)) of
        None \<Rightarrow> ret False
      | Some originAddresses \<Rightarrow>
          rbind (bytes32ToAddress E (pm_sender m)) (\<lambda>sender.
          if originAddresses \<noteq> [] \<and> \<not> List.member originAddresses sender then ret False
          else case map_of wl (chainKey (destinationChain m) (pm_destination m)) of
             None \<Rightarrow> ret False
           | Some destinationAddresses \<Rightarrow>
               rbind (bytes32ToAddress E (pm_recipient m)) (\<lambda>recipient.
               ret (\<not> (destinationAddresses \<noteq> [] \<and> \<not> List.member destinationAddresses recipient)))))"

section \<open>\<open>HyperlaneCore\<close>\<close>

definition getOrigin :: "('log, 'v, 'ev, 'rcpt) relay_env \<Rightarrow> DispatchedMessage \<Rightarrow> string result" where
  "getOrigin A m = chainNameOf (builder A) (pm_origin (dm_parsed m))"

definition getDestination :: "('log, 'v, 'ev, 'rcpt) relay_env \<Rightarrow> DispatchedMessage \<Rightarrow> string result" where
  "getDestination A m = chainNameOf (builder A) (pm_destination (dm_parsed m))"

definition parseDispatchedMessage :: "('log, 'v, 'ev, 'rcpt) relay_env \<Rightarrow> hex \<Rightarrow> DispatchedMessage result" where
  "parseDispatchedMessage A message =
     rbind (parseMessage (ethers A) message) (\<lambda>parsed.
     rbind (solidityKeccak256 A message) (\<lambda>i.
       ret \<lparr>dm_id = i, dm_message = message, dm_parsed = ParsedMessage.extend parsed \<lparr>originChain = None, destinationChain = None\<rparr>\<rparr>))"

definition getDispatchedMessages :: "('log, 'v, 'ev, 'rcpt) relay_env \<Rightarrow> 'log list \<Rightarrow> DispatchedMessage list result" where
  "getDispatchedMessages A logs = rmap (parseDispatchedMessage A) (dispatchMessages A logs)"

definition getRecipientIsmAddress :: "('log, 'v, 'ev, 'rcpt) relay_env \<Rightarrow> DispatchedMessage \<Rightarrow> string result" where
  "getRecipientIsmAddress A m =
     rbind (getDestination A m) (\<lambda>dest.
     rbind (bytes32ToAddress (builder A) (pm_recipient (dm_parsed m))) (\<lambda>ethAddress. recipientIsm A dest ethAddress))"

text \<open>The hook of the sender, or the default one when it has none or is no mailbox client.\<close>

definition getHook :: "('log, 'v, 'ev, 'rcpt) relay_env \<Rightarrow> string \<Rightarrow> string \<Rightarrow> string result" where
  "getHook A chain senderAddress =
     (case clientHook A chain senderAddress of
        Inr hook \<Rightarrow> if \<not> isZeroishAddress hook then ret hook else defaultHook A chain
      | Inl _ \<Rightarrow> defaultHook A chain)"

definition getSenderHookAddress :: "('log, 'v, 'ev, 'rcpt) relay_env \<Rightarrow> DispatchedMessage \<Rightarrow> string result" where
  "getSenderHookAddress A m =
     rbind (getOrigin A m) (\<lambda>org.
     rbind (bytes32ToAddress (builder A) (pm_sender (dm_parsed m))) (\<lambda>sender. getHook A org sender))"

text \<open>Every failure of the estimation is answered with 0.\<close>

definition estimateHandleGas :: "('log, 'v, 'ev, 'rcpt) relay_env \<Rightarrow> string \<Rightarrow> string \<Rightarrow> NamedMessage \<Rightarrow> int" where
  "estimateHandleGas A dest recipient m = (case handleGas A dest recipient m of Inr (Some gas) \<Rightarrow> gas | _ \<Rightarrow> 0)"

definition estimateHandle :: "('log, 'v, 'ev, 'rcpt) relay_env \<Rightarrow> DispatchedMessage \<Rightarrow> int result" where
  "estimateHandle A m =
     rbind (getDestination A m) (\<lambda>dest.
     rbind (bytes32ToAddress (builder A) (pm_recipient (dm_parsed m))) (\<lambda>recipient.
       ret (estimateHandleGas A dest recipient (dm_parsed m))))"

definition isDelivered :: "('log, 'v, 'ev, 'rcpt) relay_env \<Rightarrow> DispatchedMessage \<Rightarrow> bool result" where
  "isDelivered A m = rbind (getDestination A m) (\<lambda>dest. delivered A dest (dm_id m))"

definition getProcessedReceipt :: "('log, 'v, 'ev, 'rcpt) relay_env \<Rightarrow> DispatchedMessage \<Rightarrow> 'rcpt result" where
  "getProcessedReceipt A m =
     rbind (getDestination A m) (\<lambda>dest.
     rbind (processedAt A dest (dm_id m)) (\<lambda>processedBlock.
     rbind (processEvents A dest (dm_id m) processedBlock) (\<lambda>events.
     rbind (rassert (length events = 1) ''Expected exactly one process event'') (\<lambda>_. hd events))))"

text \<open>\<open>deliver\<close> submits a transaction to the mailbox of the destination.\<close>

definition deliver :: "('log, 'v, 'ev, 'rcpt) relay_env \<Rightarrow> DispatchedMessage \<Rightarrow> hex \<Rightarrow> ('v, 'rcpt) relay_op" where
  "deliver A m ismMetadata =
     op_bind (op_lift (getDestination A m)) (\<lambda>dest.
     op_bind (op_lift (deliverable A dest)) (\<lambda>_.
     op_seq (op_modify (\<lambda>s. s\<lparr>rl_submitted := rl_submitted s @ [(dest, ismMetadata, dm_message m)]\<rparr>))
       (op_lift (sendProcess A dest ismMetadata (dm_message m)))))"

section \<open>The cache of configurations\<close>

definition cachedAt :: "jsval \<Rightarrow> string \<Rightarrow> string \<Rightarrow> jsval" where
  "cachedAt c chain key = propOf (propOf c chain) key"

definition cacheAt :: "jsval \<Rightarrow> string \<Rightarrow> string \<Rightarrow> jsval \<Rightarrow> jsval" where
  "cacheAt c chain key config =
     (let entry = propOf c chain in setProp chain (setProp key config (if isNullish entry then VObj [] else entry)) c)"

definition getHookConfig ::
    "('log, 'v, 'ev, 'rcpt) relay_env \<Rightarrow> string \<Rightarrow> string \<Rightarrow> DispatchedMessage option \<Rightarrow> ('v, jsval) relay_op" where
  "getHookConfig A chain hook messageContext =
     op_bind (op_gets (\<lambda>s. case rl_cache s of Some c \<Rightarrow> cachedAt (ca_hook c) chain hook | None \<Rightarrow> VUndefined)) (\<lambda>found.
     op_bind (if isTruthy found then op_ret found else op_lift (deriveHook A chain hook messageContext)) (\<lambda>config.
     if \<not> isTruthy config then op_throw (Thrown ''Hook config not found for'' hook)
     else op_seq (op_modify (\<lambda>s. s\<lparr>rl_cache := map_option (\<lambda>c. c\<lparr>ca_hook := cacheAt (ca_hook c) chain hook config\<rparr>) (rl_cache s)\<rparr>))
       (op_ret config)))"

definition ismCacheKey :: "string \<Rightarrow> DispatchedMessage option \<Rightarrow> string" where
  "ismCacheKey ism messageContext = (case messageContext of Some m \<Rightarrow> ism @ '':'' @ dm_id m | None \<Rightarrow> ism)"

definition getIsmConfig ::
    "('log, 'v, 'ev, 'rcpt) relay_env \<Rightarrow> string \<Rightarrow> string \<Rightarrow> DispatchedMessage option \<Rightarrow> ('v, jsval) relay_op" where
  "getIsmConfig A chain ism messageContext =
     (let cacheKey = ismCacheKey ism messageContext in
      op_bind (op_gets (\<lambda>s. case rl_cache s of Some c \<Rightarrow> cachedAt (ca_ism c) chain cacheKey | None \<Rightarrow> VUndefined)) (\<lambda>found.
      op_bind (if isTruthy found then op_ret found else op_lift (deriveIsm A chain ism messageContext)) (\<lambda>config.
      if \<not> isTruthy config then op_throw (Thrown ''ISM config not found for'' ism)
      else op_seq (op_modify (\<lambda>s. s\<lparr>rl_cache := map_option (\<lambda>c. c\<lparr>ca_ism := cacheAt (ca_ism c) chain cacheKey config\<rparr>) (rl_cache s)\<rparr>))
        (op_ret config))))"

definition getSenderHookConfig :: "('log, 'v, 'ev, 'rcpt) relay_env \<Rightarrow> DispatchedMessage \<Rightarrow> ('v, jsval) relay_op" where
  "getSenderHookConfig A m =
     op_bind (op_lift (getOrigin A m)) (\<lambda>org.
     op_bind (op_lift (getSenderHookAddress A m)) (\<lambda>hook. getHookConfig A org hook (Some m)))"

definition getRecipientIsmConfig :: "('log, 'v, 'ev, 'rcpt) relay_env \<Rightarrow> DispatchedMessage \<Rightarrow> ('v, jsval) relay_op" where
  "getRecipientIsmConfig A m =
     op_bind (op_lift (getDestination A m)) (\<lambda>dest.
     op_bind (op_lift (getRecipientIsmAddress A m)) (\<lambda>ism. getIsmConfig A dest ism (Some m)))"

text \<open>\<open>hydrate\<close> merges a given cache; of the two backlogs the given one is kept, as a new array.\<close>

definition hydrate :: "jsval \<Rightarrow> jsval \<Rightarrow> BacklogMessage list \<Rightarrow> ('v, unit) relay_op" where
  "hydrate hook ism backlog =
     op_bind (op_gets rl_cache) (\<lambda>cache.
     case cache of
       None \<Rightarrow> op_throw (AssertionError ''Caching not enabled'')
     | Some c \<Rightarrow>
         op_bind (op_lift (objMerge 9 False (ca_hook c) hook)) (\<lambda>h.
         op_bind (op_lift (objMerge 9 False (ca_ism c) ism)) (\<lambda>i.
         op_modify (\<lambda>s. s\<lparr>rl_cache := Some \<lparr>ca_hook = h, ca_ism = i, ca_backlog = length (rl_arrays s)\<rparr>,
           rl_arrays := rl_arrays s @ [backlog]\<rparr>))))"

definition hydrateDefaults :: "('log, 'v, 'ev, 'rcpt) relay_env \<Rightarrow> ('v, unit) relay_op" where
  "hydrateDefaults A =
     op_bind (op_gets rl_cache) (\<lambda>cache.
     if cache = None then op_throw (AssertionError ''Caching not enabled'')
     else op_bind (op_lift (defaultsOf A)) (\<lambda>defaults.
       op_bind (op_map (\<lambda>(chain, ism, hook). op_settle
           (op_bind (getHookConfig A chain hook None) (\<lambda>_. getIsmConfig A chain ism None))) defaults) (\<lambda>rs.
       op_lift (rbind (rmap id rs) (\<lambda>_. ret ())))))"

section \<open>Relaying\<close>

definition emit :: "RelayerEvent \<Rightarrow> ('v, unit) relay_op" where
  "emit e = op_modify (\<lambda>s. s\<lparr>rl_events := rl_events s @ [e]\<rparr>)"

definition onValidators :: "('v, 'a) relayer_op \<Rightarrow> ('v, 'a) relay_op" where
  "onValidators m = (\<lambda>s. case m (rl_validators s) of (r, c) \<Rightarrow> (r, s\<lparr>rl_validators := c\<rparr>))"

definition metadataContext :: "'log list \<Rightarrow> DispatchedMessage \<Rightarrow> jsval \<Rightarrow> 'log MetadataContext" where
  "metadataContext logs m hook =
     \<lparr>msg_id = dm_id m, msg_message = dm_message m, msg_origin = pm_origin (dm_parsed m),
      msg_destination = pm_destination (dm_parsed m), msg_originChain = originChain (dm_parsed m),
      dispatchLogs = logs, ctx_hook = hookOf hook\<rparr>"

text \<open>The spread \<open>{originChain, destinationChain, ...message.parsed}\<close>: names the message already has stay.\<close>

definition addNames :: "string \<Rightarrow> string \<Rightarrow> DispatchedMessage \<Rightarrow> DispatchedMessage" where
  "addNames org dest m =
     (let p = dm_parsed m in
      m\<lparr>dm_parsed := p\<lparr>originChain := (if originChain p = None then Some org else originChain p),
        destinationChain := (if destinationChain p = None then Some dest else destinationChain p)\<rparr>\<rparr>)"

text \<open>With a whitelist the relayer gives the message these names.\<close>

definition named :: "relayer_config \<Rightarrow> string \<Rightarrow> string \<Rightarrow> DispatchedMessage \<Rightarrow> DispatchedMessage" where
  "named cfg org dest m = (if whitelist cfg = None then m else addNames org dest m)"

definition relayUndelivered ::
    "('log, 'v, 'ev, 'rcpt) relay_env \<Rightarrow> 'log list \<Rightarrow> DispatchedMessage \<Rightarrow> string \<Rightarrow> string \<Rightarrow> ('v, 'rcpt) relay_op" where
  "relayUndelivered A logs m org dest =
     op_bind (op_lift (estimateHandle A m)) (\<lambda>_.
     op_bind (op_settle (getRecipientIsmConfig A m)) (\<lambda>ismResult.
     op_bind (op_settle (getSenderHookConfig A m)) (\<lambda>hookResult.
     op_bind (op_lift ismResult) (\<lambda>ism.
     op_bind (op_lift hookResult) (\<lambda>hook.
     op_bind (onValidators (metadataBuild (builder A) (metadataContext logs m hook) 10 (ismOf ism))) (\<lambda>metadataResult.
     case metadata metadataResult of
       None \<Rightarrow> op_throw (Thrown ''Unable to build metadata for message'' (dm_id m))
     | Some md \<Rightarrow>
         op_bind (deliver A m md) (\<lambda>receipt.
         op_seq (emit (MessageRelayed m org dest (endTime A - startTime A)))
           (op_ret receipt))))))))"

definition relayMessage ::
    "relayer_config \<Rightarrow> ('log, 'v, 'ev, 'rcpt) relay_env \<Rightarrow> 'log list \<Rightarrow> DispatchedMessage \<Rightarrow> ('v, 'rcpt) relay_op" where
  "relayMessage cfg A logs message =
     op_bind (op_lift (getOrigin A message)) (\<lambda>org.
     op_bind (op_lift (getDestination A message)) (\<lambda>dest.
     let m = named cfg org dest message in
     op_bind (op_lift (case whitelist cfg of None \<Rightarrow> ret True | Some wl \<Rightarrow> messageMatchesWhitelist (builder A) wl (dm_parsed m))) (\<lambda>ok.
     if \<not> ok then op_seq (emit (MessageSkipped m org dest SkipWhitelist)) (op_throw (Thrown ''Message does not match whitelist'' (dm_id m)))
     else op_bind (op_lift (isDelivered A m)) (\<lambda>isDelivered.
       if isDelivered
       then op_seq (emit (MessageSkipped m org dest SkipAlreadyDelivered)) (op_lift (getProcessedReceipt A m))
       else op_catch (relayUndelivered A logs m org dest)
         (\<lambda>error. op_seq (emit (MessageFailed m org dest error)) (op_throw error))))))"

text \<open>A relay takes the next answers of the world.\<close>

type_synonym ('log, 'v, 'ev, 'rcpt) relay_world = "nat \<Rightarrow> ('log, 'v, 'ev, 'rcpt) relay_env"

definition relayNext ::
    "relayer_config \<Rightarrow> ('log, 'v, 'ev, 'rcpt) relay_world \<Rightarrow> 'log list \<Rightarrow> DispatchedMessage \<Rightarrow> ('v, 'rcpt) relay_op" where
  "relayNext cfg W logs m =
     op_bind (op_gets rl_calls) (\<lambda>n. op_seq (op_modify (\<lambda>s. s\<lparr>rl_calls := Suc n\<rparr>)) (relayMessage cfg (W n) logs m))"

text \<open>
  \<open>relayAll\<close>: the messages of a destination one after another, a failed one being left out of the receipts. Destinations are relayed in
  parallel; here they follow each other in ascending order, which is the order of the keys of the result.
\<close>

definition relayAll ::
    "relayer_config \<Rightarrow> ('log, 'v, 'ev, 'rcpt) relay_world \<Rightarrow> 'log list \<Rightarrow> DispatchedMessage list \<Rightarrow> ('v, (nat, 'rcpt list) dict) relay_op" where
  "relayAll cfg W logs messages =
     op_map (\<lambda>d. op_bind (op_fold (\<lambda>receipts m. op_try
           (op_bind (relayNext cfg W logs m) (\<lambda>receipt. op_ret (receipts @ [receipt])))
           (op_ret receipts)) [] (filter (\<lambda>m. pm_destination (dm_parsed m) = d) messages))
         (\<lambda>receipts. op_ret (d, receipts)))
       (sort (remdups (map (\<lambda>m. pm_destination (dm_parsed m)) messages)))"

end
