(* ===== verification/Relayer_Safety.thy ===== *)
theory Relayer_Safety
  imports Relayer_Core
begin

text \<open>
  What a relay may do: it submits at most one transaction, for a message that the whitelist admits and that is not delivered, with metadata
  built for the configuration of the recipient's ISM; a configuration from the cache was derived for the same ISM and message.
  The cache of hook configurations gives no such promise.
\<close>

section \<open>What operations leave alone\<close>

lemma config_frame:
  "getIsmConfig A c i ctx s = (r, s') \<Longrightarrow> \<exists>d. s' = s\<lparr>rl_cache := d\<rparr>"
  "getHookConfig A c i ctx s = (r, s') \<Longrightarrow> \<exists>d. s' = s\<lparr>rl_cache := d\<rparr>"
  by (auto simp: getIsmConfig_def getHookConfig_def Let_def op_simps split: sum.splits if_splits) (metis relayer.surjective relayer.update_convs(1))+

lemma message_config_frame:
  "getRecipientIsmConfig A m s = (r, s') \<Longrightarrow> \<exists>d. s' = s\<lparr>rl_cache := d\<rparr>"
  "getSenderHookConfig A m s = (r, s') \<Longrightarrow> \<exists>d. s' = s\<lparr>rl_cache := d\<rparr>"
  by (auto simp: getRecipientIsmConfig_def getSenderHookConfig_def op_simps split: sum.splits dest: config_frame)
    (metis relayer.surjective relayer.update_convs(1))+

section \<open>The cache of ISM configurations\<close>

text \<open>An entry is what a reader derived for the ISM and the message that its key names.\<close>

definition ism_cache_ok :: "('log, 'v, 'ev, 'rcpt) relay_world \<Rightarrow> 'v relayer \<Rightarrow> bool" where
  "ism_cache_ok W s \<longleftrightarrow> (\<forall>c chain key. rl_cache s = Some c \<longrightarrow> isTruthy (cachedAt (ca_ism c) chain key) \<longrightarrow>
     (\<exists>n ism ctx. key = ismCacheKey ism ctx \<and> CHR '':'' \<notin> set ism \<and> deriveIsm (W n) chain ism ctx = ret (cachedAt (ca_ism c) chain key)))"

lemma cachedAt_cacheAt:
  "cachedAt (cacheAt c chain key x) chain' key' = (if chain' = chain \<and> key' = key then x else cachedAt c chain' key')"
proof -
  have "propOf (if isNullish v then VObj [] else v) k = propOf v k" for v k
    by (auto simp: isNullish_def propOf_def)
  then show ?thesis by (auto simp: cachedAt_def cacheAt_def Let_def)
qed

lemma ism_cache_new: "ism_cache_ok W (new_HyperlaneRelayer caching)"
  by (auto simp: ism_cache_ok_def new_HyperlaneRelayer_def cachedAt_def propOf_def split: if_splits)

lemma getIsmConfig_source:
  assumes ok: "ism_cache_ok W s" and run: "getIsmConfig (W n) chain ism ctx s = (r, s')" and colon: "CHR '':'' \<notin> set ism"
  shows "ism_cache_ok W s'" and "r = ret config \<Longrightarrow>
    \<exists>k ism' ctx'. ismCacheKey ism' ctx' = ismCacheKey ism ctx \<and> CHR '':'' \<notin> set ism' \<and> deriveIsm (W k) chain ism' ctx' = ret config"
proof -
  let ?key = "ismCacheKey ism ctx"
  let ?found = "case rl_cache s of Some c \<Rightarrow> cachedAt (ca_ism c) chain ?key | None \<Rightarrow> VUndefined"
  have src: "\<exists>k ism' ctx'. ismCacheKey ism' ctx' = ?key \<and> CHR '':'' \<notin> set ism' \<and> deriveIsm (W k) chain ism' ctx' = ret cf"
    if "(if isTruthy ?found then op_ret ?found else op_lift (deriveIsm (W n) chain ism ctx)) s = (ret cf, s)" for cf
  proof (cases "isTruthy ?found")
    case True
    then obtain c where "rl_cache s = Some c" "isTruthy (cachedAt (ca_ism c) chain ?key)" by (cases "rl_cache s") auto
    with ok True that show ?thesis unfolding ism_cache_ok_def by (fastforce simp: op_simps)
  next
    case False
    with that colon show ?thesis by (auto simp: op_simps)
  qed
  have cases: "s' = s \<and> (\<exists>e. r = throw e) \<or> (\<exists>cf. (if isTruthy ?found then op_ret ?found else op_lift (deriveIsm (W n) chain ism ctx)) s = (ret cf, s)
      \<and> isTruthy cf \<and> r = ret cf \<and> s' = s\<lparr>rl_cache := map_option (\<lambda>c. c\<lparr>ca_ism := cacheAt (ca_ism c) chain ?key cf\<rparr>) (rl_cache s)\<rparr>)"
    using run by (auto simp: getIsmConfig_def Let_def op_simps split: sum.splits if_splits) metis
  then show "r = ret config \<Longrightarrow> \<exists>k ism' ctx'. ismCacheKey ism' ctx' = ?key \<and> CHR '':'' \<notin> set ism' \<and> deriveIsm (W k) chain ism' ctx' = ret config"
    using src by auto
  from cases show "ism_cache_ok W s'"
  proof
    assume "\<exists>cf. (if isTruthy ?found then op_ret ?found else op_lift (deriveIsm (W n) chain ism ctx)) s = (ret cf, s)
      \<and> isTruthy cf \<and> r = ret cf \<and> s' = s\<lparr>rl_cache := map_option (\<lambda>c. c\<lparr>ca_ism := cacheAt (ca_ism c) chain ?key cf\<rparr>) (rl_cache s)\<rparr>"
    then obtain cf where cf: "(if isTruthy ?found then op_ret ?found else op_lift (deriveIsm (W n) chain ism ctx)) s = (ret cf, s)"
      and s': "s' = s\<lparr>rl_cache := map_option (\<lambda>c. c\<lparr>ca_ism := cacheAt (ca_ism c) chain ?key cf\<rparr>) (rl_cache s)\<rparr>" by blast
    show ?thesis using ok src [OF cf] unfolding ism_cache_ok_def s' by (auto simp: cachedAt_cacheAt) metis
  qed (use ok in simp)
qed

text \<open>A key determines the ISM and the id of the message.\<close>

lemma ismCacheKey_inject:
  assumes "ismCacheKey ism ctx = ismCacheKey ism' (Some m)" "CHR '':'' \<notin> set ism" "CHR '':'' \<notin> set ism'"
  shows "ism = ism' \<and> (\<exists>m'. ctx = Some m' \<and> dm_id m' = dm_id m)"
proof -
  have "takeWhile (\<lambda>c. c \<noteq> CHR '':'') (xs @ CHR '':'' # ys) = xs" if "CHR '':'' \<notin> set xs" for xs ys :: string
    using that by (subst takeWhile_append2) auto
  note tw = this
  have "CHR '':'' \<in> set (ismCacheKey ism' (Some m))" by (simp add: ismCacheKey_def)
  then obtain m' where m': "ctx = Some m'" using assms by (cases ctx) (auto simp: ismCacheKey_def)
  have "ism = ism'" using arg_cong [OF assms(1), of "takeWhile (\<lambda>c. c \<noteq> CHR '':'')"] assms(2,3) m' tw by (simp add: ismCacheKey_def)
  then show ?thesis using assms(1) m' by (simp add: ismCacheKey_def)
qed

lemma getHookConfig_ism_cache: "ism_cache_ok W s \<Longrightarrow> getHookConfig A chain hook ctx s = (r, s') \<Longrightarrow> ism_cache_ok W s'"
  by (auto simp: getHookConfig_def ism_cache_ok_def op_simps split: sum.splits if_splits)

text \<open>Addresses of ISMs are hexadecimal: they have no colon.\<close>

definition isms_ok :: "('log, 'v, 'ev, 'rcpt) relay_world \<Rightarrow> bool" where
  "isms_ok W \<longleftrightarrow> (\<forall>n chain a i. recipientIsm (W n) chain a = ret i \<longrightarrow> CHR '':'' \<notin> set i)"

text \<open>The configuration \<open>config\<close> of the ISM of the recipient of \<open>m\<close> was derived by a reader for that ISM and this message.\<close>

definition derived_for :: "('log, 'v, 'ev, 'rcpt) relay_world \<Rightarrow> ('log, 'v, 'ev, 'rcpt) relay_env \<Rightarrow> DispatchedMessage \<Rightarrow> jsval \<Rightarrow> bool" where
  "derived_for W A m config \<longleftrightarrow> (\<exists>dest ism k m'. getDestination A m = ret dest \<and> getRecipientIsmAddress A m = ret ism
     \<and> dm_id m' = dm_id m \<and> deriveIsm (W k) dest ism (Some m') = ret config)"

lemma getRecipientIsmConfig_source:
  assumes ok: "ism_cache_ok W s" "isms_ok W" and run: "getRecipientIsmConfig (W n) m s = (r, s')"
  shows "ism_cache_ok W s'" and "r = ret config \<Longrightarrow> derived_for W (W n) m config"
proof -
  consider (no) e where "r = throw e" "s' = s"
    | (yes) dest ism where "getDestination (W n) m = ret dest" "getRecipientIsmAddress (W n) m = ret ism" "CHR '':'' \<notin> set ism"
        "getIsmConfig (W n) dest ism (Some m) s = (r, s')"
    using run ok(2) by (auto simp: getRecipientIsmConfig_def op_simps getRecipientIsmAddress_def isms_ok_def rbind_eq_Inr_iff split: sum.splits)
  then show "ism_cache_ok W s'"
    by cases (use ok(1) getIsmConfig_source(1) in blast)+
  show "derived_for W (W n) m config" if r: "r = ret config"
  proof -
    from r obtain dest ism where d: "getDestination (W n) m = ret dest" "getRecipientIsmAddress (W n) m = ret ism" "CHR '':'' \<notin> set ism"
        "getIsmConfig (W n) dest ism (Some m) s = (r, s')"
      using run ok(2) by (auto simp: getRecipientIsmConfig_def op_simps getRecipientIsmAddress_def isms_ok_def rbind_eq_Inr_iff split: sum.splits)
    obtain k ism' ctx' where "ismCacheKey ism' ctx' = ismCacheKey ism (Some m)" "CHR '':'' \<notin> set ism'" "deriveIsm (W k) dest ism' ctx' = ret config"
      using getIsmConfig_source(2) [OF ok(1) d(4,3) r] by blast
    moreover from this(1) obtain m' where "ism' = ism" "ctx' = Some m'" "dm_id m' = dm_id m"
      using ismCacheKey_inject [OF _ _ d(3)] calculation(2) by blast
    ultimately show ?thesis using d(1,2) by (auto simp: derived_for_def)
  qed
qed

section \<open>A relay\<close>

definition whitelisted :: "relayer_config \<Rightarrow> ('log, 'v, 'ev, 'rcpt) relay_env \<Rightarrow> DispatchedMessage \<Rightarrow> bool" where
  "whitelisted cfg A m \<longleftrightarrow> (case whitelist cfg of None \<Rightarrow> True
     | Some wl \<Rightarrow> (\<exists>org dest. getOrigin A m = ret org \<and> getDestination A m = ret dest
         \<and> messageMatchesWhitelist (builder A) wl (dm_parsed (addNames org dest m)) = ret True))"

text \<open>\<open>md\<close> was built for the message from a configuration of its recipient's ISM.\<close>

definition built_for ::
    "('log, 'v, 'ev, 'rcpt) relay_world \<Rightarrow> ('log, 'v, 'ev, 'rcpt) relay_env \<Rightarrow> 'log list \<Rightarrow> DispatchedMessage \<Rightarrow> hex \<Rightarrow> bool" where
  "built_for W A logs m md \<longleftrightarrow> (\<exists>ism hook vs vs' mr. derived_for W A m ism
     \<and> metadataBuild (builder A) (metadataContext logs m hook) 10 (ismOf ism) vs = (ret mr, vs') \<and> metadata mr = Some md)"

lemma relayUndelivered_outcome:
  assumes ok: "ism_cache_ok W s" "isms_ok W" and run: "relayUndelivered (W n) logs m org dest s = (r, s')"
  shows "ism_cache_ok W s' \<and>
    ((\<exists>e. r = throw e) \<and> rl_submitted s' = rl_submitted s \<and> rl_events s' = rl_events s
     \<or> (\<exists>d md. getDestination (W n) m = ret d \<and> built_for W (W n) logs m md \<and> rl_submitted s' = rl_submitted s @ [(d, md, dm_message m)]
         \<and> r = sendProcess (W n) d md (dm_message m)
         \<and> rl_events s' = rl_events s @ (case r of Inl _ \<Rightarrow> [] | Inr _ \<Rightarrow> [MessageRelayed m org dest (endTime (W n) - startTime (W n))])))"
proof -
  obtain r1 s1 where c1: "getRecipientIsmConfig (W n) m s = (r1, s1)" by (meson surj_pair)
  obtain r2 s2 where c2: "getSenderHookConfig (W n) m s1 = (r2, s2)" by (meson surj_pair)
  note src = getRecipientIsmConfig_source [OF ok c1]
  have ok2: "ism_cache_ok W s2"
    using c2 src(1) by (auto simp: getSenderHookConfig_def op_simps split: sum.splits dest: getHookConfig_ism_cache)
  have fr: "rl_submitted s2 = rl_submitted s" "rl_events s2 = rl_events s"
    using message_config_frame(1) [OF c1] message_config_frame(2) [OF c2] by auto
  show ?thesis
  proof (cases "\<exists>g i h. estimateHandle (W n) m = ret g \<and> r1 = ret i \<and> r2 = ret h")
    case False
    then have "s' \<in> {s, s2} \<and> (\<exists>e. r = throw e)"
      using run c1 c2 by (auto simp: relayUndelivered_def op_simps op_settle_def split: sum.splits)
    then show ?thesis using ok(1) ok2 fr by auto
  next
    case True
    then obtain g i h where gih: "estimateHandle (W n) m = ret g" "r1 = ret i" "r2 = ret h" by blast
    obtain b vs' where b: "metadataBuild (builder (W n)) (metadataContext logs m h) 10 (ismOf i) (rl_validators s2) = (b, vs')" by (meson surj_pair)
    let ?t = "s2\<lparr>rl_validators := vs'\<rparr>"
    have okt: "ism_cache_ok W ?t" using ok2 by (simp add: ism_cache_ok_def)
    have run': "(case b of Inl e \<Rightarrow> (throw e, ?t) | Inr mr \<Rightarrow> (case metadata mr of
          None \<Rightarrow> op_throw (Thrown ''Unable to build metadata for message'' (dm_id m))
        | Some md \<Rightarrow> op_bind (deliver (W n) m md) (\<lambda>receipt. op_seq (emit (MessageRelayed m org dest (endTime (W n) - startTime (W n)))) (op_ret receipt))) ?t)
        = (r, s')"
      using run c1 c2 gih b by (simp add: relayUndelivered_def op_simps op_settle_def onValidators_def cong: sum.case_cong)
    show ?thesis
    proof (cases "\<exists>mr md d u. b = ret mr \<and> metadata mr = Some md \<and> getDestination (W n) m = ret d \<and> deliverable (W n) d = ret u")
      case False
      then have "s' = ?t \<and> (\<exists>e. r = throw e)" using run'
        by (auto simp: deliver_def op_simps split: sum.splits option.splits)
      then show ?thesis using okt fr by simp
    next
      case True
      then obtain mr md d u where d: "b = ret mr" "metadata mr = Some md" "getDestination (W n) m = ret d" "deliverable (W n) d = ret u" by blast
      have built: "built_for W (W n) logs m md" using src(2) [OF gih(2)] b d(1,2) unfolding built_for_def by blast
      have upd: "ism_cache_ok W (t\<lparr>rl_submitted := x, rl_events := y\<rparr>) = ism_cache_ok W t" "ism_cache_ok W (t\<lparr>rl_submitted := x\<rparr>) = ism_cache_ok W t" for t x y
        by (simp_all add: ism_cache_ok_def)
      show ?thesis
      proof (cases "sendProcess (W n) d md (dm_message m)")
        case (Inl e)
        then have "r = throw e" "s' = ?t\<lparr>rl_submitted := rl_submitted s @ [(d, md, dm_message m)]\<rparr>"
          using run' d fr by (auto simp: deliver_def op_simps)
        with Inl built d(3) okt fr upd(2) show ?thesis by auto
      next
        case (Inr x)
        then have "r = ret x" "s' = ?t\<lparr>rl_submitted := rl_submitted s @ [(d, md, dm_message m)],
            rl_events := rl_events s @ [MessageRelayed m org dest (endTime (W n) - startTime (W n))]\<rparr>"
          using run' d fr by (auto simp: deliver_def emit_def op_simps)
        with Inr built d(3) okt fr upd(1) show ?thesis by auto
      qed
    qed
  qed
qed

lemma addNames_same [simp]:
  "dm_id (addNames org dest m) = dm_id m" "dm_message (addNames org dest m) = dm_message m"
  "getOrigin A (addNames org dest m) = getOrigin A m" "getDestination A (addNames org dest m) = getDestination A m"
  "getRecipientIsmAddress A (addNames org dest m) = getRecipientIsmAddress A m"
  "isDelivered A (addNames org dest m) = isDelivered A m" "getProcessedReceipt A (addNames org dest m) = getProcessedReceipt A m"
  by (simp_all add: addNames_def Let_def getOrigin_def getDestination_def getRecipientIsmAddress_def isDelivered_def getProcessedReceipt_def)

lemma named_same [simp]:
  "dm_id (named cfg org dest m) = dm_id m" "dm_message (named cfg org dest m) = dm_message m"
  "getDestination A (named cfg org dest m) = getDestination A m" "isDelivered A (named cfg org dest m) = isDelivered A m"
  "getProcessedReceipt A (named cfg org dest m) = getProcessedReceipt A m"
  by (simp_all add: named_def)

lemma ism_cache_event [simp]: "ism_cache_ok W (s\<lparr>rl_events := es\<rparr>) = ism_cache_ok W s" "ism_cache_ok W (s\<lparr>rl_calls := n\<rparr>) = ism_cache_ok W s"
  by (simp_all add: ism_cache_ok_def)

lemma relayMessage_outcome:
  assumes ok: "ism_cache_ok W s" "isms_ok W" and run: "relayMessage cfg (W n) logs msg s = (r, s')"
  obtains (refused) es e where "r = throw e" "rl_submitted s' = rl_submitted s" "rl_events s' = rl_events s @ es" "length es \<le> 1" "ism_cache_ok W s'"
    | (already) e where "isDelivered (W n) msg = ret True" "r = getProcessedReceipt (W n) msg" "rl_submitted s' = rl_submitted s"
        "rl_events s' = rl_events s @ [e]" "ism_cache_ok W s'"
    | (submitted) e org d md where "whitelisted cfg (W n) msg" "isDelivered (W n) msg = ret False" "getDestination (W n) msg = ret d"
        "built_for W (W n) logs (named cfg org d msg) md" "rl_submitted s' = rl_submitted s @ [(d, md, dm_message msg)]"
        "r = sendProcess (W n) d md (dm_message msg)" "rl_events s' = rl_events s @ [e]" "ism_cache_ok W s'"
proof -
  consider (nochain) e where "r = throw e" "s' = s" | (chain) org dest where "getOrigin (W n) msg = ret org" "getDestination (W n) msg = ret dest"
    using run by (cases "getOrigin (W n) msg"; cases "getDestination (W n) msg") (auto simp: relayMessage_def op_simps)
  then show thesis
  proof cases
    case nochain
    then show thesis using ok(1) by (intro refused [of e "[]"]) auto
  next
    case chain
    let ?m = "named cfg org dest msg"
    define w where "w = (case whitelist cfg of None \<Rightarrow> ret True | Some wl \<Rightarrow> messageMatchesWhitelist (builder (W n)) wl (dm_parsed ?m))"
    have w: "whitelisted cfg (W n) msg" if "w = ret True"
      using that chain by (auto simp: w_def whitelisted_def named_def split: option.splits)
    have run': "op_bind (op_lift w) (\<lambda>ok.
       if \<not> ok then op_seq (emit (MessageSkipped ?m org dest SkipWhitelist)) (op_throw (Thrown ''Message does not match whitelist'' (dm_id ?m)))
       else op_bind (op_lift (isDelivered (W n) ?m)) (\<lambda>isDelivered.
         if isDelivered then op_seq (emit (MessageSkipped ?m org dest SkipAlreadyDelivered)) (op_lift (getProcessedReceipt (W n) ?m))
         else op_catch (relayUndelivered (W n) logs ?m org dest)
           (\<lambda>error. op_seq (emit (MessageFailed ?m org dest error)) (op_throw error)))) s = (r, s')"
      using run chain by (simp add: relayMessage_def Let_def w_def op_bind_run(1) op_run(5))
    consider (err) e where "w = throw e" | (no) "w = ret False" | (err2) e where "w = ret True" "isDelivered (W n) msg = throw e"
      | (yes) "w = ret True" "isDelivered (W n) msg = ret True" | (go) "w = ret True" "isDelivered (W n) msg = ret False"
      by (cases w; cases "isDelivered (W n) msg") (metis (full_types))+
    then show thesis
    proof cases
      case err
      then show thesis using run' ok(1) by (intro refused [of e "[]"]) (auto simp: op_simps)
    next
      case err2
      then show thesis using run' ok(1) by (intro refused [of e "[]"]) (auto simp: op_simps)
    next
      case no
      then show thesis using run' ok(1)
        by (intro refused [of _ "[MessageSkipped ?m org dest SkipWhitelist]"]) (auto simp: op_simps emit_def)
    next
      case yes
      then show thesis using run' ok(1) by (intro already) (auto simp: op_simps emit_def)
    next
      case go
      obtain r1 s1 where u: "relayUndelivered (W n) logs ?m org dest s = (r1, s1)" by (meson surj_pair)
      note out = relayUndelivered_outcome [OF ok u]
      have fin: "r = r1" "s' = (case r1 of Inr _ \<Rightarrow> s1 | Inl e \<Rightarrow> s1\<lparr>rl_events := rl_events s1 @ [MessageFailed ?m org dest e]\<rparr>)"
        using run' go u by (auto simp: op_simps emit_def split: sum.splits)
      have okc: "ism_cache_ok W s'" using out fin(2) by (auto split: sum.splits)
      from out consider (none) e where "r1 = throw e" "rl_submitted s1 = rl_submitted s" "rl_events s1 = rl_events s"
        | (sent) d md where "getDestination (W n) msg = ret d" "built_for W (W n) logs ?m md" "rl_submitted s1 = rl_submitted s @ [(d, md, dm_message msg)]"
          "r1 = sendProcess (W n) d md (dm_message msg)"
          "rl_events s1 = rl_events s @ (case r1 of Inl _ \<Rightarrow> [] | Inr _ \<Rightarrow> [MessageRelayed ?m org dest (endTime (W n) - startTime (W n))])"
        by auto
      then show thesis
      proof cases
        case none
        then show thesis using fin okc by (intro refused [of e "[MessageFailed ?m org dest e]"]) auto
      next
        case sent
        then have "d = dest" using chain by simp
        have sub: "rl_submitted s' = rl_submitted s @ [(d, md, dm_message msg)]" using sent(3) fin(2) by (cases r1) auto
        have ev: "rl_events s' = rl_events s @ [case r1 of Inl e \<Rightarrow> MessageFailed ?m org dest e
            | Inr _ \<Rightarrow> MessageRelayed ?m org dest (endTime (W n) - startTime (W n))]"
          using sent(5) fin(2) by (cases r1) auto
        show thesis using submitted [OF w [OF go(1)] go(2) sent(1) _ sub _ ev okc] sent(2,4) fin(1) \<open>d = dest\<close> by blast
      qed
    qed
  qed
qed

text \<open>
  C3. A relay submits at most one transaction, and then only for a message that the whitelist admits, that the destination's
  mailbox does not have yet, and with metadata that was built for a configuration of the recipient's ISM derived for that ISM and this very message,
  also when the configuration comes from the cache. When it returns without a transaction the message was delivered already and the
  receipt is that of its only process event. It reports at most one event, and exactly one when it returns; and the cache stays
  consistent for the relays that follow.
\<close>

theorem relay_submission_justified:
  assumes "ism_cache_ok W s" and "isms_ok W" and "relayNext cfg W logs msg s = (r, s')"
  shows "ism_cache_ok W s'
    \<and> (rl_submitted s' = rl_submitted s \<and> (\<forall>x. r = ret x \<longrightarrow> isDelivered (W (rl_calls s)) msg = ret True \<and> getProcessedReceipt (W (rl_calls s)) msg = ret x)
       \<or> (\<exists>org d md. rl_submitted s' = rl_submitted s @ [(d, md, dm_message msg)] \<and> getDestination (W (rl_calls s)) msg = ret d
          \<and> whitelisted cfg (W (rl_calls s)) msg \<and> isDelivered (W (rl_calls s)) msg = ret False
          \<and> built_for W (W (rl_calls s)) logs (named cfg org d msg) md \<and> r = sendProcess (W (rl_calls s)) d md (dm_message msg)))
    \<and> (\<exists>es. rl_events s' = rl_events s @ es \<and> length es \<le> 1 \<and> (\<forall>x. r = ret x \<longrightarrow> length es = 1))"
proof -
  let ?t = "s\<lparr>rl_calls := Suc (rl_calls s)\<rparr>"
  have run: "relayMessage cfg (W (rl_calls s)) logs msg ?t = (r, s')" using assms(3) by (simp add: relayNext_def op_simps)
  have "ism_cache_ok W ?t" using assms(1) by simp
  from this assms(2) run show ?thesis by (cases rule: relayMessage_outcome) auto
qed

section \<open>The cache of hook configurations\<close>

text \<open>
  The cache of hook configurations does not tell messages apart: once the configuration of a hook was derived for one message,
  every later message gets that configuration, whatever a reader would derive for it.
\<close>

theorem getHookConfig_shared_by_messages:
  assumes "rl_cache s = Some c" and "cachedAt (ca_hook c) chain hook = VUndefined"
    and "deriveHook A chain hook (Some m1) = ret config" and "isTruthy config"
  shows "\<exists>s'. getHookConfig A chain hook (Some m1) s = (ret config, s')
    \<and> (\<forall>A' m2. fst (getHookConfig A' chain hook (Some m2) s') = ret config)"
  using assms by (simp add: getHookConfig_def op_simps cachedAt_cacheAt)

section \<open>An example\<close>

text \<open>The recipient trusts the relayer; the hook of a message routes by its destination.\<close>

definition ex_trusted_config :: jsval where
  "ex_trusted_config = VObj [(''type'', VStr ''trustedRelayerIsm''), (''address'', VStr ''0xt''), (''relayer'', VStr ''me'')]"

definition ex_hook_for :: "DispatchedMessage option \<Rightarrow> jsval" where
  "ex_hook_for ctx = VObj [(''type'', VStr ''domainRoutingHook''),
     (''domains'', VArr (case ctx of None \<Rightarrow> [] | Some m \<Rightarrow> [VNum (of_nat (pm_destination (dm_parsed m)))]))]"

definition ex_relay_env :: "(unit, string, unit, unit) relay_env" where
  "ex_relay_env = \<lparr>builder = ex_relayer_env, ethers = ex_ethers\<lparr>arrayify := \<lambda>_. ret (replicate 77 0)\<rparr>, solidityKeccak256 = ret,
     dispatchMessages = (\<lambda>_. []), delivered = (\<lambda>_ _. ret False), processedAt = (\<lambda>_ _. throw TypeError),
     processEvents = (\<lambda>_ _ _. throw TypeError), recipientIsm = (\<lambda>_ _. ret ''0xt''), clientHook = (\<lambda>_ _. throw TypeError),
     defaultHook = (\<lambda>_. ret ''0xh''), handleGas = (\<lambda>_ _ _. throw TypeError), deriveHook = (\<lambda>_ _ ctx. ret (ex_hook_for ctx)),
     deriveIsm = (\<lambda>_ _ _. ret ex_trusted_config), deliverable = (\<lambda>_. ret ()), sendProcess = (\<lambda>_ _ _. ret ()),
     transactionReceipt = (\<lambda>_ _. ret []), defaultsOf = ret [], startTime = 0, endTime = 5\<rparr>"

definition ex_message :: "nat \<Rightarrow> DispatchedMessage" where
  "ex_message dest = \<lparr>dm_id = ''0xid'', dm_message = ''0x00'', dm_parsed = \<lparr>pm_version = 3, pm_nonce = 0, pm_origin = 5, pm_sender = ''0xs'',
     pm_destination = dest, pm_recipient = ''0xr'', pm_body = ''0x'', originChain = None, destinationChain = None\<rparr>\<rparr>"

definition ex_relayer_config :: relayer_config where
  "ex_relayer_config = \<lparr>whitelist = None, retryTimeout = 1000, contractChains = [''alpha'']\<rparr>"

lemma ex_trusted_ism: "ismOf ex_trusted_config = ex_trusted"
  by (subst ismOf.simps) (simp add: ex_trusted_config_def ex_trusted_def propOf_def ismTypeOf_def ismTypeNames_def)

lemma ex_world_ok: "isms_ok (\<lambda>_. ex_relay_env)"
  by (simp add: isms_ok_def ex_relay_env_def)

lemma ex_build: "metadataBuild ex_relayer_env ctx (Suc d) ex_trusted s = (ret (NullResult TRUSTED_RELAYER ''0xt'' ''0x''), s)"
  by (simp add: ex_trusted_def nullTypes_def nullBuild_def ex_relayer_env_def NULL_METADATA_def op_simps)

lemma ex_relay:
  "\<exists>s'. relayNext ex_relayer_config (\<lambda>_. ex_relay_env) [] (ex_message 2) (new_HyperlaneRelayer True :: string relayer) = (ret (), s')
     \<and> rl_submitted s' = [(''alpha'', ''0x'', ''0x00'')]"
proof -
  have t: "isTruthy ex_trusted_config" "isTruthy (ex_hook_for ctx)" for ctx by (simp_all add: ex_trusted_config_def ex_hook_for_def)
  have b: "metadataBuild ex_relayer_env ctx 10 ex_trusted s = (ret (NullResult TRUSTED_RELAYER ''0xt'' ''0x''), s)" for ctx s
    using ex_build [of ctx 9 s] by (simp only: eval_nat_numeral BitM.simps One_nat_def) 
  have c: "chainNameOf ex_relayer_env d = ret ''alpha''" "relayer_env.getAddress ex_relayer_env = ret" for d by (simp_all add: ex_relayer_env_def)
  show ?thesis
    by (simp add: relayNext_def relayMessage_def relayUndelivered_def getRecipientIsmConfig_def getSenderHookConfig_def getIsmConfig_def
        getHookConfig_def getSenderHookAddress_def getHook_def getRecipientIsmAddress_def estimateHandle_def isDelivered_def getOrigin_def
        getDestination_def deliver_def emit_def onValidators_def op_settle_def op_simps Let_def ex_relayer_config_def named_def
        ex_relay_env_def ex_message_def bytes32ToAddress_def c t b ex_trusted_ism new_HyperlaneRelayer_def cachedAt_def propOf_def)
qed

theorem relay_submission_justified_witness:
  "\<exists>s' org md. relayNext ex_relayer_config (\<lambda>_. ex_relay_env) [] (ex_message 2) (new_HyperlaneRelayer True :: string relayer) = (ret (), s')
     \<and> rl_submitted s' = [(''alpha'', md, ''0x00'')]
     \<and> built_for (\<lambda>_. ex_relay_env) ex_relay_env [] (named ex_relayer_config org ''alpha'' (ex_message 2)) md"
proof -
  obtain s' where s': "relayNext ex_relayer_config (\<lambda>_. ex_relay_env) [] (ex_message 2) (new_HyperlaneRelayer True :: string relayer) = (ret (), s')"
    "rl_submitted s' = [(''alpha'', ''0x'', ''0x00'')]" using ex_relay by blast
  have "rl_submitted (new_HyperlaneRelayer True :: string relayer) = []" by (simp add: new_HyperlaneRelayer_def)
  then show ?thesis using relay_submission_justified [OF ism_cache_new ex_world_ok s'(1)] s' by (simp add: ex_message_def)
qed

theorem getHookConfig_shared_by_messages_witness:
  "\<exists>s'. getHookConfig ex_relay_env ''alpha'' ''0xh'' (Some (ex_message 2)) (new_HyperlaneRelayer True :: string relayer) = (ret (ex_hook_for (Some (ex_message 2))), s')
     \<and> fst (getHookConfig ex_relay_env ''alpha'' ''0xh'' (Some (ex_message 3)) s') = ret (ex_hook_for (Some (ex_message 2)))
     \<and> deriveHook ex_relay_env ''alpha'' ''0xh'' (Some (ex_message 3)) \<noteq> ret (ex_hook_for (Some (ex_message 2)))"
proof -
  let ?s = "new_HyperlaneRelayer True :: string relayer"
  have c: "rl_cache ?s = Some \<lparr>ca_hook = VObj [], ca_ism = VObj [], ca_backlog = 1\<rparr>"
    and d: "deriveHook ex_relay_env ''alpha'' ''0xh'' (Some m) = ret (ex_hook_for (Some m))" for m
    by (simp_all add: new_HyperlaneRelayer_def ex_relay_env_def)
  have n: "cachedAt (ca_hook \<lparr>ca_hook = VObj [], ca_ism = VObj [], ca_backlog = 1\<rparr>) ''alpha'' ''0xh'' = VUndefined"
    by (simp add: cachedAt_def propOf_def)
  have t: "isTruthy (ex_hook_for (Some (ex_message 2)))" by (simp add: ex_hook_for_def)
  have ne: "ex_hook_for (Some (ex_message 3)) \<noteq> ex_hook_for (Some (ex_message 2))" by (simp add: ex_hook_for_def ex_message_def)
  obtain s' where s': "getHookConfig ex_relay_env ''alpha'' ''0xh'' (Some (ex_message 2)) ?s = (ret (ex_hook_for (Some (ex_message 2))), s')"
    "\<forall>(A' :: (unit, string, unit, unit) relay_env) m2. fst (getHookConfig A' ''alpha'' ''0xh'' (Some m2) s') = ret (ex_hook_for (Some (ex_message 2)))"
    using getHookConfig_shared_by_messages [OF c n d t] by (elim exE conjE) (rule that)
  from ne s'(1) s'(2) [rule_format, of ex_relay_env "ex_message 3"] show ?thesis by (intro exI conjI) (simp_all add: d)
qed

end
