(* ===== verification/Relayer_Backlog.thy ===== *)
theory Relayer_Backlog
  imports Relayer_Safety
begin

text \<open>
  The relayer as a process: \<open>start\<close>, \<open>stop\<close> and \<open>flushBacklog\<close> of \<open>typescript/relayer/src/core/HyperlaneRelayer.ts\<close>, the listener of
  \<open>onDispatch\<close> in \<open>HyperlaneCore.ts\<close>, and the cache file of \<open>typescript/relayer/src/fs/RelayerService.ts\<close>.

  The loop of \<open>flushBacklog\<close> gives way to other events only where it awaits: \<open>flushHead\<close> is an iteration up to there, \<open>flushRelay\<close> the
  rest of an iteration that relays. After a quick stop and start the old loop goes on beside the new one, so a process has a list of
  loops. Messages are parsed with the same \<open>P\<close> throughout. A receipt that the provider does not find counts as a failure.
  Listeners which a failing \<open>start\<close> registered before it met a chain without contracts are left out.
\<close>

section \<open>The backlog\<close>

definition backlogOf :: "'v relayer \<Rightarrow> BacklogMessage list" where
  "backlogOf s = rl_arrays s ! rl_backlog s"

definition setBacklog :: "BacklogMessage list \<Rightarrow> 'v relayer \<Rightarrow> 'v relayer" where
  "setBacklog q s = s\<lparr>rl_arrays := (rl_arrays s)[rl_backlog s := q]\<rparr>"

definition pushBacklog :: "BacklogMessage \<Rightarrow> ('v, unit) relay_op" where
  "pushBacklog m = op_modify (\<lambda>s. setBacklog (backlogOf s @ [m]) s)"

definition whitelistChains :: "relayer_config \<Rightarrow> string list option" where
  "whitelistChains cfg = map_option dict_keys (whitelist cfg)"

text \<open>The listener that \<open>onDispatch\<close> registers and the handler it calls: which dispatched messages are taken on.\<close>

definition accepts :: "relayer_config \<Rightarrow> ('log, 'v, 'ev, 'rcpt) relay_env \<Rightarrow> hex \<Rightarrow> bool" where
  "accepts cfg P message =
     (case rbind (parseDispatchedMessage P message) (\<lambda>dispatched.
          rbind (getOrigin P dispatched) (\<lambda>org. rbind (getDestination P dispatched) (\<lambda>dest.
            case whitelist cfg of
              None \<Rightarrow> ret True
            | Some wl \<Rightarrow> messageMatchesWhitelist (builder P) wl (dm_parsed (addNames org dest dispatched))))) of
        Inr b \<Rightarrow> b
      | Inl _ \<Rightarrow> False)"

definition onDispatch :: "relayer_config \<Rightarrow> ('log, 'v, 'ev, 'rcpt) relay_env \<Rightarrow> int \<Rightarrow> hex \<Rightarrow> string \<Rightarrow> ('v, unit) relay_op" where
  "onDispatch cfg P now message tx =
     op_when (accepts cfg P message)
       (pushBacklog \<lparr>attempts = 0, lastAttempt = now, bk_message = message, bk_dispatchTx = tx\<rparr>)"

text \<open>\<open>start\<close>: the backlog becomes the array of the cache, or a new one.\<close>

definition start :: "relayer_config \<Rightarrow> ('v, unit) relay_op" where
  "start cfg =
     op_bind (op_gets rl_running) (\<lambda>running.
     if running then op_throw (AssertionError ''Relayer already started'')
     else op_seq (op_modify (\<lambda>s. case rl_cache s of
           Some c \<Rightarrow> s\<lparr>rl_backlog := ca_backlog c\<rparr>
         | None \<Rightarrow> s\<lparr>rl_backlog := length (rl_arrays s), rl_arrays := rl_arrays s @ [[]]\<rparr>))
       (if \<not> set (case whitelistChains cfg of Some cs \<Rightarrow> cs | None \<Rightarrow> contractChains cfg) \<subseteq> set (contractChains cfg) then op_throw TypeError
        else op_modify (\<lambda>s. s\<lparr>rl_running := True\<rparr>)))"

definition stop :: "('v, unit) relay_op" where
  "stop =
     op_bind (op_gets rl_running) (\<lambda>running.
     if \<not> running then op_throw (AssertionError ''Relayer not started'')
     else op_modify (\<lambda>s. s\<lparr>rl_running := False, rl_cache := map_option (\<lambda>c. c\<lparr>ca_backlog := rl_backlog s\<rparr>) (rl_cache s)\<rparr>))"

section \<open>The loop\<close>

datatype loop = Idle | Relaying BacklogMessage

text \<open>
  An iteration up to its first \<open>await\<close>: the state of the loop afterwards, or \<open>None\<close> when it has ended. It ends when the relayer is
  stopped, and by an unhandled rejection when the message cannot be parsed, which happens outside of the \<open>try\<close>.
\<close>

definition flushHead :: "relayer_config \<Rightarrow> ('log, 'v, 'ev, 'rcpt) relay_env \<Rightarrow> int \<Rightarrow> ('v, loop option) relay_op" where
  "flushHead cfg P now =
     op_bind (op_gets rl_running) (\<lambda>running.
     if \<not> running then op_ret None
     else op_bind (op_gets backlogOf) (\<lambda>backlog.
       op_seq (emit (Backlog (length backlog)))
       (case backlog of
          [] \<Rightarrow> op_ret (Some Idle)
        | backlogMsg # rest \<Rightarrow>
            op_seq (op_modify (setBacklog rest))
            (if now < lastAttempt backlogMsg + int (attempts backlogMsg) * retryTimeout cfg
             then op_seq (pushBacklog backlogMsg) (op_ret (Some Idle))
             else op_ret (case parseDispatchedMessage P (bk_message backlogMsg) of
                Inl _ \<Rightarrow> None
              | Inr _ \<Rightarrow> Some (Relaying backlogMsg))))))"

definition nameOrDomain :: "('log, 'v, 'ev, 'rcpt) relay_env \<Rightarrow> nat \<Rightarrow> string" where
  "nameOrDomain P d = (case chainNameOf (builder P) d of Inr c \<Rightarrow> c | Inl _ \<Rightarrow> decimalDigits d)"

text \<open>The message of a retry event is the object given to \<open>relayMessage\<close>, which with a whitelist adds the names of the chains to it.\<close>

definition retriedMessage ::
    "relayer_config \<Rightarrow> ('log, 'v, 'ev, 'rcpt) relay_env \<Rightarrow> string \<Rightarrow> DispatchedMessage \<Rightarrow> DispatchedMessage" where
  "retriedMessage cfg A tx m =
     (case (transactionReceipt A (pm_origin (dm_parsed m)) tx, getOrigin A m, getDestination A m) of
        (Inr _, Inr org, Inr dest) \<Rightarrow> named cfg org dest m
      | _ \<Rightarrow> m)"

text \<open>The rest of the iteration: it returns whether the message was relayed.\<close>

definition flushRelay ::
    "relayer_config \<Rightarrow> ('log, 'v, 'ev, 'rcpt) relay_env \<Rightarrow> ('log, 'v, 'ev, 'rcpt) relay_world \<Rightarrow> int \<Rightarrow> BacklogMessage \<Rightarrow> ('v, bool) relay_op" where
  "flushRelay cfg P W now backlogMsg =
     op_bind (op_lift (parseDispatchedMessage P (bk_message backlogMsg))) (\<lambda>m.
     op_bind (op_gets rl_calls) (\<lambda>n.
     op_seq (op_modify (\<lambda>s. s\<lparr>rl_calls := Suc n\<rparr>))
     (op_try
       (op_bind (op_lift (transactionReceipt (W n) (pm_origin (dm_parsed m)) (bk_dispatchTx backlogMsg))) (\<lambda>logs.
        op_bind (relayMessage cfg (W n) logs m) (\<lambda>_. op_ret True)))
       (op_seq (emit (Retry (retriedMessage cfg (W n) (bk_dispatchTx backlogMsg) m)
           (nameOrDomain P (pm_origin (dm_parsed m))) (nameOrDomain P (pm_destination (dm_parsed m))) (Suc (attempts backlogMsg))))
       (op_seq (pushBacklog (backlogMsg\<lparr>attempts := Suc (attempts backlogMsg), lastAttempt := now\<rparr>))
         (op_ret False))))))"

section \<open>The process\<close>

type_synonym entry = "hex \<times> string"

definition entryOf :: "BacklogMessage \<Rightarrow> entry" where
  "entryOf m = (bk_message m, bk_dispatchTx m)"

text \<open>\<open>pr_accepted\<close> and \<open>pr_relayed\<close> record the messages that were taken on and those whose relay returned.\<close>

record 'v process =
  pr_relayer :: "'v relayer"
  pr_loops :: "loop list"
  pr_accepted :: "entry multiset"
  pr_relayed :: "entry multiset"

inductive busy_step ::
    "relayer_config \<Rightarrow> ('log, 'v, 'ev, 'rcpt) relay_env \<Rightarrow> ('log, 'v, 'ev, 'rcpt) relay_world \<Rightarrow> 'v process \<Rightarrow> nat \<Rightarrow> 'v process \<Rightarrow> bool"
  for cfg P W where
  dispatch: "rl_running (pr_relayer p) \<Longrightarrow> onDispatch cfg P now message tx (pr_relayer p) = (ret (), r) \<Longrightarrow>
    busy_step cfg P W p 0 (p\<lparr>pr_relayer := r, pr_accepted := pr_accepted p + (if accepts cfg P message then {#(message, tx)#} else {#})\<rparr>)"
| head: "i < length (pr_loops p) \<Longrightarrow> pr_loops p ! i = Idle \<Longrightarrow> flushHead cfg P now (pr_relayer p) = (ret l, r) \<Longrightarrow>
    busy_step cfg P W p 1 (p\<lparr>pr_relayer := r,
      pr_loops := (case l of Some x \<Rightarrow> (pr_loops p)[i := x] | None \<Rightarrow> take i (pr_loops p) @ drop (Suc i) (pr_loops p))\<rparr>)"
| relay: "i < length (pr_loops p) \<Longrightarrow> pr_loops p ! i = Relaying m \<Longrightarrow> flushRelay cfg P W now m (pr_relayer p) = (ret ok, r) \<Longrightarrow>
    busy_step cfg P W p 0 (p\<lparr>pr_relayer := r, pr_loops := (pr_loops p)[i := Idle],
      pr_relayed := pr_relayed p + (if ok then {#entryOf m#} else {#})\<rparr>)"

inductive process_step ::
    "relayer_config \<Rightarrow> ('log, 'v, 'ev, 'rcpt) relay_env \<Rightarrow> ('log, 'v, 'ev, 'rcpt) relay_world \<Rightarrow> 'v process \<Rightarrow> 'v process \<Rightarrow> bool"
  for cfg P W where
  busy: "busy_step cfg P W p n p' \<Longrightarrow> process_step cfg P W p p'"
| started: "start cfg (pr_relayer p) = (ret (), r) \<Longrightarrow> process_step cfg P W p (p\<lparr>pr_relayer := r, pr_loops := pr_loops p @ [Idle]\<rparr>)"
| not_started: "start cfg (pr_relayer p) = (throw e, r) \<Longrightarrow> process_step cfg P W p (p\<lparr>pr_relayer := r\<rparr>)"
| stopped: "stop (pr_relayer p) = (x, r) \<Longrightarrow> process_step cfg P W p (p\<lparr>pr_relayer := r\<rparr>)"

section \<open>The cache file\<close>

text \<open>\<open>JSON.stringify\<close> followed by \<open>JSON.parse\<close>: undefined properties are left out, undefined elements become null.\<close>

fun jsonCopy :: "jsval \<Rightarrow> jsval" where
  "jsonCopy (VObj ps) = VObj (map (\<lambda>kx. (fst kx, jsonCopy (snd kx))) (filter (\<lambda>kx. snd kx \<noteq> VUndefined) ps))"
| "jsonCopy (VArr xs) = VArr (map (\<lambda>x. if x = VUndefined then VNull else jsonCopy x) xs)"
| "jsonCopy v = v"

type_synonym cache_file = "jsval \<times> jsval \<times> BacklogMessage list"

definition saveCache :: "'v relayer \<Rightarrow> cache_file option" where
  "saveCache s = map_option (\<lambda>c. (jsonCopy (ca_hook c), jsonCopy (ca_ism c), rl_arrays s ! ca_backlog c)) (rl_cache s)"

text \<open>\<open>loadCache\<close> leaves the relayer alone when the file does not fit \<open>RelayerCacheSchema\<close> or hydration fails.\<close>

definition loadCache :: "(jsval \<Rightarrow> jsval \<Rightarrow> bool) \<Rightarrow> cache_file \<Rightarrow> ('v, unit) relay_op" where
  "loadCache schema f = (case f of (hook, ism, backlog) \<Rightarrow>
     op_try (if schema hook ism then hydrate hook ism backlog else op_throw (Thrown ''ZodError'' '''')) (op_ret ()))"

definition buildWhitelistFromConfig ::
    "(string, string list) dict option \<Rightarrow> string list option \<Rightarrow> (string, string list) dict option" where
  "buildWhitelistFromConfig wl chainNames =
     (case wl of Some w \<Rightarrow> Some w | None \<Rightarrow> map_option (\<lambda>cs. foldl (\<lambda>d c. AList.update c [] d) [] cs) chainNames)"

definition createRelayer :: "(jsval \<Rightarrow> jsval \<Rightarrow> bool) \<Rightarrow> cache_file option \<Rightarrow> 'v relayer" where
  "createRelayer schema f =
     (case f of None \<Rightarrow> new_HyperlaneRelayer True | Some c \<Rightarrow> snd (loadCache schema c (new_HyperlaneRelayer True)))"

definition serviceStop :: "('v, cache_file option) relay_op" where
  "serviceStop = op_seq stop (op_gets saveCache)"

section \<open>Where a message is\<close>

text \<open>The array that survives a restart: that of the cache, or without a cache that of the relayer.\<close>

definition ownedArray :: "'v relayer \<Rightarrow> BacklogMessage list" where
  "ownedArray s = rl_arrays s ! (case rl_cache s of Some c \<Rightarrow> ca_backlog c | None \<Rightarrow> rl_backlog s)"

fun loopEntry :: "loop \<Rightarrow> BacklogMessage list" where
  "loopEntry Idle = []"
| "loopEntry (Relaying m) = [m]"

definition inFlight :: "'v process \<Rightarrow> entry multiset" where
  "inFlight p = mset (map entryOf (concat (map loopEntry (pr_loops p))))"

definition pending :: "'v process \<Rightarrow> entry multiset" where
  "pending p = mset (map entryOf (ownedArray (pr_relayer p))) + inFlight p"

text \<open>A relay changes nothing of the backlog.\<close>

definition backlog_frame :: "BacklogMessage list list \<times> nat \<times> bool \<times> nat option \<Rightarrow> 'v relayer \<Rightarrow> bool" where
  "backlog_frame x s \<longleftrightarrow> x = (rl_arrays s, rl_backlog s, rl_running s, map_option ca_backlog (rl_cache s))"

lemma frame_config:
  "keeps (backlog_frame x) (getIsmConfig A c i ctx)" "keeps (backlog_frame x) (getHookConfig A c i ctx)"
  unfolding getIsmConfig_def getHookConfig_def Let_def
  by (intro keeps keeps_modify; simp add: backlog_frame_def option.map_comp comp_def cong: option.map_cong)+

lemma frame_relay: "keeps (backlog_frame x) (relayMessage cfg A logs m)"
proof -
  have v: "keeps (backlog_frame x) (onValidators b)" for b
    by (auto simp: keeps_def onValidators_def backlog_frame_def split: prod.split)
  have e: "keeps (backlog_frame x) (emit ev)" for ev
    unfolding emit_def by (rule keeps_modify) (simp add: backlog_frame_def)
  have d: "keeps (backlog_frame x) (deliver A m md)" for m md
    unfolding deliver_def by (intro keeps keeps_modify) (simp add: backlog_frame_def)
  have u: "keeps (backlog_frame x) (relayUndelivered A logs m org dest)" for m org dest
    unfolding relayUndelivered_def getRecipientIsmConfig_def getSenderHookConfig_def
    by (intro keeps v e d frame_config)
  show ?thesis unfolding relayMessage_def Let_def by (intro keeps u e)
qed

section \<open>No message is lost\<close>

text \<open>The relayer and its cache share the array of the backlog.\<close>

definition aligned :: "'v relayer \<Rightarrow> bool" where
  "aligned s \<longleftrightarrow> (\<exists>c. rl_cache s = Some c \<and> rl_backlog s = ca_backlog c) \<and> rl_backlog s < length (rl_arrays s)"

lemma aligned_owned: "aligned s \<Longrightarrow> ownedArray s = backlogOf s"
  by (auto simp: aligned_def ownedArray_def backlogOf_def)

lemma aligned_set [simp]: "aligned (setBacklog q s) = aligned s" "aligned s \<Longrightarrow> backlogOf (setBacklog q s) = q"
  by (auto simp: aligned_def setBacklog_def backlogOf_def)

lemma aligned_event [simp]: "aligned (s\<lparr>rl_events := es\<rparr>) = aligned s" "backlogOf (s\<lparr>rl_events := es\<rparr>) = backlogOf s"
  by (simp_all add: aligned_def backlogOf_def)

definition parses :: "('log, 'v, 'ev, 'rcpt) relay_env \<Rightarrow> BacklogMessage \<Rightarrow> bool" where
  "parses P m \<longleftrightarrow> (\<exists>d. parseDispatchedMessage P (bk_message m) = ret d)"

lemma accepts_parses: "accepts cfg P (bk_message m) \<Longrightarrow> parses P m"
  by (cases "parseDispatchedMessage P (bk_message m)") (auto simp: accepts_def parses_def)

lemma flushHead_returns: "\<exists>l s'. flushHead cfg P now s = (ret l, s')"
  by (cases "rl_running s"; cases "backlogOf s") (auto simp: flushHead_def op_simps emit_def pushBacklog_def)

lemma flushHead_outcome:
  assumes "flushHead cfg P now s = (ret l, s')" "aligned s" "\<forall>m \<in> set (backlogOf s). parses P m"
  shows "aligned s' \<and> set (backlogOf s') \<subseteq> set (backlogOf s)
    \<and> mset (backlogOf s) = mset (backlogOf s') + mset (case l of Some x \<Rightarrow> loopEntry x | None \<Rightarrow> [])
    \<and> (\<forall>m. l = Some (Relaying m) \<longrightarrow> m \<in> set (backlogOf s) \<and> lastAttempt m + int (attempts m) * retryTimeout cfg \<le> now)"
  using assms by (auto simp: flushHead_def op_simps emit_def pushBacklog_def parses_def split: list.splits if_splits sum.splits)

lemma flushRelay_outcome:
  assumes "flushRelay cfg P W now m s = (r, s')" "parses P m" "aligned s"
  shows "\<exists>ok. r = ret ok \<and> aligned s' \<and> (if ok then backlogOf s' = backlogOf s
    else backlogOf s' = backlogOf s @ [m\<lparr>attempts := Suc (attempts m), lastAttempt := now\<rparr>])"
proof -
  obtain d where d: "parseDispatchedMessage P (bk_message m) = ret d" using assms(2) by (auto simp: parses_def)
  let ?n = "rl_calls s" and ?s0 = "s\<lparr>rl_calls := Suc (rl_calls s)\<rparr>"
  let ?body = "op_bind (op_lift (transactionReceipt (W ?n) (pm_origin (dm_parsed d)) (bk_dispatchTx m))) (\<lambda>logs.
        op_bind (relayMessage cfg (W ?n) logs d) (\<lambda>_. op_ret True))"
  obtain b s1 where b: "?body ?s0 = (b, s1)" by (meson surj_pair)
  have k: "keeps (backlog_frame x) ?body" for x by (intro keeps frame_relay)
  have "backlog_frame (rl_arrays s, rl_backlog s, rl_running s, map_option ca_backlog (rl_cache s)) ?s0" by (simp add: backlog_frame_def)
  then have f: "backlog_frame (rl_arrays s, rl_backlog s, rl_running s, map_option ca_backlog (rl_cache s)) s1"
    using keepsD [OF k _ b] by blast
  then have a: "aligned s1" "backlogOf s1 = backlogOf s" using assms(3)
    by (auto simp: aligned_def backlogOf_def backlog_frame_def map_option_case split: option.splits)
  have ok: "b = ret True \<or> (\<exists>e. b = throw e)" using b by (auto simp: op_simps split: sum.splits prod.splits)
  have run: "op_try ?body (op_seq (emit (Retry (retriedMessage cfg (W ?n) (bk_dispatchTx m) d) (nameOrDomain P (pm_origin (dm_parsed d))) (nameOrDomain P (pm_destination (dm_parsed d)))
        (Suc (attempts m)))) (op_seq (pushBacklog (m\<lparr>attempts := Suc (attempts m), lastAttempt := now\<rparr>)) (op_ret False))) ?s0 = (r, s')"
    using assms(1) d by (simp add: flushRelay_def op_bind_run(1,2) op_run)
  from ok show ?thesis
  proof
    assume "b = ret True"
    then show ?thesis using run b a by (intro exI [of _ True]) (simp add: op_bind_run(3))
  next
    assume "\<exists>e. b = throw e"
    then obtain e where "b = throw e" by blast
    from run [unfolded op_bind_run(3) b this prod.case sum.case]
    obtain es where "r = ret False" "s' = setBacklog (backlogOf s1 @ [m\<lparr>attempts := Suc (attempts m), lastAttempt := now\<rparr>]) (s1\<lparr>rl_events := es\<rparr>)"
      by (simp add: op_bind_run(2) op_run emit_def pushBacklog_def eq_commute [of _ s'])
    then show ?thesis using a by (intro exI [of _ False]) simp
  qed
qed

lemma mset_loops_update:
  "i < length ls \<Longrightarrow> mset (concat (map f (ls[i := x]))) + mset (f (ls ! i)) = mset (concat (map f ls)) + mset (f x)"
proof (induction ls arbitrary: i)
  case (Cons l ls)
  show ?case
  proof (cases i)
    case (Suc j)
    then show ?thesis using Cons.IH [of j] Cons.prems by (simp add: add.assoc)
  qed simp
qed simp

lemma mset_loops_remove:
  assumes "i < length ls"
  shows "mset (concat (map f (take i ls @ drop (Suc i) ls))) + mset (f (ls ! i)) = mset (concat (map f ls))"
proof -
  have "mset (concat (map f ls)) = mset (concat (map f (take i ls @ ls ! i # drop (Suc i) ls)))"
    using assms by (simp add: id_take_nth_drop [symmetric])
  then show ?thesis by simp
qed

definition backlog_inv :: "('log, 'v, 'ev, 'rcpt) relay_env \<Rightarrow> entry multiset \<Rightarrow> 'v process \<Rightarrow> bool" where
  "backlog_inv P base p \<longleftrightarrow>
     (\<exists>c. rl_cache (pr_relayer p) = Some c \<and> ca_backlog c < length (rl_arrays (pr_relayer p)))
   \<and> (aligned (pr_relayer p) \<or> \<not> rl_running (pr_relayer p) \<and> pr_loops p = [])
   \<and> (\<forall>m \<in> set (ownedArray (pr_relayer p)). parses P m) \<and> (\<forall>m. Relaying m \<in> set (pr_loops p) \<longrightarrow> parses P m)
   \<and> base + pr_accepted p = pending p + pr_relayed p"

lemma aligned_cache: "aligned s \<Longrightarrow> \<exists>c. rl_cache s = Some c \<and> ca_backlog c < length (rl_arrays s)"
  by (auto simp: aligned_def)

lemma inv_aligned:
  assumes "backlog_inv P base p" "rl_running (pr_relayer p) \<or> pr_loops p \<noteq> []"
  shows "aligned (pr_relayer p)" and "\<forall>m \<in> set (backlogOf (pr_relayer p)). parses P m"
    and "base + pr_accepted p = mset (map entryOf (backlogOf (pr_relayer p))) + inFlight p + pr_relayed p"
  using assms by (auto simp: backlog_inv_def pending_def aligned_owned)

lemma inv_alignedI:
  assumes "aligned (pr_relayer p)" "\<forall>m \<in> set (backlogOf (pr_relayer p)). parses P m" "\<forall>m. Relaying m \<in> set (pr_loops p) \<longrightarrow> parses P m"
    "base + pr_accepted p = mset (map entryOf (backlogOf (pr_relayer p))) + inFlight p + pr_relayed p"
  shows "backlog_inv P base p"
  using assms aligned_cache [OF assms(1)] by (auto simp: backlog_inv_def pending_def aligned_owned)

lemma inFlight_update:
  "i < length (pr_loops p) \<Longrightarrow> inFlight (p\<lparr>pr_loops := (pr_loops p)[i := x]\<rparr>) + mset (map entryOf (loopEntry (pr_loops p ! i)))
    = inFlight p + mset (map entryOf (loopEntry x))"
  using mset_loops_update [of i "pr_loops p" loopEntry x, THEN arg_cong [of _ _ "image_mset entryOf"]] by (simp add: inFlight_def)

lemma inv_busy:
  assumes "busy_step cfg P W p n p'" "backlog_inv P base p"
  shows "backlog_inv P base p'"
  using assms
proof (cases rule: busy_step.cases)
  case (dispatch now message tx r)
  note a = inv_aligned [OF assms(2)]
  let ?m = "\<lparr>attempts = 0, lastAttempt = now, bk_message = message, bk_dispatchTx = tx\<rparr>"
  have al: "aligned (pr_relayer p)" using a(1) dispatch by simp
  show ?thesis
  proof (cases "accepts cfg P message")
    case True
    then have r: "r = setBacklog (backlogOf (pr_relayer p) @ [?m]) (pr_relayer p)"
      using dispatch by (simp add: onDispatch_def pushBacklog_def op_simps)
    have "parses P ?m" using True by (intro accepts_parses) simp
    then show ?thesis unfolding dispatch(2) using a al True r assms(2) dispatch(3)
      by (intro inv_alignedI) (auto simp: backlog_inv_def inFlight_def entryOf_def)
  next
    case False
    then have "r = pr_relayer p" using dispatch by (simp add: onDispatch_def op_simps)
    then show ?thesis unfolding dispatch(2) using False assms(2) by simp
  qed
next
  case (head i now l r)
  then have ne: "pr_loops p \<noteq> []" by auto
  note a = inv_aligned [OF assms(2)] and rel = assms(2) [unfolded backlog_inv_def]
  have o: "aligned r" "set (backlogOf r) \<subseteq> set (backlogOf (pr_relayer p))"
    "mset (backlogOf (pr_relayer p)) = mset (backlogOf r) + mset (case l of Some x \<Rightarrow> loopEntry x | None \<Rightarrow> [])"
    "\<And>m. l = Some (Relaying m) \<Longrightarrow> m \<in> set (backlogOf (pr_relayer p))"
    using flushHead_outcome [OF head(5)] a ne by auto
  have bal: "inFlight p' = inFlight p + mset (map entryOf (case l of Some x \<Rightarrow> loopEntry x | None \<Rightarrow> []))"
  proof (cases l)
    case None
    then show ?thesis using head(2-4) mset_loops_remove [of i "pr_loops p" loopEntry, THEN arg_cong [of _ _ "image_mset entryOf"]]
      by (simp add: inFlight_def)
  next
    case (Some x)
    then show ?thesis using head(2-4) inFlight_update [of i p x] by (simp add: inFlight_def)
  qed
  have "\<forall>m. Relaying m \<in> set (pr_loops p') \<longrightarrow> parses P m"
    using rel o(4) a(2) ne unfolding head(2)
    by (auto split: option.splits dest: in_set_takeD in_set_dropD set_update_subset_insert [THEN subsetD])
  then show ?thesis using a o bal ne unfolding head(2)
    by (intro inv_alignedI) (auto simp: o(3) [THEN arg_cong [of _ _ "image_mset entryOf"], simplified])
next
  case (relay i m now ok r)
  then have ne: "pr_loops p \<noteq> []" by auto
  note a = inv_aligned [OF assms(2)] and rel = assms(2) [unfolded backlog_inv_def]
  have pm: "parses P m" using rel relay(3,4) by (metis nth_mem)
  have o: "aligned r" "if ok then backlogOf r = backlogOf (pr_relayer p)
      else backlogOf r = backlogOf (pr_relayer p) @ [m\<lparr>attempts := Suc (attempts m), lastAttempt := now\<rparr>]"
    using flushRelay_outcome [OF relay(5) pm] a(1) ne by auto
  have bal: "inFlight p' + {#entryOf m#} = inFlight p"
    using relay(2-4) inFlight_update [of i p Idle] by (simp add: inFlight_def)
  have "\<forall>m. Relaying m \<in> set (pr_loops p') \<longrightarrow> parses P m"
    using rel unfolding relay(2) by (auto dest: set_update_subset_insert [THEN subsetD])
  moreover have "parses P (m\<lparr>attempts := k, lastAttempt := t\<rparr>) = parses P m" "entryOf (m\<lparr>attempts := k, lastAttempt := t\<rparr>) = entryOf m" for k t
    by (simp_all add: parses_def entryOf_def)
  ultimately show ?thesis using a o bal ne pm unfolding relay(2)
    by (intro inv_alignedI) (auto split: if_splits)
qed

lemma inv_process:
  assumes "process_step cfg P W p p'" "backlog_inv P base p"
  shows "backlog_inv P base p'"
  using assms(1)
proof (cases rule: process_step.cases)
  case (busy n)
  then show ?thesis using inv_busy assms(2) by blast
next
  case (started r)
  then show ?thesis using assms(2)
    by (auto simp: start_def op_simps backlog_inv_def aligned_def pending_def inFlight_def ownedArray_def split: if_splits option.splits)
next
  case (not_started e r)
  then show ?thesis using assms(2)
    by (auto simp: start_def op_simps backlog_inv_def aligned_def pending_def inFlight_def ownedArray_def split: if_splits option.splits)
next
  case (stopped x r)
  then show ?thesis using assms(2)
    by (auto simp: stop_def op_simps backlog_inv_def aligned_def pending_def inFlight_def ownedArray_def split: if_splits option.splits)
qed

text \<open>A process before its first start: the relayer of the service, with or without a cache file.\<close>

definition initial_process :: "(jsval \<Rightarrow> jsval \<Rightarrow> bool) \<Rightarrow> cache_file option \<Rightarrow> 'v process" where
  "initial_process schema f = \<lparr>pr_relayer = createRelayer schema f, pr_loops = [], pr_accepted = {#}, pr_relayed = {#}\<rparr>"

lemma createRelayer_cases:
  "createRelayer schema f = s \<Longrightarrow> s = new_HyperlaneRelayer True
   \<or> (\<exists>hook ism backlog c. f = Some (hook, ism, backlog) \<and> rl_cache s = Some c
        \<and> \<not> rl_running s \<and> rl_arrays s = [[], [], backlog] \<and> ca_backlog c = 2)"
  by (auto simp: createRelayer_def loadCache_def hydrate_def new_HyperlaneRelayer_def op_simps split: option.splits sum.splits if_splits prod.splits)

lemma inv_initial:
  assumes "\<And>hook ism backlog. f = Some (hook, ism, backlog) \<Longrightarrow> \<forall>m \<in> set backlog. parses P m"
    and "p0 = initial_process schema f"
  shows "backlog_inv P (pending p0) p0"
  using createRelayer_cases [of schema f "pr_relayer p0"] assms
  by (auto simp: backlog_inv_def initial_process_def ownedArray_def new_HyperlaneRelayer_def numeral_2_eq_2)

text \<open>
  C4. However dispatches, the iterations of the loops, starts and stops interleave, no message is lost and none is made up: the messages in the
  cache file and those taken on since are, with multiplicity, those that were relayed, those in flight in a loop and those in the
  backlog of the cache.
\<close>

theorem backlog_conserves:
  assumes "p0 = initial_process schema f" and "(process_step cfg P W)\<^sup>*\<^sup>* p0 p"
    and "\<And>hook ism backlog. f = Some (hook, ism, backlog) \<Longrightarrow> \<forall>m \<in> set backlog. parses P m"
  shows "pending p0 + pr_accepted p
    = mset (map entryOf (ownedArray (pr_relayer p))) + inFlight p + pr_relayed p"
proof -
  from assms(2) have "backlog_inv P (pending p0) p"
  proof induction
    case base
    show ?case using assms(3,1) by (rule inv_initial)
  next
    case (step y z)
    then show ?case using inv_process by blast
  qed
  then show ?thesis by (simp add: backlog_inv_def pending_def)
qed

section \<open>Every message gets its turn\<close>

inductive busy_run ::
    "relayer_config \<Rightarrow> ('log, 'v, 'ev, 'rcpt) relay_env \<Rightarrow> ('log, 'v, 'ev, 'rcpt) relay_world \<Rightarrow> 'v process \<Rightarrow> nat \<Rightarrow> 'v process \<Rightarrow> bool"
  for cfg P W p where
  nothing: "busy_run cfg P W p 0 p"
| step: "busy_run cfg P W p n q \<Longrightarrow> busy_step cfg P W q k r \<Longrightarrow> busy_run cfg P W p (n + k) r"

lemma flushHead_rotates:
  assumes "flushHead cfg P now s = (ret l, s')" "aligned s" "rl_running s" "backlogOf s = m # q"
  shows "\<exists>q'. backlogOf s' = q @ q' \<and> rl_running s' \<and> (lastAttempt m + int (attempts m) * retryTimeout cfg \<le> now \<and> parses P m \<longrightarrow> l = Some (Relaying m))"
  using assms by (auto simp: flushHead_def op_simps emit_def pushBacklog_def parses_def setBacklog_def split: if_splits sum.splits)
    (auto simp: backlogOf_def aligned_def)

lemma relay_running: "flushRelay cfg P W now m s = (r, s') \<Longrightarrow> parses P m \<Longrightarrow> rl_running s' = rl_running s"
proof -
  have "keeps (\<lambda>s. rl_running s = b) (relayMessage cfg A logs d)" for b A logs d
  proof -
    have "backlog_frame (rl_arrays s, rl_backlog s, rl_running s, map_option ca_backlog (rl_cache s)) (snd (relayMessage cfg A logs d s))" for s
      using frame_relay unfolding keeps_def by (metis backlog_frame_def)
    then show ?thesis by (simp add: keeps_def backlog_frame_def)
  qed
  then have "keeps (\<lambda>s. rl_running s = b) (flushRelay cfg P W now m)" for b
    unfolding flushRelay_def emit_def pushBacklog_def by (intro keeps keeps_modify) (simp_all add: setBacklog_def)
  then show "flushRelay cfg P W now m s = (r, s') \<Longrightarrow> parses P m \<Longrightarrow> rl_running s' = rl_running s"
    using keepsD by (metis (mono_tags, lifting))
qed

lemma busy_step_queue:
  assumes "busy_step cfg P W p k p'" "backlog_inv P base p" "rl_running (pr_relayer p)" "backlogOf (pr_relayer p) = xs @ m # ys" "k \<le> length xs"
  shows "rl_running (pr_relayer p') \<and> (\<exists>ys'. backlogOf (pr_relayer p') = drop k xs @ m # ys')"
proof -
  note al = inv_aligned(1) [OF assms(2) disjI1 [OF assms(3)]]
  from assms(1) show ?thesis
  proof (cases rule: busy_step.cases)
    case (dispatch now message tx r)
    then show ?thesis using al assms(3,4)
      by (auto simp: onDispatch_def op_when_def pushBacklog_def op_simps setBacklog_def aligned_def split: if_splits) (auto simp: backlogOf_def)
  next
    case (head i now l r)
    then obtain x xs' where x: "xs = x # xs'" using assms(5) by (cases xs) auto
    then show ?thesis using flushHead_rotates [OF head(5) al assms(3), of x "xs' @ m # ys"] assms(4) head(1,2) by auto
  next
    case (relay i msg now ok r)
    have pm: "parses P msg" using assms(2) relay(3,4) unfolding backlog_inv_def by (metis nth_mem)
    show ?thesis using flushRelay_outcome [OF relay(5) pm al] relay_running [OF relay(5) pm] assms(3,4) relay(1,2) by (auto split: if_splits)
  qed
qed

lemma busy_step_count: "busy_step cfg P W p k p' \<Longrightarrow> k \<le> 1"
  by (cases rule: busy_step.cases) auto

text \<open>
  C13. The backlog is served in order. While the relayer runs, a message behind \<open>length xs\<close> others is at the front after that many
  iterations of loops, whatever is dispatched, relayed or put back meanwhile; and the next iteration at or after the end of its backoff, which grows with its
  attempts, takes it up.
\<close>

theorem backlog_serves_in_order:
  assumes "backlog_inv P base p" and "rl_running (pr_relayer p)" and "backlogOf (pr_relayer p) = xs @ m # ys"
    and "busy_run cfg P W p (length xs) p'"
  shows "\<exists>zs. backlogOf (pr_relayer p') = m # zs
    \<and> (\<forall>now l r. flushHead cfg P now (pr_relayer p') = (ret l, r) \<longrightarrow>
         lastAttempt m + int (attempts m) * retryTimeout cfg \<le> now \<longrightarrow> l = Some (Relaying m))"
proof -
  have "n \<le> length xs \<Longrightarrow> backlog_inv P base q \<and> rl_running (pr_relayer q) \<and> (\<exists>ys'. backlogOf (pr_relayer q) = drop n xs @ m # ys')"
    if "busy_run cfg P W p n q" for n q
    using that
  proof induction
    case nothing
    then show ?case using assms by auto
  next
    case (step n q k r)
    then have IH: "backlog_inv P base q" "rl_running (pr_relayer q)" "\<exists>ys'. backlogOf (pr_relayer q) = drop n xs @ m # ys'" by auto
    then obtain ys' where ys: "backlogOf (pr_relayer q) = drop n xs @ m # ys'" by blast
    have "k \<le> length (drop n xs)" using step.prems by simp
    then show ?case using busy_step_queue [OF step.hyps(2) IH(1,2) ys] inv_busy [OF step.hyps(2) IH(1)] by (simp add: add.commute)
  qed
  from this [OF assms(4)] have q: "backlog_inv P base p'" "rl_running (pr_relayer p')" "\<exists>zs. backlogOf (pr_relayer p') = m # zs" by auto
  then obtain zs where zs: "backlogOf (pr_relayer p') = m # zs" by blast
  have "parses P m" using inv_aligned(2) [OF q(1) disjI1 [OF q(2)]] zs by simp
  then show ?thesis using zs flushHead_rotates [OF _ inv_aligned(1) [OF q(1) disjI1 [OF q(2)]] q(2) zs] by blast
qed

section \<open>An example\<close>

definition ex_entry :: "string \<Rightarrow> BacklogMessage" where
  "ex_entry tx = \<lparr>attempts = 0, lastAttempt = 0, bk_message = ''0x00'', bk_dispatchTx = tx\<rparr>"

lemma ex_parse: "\<exists>d. parseDispatchedMessage ex_relay_env message = ret d"
  by (simp add: parseDispatchedMessage_def parseMessage_def ex_relay_env_def readUInt_def)

lemma ex_accepts: "accepts ex_relayer_config ex_relay_env message"
proof -
  obtain d where "parseDispatchedMessage ex_relay_env message = ret d" using ex_parse by blast
  then show ?thesis
    by (simp add: accepts_def getOrigin_def getDestination_def ex_relayer_config_def) (simp add: ex_relay_env_def ex_relayer_env_def)
qed

text \<open>A process that was started and has seen two dispatches.\<close>

definition ex_running :: "BacklogMessage list \<Rightarrow> string relayer" where
  "ex_running q = (new_HyperlaneRelayer True)\<lparr>rl_backlog := 1, rl_arrays := [[], q], rl_running := True\<rparr>"

definition ex_process :: "BacklogMessage list \<Rightarrow> string process" where
  "ex_process q = \<lparr>pr_relayer = ex_running q, pr_loops = [Idle], pr_accepted = mset (map entryOf q), pr_relayed = {#}\<rparr>"

abbreviation "ex_step \<equiv> process_step ex_relayer_config ex_relay_env (\<lambda>_. ex_relay_env)"

lemma ex_start: "ex_step (initial_process schema None) (ex_process [])"
proof -
  have "start ex_relayer_config (new_HyperlaneRelayer True :: string relayer) = (ret (), ex_running [])"
    by (simp add: start_def op_simps new_HyperlaneRelayer_def ex_running_def ex_relayer_config_def whitelistChains_def)
  then have "start ex_relayer_config (pr_relayer (initial_process schema None :: string process)) = (ret (), ex_running [])"
    by (simp add: initial_process_def createRelayer_def)
  from process_step.started [OF this] show ?thesis by (simp add: ex_process_def initial_process_def)
qed

lemma ex_dispatch: "busy_step ex_relayer_config ex_relay_env (\<lambda>_. ex_relay_env) (ex_process q) 0 (ex_process (q @ [ex_entry tx]))"
proof -
  have "onDispatch ex_relayer_config ex_relay_env 0 ''0x00'' tx (pr_relayer (ex_process q)) = (ret (), ex_running (q @ [ex_entry tx]))"
    by (simp add: onDispatch_def ex_accepts op_simps pushBacklog_def setBacklog_def backlogOf_def ex_process_def ex_running_def ex_entry_def)
  from busy_step.dispatch [OF _ this, where W = "\<lambda>_. ex_relay_env"] show ?thesis
    by (simp add: ex_accepts ex_process_def ex_running_def ex_entry_def entryOf_def)
qed

lemma ex_two: "ex_step\<^sup>*\<^sup>* (initial_process schema None) (ex_process [ex_entry ''a'', ex_entry ''b''])"
proof -
  have "ex_step (ex_process []) (ex_process [ex_entry ''a''])" "ex_step (ex_process [ex_entry ''a'']) (ex_process [ex_entry ''a'', ex_entry ''b''])"
    using process_step.busy [OF ex_dispatch [of "[]" "''a''"]] process_step.busy [OF ex_dispatch [of "[ex_entry ''a'']" "''b''"]] by simp_all
  then show ?thesis using ex_start by (meson rtranclp.rtrancl_refl rtranclp.rtrancl_into_rtrancl)
qed

theorem backlog_conserves_witness:
  "\<exists>p :: string process. ex_step\<^sup>*\<^sup>* (initial_process (\<lambda>_ _. True) None) p \<and> pr_accepted p = {#(''0x00'', ''a''), (''0x00'', ''b'')#}
     \<and> mset (map entryOf (ownedArray (pr_relayer p))) + inFlight p + pr_relayed p = {#(''0x00'', ''a''), (''0x00'', ''b'')#}"
proof -
  let ?init = "initial_process (\<lambda>_ _. True) None :: string process" and ?p = "ex_process [ex_entry ''a'', ex_entry ''b'']"
  have a: "pr_accepted ?p = {#(''0x00'', ''a''), (''0x00'', ''b'')#}" by (simp add: ex_process_def entryOf_def ex_entry_def)
  have "pending ?init = {#}"
    by (simp add: pending_def initial_process_def createRelayer_def new_HyperlaneRelayer_def ownedArray_def inFlight_def)
  then show ?thesis using backlog_conserves [OF refl ex_two [of "\<lambda>_ _. True"]] a
    by (intro exI [of _ ?p] conjI ex_two) simp_all
qed

theorem backlog_serves_in_order_witness:
  "\<exists>p' :: string process. busy_run ex_relayer_config ex_relay_env (\<lambda>_. ex_relay_env) (ex_process [ex_entry ''a'', ex_entry ''b'']) 1 p'
     \<and> (\<exists>zs. backlogOf (pr_relayer p') = ex_entry ''b'' # zs
         \<and> (\<forall>now l r. flushHead ex_relayer_config ex_relay_env now (pr_relayer p') = (ret l, r) \<longrightarrow> 0 \<le> now \<longrightarrow> l = Some (Relaying (ex_entry ''b''))))"
proof -
  let ?q = "[ex_entry ''a'', ex_entry ''b'']"
  have inv: "backlog_inv ex_relay_env (mset []) (ex_process ?q)"
    using ex_parse by (auto simp: backlog_inv_def ex_process_def ex_running_def new_HyperlaneRelayer_def aligned_def ownedArray_def parses_def
        pending_def inFlight_def)
  obtain l r where "flushHead ex_relayer_config ex_relay_env 0 (pr_relayer (ex_process ?q)) = (ret l, r)"
    using flushHead_returns by blast
  from busy_step.head [OF _ _ this, of 0, where W = "\<lambda>_. ex_relay_env"]
  obtain p' where "busy_step ex_relayer_config ex_relay_env (\<lambda>_. ex_relay_env) (ex_process ?q) 1 p'" by (auto simp: ex_process_def)
  from busy_run.step [OF busy_run.nothing this]
  have run: "busy_run ex_relayer_config ex_relay_env (\<lambda>_. ex_relay_env) (ex_process ?q) (length [ex_entry ''a'']) p'" by simp
  have "rl_running (pr_relayer (ex_process ?q))" "backlogOf (pr_relayer (ex_process ?q)) = [ex_entry ''a''] @ ex_entry ''b'' # []"
    by (simp_all add: ex_process_def ex_running_def backlogOf_def)
  from backlog_serves_in_order [OF inv this run] run show ?thesis
    by (intro exI [of _ p'] conjI) (simp_all add: ex_entry_def)
qed

end
