(* ===== verification/Object_Diffs.thy ===== *)
theory Object_Diffs
  imports JS_Objects
begin

text \<open>
  What the comparison of configurations means: \<open>diffObjMerge\<close> decides a reference equality of configurations, what it finds
  is reported by \<open>keepOnlyDiffObjects\<close> unless it is inside nested arrays, and \<open>objMerge\<close> gives every field of its
  second argument priority.
\<close>

section \<open>Equality of configurations\<close>

text \<open>Missing, undefined and null fields are the same; objects are equal field by field, arrays element by element.\<close>

function sameConfig :: "jsval \<Rightarrow> jsval \<Rightarrow> bool" where
  "sameConfig a b \<longleftrightarrow>
     (if isObject a \<and> isObject b then \<forall>k \<in> set (keys a) \<union> set (keys b). sameConfig (propOf a k) (propOf b k)
      else if isArray a \<and> isArray b
      then length (elements a) = length (elements b) \<and> (\<forall>(x, y) \<in> set (zip (elements a) (elements b)). sameConfig x y)
      else a = b \<or> isNullish a \<and> isNullish b)"
  by pat_completeness auto
termination
proof (relation "measure (\<lambda>(a, _). size a)", simp_all, goal_cases)
  case (1 a b k)
  then have "0 < size a" by (auto simp: isObject_iff)
  with 1 show ?case by (cases "k \<in> set (keys a)") (auto intro: size_prop simp del: set_map)
qed (auto dest: set_zip_leftD size_elements)

declare sameConfig.simps [simp del]

lemma sameConfig_nullish: "isNullish a \<Longrightarrow> sameConfig a b \<longleftrightarrow> isNullish b" "isNullish b \<Longrightarrow> sameConfig a b \<longleftrightarrow> isNullish a"
  by (auto simp: sameConfig.simps [of a b] isNullish_def)

lemma sameConfig_str: "sameConfig (VStr s) (VStr t) \<longleftrightarrow> s = t"
  by (subst sameConfig.simps) (simp add: isNullish_def)

lemma sameConfig_refl: "sameConfig a a"
proof (induction "size a" arbitrary: a rule: less_induct)
  case less
  have "sameConfig (propOf a k) (propOf a k)" if "k \<in> set (keys a)" for k using less size_prop [OF that] by blast
  moreover have "sameConfig x x" if "x \<in> set (elements a)" for x using less size_elements [OF that] by blast
  ultimately show ?case by (auto simp: sameConfig.simps [of a a] zip_same)
qed

lemma sameConfig_sym: "sameConfig a b \<Longrightarrow> sameConfig b a"
proof (induction "size a" arbitrary: a b rule: less_induct)
  case less
  consider (obj) "isObject a" "isObject b" | (arr) "isArray a" "isArray b" | (other) "a = b \<or> isNullish a \<and> isNullish b"
    using less.prems by (auto simp: sameConfig.simps [of a b] split: if_splits)
  then show ?case
  proof cases
    case obj
    have "sameConfig (propOf b k) (propOf a k)" if k: "k \<in> set (keys a) \<union> set (keys b)" for k
    proof (cases "k \<in> set (keys a)")
      case True
      then show ?thesis using less obj size_prop [OF True] k by (auto simp: sameConfig.simps [of a b] simp del: set_map)
    next
      case False
      then have "sameConfig VUndefined (propOf b k)" using less.prems obj k by (metis Un_iff prop_missing sameConfig.simps)
      then show ?thesis using False by (auto simp: sameConfig_nullish isNullish_def simp del: set_map)
    qed
    then show ?thesis using obj by (auto simp: sameConfig.simps [of b a] simp del: set_map)
  next
    case arr
    then have no: "\<not> isObject a" "\<not> isObject b" by (auto simp: isArray_iff)
    have l: "length (elements a) = length (elements b)"
      and p: "\<And>x y. (x, y) \<in> set (zip (elements a) (elements b)) \<Longrightarrow> sameConfig x y"
      using less.prems arr no by (auto simp: sameConfig.simps [of a b])
    have "sameConfig y x" if "(y, x) \<in> set (zip (elements b) (elements a))" for x y
    proof (rule less.hyps)
      show "size x < size a" using that by (auto dest: set_zip_rightD size_elements)
      show "sameConfig x y" using that by (intro p) (auto simp: in_set_zip)
    qed
    then show ?thesis using arr no l by (auto simp: sameConfig.simps [of b a])
  qed (auto simp: sameConfig_refl sameConfig_nullish)
qed

section \<open>The comparison decides it\<close>

text \<open>A value of at most the given depth; the elements of an array may be 10 deep again.\<close>

function fits :: "nat \<Rightarrow> jsval \<Rightarrow> bool" where
  "fits d v \<longleftrightarrow> d \<noteq> 0 \<and> (\<forall>k \<in> set (keys v). fits (d - 1) (propOf v k)) \<and> (\<forall>x \<in> set (elements v). fits 10 x)"
  by pat_completeness auto
termination
  by (relation "measure (\<lambda>(_, v). size v)") (auto intro: size_entry dest: size_elements)

declare fits.simps [simp del]

text \<open>The branches of the comparison, with one pass of the loop over the keys as a function.\<close>

definition all_keys :: "jsval \<Rightarrow> jsval \<Rightarrow> string list" where
  "all_keys a b = remdups (keys a @ filter (\<lambda>k. \<not> List.member (keys a) k) (keys b))"

definition diff_key :: "nat \<Rightarrow> jsval \<Rightarrow> jsval \<Rightarrow> string \<Rightarrow> ((string \<times> jsval) option \<times> bool) result" where
  "diff_key d a b key =
     (if List.member (keys a) key \<and> List.member (keys b) key then
        rbind (diffObjMerge d (propOf a key) (propOf b key)) (\<lambda>(m, i). ret (Some (key, m), i))
      else if List.member (keys a) key \<and> \<not> isNullish (propOf a key) then
        ret (Some (key, diff_entry (propOf a key) (VStr [])), True)
      else if \<not> isNullish (propOf b key) then
        ret (Some (key, diff_entry (VStr []) (propOf b key)), True)
      else ret (None, False))"

lemma set_all_keys: "set (all_keys a b) = set (keys a) \<union> set (keys b)"
  by (auto simp: all_keys_def List.member_iff)

lemma distinct_all_keys: "distinct (all_keys a b)"
  by (simp add: all_keys_def)

lemma diff_branches:
  "diffObjMerge d a b =
     (if d = 0 then throw (Thrown ''diffObjMerge tried to go too deep'' '''')
      else if \<not> isObject a \<and> \<not> isObject b \<and> \<not> isArray a \<and> a = b then ret (a, False)
      else if isNullish a \<and> isNullish b then ret (VUndefined, False)
      else if isObject a \<and> isObject b
      then rbind (rmap (diff_key (d - 1) a b) (all_keys a b)) (\<lambda>rs. ret (VObj (List.map_filter fst rs), list_ex snd rs))
      else if isArray a \<and> isArray b \<and> length (elements a) = length (elements b)
      then rbind (rmap (\<lambda>p. diffObjMerge 10 (fst p) (snd p)) (zip (elements a) (elements b)))
        (\<lambda>rs. ret (VArr (map fst rs), list_ex snd rs))
      else ret (VObj [(''expected'', orEmpty b), (''actual'', orEmpty a)], True))"
  unfolding diff_key_def all_keys_def by (subst diffObjMerge.simps) (simp only: case_prod_beta')

lemma fits_simps [simp]:
  "fits d (VObj ps) \<longleftrightarrow> d \<noteq> 0 \<and> (\<forall>k \<in> fst ` set ps. fits (d - 1) (propOf (VObj ps) k))"
  "fits d (VArr xs) \<longleftrightarrow> d \<noteq> 0 \<and> (\<forall>x \<in> set xs. fits 10 x)" "fits d (VStr s) \<longleftrightarrow> d \<noteq> 0" "fits d (VNum q) \<longleftrightarrow> d \<noteq> 0"
  by (subst fits.simps, simp)+

lemma diff_total: "fits d a \<Longrightarrow> \<exists>m. diffObjMerge d a b = ret (m, \<not> sameConfig a b)"
proof (induction d a b rule: diffObjMerge.induct)
  case (1 d a b)
  note f = fits.simps [of d a, THEN iffD1, OF "1.prems"]
  consider (eq) "\<not> isObject a" "\<not> isObject b" "\<not> isArray a" "a = b" | (null) "isNullish a" "isNullish b"
    | (obj) "isObject a" "isObject b" | (arr) "isArray a" "isArray b" "length (elements a) = length (elements b)"
    | (other) "\<not> (\<not> isObject a \<and> \<not> isObject b \<and> \<not> isArray a \<and> a = b)" "\<not> (isNullish a \<and> isNullish b)"
        "\<not> (isObject a \<and> isObject b)" "\<not> (isArray a \<and> isArray b \<and> length (elements a) = length (elements b))" by blast
  then show ?case
  proof cases
    case eq
    then show ?thesis using f by (simp add: diffObjMerge.simps sameConfig_refl)
  next
    case null
    then show ?thesis using f by (auto simp: diffObjMerge.simps sameConfig_nullish)
  next
    case obj
    then have n: "\<not> isNullish a" "\<not> isNullish b" by (auto simp: isNullish_def)
    have "\<exists>r. diff_key (d - 1) a b k = ret (r, \<not> sameConfig (propOf a k) (propOf b k))" if k: "k \<in> set (all_keys a b)" for k
    proof (cases "k \<in> set (keys a) \<and> k \<in> set (keys b)")
      case True
      have "\<exists>m. diffObjMerge (d - 1) (propOf a k) (propOf b k) = ret (m, \<not> sameConfig (propOf a k) (propOf b k))"
        by (rule "1.IH"(1)) (use True obj n f in \<open>auto simp: List.member_iff simp del: set_map\<close>)
      then show ?thesis using True by (auto simp: diff_key_def List.member_iff simp del: set_map)
    next
      case False
      have "isNullish VUndefined" by (simp add: isNullish_def)
      with False k show ?thesis
        by (auto simp: diff_key_def set_all_keys List.member_iff sameConfig_nullish isNullish_def simp del: set_map)
    qed
    then obtain h where h: "\<And>k. k \<in> set (all_keys a b) \<Longrightarrow> diff_key (d - 1) a b k = ret (h k, \<not> sameConfig (propOf a k) (propOf b k))" by metis
    then have "rmap (diff_key (d - 1) a b) (all_keys a b) = ret (map (\<lambda>k. (h k, \<not> sameConfig (propOf a k) (propOf b k))) (all_keys a b))" by (rule rmap_ret)
    moreover have "list_ex snd (map (\<lambda>k. (h k, \<not> sameConfig (propOf a k) (propOf b k))) (all_keys a b)) \<longleftrightarrow> \<not> sameConfig a b"
    proof -
      have "list_ex snd (map (\<lambda>k. (h k, P k)) ks) \<longleftrightarrow> (\<exists>k \<in> set ks. P k)" for P ks by (induction ks) auto
      then show ?thesis using obj by (simp add: sameConfig.simps [of a b] set_all_keys del: set_map)
    qed
    moreover have "diffObjMerge d a b = rbind (rmap (diff_key (d - 1) a b) (all_keys a b)) (\<lambda>rs. ret (VObj (List.map_filter fst rs), list_ex snd rs))"
      using f obj n by (simp add: diff_branches [of d])
    ultimately show ?thesis by simp
  next
    case arr
    then have n: "\<not> isNullish a" "\<not> isObject a" "\<not> isObject b" by (auto simp: isNullish_def isArray_iff)
    have "\<exists>m. diffObjMerge 10 x y = ret (m, \<not> sameConfig x y)" if "(x, y) \<in> set (zip (elements a) (elements b))" for x y
      by (rule "1.IH"(2) [OF _ _ _ _ _ that refl]) (use arr n f that in \<open>auto dest: set_zip_leftD\<close>)
    then have "\<exists>m. diffObjMerge 10 (fst p) (snd p) = ret (m, \<not> sameConfig (fst p) (snd p))" if "p \<in> set (zip (elements a) (elements b))" for p
      using that by (cases p) auto
    then obtain h where h: "\<And>p. p \<in> set (zip (elements a) (elements b)) \<Longrightarrow>
        diffObjMerge 10 (fst p) (snd p) = ret (h p, \<not> sameConfig (fst p) (snd p))" by metis
    show ?thesis using f arr n
      by (auto simp: diff_branches [of d] rmap_ret [OF h] list_ex_iff case_prod_beta sameConfig.simps [of a b])
  next
    case other
    then have "\<not> sameConfig a b"
      by (auto simp: sameConfig.simps [of a b] isNullish_def isArray_iff split: if_splits)
    moreover have "diffObjMerge d a b = ret (VObj [(''expected'', orEmpty b), (''actual'', orEmpty a)], True)"
      using f other by (simp only: diff_branches [of d] if_False)
    ultimately show ?thesis by simp
  qed
qed

section \<open>Reports\<close>

text \<open>A value whose arrays have no arrays as elements.\<close>

function plain :: "jsval \<Rightarrow> bool" where
  "plain v \<longleftrightarrow> (\<forall>k \<in> set (keys v). plain (propOf v k)) \<and> (\<forall>x \<in> set (elements v). \<not> isArray x \<and> plain x)"
  by pat_completeness auto
termination
  by (relation "measure size") (auto intro: size_entry dest: size_elements)

declare plain.simps [simp del]

lemma plain_simps [simp]:
  "plain (VObj ps) \<longleftrightarrow> (\<forall>k \<in> fst ` set ps. plain (propOf (VObj ps) k))"
  "plain (VArr xs) \<longleftrightarrow> (\<forall>x \<in> set xs. \<not> isArray x \<and> plain x)" "plain (VStr s)" "plain (VNum q)"
  by (subst plain.simps, simp)+

lemma keepOnly_diff: "\<not> isNullish x \<Longrightarrow> \<not> isNullish y \<Longrightarrow> keepOnlyDiffObjects (diff_entry x y) = diff_entry x y"
  "\<not> isNullish x \<Longrightarrow> \<not> isNullish y \<Longrightarrow>
     keepOnlyDiffObjects (VObj [(''expected'', x), (''actual'', y)]) = VObj [(''expected'', x), (''actual'', y)]"
  by (simp_all add: keepOnlyDiffObjects.simps diff_entry_def propOf_def)

lemma keepOnly_object:
  assumes "k \<in> set (map fst ps)" "\<not> isObjEmpty (keepOnlyDiffObjects (propOf (VObj ps) k))"
  shows "\<not> isObjEmpty (keepOnlyDiffObjects (VObj ps))"
proof -
  let ?f = "fromEntries (filter (\<lambda>(k, v). \<not> isObjEmpty v) (map (\<lambda>k. (k, keepOnlyDiffObjects (propOf (VObj ps) k))) (map fst ps)))"
  have "filter (\<lambda>(k, v). \<not> isObjEmpty v) (map (\<lambda>k. (k, keepOnlyDiffObjects (propOf (VObj ps) k))) (map fst ps)) \<noteq> []"
    using assms by (force simp: filter_empty_conv)
  then have "\<not> isObjEmpty ?f" by (simp only: isObjEmpty_fromEntries not_False_eq_True)
  moreover have "\<not> isObjEmpty (setProp t x v)" for t x v
    using keys_setProp [of t x v] by (auto simp: isObjEmpty_def setProp_def)
  moreover have "ps \<noteq> []" using assms(1) by auto
  ultimately show ?thesis by (subst keepOnlyDiffObjects.simps) (simp add: Let_def isObjEmpty_def [of "VObj ps"])
qed

lemma keepOnly_array:
  assumes "x \<in> set xs" "isObject x" "\<not> isObjEmpty (keepOnlyDiffObjects x)"
  shows "\<not> isObjEmpty (keepOnlyDiffObjects (VArr xs))"
  using assms by (subst keepOnlyDiffObjects.simps) (force simp: isObjEmpty_def filter_empty_conv)

lemma propOf_map_filter:
  assumes rs: "list_all2 (\<lambda>k r. \<forall>k' m. fst r = Some (k', m) \<longrightarrow> k' = k) ks rs" and d: "distinct ks" and m: "(Some (k, m), i) \<in> set rs"
  shows "k \<in> set (map fst (List.map_filter fst rs)) \<and> propOf (VObj (List.map_filter fst rs)) k = m"
proof -
  have sub: "list_all2 (\<lambda>k r. \<forall>k' m. fst r = Some (k', m) \<longrightarrow> k' = k) ks rs \<Longrightarrow> fst ` set (List.map_filter fst rs) \<subseteq> set ks" for ks rs
    by (induction ks rs rule: list_all2_induct) (auto simp: map_filter_Cons map_filter_Nil split: option.splits)
  have "distinct (map fst (List.map_filter fst rs))" using rs d
  proof (induction ks rs rule: list_all2_induct)
    case (Cons k ks r rs)
    then show ?case using sub [OF Cons(2)] by (auto simp: map_filter_Cons split: option.split)
  qed (simp add: map_filter_Nil)
  moreover have "(k, m) \<in> set (List.map_filter fst rs)" using m by (force simp: List.map_filter_def)
  ultimately show ?thesis by (force simp: propOf_def)
qed

lemma diff_invalidE:
  assumes "diffObjMerge d a b = ret (m, True)"
  obtains (obj) rs where "d \<noteq> 0" "isObject a" "isObject b" "rmap (diff_key (d - 1) a b) (all_keys a b) = ret rs"
      "m = VObj (List.map_filter fst rs)" "list_ex snd rs"
    | (arr) rs where "d \<noteq> 0" "isArray a" "isArray b" "length (elements a) = length (elements b)"
        "rmap (\<lambda>p. diffObjMerge 10 (fst p) (snd p)) (zip (elements a) (elements b)) = ret rs" "m = VArr (map fst rs)" "list_ex snd rs"
    | (other) "m = VObj [(''expected'', orEmpty b), (''actual'', orEmpty a)]"
proof (cases "isObject a \<and> isObject b")
  case True
  then have "\<not> isNullish a" by (auto simp: isNullish_def)
  with True assms show ?thesis by (auto simp: diff_branches [of d] rbind_eq_Inr_iff split: if_splits intro: obj)
next
  case no: False
  show ?thesis
  proof (cases "isArray a \<and> isArray b \<and> length (elements a) = length (elements b)")
    case True
    then have "\<not> isNullish a" by (auto simp: isNullish_def)
    with True no assms show ?thesis by (auto simp: diff_branches [of d] rbind_eq_Inr_iff split: if_splits intro: arr)
  next
    case False
    with no assms show ?thesis by (simp only: diff_branches [of d] if_False split: if_splits) (auto intro: other)
  qed
qed

lemma diff_key_invalid:
  assumes "diff_key d a b k = ret r" "snd r"
  obtains mk where "r = (Some (k, mk), True)" "k \<in> set (keys a)" "k \<in> set (keys b)" "diffObjMerge d (propOf a k) (propOf b k) = ret (mk, True)"
    | mk where "r = (Some (k, mk), True)" "\<not> isObjEmpty (keepOnlyDiffObjects mk)"
proof (cases "k \<in> set (keys a) \<and> k \<in> set (keys b)")
  case True
  with assms show ?thesis by (auto simp: diff_key_def List.member_iff rbind_eq_Inr_iff simp del: set_map intro: that(1))
next
  case False
  have "\<not> isObjEmpty (keepOnlyDiffObjects (diff_entry x y))" if "\<not> isNullish x" "\<not> isNullish y" for x y
    using keepOnly_diff(1) [OF that] by (simp add: diff_entry_def isObjEmpty_def)
  moreover have "\<not> isNullish (VStr [])" by (simp add: isNullish_def)
  ultimately show ?thesis using False assms that(2)
    by (auto simp: diff_key_def List.member_iff simp del: set_map split: if_splits)
qed

lemma diff_key_key: "diff_key d a b k = ret r \<Longrightarrow> fst r = Some (k', m) \<Longrightarrow> k' = k"
  by (auto simp: diff_key_def rbind_eq_Inr_iff split: if_splits)

lemma diff_reported:
  "diffObjMerge d a b = ret (m, True) \<Longrightarrow> plain a \<Longrightarrow>
     \<not> isObjEmpty (keepOnlyDiffObjects m) \<and> (isObject m \<or> isArray a)"
proof (induction d a b arbitrary: m rule: diffObjMerge.induct)
  case (1 d a b)
  note IH = "1.IH" and plain = "1.prems"(2)
  have str: "\<not> isNullish (VStr [])" "\<not> isNullish (orEmpty x)" for x by (simp_all add: isNullish_def orEmpty_def)
  from "1.prems"(1) show ?case
  proof (cases rule: diff_invalidE)
    case (obj rs)
    have all: "list_all2 (\<lambda>k r. diff_key (d - 1) a b k = ret r) (all_keys a b) rs" using obj(4) unfolding rmap_eq_Inr_iff .
    obtain r where r: "r \<in> set rs" "snd r" using obj(6) by (auto simp: list_ex_iff)
    from r(1) obtain j where "j < length rs" "rs ! j = r" by (auto simp: in_set_conv_nth)
    then have "all_keys a b ! j \<in> set (all_keys a b)" "diff_key (d - 1) a b (all_keys a b ! j) = ret r"
      using list_all2_lengthD [OF all] list_all2_nthD2 [OF all] by auto
    then obtain k where k: "k \<in> set (all_keys a b)" "diff_key (d - 1) a b k = ret r" by blast
    from k(2) r(2) obtain mk where mk: "r = (Some (k, mk), True)" "\<not> isObjEmpty (keepOnlyDiffObjects mk)"
    proof (cases rule: diff_key_invalid)
      case (1 mk)
      have "plain (propOf a k)" using plain 1(2) by (auto simp: plain.simps [of a] simp del: set_map)
      moreover have "\<not> isNullish a" using obj(2) by (auto simp: isNullish_def)
      ultimately have "\<not> isObjEmpty (keepOnlyDiffObjects mk)"
        using IH(1) [OF _ _ _ _ _ _ 1(4)] obj 1(2,3) k(1) by (auto simp: all_keys_def List.member_iff simp del: set_map)
      then show ?thesis using that 1(1) by blast
    qed (rule that)
    have "list_all2 (\<lambda>k r. \<forall>k' m. fst r = Some (k', m) \<longrightarrow> k' = k) (all_keys a b) rs"
      using all by (rule list_all2_mono) (auto dest: diff_key_key)
    then have "k \<in> set (map fst (List.map_filter fst rs)) \<and> propOf m k = mk"
      unfolding obj(5) by (rule propOf_map_filter [where i = True]) (use r(1) mk(1) distinct_all_keys in auto)
    then show ?thesis using mk(2) keepOnly_object [of k "List.map_filter fst rs"] unfolding obj(5) by simp
  next
    case (arr rs)
    then obtain i where i: "i < length rs" "snd (rs ! i)" by (auto simp: list_ex_length)
    have all: "list_all2 (\<lambda>p r. diffObjMerge 10 (fst p) (snd p) = ret r) (zip (elements a) (elements b)) rs"
      using arr(5) by (simp add: rmap_eq_Inr_iff)
    let ?x = "elements a ! i" and ?y = "elements b ! i"
    have len: "length rs = length (elements a)" using all arr(4) by (auto dest: list_all2_lengthD)
    have di: "diffObjMerge 10 ?x ?y = ret (fst (rs ! i), True)"
      using all i len arr(4) by (auto simp: list_all2_conv_all_nth) (metis prod.collapse)
    have mem: "(?x, ?y) \<in> set (zip (elements a) (elements b))" using i(1) len arr(4) by (auto simp: set_zip)
    have pl: "plain ?x" "\<not> isArray ?x" using plain i(1) len by (auto simp: plain.simps [of a])
    have "\<not> isObjEmpty (keepOnlyDiffObjects (fst (rs ! i))) \<and> (isObject (fst (rs ! i)) \<or> isArray ?x)"
      using IH(2) [OF _ _ _ _ _ mem refl di pl(1)] arr by (auto simp: isNullish_def isArray_iff)
    then show ?thesis using i(1) pl(2) arr(2) unfolding arr(6) using keepOnly_array [of "fst (rs ! i)" "map fst rs"] by auto
  next
    case other
    then show ?thesis using str(2) by (simp add: keepOnly_diff isObjEmpty_def)
  qed
qed


text \<open>
  A difference inside an array that is an element of an array is found by the comparison but is left out of the report.
\<close>

theorem keepOnlyDiffObjects_drops_nested:
  "\<exists>m. diffObjMerge 10 (VObj [(''x'', VArr [VArr [VNum 1]])]) (VObj [(''x'', VArr [VArr [VNum 2]])]) = ret (m, True)
     \<and> isObjEmpty (propOf (keepOnlyDiffObjects m) ''x'')"
proof -
  let ?d = "VObj [(''expected'', VNum 2), (''actual'', VNum 1)]"
  have "diffObjMerge 10 (VNum 1) (VNum 2) = ret (?d, True)"
    by (simp add: diff_branches isNullish_def orEmpty_def)
  then have "diffObjMerge 10 (VArr [VNum 1]) (VArr [VNum 2]) = ret (VArr [?d], True)"
    by (subst diff_branches) (simp add: isNullish_def)
  then have "diffObjMerge 9 (VArr [VArr [VNum 1]]) (VArr [VArr [VNum 2]]) = ret (VArr [VArr [?d]], True)"
    by (subst diff_branches) (simp add: isNullish_def)
  then have "diffObjMerge 10 (VObj [(''x'', VArr [VArr [VNum 1]])]) (VObj [(''x'', VArr [VArr [VNum 2]])])
      = ret (VObj [(''x'', VArr [VArr [?d]])], True)"
    by (subst diff_branches) (simp add: isNullish_def all_keys_def diff_key_def propOf_def map_filter_Cons map_filter_Nil)
  moreover have "keepOnlyDiffObjects (VArr [VArr [?d]]) = VArr []"
    by (subst keepOnlyDiffObjects.simps) (simp add: isObjEmpty_def)
  then have "keepOnlyDiffObjects (VObj [(''x'', VArr [VArr [?d]])]) = fromEntries [(''x'', VArr [])]
      \<or> isObjEmpty (propOf (keepOnlyDiffObjects (VObj [(''x'', VArr [VArr [?d]])])) ''x'')"
    by (subst (2) keepOnlyDiffObjects.simps) (simp add: propOf_def isNullish_def isObjEmpty_def fromEntries_def)
  then have "isObjEmpty (propOf (keepOnlyDiffObjects (VObj [(''x'', VArr [VArr [?d]])])) ''x'')"
    by (auto simp: propOf_fromEntries isObjEmpty_def)
  ultimately show ?thesis by (intro exI conjI)
qed

section \<open>Merging\<close>

text \<open>What a merged field is: the second argument's value where it has one, and the merge of the two where both are objects.\<close>

definition merged_field :: "nat \<Rightarrow> bool \<Rightarrow> jsval \<Rightarrow> jsval \<Rightarrow> jsval result" where
  "merged_field d mergeArrays av bv =
     (if isObject av \<and> isObject bv then objMerge d mergeArrays av bv
      else if mergeArrays \<and> isArray av \<and> isArray bv then ret (VArr (elements bv @ elements av))
      else ret (if bv = VUndefined then av else bv))"

lemma objMerge_fields:
  assumes "objMerge (Suc d) mA a b = ret r" "isObject a" "isObject b" "distinct (keys b)"
  shows "merged_field d mA (propOf a k) (propOf b k) = ret (propOf r k)"
proof -
  let ?f = "\<lambda>r (key, bv).
          let av = propOf a key in
          if isObject av \<and> isObject bv then rbind (objMerge d mA av bv) (\<lambda>m. ret (setProp key m r))
          else if mA \<and> isArray av \<and> isArray bv then ret (setProp key (VArr (elements bv @ elements av)) r)
          else if bv \<noteq> VUndefined then ret (setProp key bv r)
          else ret r"
  have step: "?f r0 (key, bv) = ret r1 \<Longrightarrow> propOf r1 k = (if k = key then (case merged_field d mA (propOf a key) bv of Inr x \<Rightarrow>
      if bv = VUndefined then propOf r0 k else x) else propOf r0 k) \<and> (\<exists>x. merged_field d mA (propOf a key) bv = ret x)" for r0 r1 key bv
    by (auto simp: merged_field_def Let_def rbind_eq_Inr_iff split: if_splits)
  have "rfold ?f r0 ps = ret r \<Longrightarrow> distinct (map fst ps) \<Longrightarrow> propOf r0 k = propOf a k \<or> k \<notin> set (map fst ps) \<Longrightarrow>
      (case map_of ps k of None \<Rightarrow> propOf r k = propOf r0 k | Some bv \<Rightarrow> merged_field d mA (propOf a k) bv = ret (propOf r k))" for r0 ps
  proof (induction ps arbitrary: r0)
    case (Cons p ps)
    obtain key bv where p: "p = (key, bv)" by (cases p)
    obtain r1 where r1: "?f r0 (key, bv) = ret r1" "rfold ?f r1 ps = ret r"
      using Cons.prems(1) unfolding p by (auto simp only: rfold.simps rbind_eq_Inr_iff)
    note s = step [OF r1(1)]
    show ?case
    proof (cases "k = key")
      case True
      then have k: "map_of ps k = None" using Cons.prems(2) p by (simp add: map_of_eq_None_keys)
      then have "propOf r k = propOf r1 k" using Cons.IH [OF r1(2)] Cons.prems(2) k map_of_eq_None_keys [of ps k] by simp
      moreover have "propOf r0 k = propOf a k" using Cons.prems(3) p True by simp
      ultimately show ?thesis using s True p by (auto simp: merged_field_def split: if_splits)
    next
      case False
      then show ?thesis using Cons.IH [OF r1(2)] Cons.prems(2,3) s p by (cases "map_of ps k") auto
    qed
  qed simp
  note run = this [of a "entries b"]
  have "rfold ?f a (entries b) = ret r" using assms(1-3) by simp
  from run [OF this assms(4)] show ?thesis by (cases "map_of (entries b) k") (simp_all add: propOf_def [of b] merged_field_def)
qed

section \<open>An example\<close>

abbreviation "ex_config \<equiv> VObj [(''owner'', VStr ''0xa''), (''ids'', VArr [VNum 1])]"


end
