(* ===== verification/Relayer_Restart.thy ===== *)
theory Relayer_Restart
  imports Relayer_Backlog Object_Diffs
begin

text \<open>
  Stopping and starting again: what a relayer finds in its backlog and cache after a restart from the cache file, and what is lost without
  a cache.
\<close>

section \<open>From a file\<close>

lemma map_of_map_snd: "map_of (map (\<lambda>kx. (fst kx, f (snd kx))) ps) k = map_option f (map_of ps k)"
  by (induction ps) auto

lemma map_of_filter_snd: "distinct (map fst ps) \<Longrightarrow> map_of (filter (\<lambda>kx. Q (snd kx)) ps) k = (case map_of ps k of Some x \<Rightarrow> if Q x then Some x else None | None \<Rightarrow> None)"
proof (induction ps)
  case (Cons p ps)
  then have "k = fst p \<Longrightarrow> map_of ps k = None" by (simp add: map_of_eq_None_keys)
  with Cons show ?case by (cases "map_of ps k") auto
qed simp

lemma propOf_jsonCopy:
  assumes "isObject v" "distinct (keys v)"
  shows "propOf (jsonCopy v) k = jsonCopy (propOf v k)"
proof -
  obtain ps where v: "v = VObj ps" using assms(1) by (auto simp: isObject_iff)
  with assms(2) map_of_filter_snd [of ps "\<lambda>x. x \<noteq> VUndefined" k] show ?thesis
    by (cases "map_of ps k") (simp_all add: propOf_def map_of_map_snd)
qed

text \<open>Hydrating an empty cache keeps every value.\<close>

lemma objMerge_empty:
  assumes "isObject v" "distinct (keys v)"
  shows "\<exists>r. objMerge (Suc d) False (VObj []) v = ret r \<and> isObject r \<and> (\<forall>k. propOf r k = propOf v k)"
proof -
  have u: "propOf (VObj []) k = VUndefined" for k by (simp add: propOf_def)
  let ?f = "\<lambda>r (key :: string, bv). let av = VUndefined in
          if isObject av \<and> isObject bv then rbind (objMerge d False av bv) (\<lambda>m. ret (setProp key m r))
          else if False \<and> isArray av \<and> isArray bv then ret (setProp key (VArr (elements bv @ elements av)) r)
          else if bv \<noteq> VUndefined then ret (setProp key bv r)
          else ret r"
  have "isObject r0 \<Longrightarrow> \<exists>r. rfold ?f r0 ps = ret r \<and> isObject r" for r0 ps
  proof (induction ps arbitrary: r0)
    case (Cons p ps)
    obtain key bv where p: "p = (key, bv)" by (cases p)
    have "isObject (setProp key bv r0)" by (simp add: setProp_def)
    then show ?case using Cons p by (cases "bv = VUndefined") auto
  qed simp
  from this [of "VObj []" "entries v"] obtain r where r: "objMerge (Suc d) False (VObj []) v = ret r" "isObject r"
    using assms(1) by (auto simp: u)
  have "propOf r k = propOf v k" for k
    using objMerge_fields [OF r(1) _ assms, of k] by (simp add: merged_field_def u)
  with r show ?thesis by blast
qed

text \<open>A field of the cache: an object of objects.\<close>

definition two_level :: "jsval \<Rightarrow> bool" where
  "two_level v \<longleftrightarrow> isObject v \<and> distinct (keys v) \<and> (\<forall>k \<in> set (keys v). isObject (propOf v k) \<and> distinct (keys (propOf v k)))"

lemma jsonCopy_object: "isObject v \<Longrightarrow> distinct (keys v) \<Longrightarrow> isObject (jsonCopy v) \<and> distinct (keys (jsonCopy v))"
  by (auto simp: isObject_iff comp_def intro: distinct_map_filter)

lemma cachedAt_jsonCopy:
  assumes "two_level v"
  shows "cachedAt (jsonCopy v) chain key = jsonCopy (cachedAt v chain key)"
proof -
  note v = assms
  have p: "propOf (jsonCopy v) chain = jsonCopy (propOf v chain)" using v by (simp add: two_level_def propOf_jsonCopy)
  show ?thesis
  proof (cases "chain \<in> set (keys v)")
    case True
    then have "isObject (propOf v chain)" "distinct (keys (propOf v chain))" using v unfolding two_level_def by blast+
    then show ?thesis unfolding cachedAt_def p by (rule propOf_jsonCopy)
  next
    case False
    then show ?thesis unfolding cachedAt_def p by (simp add: propOf_def [of VUndefined])
  qed
qed

lemma hydrate_empty:
  assumes "two_level hook" "two_level ism"
  shows "\<exists>h i. hydrate (jsonCopy hook) (jsonCopy ism) backlog (new_HyperlaneRelayer True)
      = (ret (), (new_HyperlaneRelayer True)\<lparr>rl_cache := Some \<lparr>ca_hook = h, ca_ism = i, ca_backlog = 2\<rparr>, rl_arrays := [[], [], backlog]\<rparr>)
    \<and> (\<forall>chain key. cachedAt h chain key = jsonCopy (cachedAt hook chain key) \<and> cachedAt i chain key = jsonCopy (cachedAt ism chain key))"
proof -
  have m: "\<exists>r. objMerge 9 False (VObj []) (jsonCopy v) = ret r \<and> (\<forall>chain key. cachedAt r chain key = jsonCopy (cachedAt v chain key))"
    if two: "two_level v" for v
  proof -
    obtain r where "objMerge (Suc 8) False (VObj []) (jsonCopy v) = ret r" "\<forall>k. propOf r k = propOf (jsonCopy v) k"
      using objMerge_empty [of "jsonCopy v" 8] jsonCopy_object [of v] two unfolding two_level_def by blast
    moreover have "(9 :: nat) = Suc 8" by simp
    ultimately show ?thesis using cachedAt_jsonCopy [OF two] by (metis cachedAt_def)
  qed
  obtain h i where h: "objMerge 9 False (VObj []) (jsonCopy hook) = ret h" "\<forall>chain key. cachedAt h chain key = jsonCopy (cachedAt hook chain key)"
    and i: "objMerge 9 False (VObj []) (jsonCopy ism) = ret i" "\<forall>chain key. cachedAt i chain key = jsonCopy (cachedAt ism chain key)"
    using m [OF assms(1)] m [OF assms(2)] by blast
  show ?thesis using h i by (intro exI [of _ h] exI [of _ i]) (simp add: hydrate_def new_HyperlaneRelayer_def op_simps)
qed


section \<open>Without a cache\<close>

text \<open>
  A relayer without a cache forgets its backlog when it is stopped and started again: it starts with an empty one, and the messages that waited are
  in no array it uses.
\<close>

theorem restart_without_cache_drops_backlog:
  assumes "rl_cache s = None" and "stop s = (ret (), s1)" and "start cfg s1 = (ret (), s2)"
  shows "backlogOf s2 = [] \<and> ownedArray s2 = []"
  using assms by (auto simp: stop_def start_def backlogOf_def ownedArray_def op_simps split: if_splits)

section \<open>An example\<close>


theorem restart_without_cache_drops_backlog_witness:
  "\<exists>(s :: string relayer) s1 s2. backlogOf s = [ex_entry ''a''] \<and> stop s = (ret (), s1) \<and> start ex_relayer_config s1 = (ret (), s2) \<and> backlogOf s2 = []"
proof -
  let ?s = "(new_HyperlaneRelayer False :: string relayer)\<lparr>rl_arrays := [[ex_entry ''a'']], rl_running := True\<rparr>"
  have c: "rl_cache ?s = None" by (simp add: new_HyperlaneRelayer_def)
  obtain s1 where 1: "stop ?s = (ret (), s1)" by (simp add: stop_def op_simps)
  then have "\<not> rl_running s1" "rl_cache s1 = None" using c by (auto simp: stop_def op_simps)
  then obtain s2 where 2: "start ex_relayer_config s1 = (ret (), s2)"
    by (simp add: start_def op_simps ex_relayer_config_def whitelistChains_def)
  show ?thesis using restart_without_cache_drops_backlog [OF c 1 2] 1 2
    by (intro exI [of _ ?s] exI [of _ s1] exI [of _ s2] conjI) (simp_all add: backlogOf_def new_HyperlaneRelayer_def)
qed

end
