(* ===== verification/Spec2Isabelle.thy ===== *)
theory Spec2Isabelle
  imports Tracker_Recovery Tracker_Transfers Rebalancer_Service Relayer_Restart
begin

text \<open>
  A verification library for the rebalancer of the Hyperlane monorepo (\<open>src/typescript/rebalancer\<close>),
  for its relayer (\<open>src/typescript/relayer\<close>), and for the parts of \<open>src/typescript/sdk\<close> and
  \<open>src/typescript/utils\<close> these rest on.

  \<^bold>\<open>The rebalancer.\<close> A warp route moves a token between chains; its collateral drifts as users transfer.
  The rebalancer watches the collateral of every chain and moves it. Its service (\<open>core/RebalancerService.ts\<close>)
  creates the components and starts the monitor (\<open>monitor/Monitor.ts\<close>), whose loop polls the chains. A polling cycle runs as
  follows. A monitor event gives the balances, which become raw balances in canonical units
  (\<open>utils/balanceUtils.ts\<close>). The action tracker (\<open>tracking/ActionTracker.ts\<close>) synchronizes its three
  stores of user transfers, rebalance intents and rebalance actions with the Explorer and with the
  chains. The inflight context (\<open>tracking/InflightContextAdapter.ts\<close>) tells the strategy what is
  under way. A strategy (\<open>strategy/\<close>) classifies every chain as surplus, deficit or on target,
  matches surpluses with deficits, and filters the routes by the actual balances and by the
  minimum its bridge accepts. The orchestrator (\<open>core/RebalancerOrchestrator.ts\<close>) runs the cycle and gives
  each route to one of two executors. The movable collateral rebalancer (\<open>core/Rebalancer.ts\<close>) asks the
  token contract to send collateral over a bridge. The inventory rebalancer
  (\<open>core/InventoryRebalancer.ts\<close>) deposits its own tokens on the deficit chain, after moving them there over
  external bridges when they are short. Both record intents and actions in the tracker, which the next
  cycle completes from what the chains report.

  \<^bold>\<open>The relayer's metadata.\<close> A message is delivered with metadata that the interchain security module (ISM)
  of its recipient verifies. ISMs nest: \<open>BaseMetadataBuilder\<close> (\<open>builder.ts\<close>) dispatches on the
  type of an ISM to the builders of multisig, aggregation, routing, Arbitrum bridge and CCIP-read ISMs, of which
  aggregation and routing build the metadata of their submodules with it. \<open>decode.ts\<close> reads metadata back.

  \<^bold>\<open>The relayer's process.\<close> \<open>HyperlaneRelayer\<close> (\<open>core/HyperlaneRelayer.ts\<close>) listens to the dispatches of the chains of its whitelist
  and puts their messages into a backlog. A loop takes them from it: it fetches the configurations of the recipient's ISM and the
  sender's hook, from a cache or from the chains, builds the metadata, and submits the message to the destination; a message
  that fails is put back with a backoff that grows with its attempts. \<open>RelayerService\<close> (\<open>fs/RelayerService.ts\<close>) keeps the cache and the
  backlog in a file between runs.

  \<^bold>\<open>Theories.\<close>
  \<^item> \<open>JS_Prelude\<close>: results with thrown errors, \<open>bigint\<close> division, dictionaries in insertion order,
    \<open>Array.prototype.sort\<close> with any comparison function, the shared lemmas and simp sets.
  \<^item> \<open>Scale\<close>: \<open>sdk/src/utils/decimals.ts\<close>. Conversion of amounts between chains of different
    decimals: the least local amount for a message amount, alignment, and that \<open>verifyScale\<close>
    decides equality of the ratios.
  \<^item> \<open>Rebalancer_Types\<close>, \<open>Amount_Laws\<close>: tokens, configured amounts, bridge configurations, routes,
    \<open>utils/balanceUtils.ts\<close>, \<open>utils/tokenUtils.ts\<close>, \<open>utils/bridgeUtils.ts\<close>, \<open>toWei\<close>.
  \<^item> \<open>Base_Strategy\<close>: \<open>strategy/BaseStrategy.ts\<close>. The loop \<open>matchRoutes\<close> terminates by the number of
    deltas; what it sends from and brings to a chain never exceeds the chain's delta and in
    total reaches the smaller of the two sums; \<open>planRoutes_sound\<close> is the contract of every plan.
  \<^item> \<open>Weighted_Strategy\<close>, \<open>MinAmount_Strategy\<close>, \<open>Deficit_Strategy\<close>: the three strategies, with what
    each promises of the balances of the chains that send and receive.
  \<^item> \<open>Rebalancer_Config\<close>: the cross-field validation and the readers of \<open>config/types.ts\<close> and
    \<open>config/RebalancerConfig.ts\<close>.
  \<^item> \<open>Composite_Strategy\<close>: \<open>strategy/CompositeStrategy.ts\<close> and \<open>strategy/StrategyFactory.ts\<close>. The locale
    \<open>IStrategy\<close> is the interface of a strategy; its interpretation \<open>strategies\<close> covers every strategy
    the factory builds. That a validated configuration gives routes with a bridge, and the
    one shape of override for which it does not.
  \<^item> \<open>Hex_Messages\<close>: \<open>utils/src/messages.ts\<close>. Round trips of the packed message and of the hook
    metadata, and the reading of a warp route body.
  \<^item> \<open>JS_Async\<close>: methods of objects with state, as functions from a state to a result and a state;
    \<open>keeps\<close> is preservation of a predicate, with rules for every combinator; loop rules.
  \<^item> \<open>Entity_Store\<close>: \<open>tracking/store\<close>. The locale \<open>IStore\<close> holds the laws a store promises;
    \<open>InMemoryStore\<close> is its interpretation on the implementation over a \<open>Map\<close>.
  \<^item> \<open>Action_Tracker\<close>: every operation of \<open>tracking/ActionTracker.ts\<close> and \<open>utils/blockTag.ts\<close>.
    \<open>Tracker_Examples\<close> holds a concrete environment and state.
    \<open>Tracker_Invariants\<close>: the step relation of a tracker and its representation invariant.
    \<open>Tracker_Intents\<close>: the functional specification of intent synchronization, and that observed
    steps only advance intents. \<open>Tracker_Actions\<close>: completion of actions and of their intents.
    \<open>Tracker_Recovery\<close>: messages are tracked, and tracked once.
    \<open>Tracker_Transfers\<close>: synchronization of user transfers.
    \<open>Tracker_Inventory\<close>: which inventory intents can be continued, and which movements are given up.
  \<^item> \<open>Inflight_Context\<close>: \<open>tracking/InflightContextAdapter.ts\<close>, and the balance a strategy sees as a
    function of the tracker's state.
  \<^item> \<open>Movable_Rebalancer\<close>: \<open>core/Rebalancer.ts\<close>. \<open>Movable_Accounting\<close>: a run gives one result and one intent per
    route; the intent has an action for the dispatched message, or has failed; the delivery of
    that message completes it.
  \<^item> \<open>Gas_Estimation\<close>: \<open>utils/gasEstimation.ts\<close>, with bounds on the amount a deposit may send.
    \<open>Probe_Errors\<close>: the search through an error and its causes, over a heap of
    objects that may be cyclic.
  \<^item> \<open>Inventory_Rebalancer\<close>: \<open>core/InventoryRebalancer.ts\<close>; \<open>Inventory_Examples\<close> holds concrete runs.
    \<open>Inventory_Spending\<close>: the plan over bridges is greedy, and a run consumes no more of a chain than its
    inventory. \<open>Inventory_Intents\<close>: what a run does to the tracker. The locales \<open>tracker_predicate\<close> and
    \<open>executor_invariant\<close> hold what the execution asks of a predicate on trackers; they are interpreted for
    well-formedness, for the set of intents, for their progress and for equality with a state.
  \<^item> \<open>Orchestrator\<close>: \<open>core/RebalancerOrchestrator.ts\<close>. \<open>Orchestrator_Cycles\<close>: the step relation of cycles and
    their invariant, what a cycle that returns accounts for, and that one that throws executed nothing.
  \<^item> \<open>Rebalancer_Monitor\<close>: the event of a polling cycle (\<open>monitor/Monitor.ts\<close>), with what it holds when chains cannot be read.
    \<open>Rebalancer_Service\<close>: the polling loop, \<open>core/RebalancerService.ts\<close> and its steps \<open>service_step\<close>, the invariant of the components over them,
    and their refinement of \<open>control_step\<close>, a specification of starting and stopping: one loop, as long as the monitor is not
    restarted while it stops, and what happens when it is or when initialization fails.
  \<^item> \<open>Ism_Types\<close>: byte buffers and the configurations of ISMs and hooks.
    \<open>Aggregation_Codec\<close> and \<open>Multisig_Codec\<close>: \<open>encode\<close> and \<open>decode\<close> of \<open>aggregation.ts\<close> and
    \<open>multisig.ts\<close>, with their round trips, and the indices which decoding Merkle root metadata exchanges.
    \<open>Arb_Metadata\<close>: \<open>arbL2ToL1.ts\<close>, and the status a build reports. \<open>Ccip_Metadata\<close>: \<open>ccipread.ts\<close>.
  \<^item> \<open>Metadata_Builder\<close>: \<open>builder.ts\<close>, \<open>null.ts\<close>, \<open>routing.ts\<close>, \<open>decode.ts\<close> and the \<open>build\<close> methods of
    \<open>multisig.ts\<close> and \<open>aggregation.ts\<close>. \<open>Metadata_Decoder\<close>: the decoder accepts the metadata of every build and
    returns a structure that describes it. \<open>Multisig_Quorum\<close>: which validators count as
    signed, the quorum, and the cache of checkpoint validators.
  \<^item> \<open>JS_Objects\<close>: values of the language as a datatype, and \<open>utils/src/objects.ts\<close> over them. \<open>Object_Diffs\<close>: the comparison
    of configurations decides a reference equality, what its report keeps, and the fields of a merged object.
  \<^item> \<open>Relayer_Core\<close>: \<open>core/HyperlaneRelayer.ts\<close>, \<open>whitelist.ts\<close>, \<open>cache.ts\<close> and \<open>events.ts\<close>, with what they call of
    \<open>sdk/src/core/HyperlaneCore.ts\<close>: the relay of a message and of the messages of a transaction, and the cache of configurations.
    \<open>Relayer_Safety\<close>: what justifies a submitted transaction; the cache of hook configurations.
    \<open>Relayer_Backlog\<close>: the loop over the backlog, start, stop and the cache file; no message is lost, and each gets its turn.
    \<open>Relayer_Restart\<close>: a restart from the cache file, and without a cache.

  \<^bold>\<open>Conventions.\<close> A \<open>bigint\<close> is an \<open>int\<close>: the source's amounts do not wrap. An object or \<open>Map\<close> is an
  association list. A thrown error is the left value of a sum, with the message the source builds.
  Every definition that models code is executable. No definition has fuel of its
  own: loops are structural recursions over lists or come with a termination proof, and the two bounds that occur,
  \<open>maxDepth\<close> of \<open>metadataBuild\<close> and \<open>MAX_BFS_ITERATIONS\<close> of \<open>Ccip_Metadata\<close>, are those of the source.

  \<^bold>\<open>Parameters.\<close> Packages outside the repository are arguments: \<open>bignumber_api\<close> (\<open>bignumber.js\<close> and
  \<open>parseUnits\<close>) with the hypothesis \<open>bn_laws\<close>; \<open>ethers_api\<close> with \<open>ethers_laws\<close>; \<open>tracker_env\<close> (the
  Explorer's answers, message delivery, chain metadata, block numbers, the clock, the uuid
  generator), of which theorems assume at most that uuids are fresh and that domains have names;
  \<open>movable_env\<close> and \<open>gas_env\<close> (what token contracts and providers answer); \<open>inventory_env\<close>, one for every call
  of a \<open>world\<close>, with the hypothesis \<open>world_ok\<close>; \<open>signature_api\<close> (joining and splitting of signatures in
  \<open>ethers\<close>) with \<open>signature_laws\<close>; \<open>relayer_env\<close>, \<open>arb_env\<close> and \<open>ccip_env\<close> (checkpoints in storage, ISM readers, the
  Arbitrum SDK, the ABI coder and offchain servers); \<open>relay_env\<close> (mailboxes, readers of configurations, transactions and the clock), one for
  every relay of a \<open>relay_world\<close>, with the hypothesis \<open>isms_ok\<close>; \<open>monitor_env\<close> (the adapters of tokens) and \<open>factory_env\<close> (what the
  context factory creates). The
  witnesses instantiate each of them with concrete functions.

  \<^bold>\<open>Not modelled.\<close> In the rebalancer: logging, metrics, the factory that reads the registry and creates the
  components, the GraphQL queries of \<open>ExplorerClient\<close>, the HTTP calls of the external bridges and the parsing of
  keys: input and output around third-party services. In the relayer: metrics and the parsing of its configuration. The
  rest of the SDK, the packages for other virtual machines, the command line, the infrastructure, and the
  agents and contracts in other languages.

  \<^bold>\<open>Concurrency.\<close> Calls inside \<open>ActionTracker\<close> run one after another, as its methods await them; calls of different
  methods are the steps of \<open>tracker_step\<close>, in any order. What the source starts together with \<open>Promise.all\<close> or
  \<open>mapAllSettled\<close> runs here in the order of the list: the synchronizations of a cycle and the movements of a bridge
  plan write to different entries, and the builds of submodules share only the cache of checkpoint validators.
  The loops of a relayer are the steps of \<open>process_step\<close>, which interleave where the source awaits a relay; a
  relay itself is one step. The destinations of \<open>relayAll\<close> and the two configurations of a relay follow each other. An iteration of the
  monitor, a manual run and the end of a loop are each one step of \<open>service_step\<close>.
\<close>

end
